(* ===== verification/Go_Base.thy ===== *)
theory Go_Base
  imports Main "HOL-Library.Sublist"
begin

text \<open>
  Prelude of the development: the fragment of Go and of its standard library that the
  detection engine uses. A Go \<open>string\<close> is a sequence of bytes, so it is a HOL
  \<^typ>\<open>string\<close> (a list of 8-bit characters). The functions of package
  \<open>strings\<close>, \<open>strconv\<close>, \<open>unicode\<close> and \<open>unicode/utf8\<close> are given on bytes, with
  UTF-8 decoding where Go decodes. What cannot be read off the language definition
  (regular expressions, MD5, the Unicode case tables beyond ASCII, glob compilation) is a
  field of the record \<open>go_ext\<close>, an argument of the definitions that use it.
\<close>

section \<open>Collections of facts\<close>

named_theorems go_len \<open>length bounds of the string operations\<close>
named_theorems go_defs \<open>definitions of the string operations, for closed evaluation\<close>

section \<open>Bytes and runes\<close>

abbreviation byte :: "char \<Rightarrow> nat" where
  "byte c \<equiv> of_char c"

definition rune_error :: nat where
  "rune_error = 65533"

text \<open>\<open>utf8.DecodeRuneInString\<close>: the rune and its width; an invalid encoding is
  \<open>(RuneError, 1)\<close>, the empty string \<open>(RuneError, 0)\<close>.\<close>

definition is_cont :: "nat \<Rightarrow> bool" where
  "is_cont b \<longleftrightarrow> 128 \<le> b \<and> b \<le> 191"

definition decode2 :: "nat \<Rightarrow> string \<Rightarrow> nat \<times> nat" where
  "decode2 b0 s = (case s of
     c1 # _ \<Rightarrow> if is_cont (byte c1) then ((b0 - 192) * 64 + (byte c1 - 128), 2)
                else (rune_error, 1)
   | [] \<Rightarrow> (rune_error, 1))"

definition decode3 :: "nat \<Rightarrow> string \<Rightarrow> nat \<times> nat" where
  "decode3 b0 s = (case s of
     c1 # c2 # _ \<Rightarrow>
       (let lo = (if b0 = 224 then 160 else 128); hi = (if b0 = 237 then 159 else 191) in
        if lo \<le> byte c1 \<and> byte c1 \<le> hi \<and> is_cont (byte c2)
        then ((b0 - 224) * 4096 + (byte c1 - 128) * 64 + (byte c2 - 128), 3)
        else (rune_error, 1))
   | _ \<Rightarrow> (rune_error, 1))"

definition decode4 :: "nat \<Rightarrow> string \<Rightarrow> nat \<times> nat" where
  "decode4 b0 s = (case s of
     c1 # c2 # c3 # _ \<Rightarrow>
       (let lo = (if b0 = 240 then 144 else 128); hi = (if b0 = 244 then 143 else 191) in
        if lo \<le> byte c1 \<and> byte c1 \<le> hi \<and> is_cont (byte c2) \<and> is_cont (byte c3)
        then ((b0 - 240) * 262144 + (byte c1 - 128) * 4096 + (byte c2 - 128) * 64
              + (byte c3 - 128), 4)
        else (rune_error, 1))
   | _ \<Rightarrow> (rune_error, 1))"

fun decode_rune :: "string \<Rightarrow> nat \<times> nat" where
  "decode_rune [] = (rune_error, 0)"
| "decode_rune (c # s) =
     (let b0 = byte c in
      if b0 < 128 then (b0, 1)
      else if 194 \<le> b0 \<and> b0 \<le> 223 then decode2 b0 s
      else if 224 \<le> b0 \<and> b0 \<le> 239 then decode3 b0 s
      else if 240 \<le> b0 \<and> b0 \<le> 244 then decode4 b0 s
      else (rune_error, 1))"

lemma decode_rune_ascii [simp]: "byte c < 128 \<Longrightarrow> decode_rune (c # s) = (byte c, 1)"
  by simp

lemma decode2_width: "1 \<le> snd (decode2 b s)" "snd (decode2 b s) \<le> Suc (length s)"
  by (auto simp: decode2_def split: list.splits)

lemma decode3_width: "1 \<le> snd (decode3 b s)" "snd (decode3 b s) \<le> Suc (length s)"
  by (auto simp: decode3_def Let_def split: list.splits)

lemma decode4_width: "1 \<le> snd (decode4 b s)" "snd (decode4 b s) \<le> Suc (length s)"
  by (auto simp: decode4_def Let_def split: list.splits)

lemmas decode_widths = decode2_width decode3_width decode4_width

lemma decode_rune_width_pos: "s \<noteq> [] \<Longrightarrow> 0 < snd (decode_rune s)"
  by (cases s) (simp_all add: Let_def decode_widths(1,3,5)[THEN less_le_trans[OF zero_less_one]])

lemma decode_rune_width_le [go_len]: "snd (decode_rune s) \<le> length s"
  by (cases s) (simp_all add: Let_def decode_widths)

text \<open>\<open>unicode.IsSpace\<close> (the White\_Space property).\<close>

definition is_space :: "nat \<Rightarrow> bool" where
  "is_space r \<longleftrightarrow> (9 \<le> r \<and> r \<le> 13) \<or> r = 32 \<or> r = 133 \<or> r = 160 \<or> r = 5760
     \<or> (8192 \<le> r \<and> r \<le> 8202) \<or> r = 8232 \<or> r = 8233 \<or> r = 8239 \<or> r = 8287 \<or> r = 12288"

lemma is_space_ascii: "r < 128 \<Longrightarrow> is_space r \<longleftrightarrow> (9 \<le> r \<and> r \<le> 13) \<or> r = 32"
  by (auto simp: is_space_def)

lemma is_space_rune_error [simp]: "\<not> is_space rune_error"
  by (simp add: is_space_def rune_error_def)

lemma is_space_zero [simp]: "\<not> is_space 0"
  by (simp add: is_space_def)

definition is_digit :: "char \<Rightarrow> bool" where
  "is_digit c \<longleftrightarrow> 48 \<le> byte c \<and> byte c \<le> 57"

text \<open>\<open><\<close> on Go strings compares bytes from the left.\<close>

fun str_less :: "string \<Rightarrow> string \<Rightarrow> bool" where
  "str_less [] t = (t \<noteq> [])"
| "str_less (c # s) [] = False"
| "str_less (c # s) (d # t) = (byte c < byte d \<or> c = d \<and> str_less s t)"

section \<open>Package strings\<close>

definition has_prefix :: "string \<Rightarrow> string \<Rightarrow> bool" where
  "has_prefix s p \<longleftrightarrow> take (length p) s = p"

definition has_suffix :: "string \<Rightarrow> string \<Rightarrow> bool" where
  "has_suffix s p \<longleftrightarrow> length p \<le> length s \<and> drop (length s - length p) s = p"

lemma has_prefix_iff: "has_prefix s p \<longleftrightarrow> (\<exists>t. s = p @ t)"
  unfolding has_prefix_def by (metis append_eq_conv_conj append_take_drop_id)

lemma has_prefix_append [simp]: "has_prefix (p @ t) p"
  by (auto simp: has_prefix_iff)

lemma has_prefix_Nil [simp]: "has_prefix s []"
  by (simp add: has_prefix_def)

lemma has_prefix_empty [simp]: "has_prefix [] p \<longleftrightarrow> p = []"
  by (auto simp: has_prefix_def)

lemma has_prefix_Cons [simp]: "has_prefix (c # s) (d # p) \<longleftrightarrow> c = d \<and> has_prefix s p"
  by (auto simp: has_prefix_def)

lemma has_prefix_length: "has_prefix s p \<Longrightarrow> length p \<le> length s"
  by (auto simp: has_prefix_iff)

lemma has_suffix_iff: "has_suffix s p \<longleftrightarrow> (\<exists>t. s = t @ p)"
proof
  assume "has_suffix s p"
  then have "s = take (length s - length p) s @ p"
    by (metis has_suffix_def append_take_drop_id)
  then show "\<exists>t. s = t @ p" ..
next
  assume "\<exists>t. s = t @ p"
  then show "has_suffix s p" by (auto simp: has_suffix_def)
qed

fun contains :: "string \<Rightarrow> string \<Rightarrow> bool" where
  "contains [] p = (p = [])"
| "contains (c # s) p = (has_prefix (c # s) p \<or> contains s p)"

lemma contains_iff: "contains s p \<longleftrightarrow> (\<exists>a b. s = a @ p @ b)"
proof (induction s)
  case Nil
  then show ?case by auto
next
  case (Cons c s)
  have "(\<exists>a b. c # s = a @ p @ b) \<longleftrightarrow> has_prefix (c # s) p \<or> (\<exists>a b. s = a @ p @ b)"
  proof
    assume "\<exists>a b. c # s = a @ p @ b"
    then obtain a b where ab: "c # s = a @ p @ b" by blast
    show "has_prefix (c # s) p \<or> (\<exists>a b. s = a @ p @ b)"
    proof (cases a)
      case Nil
      then show ?thesis using ab by (auto simp: has_prefix_iff)
    next
      case (Cons d a')
      then show ?thesis using ab by auto
    qed
  next
    assume "has_prefix (c # s) p \<or> (\<exists>a b. s = a @ p @ b)"
    then show "\<exists>a b. c # s = a @ p @ b"
      by (metis Cons_eq_appendI append_Nil has_prefix_iff)
  qed
  then show ?case using Cons.IH by simp
qed

lemma contains_char_iff: "contains s [c] \<longleftrightarrow> c \<in> set s"
proof
  assume "contains s [c]"
  then show "c \<in> set s" by (auto simp: contains_iff)
next
  assume "c \<in> set s"
  then show "contains s [c]" using split_list[of c s] by (auto simp: contains_iff)
qed

text \<open>\<open>strings.SplitN(s, sep, 2)\<close> cuts at the first occurrence; \<open>strings.Split\<close> cuts at
  every non-overlapping occurrence from the left. Every separator in the code is a
  non-empty constant.\<close>

fun cut :: "string \<Rightarrow> string \<Rightarrow> (string \<times> string) option" where
  "cut sep [] = (if sep = [] then Some ([], []) else None)"
| "cut sep (c # s) =
     (if has_prefix (c # s) sep then Some ([], drop (length sep) (c # s))
      else map_option (\<lambda>(a, b). (c # a, b)) (cut sep s))"

definition splitN2 :: "string \<Rightarrow> string \<Rightarrow> string list" where
  "splitN2 s sep = (case cut sep s of None \<Rightarrow> [s] | Some (a, b) \<Rightarrow> [a, b])"

definition splitN3 :: "string \<Rightarrow> string \<Rightarrow> string list" where
  "splitN3 s sep = (case cut sep s of None \<Rightarrow> [s] | Some (a, b) \<Rightarrow> a # splitN2 b sep)"

fun split_acc :: "string \<Rightarrow> string \<Rightarrow> string \<Rightarrow> string list" where
  "split_acc sep acc [] = [rev acc]"
| "split_acc sep acc (c # s) =
     (if has_prefix (c # s) sep then rev acc # split_acc sep [] (drop (length sep - 1) s)
      else split_acc sep (c # acc) s)"

definition split :: "string \<Rightarrow> string \<Rightarrow> string list" where
  "split s sep = split_acc sep [] s"

fun join :: "string list \<Rightarrow> string \<Rightarrow> string" where
  "join [] sep = []"
| "join [x] sep = x"
| "join (x # y # ys) sep = x @ sep @ join (y # ys) sep"

lemma cut_Some: "cut sep s = Some (a, b) \<Longrightarrow> s = a @ sep @ b"
proof (induction s arbitrary: a b)
  case Nil
  then show ?case by (simp split: if_splits)
next
  case (Cons c s)
  show ?case
  proof (cases "has_prefix (c # s) sep")
    case True
    then have "c # s = sep @ drop (length sep) (c # s)"
      by (metis append_take_drop_id has_prefix_def)
    moreover have "a = []" "b = drop (length sep) (c # s)"
      using Cons.prems True by simp_all
    ultimately show ?thesis by simp
  next
    case False
    then obtain a' where "cut sep s = Some (a', b)" "a = c # a'"
      using Cons.prems by auto
    then show ?thesis using Cons.IH by simp
  qed
qed

lemma split_acc_not_Nil: "split_acc sep acc s \<noteq> []"
  by (induction sep acc s rule: split_acc.induct) simp_all

lemma split_not_Nil: "split s sep \<noteq> []"
  by (simp add: split_def split_acc_not_Nil)

lemma join_Cons_not_Nil: "xs \<noteq> [] \<Longrightarrow> join (x # xs) sep = x @ sep @ join xs sep"
  by (cases xs) simp_all

lemma join_snoc: "xs \<noteq> [] \<Longrightarrow> join (xs @ [x]) sep = join xs sep @ sep @ x"
  by (induction xs rule: induct_list012) (auto simp: join_Cons_not_Nil)

lemma join_split_acc: "sep \<noteq> [] \<Longrightarrow> join (split_acc sep acc s) sep = rev acc @ s"
proof (induction sep acc s rule: split_acc.induct)
  case (1 sep acc)
  then show ?case by simp
next
  case (2 sep acc c s)
  show ?case
  proof (cases "has_prefix (c # s) sep")
    case True
    from \<open>sep \<noteq> []\<close> obtain d sep' where sep: "sep = d # sep'" by (cases sep) auto
    from True have "c # s = sep @ drop (length sep - 1) s"
      by (simp add: sep) (metis append_take_drop_id has_prefix_def)
    moreover have "join (split_acc sep [] (drop (length sep - 1) s)) sep
        = drop (length sep - 1) s"
      using 2 True by simp
    moreover have "split_acc sep acc (c # s)
        = rev acc # split_acc sep [] (drop (length sep - 1) s)"
      using True by simp
    ultimately show ?thesis
      by (simp add: join_Cons_not_Nil split_acc_not_Nil)
  next
    case False
    then show ?thesis using 2 by simp
  qed
qed

lemma join_split: "sep \<noteq> [] \<Longrightarrow> join (split s sep) sep = s"
  by (simp add: split_def join_split_acc)

lemma split_acc_no_sep: "d \<notin> set s \<Longrightarrow> split_acc [d] acc s = [rev acc @ s]"
  by (induction s arbitrary: acc) auto

text \<open>Splitting a joined list gives the list back when no part holds the separator
  character.\<close>

lemma split_acc_cons:
  "d \<notin> set x \<Longrightarrow> split_acc [d] acc (x @ d # s) = (rev acc @ x) # split_acc [d] [] s"
  by (induction x arbitrary: acc) auto

lemma split_join:
  assumes "xs \<noteq> []" and "\<And>x. x \<in> set xs \<Longrightarrow> d \<notin> set x"
  shows "split (join xs [d]) [d] = xs"
  using assms
proof (induction xs)
  case Nil
  then show ?case by simp
next
  case (Cons x xs)
  then have x: "d \<notin> set x" by simp
  show ?case
  proof (cases xs)
    case Nil
    then show ?thesis using x by (simp add: split_def split_acc_no_sep)
  next
    case (Cons y ys)
    have "split (join xs [d]) [d] = xs" using Cons.IH Cons.prems Cons by simp
    then show ?thesis using x Cons
      by (simp add: split_def split_acc_cons)
  qed
qed

lemma split_no_sep: "x \<in> set (split s [d]) \<Longrightarrow> d \<notin> set x"
proof -
  have "x \<in> set (split_acc [d] acc s) \<Longrightarrow> d \<notin> set acc \<Longrightarrow> d \<notin> set x" for acc
    by (induction s arbitrary: acc) (fastforce simp: has_prefix_def split: if_splits)+
  then show "x \<in> set (split s [d]) \<Longrightarrow> d \<notin> set x" by (simp add: split_def)
qed

text \<open>\<open>strings.TrimSpace\<close>: leading and trailing Unicode white space. The longest
  encoding of a white-space rune has three bytes.\<close>

fun trim_left_space :: "string \<Rightarrow> string" where
  "trim_left_space [] = []"
| "trim_left_space (c # s) =
     (if is_space (fst (decode_rune (c # s)))
      then trim_left_space (drop (snd (decode_rune (c # s)) - 1) s)
      else c # s)"

definition last_space_width :: "string \<Rightarrow> nat" where
  "last_space_width s =
     (let n = length s; w = (\<lambda>k. k \<le> n \<and> snd (decode_rune (drop (n - k) s)) = k
            \<and> is_space (fst (decode_rune (drop (n - k) s))))
      in if n = 0 then 0 else if w 1 then 1 else if w 2 then 2 else if w 3 then 3 else 0)"

fun trim_right_rev :: "string \<Rightarrow> string" where
  "trim_right_rev [] = []"
| "trim_right_rev (c # r) =
     (let w = last_space_width (rev (c # r)) in
      if w = 0 then c # r else trim_right_rev (drop (w - 1) r))"

definition trim_space :: "string \<Rightarrow> string" where
  "trim_space s = rev (trim_right_rev (rev (trim_left_space s)))"

lemma trim_space_id:
  assumes "s = c # u" "byte c < 128" "\<not> is_space (byte c)" "s = v @ [d]" "byte d < 128" "\<not> is_space (byte d)"
    "list_all (\<lambda>c. byte c < 128) s"
  shows "trim_space s = s"
proof -
  have l: "trim_left_space s = s" using assms(1-3) by simp
  have asc: "fst (decode_rune (drop (length s - k) s)) = byte (s ! (length s - k)) \<and>
      snd (decode_rune (drop (length s - k) s)) = 1" if "1 \<le> k" "k \<le> length s" for k
  proof -
    have "drop (length s - k) s = s ! (length s - k) # drop (Suc (length s - k)) s"
      using that by (simp add: Cons_nth_drop_Suc)
    moreover have "byte (s ! (length s - k)) < 128"
      using assms(7) that by (simp add: list_all_length)
    ultimately show ?thesis by simp
  qed
  have last: "s ! (length s - 1) = d" using assms(4) by (simp add: nth_append)
  have "length s \<noteq> 0" using assms(1) by simp
  then have "last_space_width s = 0"
    using asc[of 1] asc[of 2] asc[of 3] last assms(6)
    by (auto simp: last_space_width_def Let_def)
  moreover obtain e t where "rev s = e # t" using assms(1) by (cases "rev s") auto
  ultimately have "trim_right_rev (rev s) = rev s"
    by (metis rev_rev_ident trim_right_rev.simps(2))
  then show ?thesis using l by (simp add: trim_space_def)
qed

definition trim_prefix :: "string \<Rightarrow> string \<Rightarrow> string" where
  "trim_prefix s p = (if has_prefix s p then drop (length p) s else s)"

definition trim_suffix :: "string \<Rightarrow> string \<Rightarrow> string" where
  "trim_suffix s p = (if has_suffix s p then take (length s - length p) s else s)"

text \<open>\<open>strings.ReplaceAll(s, \" \", \"\")\<close>.\<close>

definition remove_spaces :: "string \<Rightarrow> string" where
  "remove_spaces s = filter (\<lambda>c. c \<noteq> CHR '' '') s"

text \<open>\<open>strings.Count(s, sub)\<close> for a non-empty \<open>sub\<close>: non-overlapping occurrences.\<close>

definition count_sub :: "string \<Rightarrow> string \<Rightarrow> nat" where
  "count_sub s p = length (split s p) - 1"

definition ascii_lower :: "char \<Rightarrow> char" where
  "ascii_lower c = (if 65 \<le> byte c \<and> byte c \<le> 90 then char_of (byte c + 32) else c)"

definition is_ascii :: "string \<Rightarrow> bool" where
  "is_ascii s \<longleftrightarrow> (\<forall>c \<in> set s. byte c < 128)"

text \<open>\<open>strings.EqualFold\<close> against an ASCII keyword whose letters have no non-ASCII case
  variant (\<open>AND\<close>, \<open>OR\<close>, \<open>NOT\<close>).\<close>

definition equal_fold :: "string \<Rightarrow> string \<Rightarrow> bool" where
  "equal_fold s t \<longleftrightarrow> map ascii_lower s = map ascii_lower t"

section \<open>Package strconv\<close>

fun digits_value :: "nat \<Rightarrow> string \<Rightarrow> nat" where
  "digits_value n [] = n"
| "digits_value n (c # s) = digits_value (10 * n + (byte c - 48)) s"

definition parse_digits :: "string \<Rightarrow> nat option" where
  "parse_digits s = (if s \<noteq> [] \<and> list_all is_digit s then Some (digits_value 0 s) else None)"

text \<open>\<open>strconv.ParseInt(s, 10, 64)\<close> and \<open>strconv.Atoi\<close> on a 64-bit platform: an optional
  sign, decimal digits, a range error outside the signed 64-bit range.\<close>

definition parse_int :: "string \<Rightarrow> int option" where
  "parse_int s =
     (let (neg, ds) = (case s of
          [] \<Rightarrow> (False, [])
        | c # r \<Rightarrow> if c = CHR ''+'' then (False, r) else if c = CHR ''-'' then (True, r)
                    else (False, s)) in
      case parse_digits ds of
        None \<Rightarrow> None
      | Some n \<Rightarrow>
          if \<not> neg \<and> n \<ge> 2 ^ 63 then None
          else if neg \<and> n > 2 ^ 63 then None
          else Some (if neg then - int n else int n))"

abbreviation atoi :: "string \<Rightarrow> int option" where
  "atoi \<equiv> parse_int"

fun nat_digits :: "nat \<Rightarrow> string" where
  "nat_digits n =
     (if n < 10 then [char_of (48 + n)] else nat_digits (n div 10) @ [char_of (48 + n mod 10)])"

declare nat_digits.simps [simp del]

definition itoa :: "int \<Rightarrow> string" where
  "itoa i = (if i < 0 then CHR ''-'' # nat_digits (nat (- i)) else nat_digits (nat i))"

lemma digits_value_append: "digits_value n (s @ t) = digits_value (digits_value n s) t"
  by (induction s arbitrary: n) simp_all

lemma digit_char: "n < 10 \<Longrightarrow> byte (char_of (48 + n) :: char) = 48 + n"
  by simp

lemma nat_digits_wf: "nat_digits n \<noteq> [] \<and> list_all is_digit (nat_digits n)"
proof (induction n rule: nat_digits.induct)
  case (1 n)
  show ?case
  proof (cases "n < 10")
    case True
    then show ?thesis by (simp add: nat_digits.simps[of n] is_digit_def)
  next
    case False
    then show ?thesis using 1
      by (simp add: nat_digits.simps[of n] is_digit_def)
  qed
qed

lemma digits_value_nat_digits: "digits_value 0 (nat_digits n) = n"
proof (induction n rule: nat_digits.induct)
  case (1 n)
  show ?case
  proof (cases "n < 10")
    case True
    then show ?thesis by (simp add: nat_digits.simps[of n])
  next
    case False
    then show ?thesis using 1
      by (simp add: nat_digits.simps[of n] digits_value_append)
  qed
qed

lemma parse_digits_nat_digits [simp]: "parse_digits (nat_digits n) = Some n"
  by (simp add: parse_digits_def nat_digits_wf digits_value_nat_digits)

lemma digit_not_sign: "is_digit c \<Longrightarrow> c \<noteq> CHR ''+'' \<and> c \<noteq> CHR ''-''"
  by (auto simp: is_digit_def)

lemma parse_int_nat_digits: "n < 2 ^ 63 \<Longrightarrow> parse_int (nat_digits n) = Some (int n)"
proof -
  assume n: "n < 2 ^ 63"
  obtain c r where cr: "nat_digits n = c # r" "is_digit c"
    using nat_digits_wf[of n] by (cases "nat_digits n") auto
  have "parse_digits (c # r) = Some n" using cr parse_digits_nat_digits[of n] by simp
  then show ?thesis using n digit_not_sign[OF cr(2)] by (simp add: parse_int_def cr)
qed

text \<open>\<open>Itoa\<close> and \<open>Atoi\<close> are inverse on the signed 64-bit range.\<close>

lemma parse_int_itoa: "- (2 ^ 63) \<le> i \<Longrightarrow> i < 2 ^ 63 \<Longrightarrow> parse_int (itoa i) = Some i"
proof (cases "i < 0")
  case True
  assume "- (2 ^ 63) \<le> i"
  then show ?thesis using True
    by (auto simp: itoa_def parse_int_def)
next
  case False
  assume "i < 2 ^ 63"
  then show ?thesis using False by (simp add: itoa_def parse_int_nat_digits)
qed

lemma itoa_inject: "itoa a = itoa b \<longleftrightarrow> a = b"
proof
  have head: "nat_digits n \<noteq> CHR ''-'' # r" "CHR ''-'' # r \<noteq> nat_digits n" for n r
    using nat_digits_wf[of n] by (cases "nat_digits n"; auto simp: is_digit_def)+
  have inj: "nat_digits m = nat_digits n \<Longrightarrow> m = n" for m n
    by (metis digits_value_nat_digits)
  assume eq: "itoa a = itoa b"
  show "a = b"
  proof (cases "a < 0"; cases "b < 0")
    assume "a < 0" "b < 0"
    then show ?thesis using eq inj[of "nat (- a)" "nat (- b)"] by (simp add: itoa_def)
  next
    assume "a < 0" "\<not> b < 0"
    then show ?thesis using eq head by (simp add: itoa_def)
  next
    assume "\<not> a < 0" "b < 0"
    then show ?thesis using eq head by (simp add: itoa_def)
  next
    assume "\<not> a < 0" "\<not> b < 0"
    then show ?thesis using eq inj[of "nat a" "nat b"] by (simp add: itoa_def)
  qed
qed simp

text \<open>The signed value of a 64-bit conversion \<open>int(x)\<close>.\<close>

definition wrap64 :: "int \<Rightarrow> int" where
  "wrap64 x = (x + 2 ^ 63) mod 2 ^ 64 - 2 ^ 63"

lemma wrap64_id: "- (2 ^ 63) \<le> x \<Longrightarrow> x < 2 ^ 63 \<Longrightarrow> wrap64 x = x"
  by (simp add: wrap64_def)

section \<open>Dynamic values\<close>

text \<open>The dynamic types that reach the engine through \<open>any\<close>: what the YAML and JSON
  decoders produce and the numeric types the type switches name. A finite \<open>float64\<close> is
  \<open>VFloat m e\<close>, the number $m \cdot 2^e$. A Go map is an association list with distinct
  keys; its order is the order in which one \<open>range\<close> loop visits the keys, which Go leaves
  open.\<close>

datatype kind = KInvalid | KBool | KInt | KInt32 | KInt64 | KUint | KUint32 | KUint64
  | KFloat64 | KArray | KMap | KSlice | KString | KStruct

datatype gval =
    VNil
  | VString string
  | VNumber string          \<comment> \<open>\<open>json.Number\<close>\<close>
  | VInt int
  | VInt64 int
  | VInt32 int
  | VUint int
  | VUint32 int
  | VUint64 int
  | VFloat int int
  | VBool bool
  | VSlice "gval list"      \<comment> \<open>\<open>[]any\<close>\<close>
  | VStrings "string list"  \<comment> \<open>\<open>[]string\<close>\<close>
  | VDetection "(string \<times> gval) list"
  | VMap "(string \<times> gval) list"      \<comment> \<open>\<open>map[string]any\<close>\<close>
  | VMapAny "(gval \<times> gval) list"     \<comment> \<open>\<open>map[any]any\<close>\<close>
  | VDataMap "(string \<times> gval) list"  \<comment> \<open>\<open>datamodels.Map\<close>\<close>
  | VOther kind string      \<comment> \<open>any other type, with its \<open>fmt\<close> rendering\<close>

text \<open>\<open>reflect.Kind.String()\<close>.\<close>

fun kind_string :: "kind \<Rightarrow> string" where
  "kind_string KInvalid = ''invalid''"
| "kind_string KBool = ''bool''"
| "kind_string KInt = ''int''"
| "kind_string KInt32 = ''int32''"
| "kind_string KInt64 = ''int64''"
| "kind_string KUint = ''uint''"
| "kind_string KUint32 = ''uint32''"
| "kind_string KUint64 = ''uint64''"
| "kind_string KFloat64 = ''float64''"
| "kind_string KArray = ''array''"
| "kind_string KMap = ''map''"
| "kind_string KSlice = ''slice''"
| "kind_string KString = ''string''"
| "kind_string KStruct = ''struct''"

text \<open>\<open>reflect.TypeOf(v).Kind()\<close>; \<^const>\<open>None\<close> for the nil interface.\<close>

fun type_kind :: "gval \<Rightarrow> kind option" where
  "type_kind VNil = None"
| "type_kind (VString _) = Some KString"
| "type_kind (VNumber _) = Some KString"
| "type_kind (VInt _) = Some KInt"
| "type_kind (VInt64 _) = Some KInt64"
| "type_kind (VInt32 _) = Some KInt32"
| "type_kind (VUint _) = Some KUint"
| "type_kind (VUint32 _) = Some KUint32"
| "type_kind (VUint64 _) = Some KUint64"
| "type_kind (VFloat _ _) = Some KFloat64"
| "type_kind (VBool _) = Some KBool"
| "type_kind (VSlice _) = Some KSlice"
| "type_kind (VStrings _) = Some KSlice"
| "type_kind (VDetection _) = Some KMap"
| "type_kind (VMap _) = Some KMap"
| "type_kind (VMapAny _) = Some KMap"
| "type_kind (VDataMap _) = Some KMap"
| "type_kind (VOther k _) = Some k"

text \<open>\<open>int(f)\<close> for a finite \<open>float64\<close>: truncation towards zero. Go leaves the result open
  when it does not fit; amd64 gives the smallest integer.\<close>

definition float_to_int :: "int \<Rightarrow> int \<Rightarrow> int" where
  "float_to_int m e =
     (let t = (if 0 \<le> e then m * 2 ^ nat e else sgn m * (\<bar>m\<bar> div 2 ^ nat (- e))) in
      if - (2 ^ 63) \<le> t \<and> t < 2 ^ 63 then t else - (2 ^ 63))"

section \<open>What the model takes from outside\<close>

text \<open>One record holds the functions the sources call and that are not under \<open>src/\<close>, or
  that are tables and algorithms of the standard library no property depends on.\<close>

record go_ext =
  x_lower :: "string \<Rightarrow> string"                \<comment> \<open>\<open>strings.ToLower\<close> of a non-ASCII string\<close>
  x_regex_compiles :: "string \<Rightarrow> bool"         \<comment> \<open>\<open>regexp.Compile\<close> succeeds\<close>
  x_regex_match :: "string \<Rightarrow> string \<Rightarrow> bool" \<comment> \<open>pattern, text: \<open>Regexp.MatchString\<close>\<close>
  x_glob_compiles :: "string \<Rightarrow> bool"          \<comment> \<open>\<open>glob.Compile\<close> succeeds\<close>
  x_glob_match :: "string \<Rightarrow> string \<Rightarrow> bool"  \<comment> \<open>pattern, text: \<open>Glob.Match\<close>\<close>
  x_md5_hex :: "string \<Rightarrow> string"              \<comment> \<open>hex encoding of the MD5 sum\<close>
  x_format_float :: "int \<Rightarrow> int \<Rightarrow> string"     \<comment> \<open>\<open>strconv.FormatFloat(v, 'f', -1, 64)\<close>\<close>
  x_sprint :: "gval \<Rightarrow> string"                 \<comment> \<open>\<open>fmt.Sprintf(\"%v\", v)\<close> of a composite value\<close>
  x_json_strings :: "string \<Rightarrow> string list option" \<comment> \<open>\<open>json.Unmarshal\<close> into \<open>[]string\<close>\<close>
  x_parse_ip :: "string \<Rightarrow> string option"      \<comment> \<open>\<open>net.ParseIP(s).String()\<close>\<close>
  x_type_string :: "gval \<Rightarrow> string"            \<comment> \<open>\<open>reflect.TypeOf(v).String()\<close>\<close>
  x_json_marshal :: "gval \<Rightarrow> string option"    \<comment> \<open>\<open>json.Marshal\<close>\<close>
  x_sprintf :: "string \<Rightarrow> string list \<Rightarrow> string" \<comment> \<open>\<open>fmt.Sprintf\<close> with verbs other than \<open>%s\<close>\<close>
  x_json_struct :: "(string \<times> gval) list \<Rightarrow> string option" \<comment> \<open>\<open>json.Marshal\<close> of a struct with these tags\<close>
  x_json_object :: "string \<Rightarrow> (string \<times> gval) list option" \<comment> \<open>\<open>json.Unmarshal\<close> into a map\<close>

definition to_lower :: "go_ext \<Rightarrow> string \<Rightarrow> string" where
  "to_lower E s = (if is_ascii s then map ascii_lower s else x_lower E s)"

lemma to_lower_ascii: "is_ascii s \<Longrightarrow> to_lower E s = map ascii_lower s"
  by (simp add: to_lower_def)

fun sprint_v :: "go_ext \<Rightarrow> gval \<Rightarrow> string" where
  "sprint_v E (VString s) = s"
| "sprint_v E (VNumber s) = s"
| "sprint_v E (VInt i) = itoa i"
| "sprint_v E (VBool b) = (if b then ''true'' else ''false'')"
| "sprint_v E VNil = ''<nil>''"
| "sprint_v E (VOther k s) = s"
| "sprint_v E v = x_sprint E v"

text \<open>\<open>fmt.Sprintf\<close> with string arguments; a format whose verbs are all \<open>%s\<close>, one per argument, is
  written out.\<close>

fun simple_format :: "string \<Rightarrow> bool" where
  "simple_format [] = True"
| "simple_format [c] = (c \<noteq> CHR ''%'')"
| "simple_format (c # d # s) =
     (if c = CHR ''%'' then d = CHR ''s'' \<and> simple_format s else simple_format (d # s))"

fun format_s :: "string \<Rightarrow> string list \<Rightarrow> string" where
  "format_s (c # d # s) (a # args) =
     (if c = CHR ''%'' \<and> d = CHR ''s'' then a @ format_s s args else c # format_s (d # s) (a # args))"
| "format_s s args = s"

definition sprintf :: "go_ext \<Rightarrow> string \<Rightarrow> string list \<Rightarrow> string" where
  "sprintf E f args =
     (if simple_format f \<and> count_sub f ''%s'' = length args then format_s f args
      else x_sprintf E f args)"

text \<open>Lookup in a Go map is independent of the iteration order.\<close>

abbreviation map_get :: "('k \<times> 'v) list \<Rightarrow> 'k \<Rightarrow> 'v option" where
  "map_get m k \<equiv> map_of m k"

text \<open>Assignment to a key: an existing key keeps its place, a new one is visited last.\<close>

fun map_put :: "('k \<times> 'v) list \<Rightarrow> 'k \<Rightarrow> 'v \<Rightarrow> ('k \<times> 'v) list" where
  "map_put [] k v = [(k, v)]"
| "map_put ((k', v') # m) k v = (if k' = k then (k, v) # m else (k', v') # map_put m k v)"

lemma map_of_map_put: "map_of (map_put m k v) = (map_of m)(k \<mapsto> v)"
  by (induction m) (auto simp: fun_eq_iff)

lemma keys_map_put: "fst ` set (map_put m k v) = insert k (fst ` set m)"
  by (induction m k v rule: map_put.induct) (simp_all add: insert_commute)

lemma distinct_map_put: "distinct (map fst m) \<Longrightarrow> distinct (map fst (map_put m k v))"
  by (induction m k v rule: map_put.induct) (auto simp: keys_map_put)

lemmas [go_defs] = has_suffix_def splitN2_def splitN3_def split_def trim_space_def
  trim_prefix_def trim_suffix_def remove_spaces_def equal_fold_def ascii_lower_def
  parse_int_def parse_digits_def is_digit_def last_space_width_def is_space_def

end
