(* ===== verification/Sigma_Nodes.thy ===== *)
theory Sigma_Nodes
  imports Go_Base
begin

text \<open>
  The nodes of the rule tree (\<open>engine/sigma/nodes.go\<close>, the interfaces of
  \<open>engine/sigma/sigma.go\<close>). \<open>Match\<close> returns two flags, \<open>match\<close> and \<open>applicable\<close>; a branch is a
  tree over leaves of any type whose own \<open>Match\<close> is a parameter. The contract a leaf has to keep
  (a match is applicable) is the locale \<open>leaf_matcher\<close>; under it the two flags are a three-valued
  verdict and every node is an operation on verdicts.
\<close>

section \<open>Nodes\<close>

datatype 'l branch =
    Leaf 'l
  | NodeSimpleAnd "'l branch list"
  | NodeSimpleOr "'l branch list"
  | NodeNot "'l branch"
  | NodeAnd "'l branch" "'l branch"
  | NodeOr "'l branch" "'l branch"

text \<open>The loop of \<open>NodeSimpleAnd.Match\<close> over the results of its elements.\<close>

fun simpleAnd_loop :: "(bool \<times> bool) list \<Rightarrow> bool \<times> bool" where
  "simpleAnd_loop [] = (True, True)"
| "simpleAnd_loop ((match, applicable) # rs) =
     (if \<not> match \<or> \<not> applicable then (match, applicable) else simpleAnd_loop rs)"

text \<open>The loop of \<open>NodeSimpleOr.Match\<close>, with \<open>oneApplicable\<close>.\<close>

fun simpleOr_loop :: "bool \<Rightarrow> (bool \<times> bool) list \<Rightarrow> bool \<times> bool" where
  "simpleOr_loop oneApplicable [] = (False, oneApplicable)"
| "simpleOr_loop oneApplicable ((match, applicable) # rs) =
     (if match then (True, True) else simpleOr_loop (oneApplicable \<or> applicable) rs)"

definition nodeNot_match :: "bool \<times> bool \<Rightarrow> bool \<times> bool" where
  "nodeNot_match r =
     (let (match, applicable) = r in
      if \<not> applicable then (match, applicable) else (\<not> match, applicable))"

definition nodeAnd_match :: "bool \<times> bool \<Rightarrow> bool \<times> bool \<Rightarrow> bool \<times> bool" where
  "nodeAnd_match l r =
     (let (lMatch, lApplicable) = l in
      if \<not> lMatch then (False, lApplicable)
      else let (rMatch, rApplicable) = r in (lMatch \<and> rMatch, lApplicable \<and> rApplicable))"

definition nodeOr_match :: "bool \<times> bool \<Rightarrow> bool \<times> bool \<Rightarrow> bool \<times> bool" where
  "nodeOr_match l r =
     (let (lMatch, lApplicable) = l in
      if lMatch then (True, lApplicable)
      else let (rMatch, rApplicable) = r in (lMatch \<or> rMatch, lApplicable \<or> rApplicable))"

fun branch_match :: "('l \<Rightarrow> 'e \<Rightarrow> bool \<times> bool) \<Rightarrow> 'l branch \<Rightarrow> 'e \<Rightarrow> bool \<times> bool" where
  "branch_match lm (Leaf l) e = lm l e"
| "branch_match lm (NodeSimpleAnd bs) e = simpleAnd_loop (map (\<lambda>b. branch_match lm b e) bs)"
| "branch_match lm (NodeSimpleOr bs) e = simpleOr_loop False (map (\<lambda>b. branch_match lm b e) bs)"
| "branch_match lm (NodeNot b) e = nodeNot_match (branch_match lm b e)"
| "branch_match lm (NodeAnd l r) e = nodeAnd_match (branch_match lm l e) (branch_match lm r e)"
| "branch_match lm (NodeOr l r) e = nodeOr_match (branch_match lm l e) (branch_match lm r e)"

definition reduceAnd :: "'l branch list \<Rightarrow> 'l branch" where
  "reduceAnd n = (case n of [a] \<Rightarrow> a | [a, b] \<Rightarrow> NodeAnd a b | _ \<Rightarrow> NodeSimpleAnd n)"

definition reduceOr :: "'l branch list \<Rightarrow> 'l branch" where
  "reduceOr n = (case n of [a] \<Rightarrow> a | [a, b] \<Rightarrow> NodeOr a b | _ \<Rightarrow> NodeSimpleOr n)"

definition newNodeNotIfNegated :: "'l branch \<Rightarrow> bool \<Rightarrow> 'l branch" where
  "newNodeNotIfNegated b negated = (if negated then NodeNot b else b)"

text \<open>The binary builders; \<^const>\<open>None\<close> is the index panic on an empty slice.\<close>

fun newConjunction :: "'l branch list \<Rightarrow> 'l branch option" where
  "newConjunction [] = None"
| "newConjunction [a] = Some (reduceAnd [a])"
| "newConjunction [a, b] = Some (reduceAnd [a, b])"
| "newConjunction (a # s) = map_option (NodeAnd a) (newConjunction s)"

fun newDisjunction :: "'l branch list \<Rightarrow> 'l branch option" where
  "newDisjunction [] = None"
| "newDisjunction [a] = Some (reduceOr [a])"
| "newDisjunction [a, b] = Some (reduceOr [a, b])"
| "newDisjunction (a # s) = map_option (NodeOr a) (newDisjunction s)"

section \<open>Verdicts\<close>

text \<open>The abstract view: an event hits a branch, misses it, or the branch does not apply.\<close>

datatype verdict = Hit | Miss | NotApplicable

fun verdict_of :: "bool \<times> bool \<Rightarrow> verdict" where
  "verdict_of (m, a) = (if m then Hit else if a then Miss else NotApplicable)"

fun vnot :: "verdict \<Rightarrow> verdict" where
  "vnot Hit = Miss"
| "vnot Miss = Hit"
| "vnot NotApplicable = NotApplicable"

text \<open>A conjunction is decided by its first element that does not hit.\<close>

fun vall :: "verdict list \<Rightarrow> verdict" where
  "vall [] = Hit"
| "vall (Hit # vs) = vall vs"
| "vall (v # vs) = v"

definition vany :: "verdict list \<Rightarrow> verdict" where
  "vany vs = (if Hit \<in> set vs then Hit else if Miss \<in> set vs then Miss else NotApplicable)"

fun branch_verdict :: "('l \<Rightarrow> verdict) \<Rightarrow> 'l branch \<Rightarrow> verdict" where
  "branch_verdict v (Leaf l) = v l"
| "branch_verdict v (NodeSimpleAnd bs) = vall (map (branch_verdict v) bs)"
| "branch_verdict v (NodeSimpleOr bs) = vany (map (branch_verdict v) bs)"
| "branch_verdict v (NodeNot b) = vnot (branch_verdict v b)"
| "branch_verdict v (NodeAnd l r) = vall [branch_verdict v l, branch_verdict v r]"
| "branch_verdict v (NodeOr l r) = vany [branch_verdict v l, branch_verdict v r]"

lemma vall_Cons: "vall (v # vs) = (if v = Hit then vall vs else v)"
  by (cases v) simp_all

lemma vall_Hit_iff: "vall vs = Hit \<longleftrightarrow> (\<forall>v \<in> set vs. v = Hit)"
  by (induction vs) (auto simp: vall_Cons)

lemma vany_Hit_iff: "vany vs = Hit \<longleftrightarrow> Hit \<in> set vs"
  by (simp add: vany_def)

lemma vany_single [simp]: "vany [v] = v"
  by (cases v) (simp_all add: vany_def)

lemma vall_single [simp]: "vall [v] = v"
  by (cases v) simp_all

lemma vany_Cons: "vany (v # vs) = vany [v, vany vs]" if "vs \<noteq> []"
  using that by (cases v) (auto simp: vany_def)

lemma vall_Cons2: "vall (v # vs) = vall [v, vall vs]"
  by (cases v) simp_all

lemma verdict_of_eq [simp]:
  "verdict_of r = Hit \<longleftrightarrow> fst r" "verdict_of r = Miss \<longleftrightarrow> \<not> fst r \<and> snd r"
  "verdict_of r = NotApplicable \<longleftrightarrow> \<not> fst r \<and> \<not> snd r"
  by (cases r; simp)+

lemma verdict_of_inj:
  "(fst r \<longrightarrow> snd r) \<Longrightarrow> (fst r' \<longrightarrow> snd r') \<Longrightarrow> verdict_of r = verdict_of r' \<longleftrightarrow> r = r'"
  by (cases r; cases r') auto

text \<open>Each node operation computes the operation on verdicts, given results in which a match is
  applicable.\<close>

definition sound_result :: "bool \<times> bool \<Rightarrow> bool" where
  "sound_result r \<longleftrightarrow> (fst r \<longrightarrow> snd r)"

named_theorems node_ops \<open>the node operations on verdicts\<close>

lemma simpleAnd_loop_verdict [node_ops]:
  "list_all sound_result rs \<Longrightarrow>
   sound_result (simpleAnd_loop rs) \<and> verdict_of (simpleAnd_loop rs) = vall (map verdict_of rs)"
  by (induction rs rule: simpleAnd_loop.induct) (auto simp: sound_result_def vall_Cons)

lemma simpleOr_loop_eq:
  "simpleOr_loop a rs =
     (list_ex fst rs, list_ex fst rs \<or> a \<or> list_ex snd rs)"
  by (induction a rs rule: simpleOr_loop.induct) auto

lemma vany_verdicts:
  "list_all sound_result rs \<Longrightarrow> vany (map verdict_of rs) = verdict_of (list_ex fst rs, list_ex snd rs)"
proof (induction rs)
  case (Cons r rs)
  then show ?case by (cases r; cases "rs = []")
    (auto simp: vany_Cons sound_result_def list_ex_iff vany_def[of "[_, _]"])
qed (simp add: vany_def)

lemma simpleOr_loop_vany [node_ops]:
  "list_all sound_result rs \<Longrightarrow>
   sound_result (simpleOr_loop False rs) \<and> verdict_of (simpleOr_loop False rs) = vany (map verdict_of rs)"
  by (simp add: simpleOr_loop_eq vany_verdicts sound_result_def)

lemma nodeNot_verdict [node_ops]:
  "sound_result r \<Longrightarrow> sound_result (nodeNot_match r) \<and> verdict_of (nodeNot_match r) = vnot (verdict_of r)"
  by (cases r) (auto simp: sound_result_def nodeNot_match_def)

lemma nodeAnd_verdict [node_ops]:
  "sound_result l \<Longrightarrow> sound_result r \<Longrightarrow>
   sound_result (nodeAnd_match l r) \<and> verdict_of (nodeAnd_match l r) = vall [verdict_of l, verdict_of r]"
  by (cases l; cases r) (auto simp: sound_result_def nodeAnd_match_def)

lemma nodeOr_verdict [node_ops]:
  "sound_result l \<Longrightarrow> sound_result r \<Longrightarrow>
   sound_result (nodeOr_match l r) \<and> verdict_of (nodeOr_match l r) = vany [verdict_of l, verdict_of r]"
  by (cases l; cases r) (auto simp: sound_result_def nodeOr_match_def vany_def)

section \<open>The contract of a leaf\<close>

locale leaf_matcher =
  fixes lm :: "'l \<Rightarrow> 'e \<Rightarrow> bool \<times> bool"
  assumes leaf_sound: "fst (lm l e) \<Longrightarrow> snd (lm l e)"
begin

definition leaf_verdict :: "'e \<Rightarrow> 'l \<Rightarrow> verdict" where
  "leaf_verdict e l = verdict_of (lm l e)"

lemma match_refines:
  "sound_result (branch_match lm b e) \<and>
   verdict_of (branch_match lm b e) = branch_verdict (leaf_verdict e) b"
proof (induction b)
  case (Leaf l)
  then show ?case using leaf_sound[of l e] by (simp add: sound_result_def leaf_verdict_def)
next
  case (NodeSimpleAnd bs)
  then have "list_all sound_result (map (\<lambda>b. branch_match lm b e) bs)"
    by (simp add: list_all_iff)
  from simpleAnd_loop_verdict[OF this] NodeSimpleAnd show ?case by (simp add: comp_def cong: map_cong)
next
  case (NodeSimpleOr bs)
  then have "list_all sound_result (map (\<lambda>b. branch_match lm b e) bs)"
    by (simp add: list_all_iff)
  from simpleOr_loop_vany[OF this] NodeSimpleOr show ?case by (simp add: comp_def cong: map_cong)
qed (simp_all add: node_ops)

lemma match_applicable: "fst (branch_match lm b e) \<Longrightarrow> snd (branch_match lm b e)"
  using match_refines[of b e] by (simp add: sound_result_def)

lemma match_eqI:
  "branch_verdict (leaf_verdict e) b = branch_verdict (leaf_verdict e) c
    \<Longrightarrow> branch_match lm b e = branch_match lm c e"
  using match_refines[of b e] match_refines[of c e]
  by (metis sound_result_def verdict_of_inj)

end

section \<open>Reduction\<close>

lemma reduceAnd_verdict [simp]:
  "branch_verdict v (reduceAnd n) = vall (map (branch_verdict v) n)"
  by (auto simp: reduceAnd_def split: list.splits)

lemma reduceOr_verdict [simp]:
  "branch_verdict v (reduceOr n) = vany (map (branch_verdict v) n)"
  by (auto simp: reduceOr_def split: list.splits)

lemma newNodeNotIfNegated_verdict [simp]:
  "branch_verdict v (newNodeNotIfNegated b neg) = (if neg then vnot else id) (branch_verdict v b)"
  by (simp add: newNodeNotIfNegated_def)

lemma newConjunction_verdict:
  "s \<noteq> [] \<Longrightarrow> \<exists>b. newConjunction s = Some b \<and> branch_verdict v b = vall (map (branch_verdict v) s)"
proof (induction s rule: newConjunction.induct)
  case (4 a x y zs)
  then obtain b where b: "newConjunction (x # y # zs) = Some b"
    "branch_verdict v b = vall (map (branch_verdict v) (x # y # zs))" by auto
  have "branch_verdict v (NodeAnd a b) = vall (map (branch_verdict v) (a # x # y # zs))"
    by (simp only: list.map b branch_verdict.simps) (metis vall_Cons2)
  then show ?case using b(1) by simp
qed simp_all

lemma newDisjunction_verdict:
  "s \<noteq> [] \<Longrightarrow> \<exists>b. newDisjunction s = Some b \<and> branch_verdict v b = vany (map (branch_verdict v) s)"
proof (induction s rule: newDisjunction.induct)
  case (4 a x y zs)
  then obtain b where b: "newDisjunction (x # y # zs) = Some b"
    "branch_verdict v b = vany (map (branch_verdict v) (x # y # zs))" by auto
  have "branch_verdict v (NodeOr a b) = vany (map (branch_verdict v) (a # x # y # zs))"
    by (simp only: list.map b branch_verdict.simps) (simp add: vany_Cons[symmetric])
  then show ?case using b(1) by simp
qed simp_all

section \<open>Negation-free branches\<close>

text \<open>Without a negation the \<open>match\<close> flag is a plain monotone Boolean formula over the leaves, in
  which the order of the elements plays no part.\<close>

fun negation_free :: "'l branch \<Rightarrow> bool" where
  "negation_free (Leaf l) = True"
| "negation_free (NodeSimpleAnd bs) = list_all negation_free bs"
| "negation_free (NodeSimpleOr bs) = list_all negation_free bs"
| "negation_free (NodeNot b) = False"
| "negation_free (NodeAnd l r) = (negation_free l \<and> negation_free r)"
| "negation_free (NodeOr l r) = (negation_free l \<and> negation_free r)"

fun branch_formula :: "('l \<Rightarrow> bool) \<Rightarrow> 'l branch \<Rightarrow> bool" where
  "branch_formula p (Leaf l) = p l"
| "branch_formula p (NodeSimpleAnd bs) = (\<forall>b \<in> set bs. branch_formula p b)"
| "branch_formula p (NodeSimpleOr bs) = (\<exists>b \<in> set bs. branch_formula p b)"
| "branch_formula p (NodeNot b) = (\<not> branch_formula p b)"
| "branch_formula p (NodeAnd l r) = (branch_formula p l \<and> branch_formula p r)"
| "branch_formula p (NodeOr l r) = (branch_formula p l \<or> branch_formula p r)"

lemma verdict_formula:
  "negation_free b \<Longrightarrow> branch_verdict v b = Hit \<longleftrightarrow> branch_formula (\<lambda>l. v l = Hit) b"
proof (induction b)
  case (NodeSimpleAnd bs)
  then show ?case by (simp add: vall_Hit_iff list_all_iff)
next
  case (NodeSimpleOr bs)
  then show ?case by (auto simp: vany_Hit_iff list_all_iff image_iff) metis+
next
  case (NodeAnd l r)
  then show ?case by (simp add: vall_Hit_iff)
next
  case (NodeOr l r)
  then show ?case by (auto simp: vany_Hit_iff)
qed simp_all

end
