(* ===== verification/Sigma_Lexer.thy ===== *)
theory Sigma_Lexer
  imports Go_Base
begin

text \<open>
  The tokens and the lexer of Sigma condition expressions
  (\<open>engine/sigma/token.go\<close>, \<open>engine/sigma/lexer.go\<close>). The lexer is a machine whose
  states are the Go state functions; it sends items over a channel, here a list in sending
  order. The positions are byte positions into the input.
\<close>

section \<open>Tokens\<close>

datatype token =
    TokBegin | TokErr | TokUnsupp | TokNil
  | TokIdentifier | TokIdentifierWithWildcard | TokIdentifierAll
  | TokLitEof
  | TokSepLpar | TokSepRpar | TokSepPipe
  | TokOpEq | TokOpGt | TokOpGte | TokOpLt | TokOpLte
  | TokKeywordAnd | TokKeywordOr | TokKeywordNot | TokKeywordAgg
  | TokKeywordNear | TokKeywordBy
  | TokStOne | TokStAll

record item =
  item_T :: token
  item_Val :: string

definition mk_item :: "token \<Rightarrow> string \<Rightarrow> item" where
  "mk_item t v = \<lparr>item_T = t, item_Val = v\<rparr>"

lemma mk_item_simps [simp]:
  "item_T (mk_item t v) = t" "item_Val (mk_item t v) = v"
  "mk_item t v = mk_item t' v' \<longleftrightarrow> t = t' \<and> v = v'"
  by (auto simp: mk_item_def)

lemma item_collapse: "it = mk_item (item_T it) (item_Val it)"
  by (simp add: mk_item_def)

fun token_string :: "token \<Rightarrow> string" where
  "token_string TokIdentifier = ''IDENT''"
| "token_string TokIdentifierWithWildcard = ''WILDCARDIDENT''"
| "token_string TokIdentifierAll = ''THEM''"
| "token_string TokSepLpar = ''LPAR''"
| "token_string TokSepRpar = ''RPAR''"
| "token_string TokSepPipe = ''PIPE''"
| "token_string TokOpEq = ''EQ''"
| "token_string TokOpGt = ''GT''"
| "token_string TokOpGte = ''GTE''"
| "token_string TokOpLt = ''LT''"
| "token_string TokOpLte = ''LTE''"
| "token_string TokKeywordAnd = ''AND''"
| "token_string TokKeywordOr = ''OR''"
| "token_string TokKeywordNot = ''NOT''"
| "token_string TokStAll = ''ALL''"
| "token_string TokStOne = ''ONE''"
| "token_string TokKeywordAgg = ''AGG''"
| "token_string TokLitEof = ''EOF''"
| "token_string TokErr = ''ERR''"
| "token_string TokUnsupp = ''UNSUPPORTED''"
| "token_string TokBegin = ''BEGINNING''"
| "token_string TokNil = ''NIL''"
| "token_string TokKeywordNear = ''Unk''"
| "token_string TokKeywordBy = ''Unk''"

fun literal :: "token \<Rightarrow> string" where
  "literal TokIdentifier = ''keywords''"
| "literal TokIdentifierWithWildcard = ''keywords''"
| "literal TokIdentifierAll = ''them''"
| "literal TokSepLpar = ''(''"
| "literal TokSepRpar = '')''"
| "literal TokSepPipe = ''|''"
| "literal TokOpEq = ''=''"
| "literal TokOpGt = ''>''"
| "literal TokOpGte = ''>=''"
| "literal TokOpLt = ''<''"
| "literal TokOpLte = ''<=''"
| "literal TokKeywordAnd = ''and''"
| "literal TokKeywordOr = ''or''"
| "literal TokKeywordNot = ''not''"
| "literal TokStAll = ''all of''"
| "literal TokStOne = ''1 of''"
| "literal TokLitEof = ''''"
| "literal TokNil = ''''"
| "literal TokBegin = ''Err''"
| "literal TokErr = ''Err''"
| "literal TokUnsupp = ''Err''"
| "literal TokKeywordAgg = ''Err''"
| "literal TokKeywordNear = ''Err''"
| "literal TokKeywordBy = ''Err''"

definition eof :: nat where
  "eof = 0"

definition token_rune :: "token \<Rightarrow> nat" where
  "token_rune t = (case t of TokSepLpar \<Rightarrow> 40 | TokSepRpar \<Rightarrow> 41 | TokSepPipe \<Rightarrow> 124 | _ \<Rightarrow> eof)"

definition validTokenSequence :: "token \<Rightarrow> token \<Rightarrow> bool" where
  "validTokenSequence t1 t2 =
     (case t2 of
        TokStAll \<Rightarrow> t1 \<in> {TokBegin, TokSepLpar, TokKeywordAnd, TokKeywordOr, TokKeywordNot}
      | TokStOne \<Rightarrow> t1 \<in> {TokBegin, TokSepLpar, TokKeywordAnd, TokKeywordOr, TokKeywordNot}
      | TokIdentifierAll \<Rightarrow> t1 \<in> {TokStAll, TokStOne}
      | TokIdentifier \<Rightarrow> t1 \<in> {TokSepLpar, TokBegin, TokKeywordAnd, TokKeywordOr,
                                 TokKeywordNot, TokStOne, TokStAll}
      | TokIdentifierWithWildcard \<Rightarrow> t1 \<in> {TokSepLpar, TokBegin, TokKeywordAnd,
                                 TokKeywordOr, TokKeywordNot, TokStOne, TokStAll}
      | TokKeywordAnd \<Rightarrow> t1 \<in> {TokIdentifier, TokIdentifierAll, TokIdentifierWithWildcard,
                                 TokSepRpar}
      | TokKeywordOr \<Rightarrow> t1 \<in> {TokIdentifier, TokIdentifierAll, TokIdentifierWithWildcard,
                                 TokSepRpar}
      | TokKeywordNot \<Rightarrow> t1 \<in> {TokKeywordAnd, TokKeywordOr, TokSepLpar, TokBegin}
      | TokSepLpar \<Rightarrow> t1 \<in> {TokKeywordAnd, TokKeywordOr, TokKeywordNot, TokBegin, TokSepLpar}
      | TokSepRpar \<Rightarrow> t1 \<in> {TokIdentifier, TokIdentifierAll, TokIdentifierWithWildcard,
                                 TokSepLpar, TokSepRpar}
      | TokLitEof \<Rightarrow> t1 \<in> {TokIdentifier, TokIdentifierAll, TokIdentifierWithWildcard,
                                 TokSepRpar}
      | TokSepPipe \<Rightarrow> t1 \<in> {TokIdentifier, TokIdentifierAll, TokIdentifierWithWildcard,
                                 TokSepRpar}
      | _ \<Rightarrow> False)"

section \<open>The lexer\<close>

record lexer =
  input :: string
  start :: nat
  position :: nat
  width :: nat

datatype stateFn = LexCondition | LexOneOf | LexAllOf | LexAggs | LexEOF | LexPipe | LexLpar
  | LexRparWithTokens | LexRpar | LexAccumulateBeforeWhitespace | LexWhitespace

definition new_lexer :: "string \<Rightarrow> lexer" where
  "new_lexer s = \<lparr>input = s, start = 0, position = 0, width = 0\<rparr>"

definition collected :: "lexer \<Rightarrow> string" where
  "collected l = take (position l - start l) (drop (start l) (input l))"

definition todo :: "lexer \<Rightarrow> string" where
  "todo l = drop (position l) (input l)"

definition ignore :: "lexer \<Rightarrow> lexer" where
  "ignore l = l\<lparr>start := position l\<rparr>"

definition next_rune :: "lexer \<Rightarrow> nat \<times> lexer" where
  "next_rune l =
     (if position l \<ge> length (input l) then (eof, l\<lparr>width := 0\<rparr>)
      else let (r, w) = decode_rune (todo l)
           in (r, l\<lparr>width := w, position := position l + w\<rparr>))"

definition backup :: "lexer \<Rightarrow> lexer" where
  "backup l = l\<lparr>position := position l - 1\<rparr>"

text \<open>\<open>emit\<close> returns the item sent and the lexer with the scanned segment consumed.\<close>

definition emit :: "token \<Rightarrow> lexer \<Rightarrow> item \<times> lexer" where
  "emit k l = (mk_item k (collected l), ignore l)"

definition checkKeyWord :: "go_ext \<Rightarrow> string \<Rightarrow> token" where
  "checkKeyWord E s =
     (if s = [] then TokNil
      else let k = to_lower E s in
        if k = literal TokKeywordAnd then TokKeywordAnd
        else if k = literal TokKeywordOr then TokKeywordOr
        else if k = literal TokKeywordNot then TokKeywordNot
        else if k \<in> {''sum'', ''min'', ''max'', ''count'', ''avg''} then TokKeywordAgg
        else if k = literal TokIdentifierAll then TokIdentifierAll
        else if k = literal TokStOne then TokStOne
        else if contains s ''*'' then TokIdentifierWithWildcard
        else TokIdentifier)"

text \<open>\<open>next\<close> makes progress exactly while input is left; this gives the termination of the
  scanning loops.\<close>

lemma next_rune_eof: "position l \<ge> length (input l) \<Longrightarrow> next_rune l = (eof, l\<lparr>width := 0\<rparr>)"
  by (simp add: next_rune_def)

lemma next_rune_progress:
  assumes "next_rune l = (r, l')" "r \<noteq> eof"
  shows "position l < position l'" "position l' \<le> length (input l)"
    "input l' = input l" "start l' = start l" "position l < length (input l)"
proof -
  have p: "position l < length (input l)"
    using assms by (auto simp: next_rune_def split: if_splits)
  then have l': "l' = l\<lparr>width := snd (decode_rune (todo l)),
      position := position l + snd (decode_rune (todo l))\<rparr>"
    using assms by (auto simp: next_rune_def Let_def split: prod.splits)
  have ne: "todo l \<noteq> []" using p by (simp add: todo_def)
  have "snd (decode_rune (todo l)) \<le> length (todo l)" by (rule decode_rune_width_le)
  then show "position l' \<le> length (input l)" using p l' by (simp add: todo_def)
  show "position l < position l'" using l' decode_rune_width_pos[OF ne] by simp
  show "input l' = input l" "start l' = start l" "position l < length (input l)"
    using l' p by simp_all
qed

lemma next_rune_measure:
  "(r, l') = next_rune l \<Longrightarrow> r \<noteq> eof
    \<Longrightarrow> length (input l') - position l' < length (input l) - position l"
  using next_rune_progress[of l r l'] by simp

function lexCondition :: "lexer \<Rightarrow> lexer \<times> stateFn" where
  "lexCondition l =
     (if has_prefix (todo l) (literal TokStOne) then (l, LexOneOf)
      else if has_prefix (todo l) (literal TokStAll) then (l, LexAllOf)
      else let (r, l') = next_rune l in
        if r = eof then (l', LexEOF)
        else if r = token_rune TokSepRpar then (l', LexRparWithTokens)
        else if r = token_rune TokSepLpar then (l', LexLpar)
        else if r = token_rune TokSepPipe then (l', LexPipe)
        else if is_space r then (l', LexAccumulateBeforeWhitespace)
        else lexCondition l')"
  by pat_completeness auto
termination
  by (relation "measure (\<lambda>l. length (input l) - position l)")
    (auto intro: next_rune_measure)

function lexRparLoop :: "lexer \<Rightarrow> lexer \<times> stateFn" where
  "lexRparLoop l =
     (let (r, l') = next_rune l in
      if r = eof then (l', LexEOF)
      else if is_space r then lexRparLoop (ignore l')
      else (l', LexRpar))"
  by pat_completeness auto
termination
  by (relation "measure (\<lambda>l. length (input l) - position l)")
    (auto simp: ignore_def intro: next_rune_measure)

function lexWhitespace :: "lexer \<Rightarrow> lexer \<times> stateFn" where
  "lexWhitespace l =
     (let (r, l') = next_rune l in
      if r = eof then (l', LexEOF)
      else if \<not> is_space r then (backup l', LexCondition)
      else lexWhitespace (ignore l'))"
  by pat_completeness auto
termination
  by (relation "measure (\<lambda>l. length (input l) - position l)")
    (auto simp: ignore_def intro: next_rune_measure)

declare lexCondition.simps [simp del] lexRparLoop.simps [simp del] lexWhitespace.simps [simp del]

text \<open>One state function: the items it sends, the lexer it leaves, the next state.\<close>

fun lex_step :: "go_ext \<Rightarrow> stateFn \<Rightarrow> lexer \<Rightarrow> item list \<times> lexer \<times> stateFn option" where
  "lex_step E LexCondition l = (let (l', f) = lexCondition l in ([], l', Some f))"
| "lex_step E LexOneOf l =
     (let (i, l') = emit TokStOne (l\<lparr>position := position l + length (literal TokStOne)\<rparr>)
      in ([i], l', Some LexCondition))"
| "lex_step E LexAllOf l =
     (let (i, l') = emit TokStAll (l\<lparr>position := position l + length (literal TokStAll)\<rparr>)
      in ([i], l', Some LexCondition))"
| "lex_step E LexAggs l =
     ([mk_item TokUnsupp (''aggregation not supported yet ['' @ input l @ '']'')], l, None)"
| "lex_step E LexEOF l =
     (if position l > start l then
        let (i, l') = emit (checkKeyWord E (collected l)) l; (j, l'') = emit TokLitEof l'
        in ([i, j], l'', None)
      else let (j, l') = emit TokLitEof l in ([j], l', None))"
| "lex_step E LexPipe l = (let (i, l') = emit TokSepPipe l in ([i], l', Some LexAggs))"
| "lex_step E LexLpar l = (let (i, l') = emit TokSepLpar l in ([i], l', Some LexCondition))"
| "lex_step E LexRparWithTokens l =
     (if position l > start l then
        let l1 = backup l;
            t = checkKeyWord E (collected l1);
            (is, l2) = (if t \<noteq> TokNil then (let (i, l') = emit t l1 in ([i], l')) else ([], l1));
            (l3, f) = lexRparLoop l2
        in (is, l3, Some f)
      else ([], l, Some LexRpar))"
| "lex_step E LexRpar l = (let (i, l') = emit TokSepRpar l in ([i], l', Some LexCondition))"
| "lex_step E LexAccumulateBeforeWhitespace l =
     (let l1 = backup l in
      if position l1 > start l1
      then let (i, l2) = emit (checkKeyWord E (collected l1)) l1 in ([i], l2, Some LexWhitespace)
      else ([], l1, Some LexWhitespace))"
| "lex_step E LexWhitespace l = (let (l', f) = lexWhitespace l in ([], l', Some f))"

text \<open>\<open>scan\<close> runs the machine until a state function returns nil. The fuel only serves the
  definition: \<open>lex_fuel\<close> steps are always enough (lemma \<open>scan_enough\<close>).\<close>

fun scan :: "nat \<Rightarrow> go_ext \<Rightarrow> stateFn \<Rightarrow> lexer \<Rightarrow> item list option" where
  "scan 0 E f l = None"
| "scan (Suc n) E f l =
     (case lex_step E f l of
        (is, l', None) \<Rightarrow> Some is
      | (is, l', Some f') \<Rightarrow> map_option (\<lambda>js. is @ js) (scan n E f' l'))"

definition lex_fuel :: "string \<Rightarrow> nat" where
  "lex_fuel s = 4 * length s + 4"

definition lex :: "go_ext \<Rightarrow> string \<Rightarrow> item list option" where
  "lex E s = scan (lex_fuel s) E LexCondition (new_lexer s)"

end
