(* ===== verification/Sigma_Errors.thy ===== *)
theory Sigma_Errors
  imports Sigma_Lexer
begin

text \<open>
  The errors of the rule compiler (\<open>engine/sigma/errors.go\<close>) as one sum type, with their
  \<open>Error\<close> methods. \<open>ErrMsg\<close> is an error made by \<open>fmt.Errorf\<close>, \<open>ErrLib\<close> one returned by a
  library, \<open>GoPanic\<close> a run-time panic. Fallible operations return \<open>sigma_error + 'a\<close>.
\<close>

datatype identType = IdentErr | IdentSelection | IdentKeyword

fun identType_string :: "identType \<Rightarrow> string" where
  "identType_string IdentKeyword = ''KEYWORD''"
| "identType_string IdentSelection = ''SELECTION''"
| "identType_string IdentErr = ''UNK''"

datatype sigma_error =
    ErrInvalidRegex string string
  | ErrMissingDetection
  | ErrMissingConditionItem string
  | ErrEmptyDetection
  | ErrMissingCondition
  | ErrIncompleteDetection string "string list" string
  | ErrUnsupportedToken string
  | ErrWip
  | ErrParseYaml string string nat                        \<comment> \<open>path, error text, count\<close>
  | ErrBulkParseYaml "(string \<times> string \<times> nat) list"
  | ErrInvalidTokenSeq item item "item list"
  | ErrIncompleteTokenSeq string "item list" item
  | ErrInvalidKeywordConstruct string gval
  | ErrInvalidSelectionConstruct string gval
  | ErrInvalidKind kind string identType bool
  | ErrUnsupportedExpression string identType gval bool
  | ErrUnableToReflect
  | ErrMissingRuleList
  | ErrMsg string
  | ErrLib string
  | GoPanic string

type_synonym 'a result = "sigma_error + 'a"

definition critical_word :: "bool \<Rightarrow> string" where
  "critical_word c = (if c then ''CRITICAL'' else ''Informative'')"

definition brackets :: "string list \<Rightarrow> string" where
  "brackets ks = ''['' @ join ks '' '' @ '']''"

text \<open>\<open>Error()\<close>; \<^const>\<open>None\<close> where the method itself panics (\<open>reflect.TypeOf(nil).String()\<close>).\<close>

fun error_string :: "go_ext \<Rightarrow> sigma_error \<Rightarrow> string option" where
  "error_string E (ErrInvalidRegex p err) = Some (''/'' @ p @ ''/ '' @ err)"
| "error_string E ErrMissingDetection = Some ''sigma rule is missing detection field''"
| "error_string E (ErrMissingConditionItem k) = Some (''missing condition identifier '' @ k)"
| "error_string E ErrEmptyDetection = Some ''sigma rule has detection but is empty''"
| "error_string E ErrMissingCondition = Some ''complex sigma rule is missing condition''"
| "error_string E (ErrIncompleteDetection c ks m) =
     Some (''incomplete rule, missing fields from condition. ['' @ c @ '']. Has '' @ brackets ks
       @ ''. '' @ m)"
| "error_string E (ErrUnsupportedToken m) = Some (''UNSUPPORTED TOKEN: '' @ m)"
| "error_string E ErrWip = Some ''work in progress''"
| "error_string E (ErrParseYaml p err n) =
     Some (nat_digits n @ '' - File: '' @ p @ ''; Err: '' @ err)"
| "error_string E (ErrBulkParseYaml es) =
     Some (''got '' @ nat_digits (length es) @ '' broken yaml files'')"
| "error_string E (ErrInvalidTokenSeq p n cs) =
     Some (''seq error after collecting '' @ nat_digits (length cs)
       @ '' elements. Invalid token sequence '' @ token_string (item_T p) @ '' -> ''
       @ token_string (item_T n) @ ''. Values: '' @ item_Val p @ '' -> '' @ item_Val n @ ''.'')"
| "error_string E (ErrIncompleteTokenSeq e its l) =
     Some (''last element should be EOF, got token '' @ token_string (item_T l)
       @ '' with value '' @ item_Val l)"
| "error_string E (ErrInvalidKeywordConstruct m v) =
     (if v = VNil then None
      else Some (''invalid type for parsing keyword expression. ''
        @ ''Should be slice of strings or a funky one element map where value is slice of strings. ''
        @ ''Or other stuff. Got |'' @ sprint_v E v @ ''| with type |'' @ x_type_string E v @ ''|''))"
| "error_string E (ErrInvalidSelectionConstruct m v) =
     (if v = VNil then None
      else Some (''invalid type for parsing selection expression. Got |'' @ sprint_v E v
        @ ''| with type |'' @ x_type_string E v @ ''|''))"
| "error_string E (ErrInvalidKind k m t c) =
     Some (critical_word c @ '' data type error. '' @ identType_string t @ '' got ''
       @ kind_string k @ ''. '' @ m)"
| "error_string E (ErrUnsupportedExpression m t v c) =
     Some (critical_word c @ '' unsupported expression for '' @ identType_string t @ '', '' @ m
       @ ''. '' @ sprint_v E v)"
| "error_string E ErrUnableToReflect = Some ''unable to reflect on pattern kind''"
| "error_string E ErrMissingRuleList = Some ''missing sigma rule file list''"
| "error_string E (ErrMsg m) = Some m"
| "error_string E (ErrLib m) = Some m"
| "error_string E (GoPanic m) = Some m"

text \<open>\<open>%s\<close> of an error: \<open>fmt\<close> recovers from a panicking \<open>Error\<close> method.\<close>

definition format_error :: "go_ext \<Rightarrow> sigma_error \<Rightarrow> string" where
  "format_error E e = (case error_string E e of
     Some s \<Rightarrow> s
   | None \<Rightarrow> ''%!s(PANIC=Error method: runtime error: invalid memory address or nil pointer dereference)'')"

text \<open>Sequencing of fallible calls, and the loop that stops at the first error.\<close>

definition bind_result :: "'a result \<Rightarrow> ('a \<Rightarrow> 'b result) \<Rightarrow> 'b result" where
  "bind_result r f = (case r of Inl e \<Rightarrow> Inl e | Inr x \<Rightarrow> f x)"

lemma bind_result_simps [simp]:
  "bind_result (Inl e) f = Inl e" "bind_result (Inr x) f = f x"
  by (simp_all add: bind_result_def)

lemma bind_result_Inr: "bind_result r f = Inr y \<longleftrightarrow> (\<exists>x. r = Inr x \<and> f x = Inr y)"
  by (cases r) simp_all

fun map_result :: "('a \<Rightarrow> 'b result) \<Rightarrow> 'a list \<Rightarrow> 'b list result" where
  "map_result f [] = Inr []"
| "map_result f (x # xs) =
     bind_result (f x) (\<lambda>y. bind_result (map_result f xs) (\<lambda>ys. Inr (y # ys)))"

lemma map_result_cong [fundef_cong]:
  "xs = ys \<Longrightarrow> (\<And>x. x \<in> set ys \<Longrightarrow> f x = g x) \<Longrightarrow> map_result f xs = map_result g ys"
  by (induction xs arbitrary: ys) auto

lemma map_result_Inr: "map_result f xs = Inr ys \<longleftrightarrow> list_all2 (\<lambda>x y. f x = Inr y) xs ys"
  by (induction xs arbitrary: ys) (auto simp: bind_result_Inr list_all2_Cons1)

definition is_panic :: "'a result \<Rightarrow> bool" where
  "is_panic r = (case r of Inl (GoPanic _) \<Rightarrow> True | _ \<Rightarrow> False)"

end
