(* ===== verification/Sigma_Pattern.thy ===== *)
theory Sigma_Pattern
  imports Sigma_Errors
begin

text \<open>
  Value patterns (\<open>engine/sigma/pattern.go\<close>): numeric and string matchers, white-space collapsing,
  the translation of Sigma escapes to glob escapes through a byte buffer filled from its end, the
  matcher constructor and the reordering of matchers.
\<close>

section \<open>Numeric matchers\<close>

datatype num_matcher = NumPattern int | NumMatchers "num_matcher list"

fun NumMatch :: "num_matcher \<Rightarrow> int \<Rightarrow> bool" where
  "NumMatch (NumPattern v) n = (v = n)"
| "NumMatch (NumMatchers ms) n = list_ex (\<lambda>m. NumMatch m n) ms"

definition NewNumMatcher :: "int list \<Rightarrow> num_matcher result" where
  "NewNumMatcher patterns =
     (if patterns = [] then Inl (ErrMsg ''no patterns defined for matcher object'')
      else let matcher = map NumPattern patterns in
        case matcher of [m] \<Rightarrow> Inr m | _ \<Rightarrow> Inr (NumMatchers matcher))"

lemma NewNumMatcher_any:
  "NewNumMatcher ps = Inr m \<Longrightarrow> NumMatch m n \<longleftrightarrow> n \<in> set ps"
  by (auto simp: NewNumMatcher_def Let_def list_ex_iff split: if_splits list.splits)

section \<open>White space\<close>

text \<open>The class \<open>\s\<close> of package \<open>regexp\<close>: tab, newline, form feed, carriage return, space.\<close>

definition is_ws :: "char \<Rightarrow> bool" where
  "is_ws c \<longleftrightarrow> byte c \<in> {9, 10, 12, 13, 32}"

text \<open>\<open>gWSCollapse.ReplaceAllString(str, \" \")\<close>: every maximal run becomes one space.\<close>

fun collapse :: "bool \<Rightarrow> string \<Rightarrow> string" where
  "collapse in_run [] = []"
| "collapse in_run (c # s) =
     (if is_ws c then (if in_run then collapse True s else CHR '' '' # collapse True s)
      else c # collapse False s)"

definition handleWhitespace :: "string \<Rightarrow> bool \<Rightarrow> string" where
  "handleWhitespace str noCollapseWS = (if noCollapseWS then str else collapse False str)"

section \<open>Escapes\<close>

abbreviation "bslash \<equiv> CHR 0x5C"

definition isBracket :: "char \<Rightarrow> bool" where
  "isBracket b \<longleftrightarrow> b = CHR ''['' \<or> b = CHR '']'' \<or> b = CHR ''{'' \<or> b = CHR ''}''"

definition isWild :: "char \<Rightarrow> bool" where
  "isWild b \<longleftrightarrow> b = CHR ''*'' \<or> b = CHR ''?''"

record esc_state =
  replStr :: string
  esc_x :: int
  esc_wildcard :: bool
  slashCnt :: nat

text \<open>\<open>replStr[x] = c; x--\<close>; \<^const>\<open>None\<close> is an index out of range.\<close>

definition esc_put :: "char \<Rightarrow> esc_state \<Rightarrow> esc_state option" where
  "esc_put c st =
     (if 0 \<le> esc_x st \<and> nat (esc_x st) < length (replStr st)
      then Some (st\<lparr>replStr := (replStr st)[nat (esc_x st) := c], esc_x := esc_x st - 1\<rparr>)
      else None)"

definition esc_flags :: "char \<Rightarrow> esc_state \<Rightarrow> esc_state" where
  "esc_flags c st =
     (if isWild c then st\<lparr>esc_wildcard := True\<rparr>
      else if c = bslash then
        (if \<not> esc_wildcard st then st\<lparr>slashCnt := slashCnt st + 1\<rparr> else st)
      else st\<lparr>esc_wildcard := False\<rparr>)"

definition esc_rebalance :: "char \<Rightarrow> esc_state \<Rightarrow> esc_state option" where
  "esc_rebalance c st =
     (if c \<noteq> bslash \<and> slashCnt st > 0
      then map_option (\<lambda>s. s\<lparr>slashCnt := 0\<rparr>)
             (if slashCnt st mod 2 \<noteq> 0 then esc_put bslash st else Some st)
      else Some st)"

definition esc_char :: "char \<Rightarrow> esc_state \<Rightarrow> esc_state option" where
  "esc_char c st =
     Option.bind (esc_rebalance c (esc_flags c st)) (\<lambda>st1.
     Option.bind (esc_put c st1) (\<lambda>st2.
     if isBracket c then esc_put bslash st2 else Some st2))"

text \<open>The loop runs from the last byte to the first, here over the reversed string.\<close>

fun esc_loop :: "string \<Rightarrow> esc_state \<Rightarrow> esc_state option" where
  "esc_loop [] st = Some st"
| "esc_loop (c # cs) st = Option.bind (esc_char c st) (esc_loop cs)"

definition escapeSigmaForGlob :: "string \<Rightarrow> string option" where
  "escapeSigmaForGlob str =
     (if str = [] then Some []
      else let n = length str in
        Option.bind (esc_loop (rev str)
          \<lparr>replStr = replicate (2 * n) (CHR 0x00), esc_x = 2 * int n - 1, esc_wildcard = False,
           slashCnt = 0\<rparr>) (\<lambda>st.
        if slashCnt st mod 2 \<noteq> 0
        then map_option (\<lambda>st'. drop (nat (esc_x st)) (replStr st')) (esc_put bslash st)
        else Some (drop (nat (esc_x st + 1)) (replStr st))))"

section \<open>String matchers\<close>

datatype textPatternModifier = TextPatternNone | TextPatternContains | TextPatternPrefix
  | TextPatternSuffix | TextPatternAll | TextPatternRegex | TextPatternKeyword

text \<open>A compiled regular expression or glob is its pattern text. The Boolean fields are
  \<open>Lowercase\<close> and \<open>NoCollapseWS\<close>.\<close>

datatype string_matcher =
    ContentPattern string bool bool
  | PrefixPattern string bool bool
  | SuffixPattern string bool bool
  | RegexPattern string
  | GlobPattern string bool
  | SimplePattern string bool
  | StringMatchers "string_matcher list"
  | StringMatchersConj "string_matcher list"

definition lowerCaseIfNeeded :: "go_ext \<Rightarrow> string \<Rightarrow> bool \<Rightarrow> string" where
  "lowerCaseIfNeeded E str lower = (if lower then to_lower E str else str)"

fun StringMatch :: "go_ext \<Rightarrow> string_matcher \<Rightarrow> string \<Rightarrow> bool" where
  "StringMatch E (ContentPattern t lo nc) msg =
     (lowerCaseIfNeeded E (handleWhitespace msg nc) lo = lowerCaseIfNeeded E t lo)"
| "StringMatch E (PrefixPattern t lo nc) msg =
     has_prefix (lowerCaseIfNeeded E (handleWhitespace msg nc) lo) (lowerCaseIfNeeded E t lo)"
| "StringMatch E (SuffixPattern t lo nc) msg =
     has_suffix (lowerCaseIfNeeded E (handleWhitespace msg nc) lo) (lowerCaseIfNeeded E t lo)"
| "StringMatch E (RegexPattern re) msg = x_regex_match E re msg"
| "StringMatch E (GlobPattern g nc) msg = x_glob_match E g (handleWhitespace msg nc)"
| "StringMatch E (SimplePattern t nc) msg = contains (handleWhitespace msg nc) t"
| "StringMatch E (StringMatchers ms) msg = list_ex (\<lambda>m. StringMatch E m msg) ms"
| "StringMatch E (StringMatchersConj ms) msg = list_all (\<lambda>m. StringMatch E m msg) ms"

fun is_literal :: "string_matcher \<Rightarrow> bool" where
  "is_literal (ContentPattern _ _ _) = True"
| "is_literal (PrefixPattern _ _ _) = True"
| "is_literal (SuffixPattern _ _ _) = True"
| "is_literal _ = False"

fun is_glob :: "string_matcher \<Rightarrow> bool" where
  "is_glob (GlobPattern _ _) = True"
| "is_glob _ = False"

fun is_regex :: "string_matcher \<Rightarrow> bool" where
  "is_regex (RegexPattern _) = True"
| "is_regex _ = False"

definition optimizeStringMatchers :: "string_matcher list \<Rightarrow> string_matcher list" where
  "optimizeStringMatchers s = filter is_literal s @ filter is_glob s @ filter is_regex s"

definition trim_slashes :: "string \<Rightarrow> string" where
  "trim_slashes p = dropWhile (\<lambda>c. c = CHR ''/'') (rev (dropWhile (\<lambda>c. c = CHR ''/'') (rev p)))"

definition compile_regex :: "go_ext \<Rightarrow> string \<Rightarrow> string_matcher result" where
  "compile_regex E p = (if x_regex_compiles E p then Inr (RegexPattern p) else Inl (ErrLib p))"

definition compile_glob :: "go_ext \<Rightarrow> string \<Rightarrow> bool \<Rightarrow> string_matcher result" where
  "compile_glob E p nc = (if x_glob_compiles E p then Inr (GlobPattern p nc) else Inl (ErrLib p))"

definition escape_or_panic :: "string \<Rightarrow> string result" where
  "escape_or_panic p =
     (case escapeSigmaForGlob p of Some q \<Rightarrow> Inr q | None \<Rightarrow> Inl (GoPanic ''index out of range''))"

definition contains_glob :: "go_ext \<Rightarrow> string \<Rightarrow> bool \<Rightarrow> string_matcher result" where
  "contains_glob E p nc =
     bind_result (escape_or_panic (handleWhitespace p nc)) (\<lambda>q.
       compile_glob E (''*'' @ q @ ''*'') nc)"

text \<open>The body of the loop of \<open>NewStringMatcher\<close> for one pattern.\<close>

definition pattern_matcher ::
  "go_ext \<Rightarrow> textPatternModifier \<Rightarrow> bool \<Rightarrow> bool \<Rightarrow> string \<Rightarrow> string_matcher result" where
  "pattern_matcher E m lower nc p =
     (case m of
        TextPatternRegex \<Rightarrow> compile_regex E p
      | TextPatternContains \<Rightarrow> contains_glob E p nc
      | TextPatternSuffix \<Rightarrow> Inr (SuffixPattern (handleWhitespace p nc) lower nc)
      | TextPatternPrefix \<Rightarrow> Inr (PrefixPattern (handleWhitespace p nc) lower nc)
      | _ \<Rightarrow>
          if has_prefix p ''/'' \<and> has_suffix p ''/'' then compile_regex E (trim_slashes p)
          else if m = TextPatternKeyword then contains_glob E p nc
          else if contains p ''*'' then
            bind_result (escape_or_panic (handleWhitespace p nc)) (\<lambda>q. compile_glob E q nc)
          else Inr (ContentPattern (handleWhitespace p nc) lower nc))"

definition NewStringMatcher ::
  "go_ext \<Rightarrow> textPatternModifier \<Rightarrow> bool \<Rightarrow> bool \<Rightarrow> bool \<Rightarrow> string list \<Rightarrow> string_matcher result" where
  "NewStringMatcher E m lower all nc patterns =
     (if patterns = [] then Inl (ErrMsg ''no patterns defined for matcher object'')
      else bind_result (map_result (pattern_matcher E m lower nc) patterns) (\<lambda>matcher.
        case matcher of
          [x] \<Rightarrow> Inr x
        | _ \<Rightarrow> if all then Inr (StringMatchersConj (optimizeStringMatchers matcher))
               else Inr (StringMatchers (optimizeStringMatchers matcher))))"

section \<open>Collapsing is idempotent\<close>

lemma collapse_idem: "collapse b (collapse b' s) = (if b \<and> \<not> b' \<and> s \<noteq> [] \<and> is_ws (hd s)
    then tl (collapse b' s) else collapse b' s)"
proof (induction s arbitrary: b b')
  case (Cons c s)
  have sp: "is_ws (CHR '' '')" by (simp add: is_ws_def)
  have tail: "collapse True (collapse True s) = collapse True s" using Cons.IH[of True True] by simp
  show ?case using Cons.IH[of False False] tail sp by (auto simp: Cons.IH)
qed simp

lemma handleWhitespace_idem:
  "handleWhitespace (handleWhitespace s nc) nc = handleWhitespace s nc"
  by (simp add: handleWhitespace_def collapse_idem)

lemma collapse_no_ws: "\<forall>c \<in> set s. \<not> is_ws c \<Longrightarrow> collapse b s = s"
  by (induction s arbitrary: b) auto

section \<open>The buffer never overflows\<close>

text \<open>The list that the buffer holds from \<open>x + 1\<close> on, built without indices.\<close>

definition esc_out :: "esc_state \<Rightarrow> string" where
  "esc_out st = drop (nat (esc_x st + 1)) (replStr st)"

definition esc_room :: "nat \<Rightarrow> esc_state \<Rightarrow> bool" where
  "esc_room n st \<longleftrightarrow> -1 \<le> esc_x st \<and> esc_x st < int (length (replStr st)) \<and>
     2 * int n + int (slashCnt st) \<le> esc_x st + 1"

lemma esc_put_Some:
  assumes "0 \<le> esc_x st" "esc_x st < int (length (replStr st))"
  obtains st' where "esc_put c st = Some st'" "esc_out st' = c # esc_out st"
    "esc_x st' = esc_x st - 1" "length (replStr st') = length (replStr st)"
    "esc_wildcard st' = esc_wildcard st" "slashCnt st' = slashCnt st"
proof (rule that)
  let ?i = "nat (esc_x st)"
  let ?st = "st\<lparr>replStr := (replStr st)[?i := c], esc_x := esc_x st - 1\<rparr>"
  have i: "?i < length (replStr st)" using assms by (simp add: nat_less_iff)
  show "esc_put c st = Some ?st" using assms i by (simp add: esc_put_def)
  have "drop ?i ((replStr st)[?i := c]) = c # drop (Suc ?i) (replStr st)"
    using i by (simp add: drop_update_swap Cons_nth_drop_Suc[symmetric])
  then show "esc_out ?st = c # esc_out st"
    using assms by (simp add: esc_out_def nat_add_distrib)
qed simp_all

text \<open>What one iteration adds to the output.\<close>

definition esc_added :: "char \<Rightarrow> esc_state \<Rightarrow> string" where
  "esc_added c st =
     (if isBracket c then [bslash] else []) @ [c] @
     (if c \<noteq> bslash \<and> odd (slashCnt st) then [bslash] else [])"

lemma bracket_not_special [simp]: "isBracket c \<Longrightarrow> c \<noteq> bslash \<and> \<not> isWild c"
  by (auto simp: isBracket_def isWild_def)

lemma wild_not_slash [simp]: "isWild c \<Longrightarrow> c \<noteq> bslash"
  by (auto simp: isWild_def)

lemma esc_flags_simps [simp]:
  "esc_x (esc_flags c st) = esc_x st" "replStr (esc_flags c st) = replStr st"
  "esc_out (esc_flags c st) = esc_out st"
  by (simp_all add: esc_flags_def esc_out_def)

lemma esc_rebalance_Some:
  assumes "esc_room (Suc n) st0" "st = esc_flags c st0"
  obtains st' where "esc_rebalance c st = Some st'"
    "esc_out st' = (if c \<noteq> bslash \<and> odd (slashCnt st0) then [bslash] else []) @ esc_out st0"
    "2 * int n + int (slashCnt st') + (if isBracket c then 2 else 1) \<le> esc_x st' + 1"
    "esc_x st' < int (length (replStr st'))"
    "esc_wildcard st' = esc_wildcard st" "slashCnt st' = (if c = bslash then slashCnt st else 0)"
proof (cases "c \<noteq> bslash \<and> slashCnt st > 0")
  case True
  then have cnt: "slashCnt st = slashCnt st0" using assms(2) by (auto simp: esc_flags_def)
  show thesis
  proof (cases "odd (slashCnt st)")
    case odd: True
    have "0 \<le> esc_x st" "esc_x st < int (length (replStr st))"
      using assms by (auto simp: esc_room_def)
    then obtain st' where p: "esc_put bslash st = Some st'" "esc_out st' = bslash # esc_out st"
      "esc_x st' = esc_x st - 1" "length (replStr st') = length (replStr st)"
      "esc_wildcard st' = esc_wildcard st" by (rule esc_put_Some)
    show thesis
      by (rule that[of "st'\<lparr>slashCnt := 0\<rparr>"])
        (use True odd p cnt assms in \<open>auto simp: esc_rebalance_def odd_iff_mod_2_eq_one esc_room_def esc_out_def\<close>)
  next
    case False
    show thesis
      by (rule that[of "st\<lparr>slashCnt := 0\<rparr>"])
        (use True False cnt assms in \<open>auto simp: esc_rebalance_def esc_room_def esc_out_def\<close>)
  qed
next
  case False
  then have "c \<noteq> bslash \<Longrightarrow> slashCnt st0 = 0" using assms(2) by (auto simp: esc_flags_def split: if_splits)
  then show thesis
    using False assms by (intro that[of st]) (auto simp: esc_rebalance_def esc_room_def esc_flags_def esc_out_def)
qed

lemma esc_char_Some:
  assumes "esc_room (Suc n) st"
  obtains st' where "esc_char c st = Some st'" "esc_out st' = esc_added c st @ esc_out st"
    "esc_room n st'" "esc_wildcard st' = esc_wildcard (esc_flags c st)"
    "slashCnt st' = (if c = bslash then slashCnt (esc_flags c st) else 0)"
proof -
  obtain st1 where
    r: "esc_rebalance c (esc_flags c st) = Some st1"
    and o1: "esc_out st1 = (if c \<noteq> bslash \<and> odd (slashCnt st) then [bslash] else []) @ esc_out st"
    and x1: "2 * int n + int (slashCnt st1) + (if isBracket c then 2 else 1) \<le> esc_x st1 + 1"
    "esc_x st1 < int (length (replStr st1))"
    and f1: "esc_wildcard st1 = esc_wildcard (esc_flags c st)"
    "slashCnt st1 = (if c = bslash then slashCnt (esc_flags c st) else 0)"
    by (rule esc_rebalance_Some[OF assms refl])
  have "0 \<le> esc_x st1" using x1(1) by (auto split: if_splits)
  then obtain st2 where
    p2: "esc_put c st1 = Some st2" "esc_out st2 = c # esc_out st1" "esc_x st2 = esc_x st1 - 1"
    "length (replStr st2) = length (replStr st1)" "esc_wildcard st2 = esc_wildcard st1"
    "slashCnt st2 = slashCnt st1" using x1(2) by (rule esc_put_Some)
  show thesis
  proof (cases "isBracket c")
    case False
    show thesis
      by (rule that[of st2])
        (use False r p2 o1 x1 f1 in \<open>auto simp: esc_char_def esc_added_def esc_room_def\<close>)
  next
    case True
    have "0 \<le> esc_x st2" "esc_x st2 < int (length (replStr st2))" using x1 p2 True by auto
    then obtain st3 where
      p3: "esc_put bslash st2 = Some st3" "esc_out st3 = bslash # esc_out st2"
      "esc_x st3 = esc_x st2 - 1" "length (replStr st3) = length (replStr st2)"
      "esc_wildcard st3 = esc_wildcard st2" "slashCnt st3 = slashCnt st2" by (rule esc_put_Some)
    show thesis
      by (rule that[of st3])
        (use True r p2 p3 o1 x1 f1 in \<open>auto simp: esc_char_def esc_added_def esc_room_def\<close>)
  qed
qed

section \<open>The meaning of an escaped pattern\<close>

datatype gtok = GLit char | GAny | GOne | GSpecial char

definition wild_tok :: "char \<Rightarrow> gtok" where
  "wild_tok c = (if c = CHR ''*'' then GAny else GOne)"

definition glob_tok :: "char \<Rightarrow> gtok" where
  "glob_tok c = (if isWild c then wild_tok c else if isBracket c then GSpecial c else GLit c)"

text \<open>How the glob library reads a pattern: a backslash makes the next byte literal.\<close>

fun glob_read :: "string \<Rightarrow> gtok list" where
  "glob_read [] = []"
| "glob_read [c] = [if c = bslash then GSpecial c else glob_tok c]"
| "glob_read (c # d # s) = (if c = bslash then GLit d # glob_read s else glob_tok c # glob_read (d # s))"

text \<open>How a Sigma value reads, by the rules quoted above \<open>escapeSigmaForGlob\<close>; \<open>k\<close> backslashes were
  just seen.\<close>

fun sigma_read :: "nat \<Rightarrow> string \<Rightarrow> gtok list" where
  "sigma_read k [] = replicate ((k + 1) div 2) (GLit bslash)"
| "sigma_read k (c # s) =
     (if c = bslash then sigma_read (Suc k) s
      else if isWild c
      then replicate (k div 2) (GLit bslash) @ (if odd k then GLit c else wild_tok c) # sigma_read 0 s
      else replicate ((k + 1) div 2) (GLit bslash) @ GLit c # sigma_read 0 s)"

text \<open>The translation itself, read from the left.\<close>

definition even_up :: "nat \<Rightarrow> nat" where
  "even_up k = k + k mod 2"

fun escape_fwd :: "nat \<Rightarrow> string \<Rightarrow> string" where
  "escape_fwd k [] = replicate (even_up k) bslash"
| "escape_fwd k (c # s) =
     (if c = bslash then escape_fwd (Suc k) s
      else if isWild c then replicate k bslash @ c # escape_fwd 0 s
      else replicate (even_up k) bslash @ (if isBracket c then [bslash] else []) @ c # escape_fwd 0 s)"

lemma glob_read_slashes:
  "glob_read (replicate (2 * j) bslash @ s) = replicate j (GLit bslash) @ glob_read s"
  by (induction j) simp_all

lemma glob_read_Cons: "c \<noteq> bslash \<Longrightarrow> glob_read (c # s) = glob_tok c # glob_read s"
  by (cases s) simp_all

lemma glob_read_run:
  "glob_read (replicate k bslash @ c # s) =
     replicate (k div 2) (GLit bslash) @ (if odd k then GLit c # glob_read s else glob_read (c # s))"
proof (cases "even k")
  case True
  then obtain j where "k = 2 * j" by blast
  then show ?thesis by (simp add: glob_read_slashes)
next
  case False
  then obtain j where k: "k = 2 * j + 1" using oddE by blast
  have "replicate k bslash @ c # s = replicate (2 * j) bslash @ bslash # c # s"
    by (simp add: k replicate_append_same[symmetric] replicate_add[symmetric])
  then show ?thesis using k by (simp only: glob_read_slashes) simp
qed

lemma even_up_double: "even_up k = 2 * ((k + 1) div 2)"
  unfolding even_up_def by presburger

lemma glob_read_escape: "glob_read (escape_fwd k s @ t) = sigma_read k s @ glob_read t"
proof (induction k s rule: sigma_read.induct)
  case (1 k)
  then show ?case by (simp add: even_up_double glob_read_slashes)
next
  case (2 k c s)
  consider "c = bslash" | "isWild c" | "c \<noteq> bslash" "\<not> isWild c" by blast
  then show ?case
  proof cases
    case 1
    then show ?thesis using 2 by simp
  next
    case w: 2
    then show ?thesis using 2 by (simp add: glob_read_run glob_read_Cons glob_tok_def)
  next
    case 3
    then show ?thesis using 2
      by (auto simp: even_up_double glob_read_slashes glob_read_Cons glob_tok_def)
  qed
qed

text \<open>The state after the suffix \<open>s\<close> was processed.\<close>

definition esc_done :: "string \<Rightarrow> esc_state \<Rightarrow> bool" where
  "esc_done s st \<longleftrightarrow> (\<exists>m t. s = replicate m bslash @ t \<and> (t = [] \<or> hd t \<noteq> bslash) \<and>
     esc_wildcard st = (t \<noteq> [] \<and> isWild (hd t)) \<and>
     slashCnt st = (if esc_wildcard st then 0 else m) \<and>
     esc_out st = replicate m bslash @ escape_fwd 0 t)"

lemma escape_fwd_slashes: "escape_fwd k (replicate m bslash @ t) = escape_fwd (k + m) t"
  by (induction m arbitrary: k) simp_all

lemma escape_fwd_done:
  assumes "t = [] \<or> hd t \<noteq> bslash"
  shows "escape_fwd m t = (if t \<noteq> [] \<and> isWild (hd t) \<or> even m then [] else [bslash])
    @ replicate m bslash @ escape_fwd 0 t"
  using assms
  by (cases t) (auto simp: even_up_def replicate_append_same[symmetric] even_iff_mod_2_eq_zero odd_iff_mod_2_eq_one)

lemma esc_done_step:
  assumes "esc_done s st" "esc_out st' = esc_added c st @ esc_out st"
    "esc_wildcard st' = esc_wildcard (esc_flags c st)"
    "slashCnt st' = (if c = bslash then slashCnt (esc_flags c st) else 0)"
  shows "esc_done (c # s) st'"
proof -
  from assms(1) obtain m t where d: "s = replicate m bslash @ t" "t = [] \<or> hd t \<noteq> bslash"
    "esc_wildcard st = (t \<noteq> [] \<and> isWild (hd t))" "slashCnt st = (if esc_wildcard st then 0 else m)"
    "esc_out st = replicate m bslash @ escape_fwd 0 t" unfolding esc_done_def by blast
  show ?thesis
  proof (cases "c = bslash")
    case True
    have "isWild bslash = False" "isBracket bslash = False" by (simp_all add: isWild_def isBracket_def)
    then have "c # s = replicate (Suc m) bslash @ t \<and> (t = [] \<or> hd t \<noteq> bslash) \<and>
      esc_wildcard st' = (t \<noteq> [] \<and> isWild (hd t)) \<and>
      slashCnt st' = (if esc_wildcard st' then 0 else Suc m) \<and>
      esc_out st' = replicate (Suc m) bslash @ escape_fwd 0 t"
      using True d assms(2-4) by (auto simp: esc_flags_def esc_added_def)
    then show ?thesis unfolding esc_done_def by blast
  next
    case False
    have sl: "escape_fwd 0 s = (if odd (slashCnt st) then [bslash] else []) @ esc_out st"
      using d escape_fwd_done[OF d(2), of m] by (auto simp: escape_fwd_slashes)
    have "esc_out st' = escape_fwd 0 (c # s)"
      using False assms(2) sl by (auto simp: esc_added_def even_up_def)
    moreover have "esc_wildcard st' = isWild c" "slashCnt st' = 0"
      using False assms(3,4) by (auto simp: esc_flags_def)
    ultimately have "c # s = replicate 0 bslash @ (c # s) \<and> (c # s = [] \<or> hd (c # s) \<noteq> bslash) \<and>
      esc_wildcard st' = (c # s \<noteq> [] \<and> isWild (hd (c # s))) \<and>
      slashCnt st' = (if esc_wildcard st' then 0 else 0) \<and>
      esc_out st' = replicate 0 bslash @ escape_fwd 0 (c # s)" using False by simp
    then show ?thesis unfolding esc_done_def by blast
  qed
qed

lemma esc_loop_done:
  "esc_room (length cs) st \<Longrightarrow> esc_done s st \<Longrightarrow>
   \<exists>st'. esc_loop cs st = Some st' \<and> esc_done (rev cs @ s) st' \<and> esc_room 0 st'"
proof (induction cs arbitrary: st s)
  case Nil
  then show ?case by simp
next
  case (Cons c cs)
  have "esc_room (Suc (length cs)) st" using Cons.prems(1) by simp
  then obtain st1 where
    c: "esc_char c st = Some st1" "esc_out st1 = esc_added c st @ esc_out st"
    "esc_room (length cs) st1" "esc_wildcard st1 = esc_wildcard (esc_flags c st)"
    "slashCnt st1 = (if c = bslash then slashCnt (esc_flags c st) else 0)" by (rule esc_char_Some)
  from Cons.IH[OF c(3) esc_done_step[OF Cons.prems(2) c(2,4,5)]] c(1)
  show ?case by simp
qed

lemma escape_total: "escapeSigmaForGlob s = Some (escape_fwd 0 s)"
proof (cases "s = []")
  case True
  then show ?thesis by (simp add: escapeSigmaForGlob_def even_up_def)
next
  case False
  let ?st = "\<lparr>replStr = replicate (2 * length s) (CHR 0x00), esc_x = 2 * int (length s) - 1,
    esc_wildcard = False, slashCnt = 0\<rparr>"
  have "esc_done [] ?st"
    unfolding esc_done_def by (intro exI[of _ 0] exI[of _ "[]"]) (auto simp: esc_out_def even_up_def)
  moreover have "esc_room (length (rev s)) ?st" using False by (simp add: esc_room_def)
  ultimately obtain st where st: "esc_loop (rev s) ?st = Some st" "esc_done s st" "esc_room 0 st"
    using esc_loop_done[of "rev s" ?st "[]"] by auto
  then obtain m t where d: "s = replicate m bslash @ t" "t = [] \<or> hd t \<noteq> bslash"
    "esc_wildcard st = (t \<noteq> [] \<and> isWild (hd t))" "slashCnt st = (if esc_wildcard st then 0 else m)"
    "esc_out st = replicate m bslash @ escape_fwd 0 t" unfolding esc_done_def by blast
  have out: "escape_fwd 0 s = (if odd (slashCnt st) then [bslash] else []) @ esc_out st"
    using d escape_fwd_done[OF d(2), of m] by (auto simp: escape_fwd_slashes)
  show ?thesis
  proof (cases "odd (slashCnt st)")
    case True
    then have "0 \<le> esc_x st" "esc_x st < int (length (replStr st))"
      using st(3) by (auto simp: esc_room_def elim!: oddE)
    then obtain st' where "esc_put bslash st = Some st'"
      "esc_out st' = bslash # esc_out st" "esc_x st' = esc_x st - 1" by (rule esc_put_Some)
    then show ?thesis using False True st(1) out
      by (simp add: escapeSigmaForGlob_def esc_out_def[of st'] odd_iff_mod_2_eq_one)
  next
    case ev: False
    then show ?thesis using False st(1) out
      by (simp add: escapeSigmaForGlob_def esc_out_def even_iff_mod_2_eq_zero)
  qed
qed

section \<open>Matching a glob\<close>

fun gmatch :: "gtok list \<Rightarrow> string \<Rightarrow> bool" where
  "gmatch [] s = (s = [])"
| "gmatch (GLit c # g) s = (case s of [] \<Rightarrow> False | d # t \<Rightarrow> c = d \<and> gmatch g t)"
| "gmatch (GOne # g) s = (case s of [] \<Rightarrow> False | d # t \<Rightarrow> gmatch g t)"
| "gmatch (GAny # g) [] = gmatch g []"
| "gmatch (GAny # g) (d # t) = (gmatch g (d # t) \<or> gmatch (GAny # g) t)"
| "gmatch (GSpecial c # g) s = False"

fun plain_tok :: "gtok \<Rightarrow> bool" where
  "plain_tok (GSpecial _) = False"
| "plain_tok _ = True"

text \<open>The documented behaviour of the glob library on ASCII: without brackets and braces a pattern
  compiles and \<open>*\<close> stands for any text, \<open>?\<close> for one character, everything else for itself.\<close>

definition glob_documented :: "go_ext \<Rightarrow> bool" where
  "glob_documented E \<longleftrightarrow>
     (\<forall>p s. is_ascii p \<and> is_ascii s \<and> list_all plain_tok (glob_read p) \<longrightarrow>
        x_glob_compiles E p \<and> (x_glob_match E p s \<longleftrightarrow> gmatch (glob_read p) s))"

lemma gmatch_any: "gmatch (GAny # g) s \<longleftrightarrow> (\<exists>a b. s = a @ b \<and> gmatch g b)"
proof (induction s)
  case Nil
  then show ?case by simp
next
  case (Cons d t)
  have "(\<exists>a b. d # t = a @ b \<and> gmatch g b) \<longleftrightarrow> gmatch g (d # t) \<or> (\<exists>a b. t = a @ b \<and> gmatch g b)"
    by (metis Cons_eq_append_conv append_Cons append_Nil)
  then show ?case using Cons by simp
qed

lemma gmatch_lit: "gmatch (GLit c # g) s \<longleftrightarrow> (\<exists>t. s = c # t \<and> gmatch g t)"
  by (cases s) auto

lemma gmatch_one: "gmatch (GOne # g) s \<longleftrightarrow> (\<exists>d t. s = d # t \<and> gmatch g t)"
  by (cases s) auto

lemma gmatch_append: "gmatch (g @ h) s \<longleftrightarrow> (\<exists>a b. s = a @ b \<and> gmatch g a \<and> gmatch h b)"
proof (induction g arbitrary: s)
  case Nil
  then show ?case by simp
next
  case (Cons x g)
  show ?case
  proof (cases x)
    case (GLit c)
    have "gmatch (x # g @ h) s \<longleftrightarrow> (\<exists>a b. s = c # a @ b \<and> gmatch g a \<and> gmatch h b)"
      using Cons GLit by (auto simp: gmatch_lit simp del: gmatch.simps)
    also have "\<dots> \<longleftrightarrow> (\<exists>a b. s = a @ b \<and> gmatch (x # g) a \<and> gmatch h b)"
      unfolding GLit gmatch_lit by (metis append_Cons)
    finally show ?thesis by simp
  next
    case GOne
    have "gmatch (x # g @ h) s \<longleftrightarrow> (\<exists>d a b. s = d # a @ b \<and> gmatch g a \<and> gmatch h b)"
      using Cons GOne by (auto simp: gmatch_one simp del: gmatch.simps)
    also have "\<dots> \<longleftrightarrow> (\<exists>a b. s = a @ b \<and> gmatch (x # g) a \<and> gmatch h b)"
      unfolding GOne gmatch_one by (metis append_Cons)
    finally show ?thesis by simp
  next
    case GAny
    have "gmatch (x # g @ h) s \<longleftrightarrow> (\<exists>u a b. s = u @ a @ b \<and> gmatch g a \<and> gmatch h b)"
      using Cons GAny by (auto simp: gmatch_any)
    also have "\<dots> \<longleftrightarrow> (\<exists>a b. s = a @ b \<and> gmatch (x # g) a \<and> gmatch h b)"
      using GAny by (auto simp: gmatch_any) (metis append_assoc)+
    finally show ?thesis by simp
  qed simp
qed

lemma gmatch_around: "gmatch (GAny # g @ [GAny]) s \<longleftrightarrow> (\<exists>a b c. s = a @ b @ c \<and> gmatch g b)"
proof -
  have "gmatch [GAny] u" for u by (induction u) simp_all
  then show ?thesis by (auto simp: gmatch_any gmatch_append)
qed

lemma sigma_read_plain: "list_all plain_tok (sigma_read k s)"
  by (induction k s rule: sigma_read.induct) (auto simp: wild_tok_def list_all_iff)

lemma is_ascii_simps [simp]:
  "is_ascii [] = True" "is_ascii (c # s) = (byte c < 128 \<and> is_ascii s)"
  "is_ascii (s @ t) = (is_ascii s \<and> is_ascii t)"
  by (auto simp: is_ascii_def)

lemma is_ascii_replicate [simp]: "byte c < 128 \<Longrightarrow> is_ascii (replicate n c)"
  by (induction n) simp_all

lemma is_ascii_escape: "is_ascii s \<Longrightarrow> is_ascii (escape_fwd k s)"
  by (induction k s rule: escape_fwd.induct) auto

lemma is_ascii_collapse: "is_ascii s \<Longrightarrow> is_ascii (collapse b s)"
  by (induction s arbitrary: b) auto

lemma is_ascii_handleWhitespace: "is_ascii s \<Longrightarrow> is_ascii (handleWhitespace s nc)"
  by (simp add: handleWhitespace_def is_ascii_collapse)

lemma escape_or_panic_eq [simp]: "escape_or_panic p = Inr (escape_fwd 0 p)"
  by (simp add: escape_or_panic_def escape_total)

lemma contains_glob_matches:
  assumes "glob_documented E" "is_ascii p" "is_ascii msg"
  shows "\<exists>m. contains_glob E p nc = Inr m \<and>
    (StringMatch E m msg \<longleftrightarrow> (\<exists>a b c. handleWhitespace msg nc = a @ b @ c \<and>
       gmatch (sigma_read 0 (handleWhitespace p nc)) b))"
proof -
  let ?q = "''*'' @ escape_fwd 0 (handleWhitespace p nc) @ ''*''"
  have rd: "glob_read ?q = GAny # sigma_read 0 (handleWhitespace p nc) @ [GAny]"
    by (simp add: glob_read_Cons glob_tok_def isWild_def wild_tok_def glob_read_escape)
  have "is_ascii ?q" "is_ascii (handleWhitespace msg nc)"
    using assms by (simp_all add: is_ascii_escape is_ascii_handleWhitespace)
  moreover have "list_all plain_tok (glob_read ?q)" unfolding rd by (simp add: sigma_read_plain)
  ultimately have g: "x_glob_compiles E ?q"
    "x_glob_match E ?q (handleWhitespace msg nc) \<longleftrightarrow> gmatch (glob_read ?q) (handleWhitespace msg nc)"
    using assms(1) unfolding glob_documented_def by blast+
  then show ?thesis unfolding rd
    by (simp add: contains_glob_def compile_glob_def gmatch_around del: gmatch.simps)
qed

lemma gmatch_lits: "gmatch (map GLit p) s \<longleftrightarrow> s = p"
  by (induction p arbitrary: s) (auto split: list.splits)

lemma sigma_read_plain_text:
  "\<forall>c \<in> set p. c \<noteq> bslash \<and> \<not> isWild c \<Longrightarrow> sigma_read 0 p = map GLit p"
  by (induction p) auto

section \<open>Lists of patterns\<close>

definition sorted_kind :: "string_matcher \<Rightarrow> bool" where
  "sorted_kind m \<longleftrightarrow> is_literal m \<or> is_glob m \<or> is_regex m"

lemma set_optimize: "list_all sorted_kind ms \<Longrightarrow> set (optimizeStringMatchers ms) = set ms"
  by (auto simp: optimizeStringMatchers_def sorted_kind_def list_all_iff)

lemma optimize_order:
  "sorted_wrt (\<lambda>x y. is_regex x \<longrightarrow> is_regex y) (optimizeStringMatchers ms)"
  "sorted_wrt (\<lambda>x y. is_literal y \<longrightarrow> is_literal x) (optimizeStringMatchers ms)"
proof -
  have k: "is_literal m \<Longrightarrow> \<not> is_regex m" "is_glob m \<Longrightarrow> \<not> is_regex m"
    "is_glob m \<Longrightarrow> \<not> is_literal m" "is_regex m \<Longrightarrow> \<not> is_literal m" for m
    by (cases m; simp)+
  have f: "sorted_wrt Q (filter P xs)" if "\<And>x y. P x \<Longrightarrow> P y \<Longrightarrow> Q x y" for P Q and xs :: "string_matcher list"
    using that by (induction xs) auto
  show "sorted_wrt (\<lambda>x y. is_regex x \<longrightarrow> is_regex y) (optimizeStringMatchers ms)"
    "sorted_wrt (\<lambda>x y. is_literal y \<longrightarrow> is_literal x) (optimizeStringMatchers ms)"
    unfolding optimizeStringMatchers_def sorted_wrt_append using k by (auto intro!: f)
qed

lemma pattern_matcher_kind: "pattern_matcher E m lower nc p = Inr x \<Longrightarrow> sorted_kind x"
  by (auto simp: pattern_matcher_def compile_regex_def compile_glob_def contains_glob_def
      sorted_kind_def split: textPatternModifier.splits if_splits)

definition one_matches ::
  "go_ext \<Rightarrow> textPatternModifier \<Rightarrow> bool \<Rightarrow> bool \<Rightarrow> string \<Rightarrow> string \<Rightarrow> bool" where
  "one_matches E m lower nc msg p =
     (case pattern_matcher E m lower nc p of Inr x \<Rightarrow> StringMatch E x msg | Inl _ \<Rightarrow> False)"

lemma NewStringMatcher_semantics:
  assumes "NewStringMatcher E m lower all nc ps = Inr x"
  shows "StringMatch E x msg \<longleftrightarrow>
    (if all then list_all (one_matches E m lower nc msg) ps
     else list_ex (one_matches E m lower nc msg) ps)"
proof -
  from assms obtain ms where ms: "map_result (pattern_matcher E m lower nc) ps = Inr ms"
    and ne: "ps \<noteq> []"
    and x: "(case ms of [y] \<Rightarrow> Inr y
        | _ \<Rightarrow> if all then Inr (StringMatchersConj (optimizeStringMatchers ms))
               else Inr (StringMatchers (optimizeStringMatchers ms))) = (Inr x :: string_matcher result)"
    by (auto simp: NewStringMatcher_def bind_result_Inr split: if_splits)
  have l2: "list_all2 (\<lambda>p y. pattern_matcher E m lower nc p = Inr y) ps ms"
    using ms by (simp add: map_result_Inr)
  then have kinds: "list_all sorted_kind ms"
    by (induction rule: list_all2_induct) (auto dest: pattern_matcher_kind)
  have every: "list_all (one_matches E m lower nc msg) ps \<longleftrightarrow> list_all (\<lambda>y. StringMatch E y msg) ms"
    and some: "list_ex (one_matches E m lower nc msg) ps \<longleftrightarrow> list_ex (\<lambda>y. StringMatch E y msg) ms"
    using l2 by (induction rule: list_all2_induct) (simp_all add: one_matches_def)
  show ?thesis
  proof (cases "\<exists>y. ms = [y]")
    case True
    then show ?thesis using x every some by auto
  next
    case False
    then have "Inr x = (if all then Inr (StringMatchersConj (optimizeStringMatchers ms))
               else Inr (StringMatchers (optimizeStringMatchers ms)) :: string_matcher result)"
      using x by (auto split: list.splits)
    then show ?thesis using every some set_optimize[OF kinds]
      by (auto simp: list_all_iff list_ex_iff)
  qed
qed

section \<open>A concrete instance of the external functions\<close>

definition sample_ext :: go_ext where
  "sample_ext = \<lparr>x_lower = (\<lambda>s. s), x_regex_compiles = (\<lambda>_. True),
     x_regex_match = (\<lambda>p s. contains s p), x_glob_compiles = (\<lambda>_. True),
     x_glob_match = (\<lambda>p s. gmatch (glob_read p) s), x_md5_hex = (\<lambda>s. s),
     x_format_float = (\<lambda>m e. itoa (float_to_int m e)), x_sprint = (\<lambda>_. []),
     x_json_strings = (\<lambda>_. None), x_parse_ip = (\<lambda>_. None), x_type_string = (\<lambda>_. []),
     x_json_marshal = (\<lambda>_. None), x_sprintf = (\<lambda>f _. f),
     x_json_struct = (\<lambda>_. Some ''{}''),
     x_json_object = (\<lambda>_. Some [(''Hostname'', VString ''dc1''), (''user'', VString ''bob''), (''host'', VString ''ws1'')])\<rparr>"

lemma sample_documented: "glob_documented sample_ext"
  by (simp add: glob_documented_def sample_ext_def)

end
