(* ===== verification/Sigma_Ident.thy ===== *)
theory Sigma_Ident
  imports Sigma_Nodes Sigma_Pattern
begin

text \<open>
  Identifiers of a detection (\<open>engine/sigma/ident.go\<close>): keyword lists and field selections, how
  they are built from decoded YAML and how they match an event. They are the leaves of the rule
  tree and keep the contract \<open>leaf_matcher\<close>.
\<close>

section \<open>Events\<close>

text \<open>The interface \<open>Event\<close>: \<open>Keywords\<close> and \<open>Select\<close>; \<^const>\<open>None\<close> is \<open>ok = false\<close>.\<close>

record event =
  ev_keywords :: "string list option"
  ev_select :: "string \<Rightarrow> gval option"

section \<open>Kinds of identifiers\<close>

fun same_kind_loop :: "kind option \<Rightarrow> gval list \<Rightarrow> kind \<times> bool" where
  "same_kind_loop l [] = ((case l of None \<Rightarrow> KInvalid | Some k \<Rightarrow> k), True)"
| "same_kind_loop l (d # ds) =
     (case type_kind d of
        None \<Rightarrow> (KInvalid, False)
      | Some current \<Rightarrow>
          if l \<noteq> None \<and> l \<noteq> Some current then (current, False)
          else same_kind_loop (Some current) ds)"

definition isSameKind :: "gval list \<Rightarrow> kind \<times> bool" where
  "isSameKind data = same_kind_loop None data"

fun reflectIdentKind :: "gval \<Rightarrow> identType" where
  "reflectIdentKind (VDetection _) = IdentSelection"
| "reflectIdentKind (VMap _) = IdentSelection"
| "reflectIdentKind (VMapAny _) = IdentSelection"
| "reflectIdentKind (VSlice v) =
     (let (k, ok) = isSameKind v in
      if \<not> ok then IdentErr else if k = KMap then IdentSelection else IdentKeyword)"
| "reflectIdentKind _ = IdentKeyword"

definition checkIdentType :: "string \<Rightarrow> gval \<Rightarrow> identType" where
  "checkIdentType name data =
     (let t = reflectIdentKind data in
      if has_prefix name ''keyword''
      then (if data = VNil then IdentKeyword else if t \<noteq> IdentKeyword then IdentErr else t)
      else t)"

definition castIfaceToString :: "go_ext \<Rightarrow> gval list \<Rightarrow> string list" where
  "castIfaceToString E vs = map (sprint_v E) vs"

fun castIfaceToInt :: "gval list \<Rightarrow> int list" where
  "castIfaceToInt [] = []"
| "castIfaceToInt (VInt n # vs) = n # castIfaceToInt vs"
| "castIfaceToInt (_ # vs) = castIfaceToInt vs"

fun cleanUpLoop :: "go_ext \<Rightarrow> (gval \<times> gval) list \<Rightarrow> (string \<times> gval) list \<Rightarrow> (string \<times> gval) list" where
  "cleanUpLoop E [] tx = tx"
| "cleanUpLoop E ((k, v) # rx) tx = cleanUpLoop E rx (map_put tx (sprint_v E k) v)"

definition cleanUpInterfaceMap :: "go_ext \<Rightarrow> (gval \<times> gval) list \<Rightarrow> (string \<times> gval) list" where
  "cleanUpInterfaceMap E rx = cleanUpLoop E rx []"

section \<open>Leaves\<close>

record selectionNumItem =
  num_Key :: string
  num_Pattern :: num_matcher

record selectionStringItem =
  str_Key :: string
  str_Pattern :: string_matcher

record selection =
  sel_N :: "selectionNumItem list"
  sel_S :: "selectionStringItem list"

datatype leaf = Keyword string_matcher | Selection selection

section \<open>Construction\<close>

definition newStringKeyword ::
  "go_ext \<Rightarrow> textPatternModifier \<Rightarrow> bool \<Rightarrow> bool \<Rightarrow> string list \<Rightarrow> leaf result" where
  "newStringKeyword E m lower nc patterns =
     bind_result (NewStringMatcher E m lower False nc patterns) (\<lambda>s. Inr (Keyword s))"

fun NewKeyword :: "go_ext \<Rightarrow> gval \<Rightarrow> bool \<Rightarrow> leaf result" where
  "NewKeyword E (VStrings v) nc = newStringKeyword E TextPatternKeyword False nc v"
| "NewKeyword E (VSlice v) nc =
     (let (k, ok) = isSameKind v in
      if \<not> ok then Inl (ErrInvalidKind KArray ''mixed type slice'' IdentKeyword False)
      else if k = KString
      then newStringKeyword E TextPatternKeyword False nc (castIfaceToString E v)
      else Inl (ErrInvalidKind k ''unsupported data type'' IdentKeyword False))"
| "NewKeyword E expr nc = Inl (ErrInvalidKeywordConstruct [] expr)"

text \<open>The specifiers of a key; the last modifier wins, \<open>all\<close> is independent of it.\<close>

fun specifiers :: "string \<Rightarrow> string list \<Rightarrow> textPatternModifier \<Rightarrow> bool
    \<Rightarrow> (textPatternModifier \<times> bool) result" where
  "specifiers key [] m all = Inr (m, all)"
| "specifiers key (b # bs) m all =
     (if b = ''startswith'' then specifiers key bs TextPatternPrefix all
      else if b = ''endswith'' then specifiers key bs TextPatternSuffix all
      else if b = ''re'' then specifiers key bs TextPatternRegex all
      else if b = ''contains'' then specifiers key bs TextPatternContains all
      else if b = ''all'' then specifiers key bs m True
      else Inl (ErrMsg (''selection key '' @ key @ '' specifier '' @ b @ '' invalid'')))"

definition parse_key :: "string \<Rightarrow> (string \<times> textPatternModifier \<times> bool) result" where
  "parse_key key =
     (if contains key ''|'' then
        let bits = split key ''|'' in
        bind_result (specifiers key (tl bits) TextPatternNone False) (\<lambda>(m, all). Inr (hd bits, m, all))
      else Inr (key, TextPatternNone, False))"

datatype sel_item = NumItem selectionNumItem | StringItem selectionStringItem

definition num_item :: "string \<Rightarrow> int list \<Rightarrow> sel_item result" where
  "num_item key ns = bind_result (NewNumMatcher ns) (\<lambda>m. Inr (NumItem \<lparr>num_Key = key, num_Pattern = m\<rparr>))"

definition string_item ::
  "go_ext \<Rightarrow> textPatternModifier \<Rightarrow> bool \<Rightarrow> bool \<Rightarrow> string \<Rightarrow> string list \<Rightarrow> sel_item result" where
  "string_item E m all nc key ps =
     bind_result (NewStringMatcher E m False all nc ps) (\<lambda>x. Inr (StringItem \<lparr>str_Key = key, str_Pattern = x\<rparr>))"

text \<open>The body of the loop of \<open>newSelectionFromMap\<close> up to the append.\<close>

fun selection_entry :: "go_ext \<Rightarrow> bool \<Rightarrow> textPatternModifier \<Rightarrow> bool \<Rightarrow> string \<Rightarrow> gval \<Rightarrow> sel_item result" where
  "selection_entry E nc m all key (VString pat) = string_item E m all nc key [pat]"
| "selection_entry E nc m all key (VInt pat) = num_item key [pat]"
| "selection_entry E nc m all key (VSlice pat) =
     (let (k, ok) = isSameKind pat in
      if \<not> ok then Inl (ErrInvalidKind KArray ''mixed type slice'' IdentKeyword False)
      else if k = KString then string_item E m all nc key (castIfaceToString E pat)
      else if k = KInt then num_item key (castIfaceToInt pat)
      else Inl (ErrInvalidKind k ''unsupported data type'' IdentKeyword False))"
| "selection_entry E nc m all key pat =
     (case type_kind pat of
        Some k \<Rightarrow> Inl (ErrInvalidKind k ''unsupported selection value'' IdentSelection True)
      | None \<Rightarrow> Inl ErrUnableToReflect)"

text \<open>The append; the first numeric item is stored twice, since \<open>sel.N\<close> is set inside the closure
  and appended to again.\<close>

fun add_item :: "selection \<Rightarrow> sel_item \<Rightarrow> selection" where
  "add_item sel (StringItem it) = sel\<lparr>sel_S := sel_S sel @ [it]\<rparr>"
| "add_item sel (NumItem it) =
     (if sel_N sel = [] then sel\<lparr>sel_N := [it, it]\<rparr> else sel\<lparr>sel_N := sel_N sel @ [it]\<rparr>)"

definition compile_entry :: "go_ext \<Rightarrow> bool \<Rightarrow> string \<times> gval \<Rightarrow> sel_item result" where
  "compile_entry E nc kp =
     bind_result (parse_key (fst kp)) (\<lambda>(key, m, all). selection_entry E nc m all key (snd kp))"

fun selection_loop :: "go_ext \<Rightarrow> bool \<Rightarrow> (string \<times> gval) list \<Rightarrow> selection \<Rightarrow> selection result" where
  "selection_loop E nc [] sel = Inr sel"
| "selection_loop E nc (kp # expr) sel =
     bind_result (compile_entry E nc kp) (\<lambda>it. selection_loop E nc expr (add_item sel it))"

definition newSelectionFromMap :: "go_ext \<Rightarrow> (string \<times> gval) list \<Rightarrow> bool \<Rightarrow> leaf result" where
  "newSelectionFromMap E expr nc =
     bind_result (selection_loop E nc expr \<lparr>sel_N = [], sel_S = []\<rparr>) (\<lambda>sel. Inr (Selection sel))"

definition as_branch :: "leaf result \<Rightarrow> leaf branch result" where
  "as_branch r = bind_result r (\<lambda>l. Inr (Leaf l))"

text \<open>\<open>reflect.TypeOf(nil)\<close> is nil and its method call panics.\<close>

fun NewSelectionBranch :: "go_ext \<Rightarrow> bool \<Rightarrow> gval \<Rightarrow> leaf branch result" where
  "NewSelectionBranch E nc (VSlice v) =
     bind_result (map_result (NewSelectionBranch E nc) v) (\<lambda>selections. Inr (reduceOr selections))"
| "NewSelectionBranch E nc (VDetection m) = as_branch (newSelectionFromMap E m nc)"
| "NewSelectionBranch E nc (VMap m) = as_branch (newSelectionFromMap E m nc)"
| "NewSelectionBranch E nc (VMapAny m) =
     as_branch (newSelectionFromMap E (cleanUpInterfaceMap E m) nc)"
| "NewSelectionBranch E nc expr =
     (case type_kind expr of
        Some k \<Rightarrow> Inl (ErrInvalidKind k ''unsupported selection root container'' IdentSelection True)
      | None \<Rightarrow> Inl (GoPanic ''nil pointer dereference''))"

definition newRuleFromIdent :: "go_ext \<Rightarrow> gval \<Rightarrow> identType \<Rightarrow> bool \<Rightarrow> leaf branch result" where
  "newRuleFromIdent E rule k nc =
     (case k of
        IdentKeyword \<Rightarrow> as_branch (NewKeyword E rule nc)
      | IdentSelection \<Rightarrow> NewSelectionBranch E nc rule
      | IdentErr \<Rightarrow> Inl (ErrMsg ''unknown rule kind, should be keyword or selection''))"

section \<open>Matching\<close>

definition keyword_match :: "go_ext \<Rightarrow> string_matcher \<Rightarrow> event \<Rightarrow> bool \<times> bool" where
  "keyword_match E s msg =
     (case ev_keywords msg of
        None \<Rightarrow> (False, False)
      | Some msgs \<Rightarrow> if list_ex (StringMatch E s) msgs then (True, True) else (False, True))"

text \<open>The type switch over a selected value; a type it does not name falls through.\<close>

fun num_check :: "num_matcher \<Rightarrow> gval \<Rightarrow> bool" where
  "num_check p (VString s) = (case atoi s of None \<Rightarrow> False | Some n \<Rightarrow> NumMatch p n)"
| "num_check p (VNumber s) = (case parse_int s of None \<Rightarrow> False | Some n \<Rightarrow> NumMatch p n)"
| "num_check p (VFloat m e) = NumMatch p (float_to_int m e)"
| "num_check p (VInt n) = NumMatch p n"
| "num_check p (VInt64 n) = NumMatch p n"
| "num_check p (VInt32 n) = NumMatch p n"
| "num_check p (VUint n) = NumMatch p (wrap64 n)"
| "num_check p (VUint32 n) = NumMatch p n"
| "num_check p (VUint64 n) = NumMatch p (wrap64 n)"
| "num_check p _ = True"

fun strings_of :: "gval list \<Rightarrow> string list" where
  "strings_of [] = []"
| "strings_of (VString s # vs) = s # strings_of vs"
| "strings_of (_ # vs) = strings_of vs"

fun string_check :: "go_ext \<Rightarrow> string_matcher \<Rightarrow> gval \<Rightarrow> bool" where
  "string_check E p (VString s) = StringMatch E p s"
| "string_check E p (VSlice vs) = StringMatch E p (join (strings_of vs) '','')"
| "string_check E p (VNumber s) = StringMatch E p s"
| "string_check E p (VFloat m e) = StringMatch E p (itoa (float_to_int m e))"
| "string_check E p _ = False"

fun sel_string_loop :: "go_ext \<Rightarrow> event \<Rightarrow> selectionStringItem list \<Rightarrow> bool \<times> bool" where
  "sel_string_loop E msg [] = (True, True)"
| "sel_string_loop E msg (v # vs) =
     (case ev_select msg (str_Key v) of
        None \<Rightarrow> (False, False)
      | Some val \<Rightarrow> if string_check E (str_Pattern v) val then sel_string_loop E msg vs
                    else (False, True))"

fun sel_num_loop :: "event \<Rightarrow> selectionNumItem list \<Rightarrow> (bool \<times> bool) option" where
  "sel_num_loop msg [] = None"
| "sel_num_loop msg (v # vs) =
     (case ev_select msg (num_Key v) of
        None \<Rightarrow> Some (False, False)
      | Some val \<Rightarrow> if num_check (num_Pattern v) val then sel_num_loop msg vs
                    else Some (False, True))"

definition selection_match :: "go_ext \<Rightarrow> selection \<Rightarrow> event \<Rightarrow> bool \<times> bool" where
  "selection_match E s msg =
     (case sel_num_loop msg (sel_N s) of
        Some r \<Rightarrow> r
      | None \<Rightarrow> sel_string_loop E msg (sel_S s))"

fun leaf_match :: "go_ext \<Rightarrow> leaf \<Rightarrow> event \<Rightarrow> bool \<times> bool" where
  "leaf_match E (Keyword s) msg = keyword_match E s msg"
| "leaf_match E (Selection s) msg = selection_match E s msg"

section \<open>The leaves keep their contract\<close>

lemma sel_num_loop_None:
  "sel_num_loop msg ns = None \<longleftrightarrow>
     (\<forall>n \<in> set ns. \<exists>v. ev_select msg (num_Key n) = Some v \<and> num_check (num_Pattern n) v)"
  by (induction ns) (auto split: option.splits)

lemma sel_num_loop_Some: "sel_num_loop msg ns = Some r \<Longrightarrow> \<not> fst r"
  by (induction ns) (auto split: option.splits if_splits)

lemma sel_string_loop_fst:
  "fst (sel_string_loop E msg ss) \<longleftrightarrow>
     (\<forall>s \<in> set ss. \<exists>v. ev_select msg (str_Key s) = Some v \<and> string_check E (str_Pattern s) v)"
  by (induction ss) (auto split: option.splits)

lemma sel_string_loop_sound: "fst (sel_string_loop E msg ss) \<Longrightarrow> snd (sel_string_loop E msg ss)"
  by (induction ss) (auto split: option.splits if_splits)

interpretation sigma_leaf: leaf_matcher "leaf_match E" for E
proof unfold_locales
  fix l e
  assume "fst (leaf_match E l e)"
  then show "snd (leaf_match E l e)"
    by (cases l) (auto simp: keyword_match_def selection_match_def
        dest: sel_num_loop_Some sel_string_loop_sound split: option.splits if_splits)
qed

section \<open>A selection is the conjunction of its entries\<close>

fun item_matches :: "go_ext \<Rightarrow> event \<Rightarrow> sel_item \<Rightarrow> bool" where
  "item_matches E msg (NumItem it) =
     (case ev_select msg (num_Key it) of None \<Rightarrow> False | Some v \<Rightarrow> num_check (num_Pattern it) v)"
| "item_matches E msg (StringItem it) =
     (case ev_select msg (str_Key it) of None \<Rightarrow> False | Some v \<Rightarrow> string_check E (str_Pattern it) v)"

definition entry_matches :: "go_ext \<Rightarrow> bool \<Rightarrow> event \<Rightarrow> string \<times> gval \<Rightarrow> bool" where
  "entry_matches E nc msg kp =
     (case compile_entry E nc kp of Inr it \<Rightarrow> item_matches E msg it | Inl _ \<Rightarrow> False)"

lemma item_matches_iff:
  "item_matches E msg (NumItem n) \<longleftrightarrow>
     (\<exists>v. ev_select msg (num_Key n) = Some v \<and> num_check (num_Pattern n) v)"
  "item_matches E msg (StringItem s) \<longleftrightarrow>
     (\<exists>v. ev_select msg (str_Key s) = Some v \<and> string_check E (str_Pattern s) v)"
  by (auto split: option.splits)

lemma selection_match_fst:
  "fst (selection_match E sel msg) \<longleftrightarrow>
     (\<forall>it \<in> NumItem ` set (sel_N sel) \<union> StringItem ` set (sel_S sel). item_matches E msg it)"
proof -
  have "fst (selection_match E sel msg) \<longleftrightarrow>
      sel_num_loop msg (sel_N sel) = None \<and> fst (sel_string_loop E msg (sel_S sel))"
    by (auto simp: selection_match_def dest: sel_num_loop_Some split: option.splits)
  then show ?thesis
    by (simp add: sel_string_loop_fst sel_num_loop_None ball_Un item_matches_iff del: item_matches.simps)
qed

lemma selection_loop_match:
  "selection_loop E nc expr sel = Inr sel' \<Longrightarrow>
   fst (selection_match E sel' msg) \<longleftrightarrow>
     fst (selection_match E sel msg) \<and> list_all (entry_matches E nc msg) expr"
proof (induction E nc expr sel rule: selection_loop.induct)
  case (2 E nc kp expr sel)
  then obtain it where it: "compile_entry E nc kp = Inr it"
    and rec: "selection_loop E nc expr (add_item sel it) = Inr sel'"
    by (auto simp: bind_result_Inr)
  have "fst (selection_match E (add_item sel it) msg)
      \<longleftrightarrow> fst (selection_match E sel msg) \<and> item_matches E msg it"
    unfolding selection_match_fst by (cases it) (auto simp del: item_matches.simps)
  then show ?case using 2(1)[OF rec] it by (auto simp: entry_matches_def)
qed simp

end
