(* ===== verification/Sigma_Tree.thy ===== *)
theory Sigma_Tree
  imports Sigma_Ident
begin

text \<open>
  From a rule to its tree (\<open>engine/sigma/parser.go\<close>, \<open>engine/sigma/tree.go\<close> and the data types of
  \<open>engine/sigma/rule.go\<close>): the two passes of the condition parser, the tree constructor and the
  evaluation of a tree on an event. A detection is a Go map, an association list in the order of
  one iteration.
\<close>

section \<open>Rules\<close>

type_synonym detection = "(string \<times> gval) list"

record logsource =
  ls_Product :: string
  ls_Category :: gval
  ls_Service :: gval
  ls_Definition :: string

record rule =
  r_Author :: string
  r_Description :: string
  r_Falsepositives :: "string list"
  r_Fields :: "string list"
  r_UniqueFields :: "string list"
  r_ID :: string
  r_Level :: string
  r_RdxKey :: string
  r_Title :: string
  r_Status :: string
  r_References :: "string list"
  r_Logsource :: logsource
  r_Detection :: "detection option"
  r_Tags :: "string list"

record ruleHandle =
  rh_Rule :: rule
  rh_Path :: string
  rh_Multipart :: bool
  rh_NoCollapseWS :: bool

record sigma_result =
  res_Tags :: "string list"
  res_ID :: string
  res_Title :: string
  res_Description :: string
  res_Status :: string
  res_Level :: string
  res_Fields :: "(string \<times> string) list"
  res_UniqueId :: string
  res_Timestamp :: int

definition empty_result :: sigma_result where
  "empty_result = \<lparr>res_Tags = [], res_ID = [], res_Title = [], res_Description = [],
     res_Status = [], res_Level = [], res_Fields = [], res_UniqueId = [], res_Timestamp = 0\<rparr>"

record tree =
  tree_Root :: "leaf branch"
  tree_Rule :: "ruleHandle option"

section \<open>Pass 1: collecting tokens\<close>

fun collect_loop :: "string \<Rightarrow> item list \<Rightarrow> item list \<Rightarrow> item \<Rightarrow> item list result" where
  "collect_loop condition [] tokens previous =
     (if item_T previous \<noteq> TokLitEof then Inl (ErrIncompleteTokenSeq condition tokens previous)
      else Inr tokens)"
| "collect_loop condition (it # items) tokens previous =
     (if item_T it = TokUnsupp then Inl (ErrUnsupportedToken (item_Val it))
      else if item_T previous \<noteq> TokBegin \<and> \<not> validTokenSequence (item_T previous) (item_T it)
      then Inl (ErrInvalidTokenSeq previous it tokens)
      else collect_loop condition items
             (if item_T it \<noteq> TokLitEof then tokens @ [it] else tokens) it)"

definition collect :: "string \<Rightarrow> item list \<Rightarrow> item list result" where
  "collect condition items = collect_loop condition items [] (mk_item TokBegin [])"

section \<open>Pass 2: groups and branches\<close>

text \<open>\<open>extractGroup\<close> takes the items up to the closing parenthesis from the channel; the second
  component is what the channel still holds.\<close>

fun group_loop :: "nat \<Rightarrow> item list \<Rightarrow> item list \<Rightarrow> item list \<times> item list" where
  "group_loop balance grp [] = (grp, [])"
| "group_loop balance grp (it # rx) =
     (let grp' = (if balance > 0 then grp @ [it] else grp) in
      if item_T it = TokSepLpar then group_loop (balance + 1) grp' rx
      else if item_T it = TokSepRpar then
        (if balance - 1 = 0 then (butlast grp', rx) else group_loop (balance - 1) grp' rx)
      else group_loop balance grp' rx)"

definition extractGroup :: "item list \<Rightarrow> item list \<times> item list" where
  "extractGroup rx = group_loop 1 [] rx"

definition item_Glob :: "go_ext \<Rightarrow> item \<Rightarrow> string option result" where
  "item_Glob E i =
     bind_result (escape_or_panic (item_Val i)) (\<lambda>p. Inr (if x_glob_compiles E p then Some p else None))"

definition extractWildcardIdents :: "go_ext \<Rightarrow> detection \<Rightarrow> string option \<Rightarrow> gval list result" where
  "extractWildcardIdents E d g =
     (case g of
        None \<Rightarrow> Inl (ErrMsg ''passed glob was nil (failed to compile)'')
      | Some p \<Rightarrow>
          let rules = map snd (filter (\<lambda>(k, v). x_glob_match E p k) d) in
          if rules = [] then Inl (ErrMsg ''ident did not match any values'') else Inr rules)"

definition extractAndBuildBranches ::
  "go_ext \<Rightarrow> detection \<Rightarrow> string option \<Rightarrow> bool \<Rightarrow> leaf branch list result" where
  "extractAndBuildBranches E d g nc =
     bind_result (extractWildcardIdents E d g) (\<lambda>vals.
       map_result (\<lambda>v. newRuleFromIdent E v IdentSelection nc) vals)"

definition detection_Extract :: "detection \<Rightarrow> detection" where
  "detection_Extract d = filter (\<lambda>(k, v). k \<noteq> ''condition'') d"

definition extractAllToRules :: "go_ext \<Rightarrow> detection \<Rightarrow> bool \<Rightarrow> leaf branch list result" where
  "extractAllToRules E d nc =
     map_result (\<lambda>(k, v). newRuleFromIdent E v (checkIdentType k v) nc) (detection_Extract d)"

text \<open>\<open>fmt.Errorf(\"failed to extract ...: %s\", item, err)\<close>; a panic is not an error value.\<close>

fun wrap_extract_error :: "go_ext \<Rightarrow> item \<Rightarrow> 'a result \<Rightarrow> 'a result" where
  "wrap_extract_error E it (Inr x) = Inr x"
| "wrap_extract_error E it (Inl (GoPanic m)) = Inl (GoPanic m)"
| "wrap_extract_error E it (Inl e) =
     Inl (ErrMsg (''failed to extract and build branch for '' @ [CHR 0x27] @ item_Val it @ [CHR 0x27]
       @ '': '' @ format_error E e))"

definition missing_prefix :: sigma_error where
  "missing_prefix = ErrMsg ''invalid wildcard ident, missing 1 of/ all of prefix''"

text \<open>The branch for one operand: an identifier, \<open>them\<close>, or a wildcard identifier.\<close>

definition ident_branch :: "go_ext \<Rightarrow> detection \<Rightarrow> bool \<Rightarrow> item \<Rightarrow> leaf branch result" where
  "ident_branch E d nc it =
     (case map_get d (item_Val it) of
        None \<Rightarrow> Inl (ErrMissingConditionItem (item_Val it))
      | Some val \<Rightarrow> newRuleFromIdent E val (checkIdentType (item_Val it) val) nc)"

definition them_branch :: "go_ext \<Rightarrow> detection \<Rightarrow> bool \<Rightarrow> token \<Rightarrow> leaf branch result" where
  "them_branch E d nc wildcard =
     (case wildcard of
        TokStAll \<Rightarrow> bind_result (extractAllToRules E d nc) (\<lambda>rules. Inr (NodeSimpleAnd rules))
      | TokStOne \<Rightarrow> bind_result (extractAllToRules E d nc) (\<lambda>rules. Inr (NodeSimpleOr rules))
      | _ \<Rightarrow> Inl missing_prefix)"

definition wildcard_rules :: "go_ext \<Rightarrow> detection \<Rightarrow> bool \<Rightarrow> item \<Rightarrow> leaf branch list result" where
  "wildcard_rules E d nc it =
     bind_result (item_Glob E it) (\<lambda>g.
       wrap_extract_error E it (extractAndBuildBranches E d g nc))"

definition wildcard_branch :: "go_ext \<Rightarrow> detection \<Rightarrow> bool \<Rightarrow> token \<Rightarrow> item \<Rightarrow> leaf branch result" where
  "wildcard_branch E d nc wildcard it =
     (case wildcard of
        TokStAll \<Rightarrow> bind_result (wildcard_rules E d nc it) (\<lambda>rules. Inr (NodeSimpleAnd rules))
      | TokStOne \<Rightarrow> bind_result (wildcard_rules E d nc it) (\<lambda>rules. Inr (NodeSimpleOr rules))
      | _ \<Rightarrow> Inl missing_prefix)"

lemma group_loop_length:
  "group_loop n g rx = (grp, rest) \<Longrightarrow> length grp + length rest \<le> length g + length rx"
  by (induction n g rx arbitrary: grp rest rule: group_loop.induct)
    (fastforce simp: Let_def split: if_splits)+

lemma extractGroup_length:
  "extractGroup rx = (g, rest) \<Longrightarrow> length g + length rest \<le> length rx"
  using group_loop_length[of 1 "[]" rx g rest] by (simp add: extractGroup_def)

lemma bind_result_cong [fundef_cong]:
  "r = r' \<Longrightarrow> (\<And>x. r' = Inr x \<Longrightarrow> f x = g x) \<Longrightarrow> bind_result r f = bind_result r' g"
  by (cases r') simp_all

text \<open>The loop of \<open>newBranch\<close> with its local variables \<open>and\<close>, \<open>or\<close>, \<open>negated\<close>, \<open>wildcard\<close>.\<close>

function newBranch_loop :: "go_ext \<Rightarrow> detection \<Rightarrow> bool \<Rightarrow> item list \<Rightarrow> leaf branch list
    \<Rightarrow> leaf branch list \<Rightarrow> bool \<Rightarrow> token \<Rightarrow> leaf branch result" where
  "newBranch_loop E d nc [] ands ors negated wildcard =
     Inr (reduceOr (ors @ [newNodeNotIfNegated (reduceAnd ands) negated]))"
| "newBranch_loop E d nc (it # rx) ands ors negated wildcard =
     (case item_T it of
        TokIdentifier \<Rightarrow>
          bind_result (ident_branch E d nc it) (\<lambda>b.
            newBranch_loop E d nc rx (ands @ [newNodeNotIfNegated b negated]) ors False wildcard)
      | TokKeywordAnd \<Rightarrow> newBranch_loop E d nc rx ands ors negated wildcard
      | TokKeywordOr \<Rightarrow> newBranch_loop E d nc rx [] (ors @ [reduceAnd ands]) negated wildcard
      | TokKeywordNot \<Rightarrow> newBranch_loop E d nc rx ands ors True wildcard
      | TokSepLpar \<Rightarrow>
          (let (g, rest) = extractGroup rx in
           bind_result (newBranch_loop E d nc g [] [] False TokBegin) (\<lambda>b.
             newBranch_loop E d nc rest (ands @ [newNodeNotIfNegated b negated]) ors False wildcard))
      | TokIdentifierAll \<Rightarrow>
          bind_result (them_branch E d nc wildcard) (\<lambda>b.
            newBranch_loop E d nc rx (ands @ [newNodeNotIfNegated b negated]) ors False wildcard)
      | TokIdentifierWithWildcard \<Rightarrow>
          bind_result (wildcard_branch E d nc wildcard it) (\<lambda>b.
            newBranch_loop E d nc rx (ands @ [newNodeNotIfNegated b negated]) ors False TokBegin)
      | TokStAll \<Rightarrow> newBranch_loop E d nc rx ands ors negated TokStAll
      | TokStOne \<Rightarrow> newBranch_loop E d nc rx ands ors negated TokStOne
      | TokSepRpar \<Rightarrow> Inl (ErrMsg (''parser error, should not see '' @ token_string TokSepRpar))
      | t \<Rightarrow> Inl (ErrUnsupportedToken (token_string t @ '' | '' @ literal t)))"
  by pat_completeness auto
termination
  by (relation "measure (\<lambda>(E, d, nc, t, _). length t)") (auto dest: extractGroup_length[OF sym])

declare newBranch_loop.simps(2) [simp del]

definition newBranch :: "go_ext \<Rightarrow> detection \<Rightarrow> item list \<Rightarrow> bool \<Rightarrow> leaf branch result" where
  "newBranch E d t nc = newBranch_loop E d nc t [] [] False TokBegin"

section \<open>The parser and the tree\<close>

record parser =
  p_condition :: string
  p_sigma :: detection
  p_noCollapseWS :: bool

text \<open>\<open>run\<close>: the lexer's items, then the two passes. The lexer always finishes (theory
  \<open>Sigma_Lexer_Props\<close>), so the second case is never taken.\<close>

definition parser_run :: "go_ext \<Rightarrow> parser \<Rightarrow> leaf branch result" where
  "parser_run E p =
     (case lex E (p_condition p) of
        Some items \<Rightarrow>
          bind_result (collect (p_condition p) items) (\<lambda>tokens.
            newBranch E (p_sigma p) tokens (p_noCollapseWS p))
      | None \<Rightarrow> Inl (GoPanic ''lexer does not finish''))"

definition NewTree :: "go_ext \<Rightarrow> ruleHandle \<Rightarrow> tree result" where
  "NewTree E r =
     (case r_Detection (rh_Rule r) of
        None \<Rightarrow> Inl ErrMissingDetection
      | Some d \<Rightarrow>
          (case map_get d ''condition'' of
             Some (VString expr) \<Rightarrow>
               bind_result (parser_run E \<lparr>p_condition = expr, p_sigma = d,
                   p_noCollapseWS = rh_NoCollapseWS r\<rparr>) (\<lambda>b.
                 Inr \<lparr>tree_Root = b, tree_Rule = Some r\<rparr>)
           | _ \<Rightarrow> Inl ErrMissingCondition))"

definition tree_match :: "go_ext \<Rightarrow> tree \<Rightarrow> event \<Rightarrow> bool \<times> bool" where
  "tree_match E t e = branch_match (leaf_match E) (tree_Root t) e"

definition formatNumber :: "go_ext \<Rightarrow> int \<Rightarrow> int \<Rightarrow> string" where
  "formatNumber E m x = x_format_float E m x"

fun field_text :: "go_ext \<Rightarrow> gval \<Rightarrow> string option" where
  "field_text E (VInt n) = Some (itoa n)"
| "field_text E (VFloat m x) = Some (formatNumber E m x)"
| "field_text E (VString s) = Some s"
| "field_text E (VSlice vs) = Some (join (strings_of vs) '','')"
| "field_text E _ = None"

fun field_loop :: "go_ext \<Rightarrow> event \<Rightarrow> string list \<Rightarrow> (string \<times> string) list \<Rightarrow> (string \<times> string) list" where
  "field_loop E e [] fm = fm"
| "field_loop E e (f # fs) fm =
     field_loop E e fs
       (case Option.bind (ev_select e f) (field_text E) of None \<Rightarrow> fm | Some s \<Rightarrow> map_put fm f s)"

fun unique_text :: "go_ext \<Rightarrow> gval \<Rightarrow> string" where
  "unique_text E (VInt n) = itoa n"
| "unique_text E (VFloat m x) = formatNumber E m x"
| "unique_text E (VString s) = s"
| "unique_text E _ = []"

definition unique_string :: "go_ext \<Rightarrow> event \<Rightarrow> string list \<Rightarrow> string" where
  "unique_string E e fs =
     concat (map (\<lambda>f. case ev_select e f of None \<Rightarrow> [] | Some v \<Rightarrow> unique_text E v) fs)"

text \<open>\<open>Eval\<close>; \<open>now\<close> is \<open>time.Now().UnixNano()\<close>, \<^const>\<open>None\<close> is the pair \<open>nil, false\<close>.\<close>

definition Eval :: "go_ext \<Rightarrow> int \<Rightarrow> tree \<Rightarrow> event \<Rightarrow> sigma_result option" where
  "Eval E now t e =
     (let (match, applicable) = tree_match E t e in
      if \<not> applicable then None
      else case tree_Rule t of
        None \<Rightarrow> if match then Some empty_result else None
      | Some h \<Rightarrow>
          if match then
            let r = rh_Rule h; u = unique_string E e (r_UniqueFields r) in
            Some \<lparr>res_Tags = r_Tags r, res_ID = r_ID r, res_Title = r_Title r,
              res_Description = r_Description r, res_Status = r_Status r, res_Level = r_Level r,
              res_Fields = field_loop E e (r_Fields r) [],
              res_UniqueId = (if u \<noteq> [] then x_md5_hex E u else []),
              res_Timestamp = now div 1000000\<rparr>
          else None)"

end
