(* ===== verification/Engine_Common.thy ===== *)
theory Engine_Common
  imports Go_Base
begin

text \<open>
  What the engine shares: risk levels (\<open>engine/common/ruletype.go\<close>), the limits of flow rules
  (\<open>engine/common/const.go\<close>) and the helpers of \<open>infra/base\<close>.
\<close>

section \<open>Risk levels\<close>

definition RiskLevelMap :: "(string \<times> int) list" where
  "RiskLevelMap =
     [(''info'', 1), (''low'', 2), (''medium'', 3), (''high'', 4), (''critical'', 5),
      (''1'', 1), (''2'', 2), (''3'', 3), (''4'', 4), (''5'', 5)]"

definition GetRiskLevel :: "string \<Rightarrow> int" where
  "GetRiskLevel l = (case map_get RiskLevelMap l of Some lvl \<Rightarrow> lvl | None \<Rightarrow> 2)"

definition ConvertRiskLevel :: "int \<Rightarrow> string" where
  "ConvertRiskLevel l =
     (if l = 1 then ''info'' else if l = 2 then ''low'' else if l = 3 then ''medium''
      else if l = 4 then ''high'' else if l = 5 then ''critical'' else ''low'')"

definition risk_levels :: "string list" where
  "risk_levels = [''info'', ''low'', ''medium'', ''high'', ''critical'']"

lemma ConvertRiskLevel_range: "ConvertRiskLevel n \<in> set risk_levels"
  by (simp add: ConvertRiskLevel_def risk_levels_def)

lemma GetRiskLevel_Convert: "1 \<le> n \<Longrightarrow> n \<le> 5 \<Longrightarrow> GetRiskLevel (ConvertRiskLevel n) = n"
  by (auto simp: ConvertRiskLevel_def GetRiskLevel_def RiskLevelMap_def)

lemma Convert_GetRiskLevel: "l \<in> set risk_levels \<Longrightarrow> ConvertRiskLevel (GetRiskLevel l) = l"
  by (auto simp: risk_levels_def ConvertRiskLevel_def GetRiskLevel_def RiskLevelMap_def)

section \<open>Limits of flow rules\<close>

definition MaxFlowSelections :: nat where
  "MaxFlowSelections = 16"

definition MaxFlowWinSize :: int where
  "MaxFlowWinSize = 6 * 3600"

section \<open>Helpers\<close>

text \<open>\<open>base.Atoi\<close>: \<open>ParseInt(s, 10, 32)\<close>, 0 on error; \<open>base.Atoll\<close> with 64 bits.\<close>

definition base_Atoi :: "string \<Rightarrow> int" where
  "base_Atoi s = (case parse_int s of
     None \<Rightarrow> 0
   | Some n \<Rightarrow> if - (2 ^ 31) \<le> n \<and> n < 2 ^ 31 then n else 0)"

definition base_Atoll :: "string \<Rightarrow> int" where
  "base_Atoll s = (case parse_int s of None \<Rightarrow> 0 | Some n \<Rightarrow> n)"

text \<open>\<open>RemoveDuplicate\<close>: an element is kept when no later one equals it.\<close>

fun RemoveDuplicate :: "string list \<Rightarrow> string list" where
  "RemoveDuplicate [] = []"
| "RemoveDuplicate (x # arr) =
     (let repeat = list_ex (\<lambda>y. x = y) arr in
      if \<not> repeat then x # RemoveDuplicate arr else RemoveDuplicate arr)"

definition GetDomainFromHostname :: "string \<Rightarrow> string" where
  "GetDomainFromHostname hostname =
     (let parts = split hostname ''.'' in
      if length parts < 2 then hd parts else join (tl parts) ''.'')"

lemma RemoveDuplicate_remdups: "RemoveDuplicate xs = remdups xs"
  by (induction xs) (auto simp: list_ex_iff)

lemma base_Atoi_bounds: "- (2 ^ 31) \<le> base_Atoi s \<and> base_Atoi s < 2 ^ 31"
  by (simp add: base_Atoi_def split: option.splits)

text \<open>The domain of a host name is what follows its first dot, the whole name when it has none.\<close>

lemma GetDomainFromHostname_dot:
  "CHR ''.'' \<notin> set h \<Longrightarrow> GetDomainFromHostname (h @ ''.'' @ d) = d"
  using split_acc_cons[of "CHR ''.''" h "[]" d] split_acc_not_Nil[of "''.''" "[]" d]
  by (auto simp: GetDomainFromHostname_def split_def join_split_acc Suc_le_eq)

lemma GetDomainFromHostname_plain: "CHR ''.'' \<notin> set h \<Longrightarrow> GetDomainFromHostname h = h"
  by (simp add: GetDomainFromHostname_def split_def split_acc_no_sep)

section \<open>Durations\<close>

text \<open>\<open>ConvertStrTime\<close> (\<open>infra/time/time.go\<close>): seconds, with \<open>s\<close>, \<open>m\<close> or \<open>h\<close> behind the number; the
  multiplications wrap at 64 bits.\<close>

definition parse_seconds :: "string \<Rightarrow> string + int" where
  "parse_seconds s = (case parse_int s of None \<Rightarrow> Inl (''strconv.ParseInt: '' @ s) | Some i \<Rightarrow> Inr i)"

definition ConvertStrTime :: "string \<Rightarrow> string + int" where
  "ConvertStrTime s =
     (if s = [] then Inl (''empty val:'' @ s)
      else if is_digit (last s) then parse_seconds s
      else let timeVal = butlast s in
        if has_suffix s ''s'' then parse_seconds timeVal
        else if has_suffix s ''m'' then map_sum id (\<lambda>i. wrap64 (i * 60)) (parse_seconds timeVal)
        else if has_suffix s ''h'' then map_sum id (\<lambda>i. wrap64 (i * 3600)) (parse_seconds timeVal)
        else Inl (''invalid value:'' @ s))"

text \<open>The four spellings of a duration that fits.\<close>

lemma last_digits: "is_digit (last (nat_digits n))"
  using nat_digits_wf[of n] by (cases "nat_digits n" rule: rev_cases) auto

lemma has_suffix_snoc: "has_suffix (x @ [c]) [d] \<longleftrightarrow> c = d"
  by (auto simp: has_suffix_iff)

lemma ConvertStrTime_plain: "n < 2 ^ 63 \<Longrightarrow> ConvertStrTime (nat_digits n) = Inr (int n)"
  using nat_digits_wf[of n] last_digits[of n]
  by (simp add: ConvertStrTime_def parse_seconds_def parse_int_nat_digits)

lemma ConvertStrTime_units:
  assumes "n * 3600 < 2 ^ 63"
  shows "ConvertStrTime (nat_digits n @ ''s'') = Inr (int n)"
    "ConvertStrTime (nat_digits n @ ''m'') = Inr (int n * 60)"
    "ConvertStrTime (nat_digits n @ ''h'') = Inr (int n * 3600)"
proof -
  have p: "parse_seconds (nat_digits n) = Inr (int n)"
    using assms by (simp add: parse_seconds_def parse_int_nat_digits)
  have "int (n * 3600) < int (2 ^ 63)" using assms by (simp only: of_nat_less_iff)
  then have w: "wrap64 (int n * 60) = int n * 60" "wrap64 (int n * 3600) = int n * 3600"
    by (auto intro!: wrap64_id)
  show "ConvertStrTime (nat_digits n @ ''s'') = Inr (int n)"
    "ConvertStrTime (nat_digits n @ ''m'') = Inr (int n * 60)"
    "ConvertStrTime (nat_digits n @ ''h'') = Inr (int n * 3600)"
    using p w by (simp_all add: ConvertStrTime_def has_suffix_snoc is_digit_def)
qed

end
