(* ===== verification/Sigma_Rule.thy ===== *)
theory Sigma_Rule
  imports Sigma_Tree Engine_Common
begin

text \<open>
  Loading and evaluating a rule set (\<open>engine/sigma/rule.go\<close>, \<open>engine/sigma/ruleset.go\<close>). The file
  system and the YAML decoder are parameters.
\<close>

section \<open>One rule\<close>

text \<open>\<open>lookup\<close> is the set of the rule's tags.\<close>

definition HasTags :: "rule \<Rightarrow> string list \<Rightarrow> bool" where
  "HasTags r tags = (let lookup = map (\<lambda>t. (t, True)) (r_Tags r) in
     list_all (\<lambda>tag. map_get lookup tag \<noteq> None) tags)"

fun dedup_loop :: "string list \<Rightarrow> string list \<Rightarrow> string list" where
  "dedup_loop dest [] = dest"
| "dedup_loop dest (f # fs) =
     (if has_prefix f ''_'' then dedup_loop dest fs
      else if f \<notin> set dest then dedup_loop (dest @ [f]) fs
      else dedup_loop dest fs)"

definition margeFields :: "(string \<times> string list) list \<Rightarrow> rule \<Rightarrow> rule" where
  "margeFields extFields r =
     (case map_get extFields (r_ID r) of
        None \<Rightarrow> r
      | Some v \<Rightarrow> r\<lparr>r_Fields := dedup_loop [] (r_Fields r @ v)\<rparr>)"

definition validLevels :: "string list" where
  "validLevels = [''informational'', ''info'', ''low'', ''medium'', ''high'', ''critical'',
     ''1'', ''2'', ''3'', ''4'', ''5'']"

definition convertLevel :: "rule \<Rightarrow> rule result" where
  "convertLevel r =
     (if r_Level r \<notin> set validLevels then Inl (ErrMsg (''invalid level: '' @ r_Level r))
      else if r_Level r = ''informational'' then Inr (r\<lparr>r_Level := ''info''\<rparr>)
      else case atoi (r_Level r) of
        Some n \<Rightarrow> Inr (r\<lparr>r_Level := ConvertRiskLevel n\<rparr>)
      | None \<Rightarrow> Inr r)"

section \<open>Legacy detections\<close>

fun legacyKeyValuePairMap :: "go_ext \<Rightarrow> gval \<Rightarrow> (string \<times> gval) list option" where
  "legacyKeyValuePairMap E (VDetection m) = Some m"
| "legacyKeyValuePairMap E (VMap m) = Some m"
| "legacyKeyValuePairMap E (VMapAny m) = Some (cleanUpInterfaceMap E m)"
| "legacyKeyValuePairMap E _ = None"

text \<open>Indexing a map with a missing key gives nil.\<close>

definition index_or_nil :: "(string \<times> gval) list \<Rightarrow> string \<Rightarrow> gval" where
  "index_or_nil m k = (case map_get m k of Some v \<Rightarrow> v | None \<Rightarrow> VNil)"

fun legacy_pairs :: "go_ext \<Rightarrow> gval list \<Rightarrow> string \<Rightarrow> gval option \<Rightarrow> (string \<times> gval) option" where
  "legacy_pairs E [] field val =
     (case val of None \<Rightarrow> None | Some v \<Rightarrow> if field = [] then None else Some (field, v))"
| "legacy_pairs E (p # ps) field val =
     (case legacyKeyValuePairMap E p of
        None \<Rightarrow> None
      | Some m \<Rightarrow>
          let k = sprint_v E (index_or_nil m ''key'') in
          if k = ''key'' then legacy_pairs E ps (sprint_v E (index_or_nil m ''value'')) val
          else if k = ''value'' then legacy_pairs E ps field (Some (index_or_nil m ''value''))
          else None)"

fun legacy_items :: "go_ext \<Rightarrow> gval list \<Rightarrow> (string \<times> gval) list \<Rightarrow> (string \<times> gval) list option" where
  "legacy_items E [] selection = Some selection"
| "legacy_items E (VSlice pairs # items) selection =
     (if pairs = [] then None
      else case legacy_pairs E pairs [] None of
        None \<Rightarrow> None
      | Some (field, v) \<Rightarrow> legacy_items E items (map_put selection field v))"
| "legacy_items E (_ # items) selection = None"

fun normalizeLegacyKeyValueSelection :: "go_ext \<Rightarrow> gval \<Rightarrow> (string \<times> gval) list option" where
  "normalizeLegacyKeyValueSelection E (VSlice items) =
     (if items = [] then None else legacy_items E items [])"
| "normalizeLegacyKeyValueSelection E _ = None"

definition normalizeDetection :: "go_ext \<Rightarrow> rule \<Rightarrow> rule" where
  "normalizeDetection E r =
     (case r_Detection r of
        None \<Rightarrow> r
      | Some d \<Rightarrow> r\<lparr>r_Detection := Some (map (\<lambda>(name, expr).
          if name = ''condition'' then (name, expr)
          else case normalizeLegacyKeyValueSelection E expr of
            Some m \<Rightarrow> (name, VMap m)
          | None \<Rightarrow> (name, expr)) d)\<rparr>)"

section \<open>Files\<close>

datatype stat = StatNotExist | StatError | StatDir | StatFile

text \<open>\<open>fs_walk\<close> is what \<open>filepath.Walk\<close> visits under a directory, with the error that stops it;
  \<open>fs_yaml\<close> is \<open>yaml.Unmarshal\<close> into a \<open>Rule\<close>.\<close>

record fs =
  fs_stat :: "string \<Rightarrow> stat"
  fs_walk :: "string \<Rightarrow> (string \<times> bool) list \<times> string option"
  fs_read :: "string \<Rightarrow> string option"
  fs_yaml :: "string \<Rightarrow> string + rule"

fun NewRuleFileLoop :: "fs \<Rightarrow> string list \<Rightarrow> string list \<Rightarrow> string list result" where
  "NewRuleFileLoop F [] out = Inr out"
| "NewRuleFileLoop F (dir # dirs) out =
     (let (entries, err) = fs_walk F dir;
          out' = out @ map fst (filter (\<lambda>(path, isDir). \<not> isDir \<and> has_suffix path ''yml'') entries)
      in case err of Some e \<Rightarrow> Inl (ErrLib e) | None \<Rightarrow> NewRuleFileLoop F dirs out')"

definition NewRuleFileList :: "fs \<Rightarrow> string list \<Rightarrow> string list result" where
  "NewRuleFileList F dirs =
     (if dirs = [] then Inl (ErrMsg ''no rule directories provided'') else NewRuleFileLoop F dirs [])"

definition RuleFromYAML :: "go_ext \<Rightarrow> fs \<Rightarrow> string \<Rightarrow> string + rule" where
  "RuleFromYAML E F data =
     (case fs_yaml F data of Inl e \<Rightarrow> Inl e | Inr r \<Rightarrow> Inr (normalizeDetection E r))"

text \<open>\<open>IsMultipart\<close>: the lines that match \<open>^---\s*$\<close>; one on the first line opens a single
  document.\<close>

definition separator_line :: "string \<Rightarrow> bool" where
  "separator_line l \<longleftrightarrow> has_prefix l ''---'' \<and> list_all is_ws (drop 3 l)"

definition IsMultipart :: "string \<Rightarrow> bool" where
  "IsMultipart data =
     (let ls = split data [CHR 0x0A]; matches = filter separator_line ls in
      length matches > 1 \<or> length matches = 1 \<and> \<not> separator_line (hd ls))"

text \<open>The loop of \<open>NewRuleList\<close> with the index of the file, the errors and the rules so far.\<close>

fun rule_loop :: "go_ext \<Rightarrow> fs \<Rightarrow> bool \<Rightarrow> bool \<Rightarrow> string list \<Rightarrow> (string \<times> string list) list
    \<Rightarrow> nat \<Rightarrow> string list \<Rightarrow> (string \<times> string \<times> nat) list \<Rightarrow> ruleHandle list
    \<Rightarrow> ((string \<times> string \<times> nat) list \<times> ruleHandle list) result" where
  "rule_loop E F skip nc tags ext i [] errs rules = Inr (errs, rules)"
| "rule_loop E F skip nc tags ext i (path # files) errs rules =
     (case fs_read F path of
        None \<Rightarrow> Inl (ErrLib path)
      | Some data \<Rightarrow>
          (case RuleFromYAML E F data of
             Inl e \<Rightarrow>
               if skip then rule_loop E F skip nc tags ext (i + 1) files (errs @ [(path, e, i)]) rules
               else Inl (ErrParseYaml path e 0)
           | Inr r \<Rightarrow>
               if r_Tags r = []
               then Inl (ErrParseYaml path (''empty tags(at least one), sigma_id:'' @ r_ID r) 0)
               else if \<not> HasTags r tags then rule_loop E F skip nc tags ext (i + 1) files errs rules
               else case convertLevel (margeFields ext r) of
                 Inl _ \<Rightarrow> rule_loop E F skip nc tags ext (i + 1) files errs rules
               | Inr r' \<Rightarrow>
                   rule_loop E F skip nc tags ext (i + 1) files errs
                     (rules @ [\<lparr>rh_Rule = r', rh_Path = path, rh_Multipart = IsMultipart data,
                        rh_NoCollapseWS = nc\<rparr>])))"

definition NewRuleList :: "go_ext \<Rightarrow> fs \<Rightarrow> string list \<Rightarrow> bool \<Rightarrow> bool \<Rightarrow> string list
    \<Rightarrow> (string \<times> string list) list \<Rightarrow> (ruleHandle list \<times> sigma_error option) result" where
  "NewRuleList E F files skip nc tags ext =
     (if files = [] then Inl ErrMissingRuleList
      else bind_result (rule_loop E F skip nc tags ext 0 files [] []) (\<lambda>(errs, rules).
        Inr (rules, if errs \<noteq> [] then Some (ErrBulkParseYaml errs) else None)))"

section \<open>Rule sets\<close>

record config =
  cfg_Directory :: "string list"
  cfg_FailOnRuleParse :: bool
  cfg_FailOnYamlParse :: bool
  cfg_NoCollapseWS :: bool
  cfg_ExtractFields :: "(string \<times> string list) list"

record ruleset =
  rs_Rules :: "tree list"
  rs_root :: "string list"
  rs_FieldsMap :: "(string \<times> string list) list"
  rs_Total :: nat
  rs_Ok :: nat
  rs_Failed :: nat
  rs_Unsupported :: nat

text \<open>\<open>validate\<close>: \<open>info\<close> is nil after any error of \<open>os.Stat\<close>, and only a missing directory is
  checked for.\<close>

fun validate_dirs :: "fs \<Rightarrow> string list \<Rightarrow> unit result" where
  "validate_dirs F [] = Inr ()"
| "validate_dirs F (dir # dirs) =
     (case fs_stat F dir of
        StatNotExist \<Rightarrow> Inl (ErrMsg (dir @ '' does not exist''))
      | StatError \<Rightarrow> Inl (GoPanic ''nil pointer dereference'')
      | StatFile \<Rightarrow> Inl (ErrMsg (dir @ '' is not a directory''))
      | StatDir \<Rightarrow> validate_dirs F dirs)"

definition config_validate :: "fs \<Rightarrow> config \<Rightarrow> unit result" where
  "config_validate F c =
     (if cfg_Directory c = [] then Inl (ErrMsg ''no rule directories provided'')
      else validate_dirs F (cfg_Directory c))"

fun ruleset_loop :: "go_ext \<Rightarrow> ruleHandle list \<Rightarrow> ruleset \<Rightarrow> ruleset result" where
  "ruleset_loop E [] st = Inr st"
| "ruleset_loop E (raw # rules) st =
     (if rh_Multipart raw then ruleset_loop E rules (st\<lparr>rs_Unsupported := rs_Unsupported st + 1\<rparr>)
      else case NewTree E raw of
        Inl (GoPanic m) \<Rightarrow> Inl (GoPanic m)
      | Inl (ErrUnsupportedToken m) \<Rightarrow>
          ruleset_loop E rules (st\<lparr>rs_Unsupported := rs_Unsupported st + 1\<rparr>)
      | Inl _ \<Rightarrow> ruleset_loop E rules (st\<lparr>rs_Failed := rs_Failed st + 1\<rparr>)
      | Inr t \<Rightarrow>
          ruleset_loop E rules
            (st\<lparr>rs_Rules := rs_Rules st @ [t],
                rs_FieldsMap := map_put (rs_FieldsMap st) (r_ID (rh_Rule raw)) (r_Fields (rh_Rule raw))\<rparr>))"

definition empty_ruleset :: ruleset where
  "empty_ruleset = \<lparr>rs_Rules = [], rs_root = [], rs_FieldsMap = [], rs_Total = 0, rs_Ok = 0,
     rs_Failed = 0, rs_Unsupported = 0\<rparr>"

definition RulesetFromRuleList :: "go_ext \<Rightarrow> ruleHandle list \<Rightarrow> ruleset result" where
  "RulesetFromRuleList E rules =
     bind_result (ruleset_loop E rules empty_ruleset) (\<lambda>st.
       Inr (st\<lparr>rs_Ok := length (rs_Rules st), rs_Total := length rules\<rparr>))"

definition NewRuleset :: "go_ext \<Rightarrow> fs \<Rightarrow> config \<Rightarrow> string list \<Rightarrow> ruleset result" where
  "NewRuleset E F c tags =
     bind_result (config_validate F c) (\<lambda>_.
     bind_result (NewRuleFileList F (cfg_Directory c)) (\<lambda>files.
     bind_result (NewRuleList E F files (\<not> cfg_FailOnYamlParse c) (cfg_NoCollapseWS c) tags
         (cfg_ExtractFields c)) (\<lambda>(rules, err).
     let failed = (case err of Some (ErrBulkParseYaml es) \<Rightarrow> length es | _ \<Rightarrow> 0) in
     bind_result (RulesetFromRuleList E rules) (\<lambda>result.
       Inr (result\<lparr>rs_root := cfg_Directory c, rs_Failed := rs_Failed result + failed,
              rs_Total := rs_Total result + failed\<rparr>)))))"

text \<open>\<open>clock i\<close> is the time when the \<open>i\<close>-th rule is evaluated.\<close>

fun eval_loop :: "go_ext \<Rightarrow> (nat \<Rightarrow> int) \<Rightarrow> nat \<Rightarrow> tree list \<Rightarrow> event \<Rightarrow> sigma_result list" where
  "eval_loop E clock i [] e = []"
| "eval_loop E clock i (t # ts) e =
     (case Eval E (clock i) t e of
        Some res \<Rightarrow> res # eval_loop E clock (i + 1) ts e
      | None \<Rightarrow> eval_loop E clock (i + 1) ts e)"

definition EvalAll :: "go_ext \<Rightarrow> (nat \<Rightarrow> int) \<Rightarrow> ruleset \<Rightarrow> event \<Rightarrow> sigma_result list option" where
  "EvalAll E clock r e =
     (let results = eval_loop E clock 0 (rs_Rules r) e in
      if length results > 0 then Some results else None)"

fun get_rule_loop :: "tree list \<Rightarrow> string \<Rightarrow> rule option result" where
  "get_rule_loop [] ID = Inr None"
| "get_rule_loop (t # ts) ID =
     (case tree_Rule t of
        None \<Rightarrow> Inl (GoPanic ''nil pointer dereference'')
      | Some h \<Rightarrow> if r_ID (rh_Rule h) = ID then Inr (Some (rh_Rule h)) else get_rule_loop ts ID)"

definition GetRule :: "ruleset \<Rightarrow> string \<Rightarrow> rule option result" where
  "GetRule r ID = get_rule_loop (rs_Rules r) ID"

section \<open>Facts about one rule\<close>

lemma HasTags_subset: "HasTags r tags \<longleftrightarrow> set tags \<subseteq> set (r_Tags r)"
proof -
  have "map_of (map (\<lambda>t. (t, True)) xs) t \<noteq> None \<longleftrightarrow> t \<in> set xs" for xs and t :: string
    by (induction xs) auto
  then show ?thesis by (auto simp: HasTags_def Let_def list_all_iff)
qed

lemma dedup_loop_props:
  "distinct dest \<Longrightarrow> distinct (dedup_loop dest fs) \<and>
     set (dedup_loop dest fs) = set dest \<union> {f \<in> set fs. \<not> has_prefix f ''_''}"
  by (induction dest fs rule: dedup_loop.induct) auto

lemma convertLevel_range: "convertLevel r = Inr r' \<Longrightarrow> r_Level r' \<in> set risk_levels"
proof -
  have digits: "atoi ''1'' = Some 1" "atoi ''2'' = Some 2" "atoi ''3'' = Some 3"
    "atoi ''4'' = Some 4" "atoi ''5'' = Some 5"
    by (simp_all add: parse_int_def parse_digits_def is_digit_def)
  assume c: "convertLevel r = Inr r'"
  then have "r_Level r \<in> set risk_levels \<union> {''informational'', ''1'', ''2'', ''3'', ''4'', ''5''}"
    by (auto simp: convertLevel_def validLevels_def risk_levels_def split: if_splits)
  moreover have "r_Level r' = ''info''" if "r_Level r = ''informational''"
    using that c by (simp add: convertLevel_def validLevels_def) auto
  moreover have "r_Level r' = r_Level r \<or> r_Level r' \<in> set risk_levels"
    if "r_Level r \<noteq> ''informational''"
    using that c ConvertRiskLevel_range by (auto simp: convertLevel_def split: if_splits option.splits)
  moreover have "r_Level r' \<in> set risk_levels" if lv: "r_Level r \<in> {''1'', ''2'', ''3'', ''4'', ''5''}"
  proof -
    obtain n where "atoi (r_Level r) = Some n" using lv digits by auto
    moreover have "r_Level r \<noteq> ''informational''" using lv by auto
    ultimately show ?thesis using c ConvertRiskLevel_range
      by (auto simp: convertLevel_def split: if_splits)
  qed
  ultimately show ?thesis by (auto simp: risk_levels_def)
qed

lemma convertLevel_keeps:
  "convertLevel r = Inr r' \<Longrightarrow> r_Tags r' = r_Tags r \<and> r_ID r' = r_ID r \<and> r_Fields r' = r_Fields r
     \<and> r_Detection r' = r_Detection r"
  by (auto simp: convertLevel_def split: if_splits option.splits)

lemma margeFields_keeps:
  "r_Tags (margeFields ext r) = r_Tags r" "r_ID (margeFields ext r) = r_ID r"
  "r_Detection (margeFields ext r) = r_Detection r"
  by (simp_all add: margeFields_def split: option.splits)

section \<open>What a loaded rule satisfies\<close>

definition loaded_ok :: "string list \<Rightarrow> (string \<times> string list) list \<Rightarrow> ruleHandle \<Rightarrow> bool" where
  "loaded_ok tags ext h \<longleftrightarrow>
     r_Tags (rh_Rule h) \<noteq> [] \<and> set tags \<subseteq> set (r_Tags (rh_Rule h)) \<and>
     r_Level (rh_Rule h) \<in> set risk_levels \<and>
     (\<forall>v. map_get ext (r_ID (rh_Rule h)) = Some v \<longrightarrow>
        distinct (r_Fields (rh_Rule h)) \<and> {f \<in> set v. \<not> has_prefix f ''_''} \<subseteq> set (r_Fields (rh_Rule h)) \<and>
        (\<forall>f \<in> set (r_Fields (rh_Rule h)). \<not> has_prefix f ''_''))"

lemma loaded_okI:
  assumes "r_Tags r \<noteq> []" "HasTags r tags" "convertLevel (margeFields ext r) = Inr r'"
  shows "loaded_ok tags ext \<lparr>rh_Rule = r', rh_Path = p, rh_Multipart = b, rh_NoCollapseWS = nc\<rparr>"
proof -
  note keeps = convertLevel_keeps[OF assms(3)]
  have "distinct (r_Fields r') \<and> {f \<in> set v. \<not> has_prefix f ''_''} \<subseteq> set (r_Fields r') \<and>
        (\<forall>f \<in> set (r_Fields r'). \<not> has_prefix f ''_'')" if "map_get ext (r_ID r) = Some v" for v
    using that keeps dedup_loop_props[of "[]" "r_Fields r @ v"] by (auto simp: margeFields_def)
  then show ?thesis
    using assms keeps convertLevel_range[OF assms(3)]
    by (simp add: loaded_ok_def margeFields_keeps HasTags_subset)
qed

lemma rule_loop_invariant:
  "rule_loop E F skip nc tags ext i files errs rules = Inr (errs', rules') \<Longrightarrow>
   list_all (loaded_ok tags ext) rules \<Longrightarrow>
   list_all (loaded_ok tags ext) rules' \<and>
   length errs' + length rules' \<le> length errs + length rules + length files"
proof (induction E F skip nc tags ext i files errs rules rule: rule_loop.induct)
  case (2 E F skip nc tags ext i path files errs rules)
  then show ?case
    by (fastforce split: option.splits sum.splits if_splits intro: loaded_okI)
qed simp

section \<open>Accounting\<close>

lemma ruleset_loop_count:
  "ruleset_loop E rules st = Inr st' \<Longrightarrow>
   length (rs_Rules st') + rs_Failed st' + rs_Unsupported st' =
   length (rs_Rules st) + rs_Failed st + rs_Unsupported st + length rules"
  by (induction E rules st rule: ruleset_loop.induct)
    (auto split: if_splits sum.splits sigma_error.splits)

lemma RulesetFromRuleList_count:
  "RulesetFromRuleList E rules = Inr s \<Longrightarrow>
   rs_Ok s = length (rs_Rules s) \<and> rs_Ok s + rs_Failed s + rs_Unsupported s = rs_Total s
   \<and> rs_Total s = length rules"
  by (auto simp: RulesetFromRuleList_def bind_result_Inr empty_ruleset_def dest!: ruleset_loop_count)

lemma NewTree_rule: "NewTree E r = Inr t \<Longrightarrow> tree_Rule t = Some r"
  by (auto simp: NewTree_def bind_result_Inr split: option.splits gval.splits)

text \<open>Every tree of a rule set was compiled from one of the rules, in their order.\<close>

fun compiled_rules :: "go_ext \<Rightarrow> ruleHandle list \<Rightarrow> tree list" where
  "compiled_rules E [] = []"
| "compiled_rules E (raw # rules) =
     (case NewTree E raw of
        Inr t \<Rightarrow> if rh_Multipart raw then compiled_rules E rules else t # compiled_rules E rules
      | Inl _ \<Rightarrow> compiled_rules E rules)"

lemma ruleset_loop_trees:
  "ruleset_loop E rules st = Inr st' \<Longrightarrow> rs_Rules st' = rs_Rules st @ compiled_rules E rules"
  by (induction E rules st rule: ruleset_loop.induct)
    (auto split: if_splits sum.splits sigma_error.splits)

lemma compiled_have_rule: "t \<in> set (compiled_rules E rules) \<Longrightarrow> \<exists>h. tree_Rule t = Some h \<and> h \<in> set rules"
  by (induction rules) (auto dest: NewTree_rule split: sum.splits if_splits)

lemma ruleset_trees:
  "RulesetFromRuleList E rules = Inr s \<Longrightarrow> rs_Rules s = compiled_rules E rules"
  by (auto simp: RulesetFromRuleList_def bind_result_Inr empty_ruleset_def dest!: ruleset_loop_trees)

section \<open>Evaluation\<close>

lemma Eval_Some_iff: "Eval E now t e \<noteq> None \<longleftrightarrow> fst (tree_match E t e)"
  using sigma_leaf.match_applicable[of E "tree_Root t" e]
  by (auto simp: Eval_def tree_match_def Let_def split: prod.splits option.splits if_splits)

lemma Eval_ID:
  "Eval E now t e = Some res \<Longrightarrow> tree_Rule t = Some h \<Longrightarrow>
   res_ID res = r_ID (rh_Rule h) \<and> res_Level res = r_Level (rh_Rule h) \<and> res_Tags res = r_Tags (rh_Rule h)"
  by (auto simp: Eval_def Let_def split: prod.splits if_splits)

definition tree_ID :: "tree \<Rightarrow> string" where
  "tree_ID t = (case tree_Rule t of Some h \<Rightarrow> r_ID (rh_Rule h) | None \<Rightarrow> [])"

lemma eval_loop_IDs:
  "(\<And>t. t \<in> set ts \<Longrightarrow> tree_Rule t \<noteq> None) \<Longrightarrow>
   map res_ID (eval_loop E clock i ts e) = map tree_ID (filter (\<lambda>t. fst (tree_match E t e)) ts)"
proof (induction E clock i ts e rule: eval_loop.induct)
  case (2 E clock i t ts e)
  then obtain h where h: "tree_Rule t = Some h" by fastforce
  have rest: "map res_ID (eval_loop E clock (i + 1) ts e)
      = map tree_ID (filter (\<lambda>t. fst (tree_match E t e)) ts)"
    using 2 by (cases "Eval E (clock i) t e") simp_all
  show ?case
    using rest Eval_Some_iff[of E "clock i" t e] h
    by (cases "Eval E (clock i) t e") (auto simp: tree_ID_def dest: Eval_ID)
qed simp

lemma get_rule_loop_find:
  "(\<And>t. t \<in> set ts \<Longrightarrow> tree_Rule t \<noteq> None) \<Longrightarrow>
   get_rule_loop ts ID = Inr (map_option (rh_Rule \<circ> the \<circ> tree_Rule) (find (\<lambda>t. tree_ID t = ID) ts))"
  by (induction ts) (fastforce simp: tree_ID_def split: option.splits)+

end
