(* ===== verification/Flow_Condition.thy ===== *)
theory Flow_Condition
  imports Engine_Common
begin

text \<open>
  The conditions of a flow rule: references \<open>$sN.field\<close>, cache-key templates, counting expressions
  and single conditions (\<open>parseConditionKV\<close>, \<open>parseCondition\<close> in \<open>engine/flow/rule.go\<close>,
  \<open>parseCacheTemplate\<close> in \<open>engine/flow/cache_key.go\<close>, \<open>parseCountExpression\<close> in
  \<open>engine/flow/parse_count.go\<close>). The regular expressions of \<open>parseCountExpression\<close> are deterministic
  and are written out as scanners.
\<close>

section \<open>Conditions\<close>

record condition =
  fieldOneIdx :: int
  fieldOneVal :: string
  fieldTwoIdx :: int
  fieldTwoVal :: string
  fieldTwoTyp :: string
  operation :: string
  valid :: bool

definition no_condition :: condition where
  "no_condition = \<lparr>fieldOneIdx = -1, fieldOneVal = [], fieldTwoIdx = -1, fieldTwoVal = [],
     fieldTwoTyp = [], operation = [], valid = False\<rparr>"

section \<open>References\<close>

definition parseConditionKV :: "string \<Rightarrow> int \<times> string" where
  "parseConditionKV c =
     (if \<not> has_prefix c ''$s'' then (-1, [])
      else case splitN2 c ''.'' of
        [p, f] \<Rightarrow>
          (case parse_int (trim_prefix p ''$s'') of
             None \<Rightarrow> (-1, [])
           | Some i64 \<Rightarrow>
               if i64 < 1 \<or> i64 > int MaxFlowSelections then (-1, []) else (i64 - 1, f))
      | _ \<Rightarrow> (-1, []))"

section \<open>Cache-key templates\<close>

record fieldRef =
  ref_idx :: int
  ref_field :: string

fun parse_refs :: "string list \<Rightarrow> fieldRef list option" where
  "parse_refs [] = Some []"
| "parse_refs (param # ps) =
     (let (i, f) = parseConditionKV param in
      if i < 0 \<or> f = [] then None
      else map_option (\<lambda>rs. \<lparr>ref_idx = i, ref_field = f\<rparr> # rs) (parse_refs ps))"

text \<open>\<^const>\<open>None\<close> is \<open>ok = false\<close>.\<close>

definition parseCacheTemplate :: "string \<Rightarrow> (string \<times> fieldRef list) option" where
  "parseCacheTemplate template =
     (if \<not> has_prefix template ''key_'' then None
      else if \<not> contains template ''('' \<and> \<not> contains template '')''
      then Some (trim_prefix template ''key_'', [])
      else case splitN2 template ''('' of
        [a, b] \<Rightarrow>
          if \<not> has_suffix b '')'' then None
          else let keyExpr = trim_prefix a ''key_''; paramExpr = trim_space (trim_suffix b '')'') in
            if paramExpr = [] then (if count_sub keyExpr ''%s'' = 0 then Some (keyExpr, []) else None)
            else map_option (\<lambda>refs. (keyExpr, refs)) (parse_refs (split (remove_spaces paramExpr) '',''))
      | _ \<Rightarrow> None)"

definition validateCacheTemplate :: "string \<Rightarrow> bool" where
  "validateCacheTemplate template =
     (if \<not> has_prefix template ''key_'' then False
      else case parseCacheTemplate template of
        None \<Rightarrow> False
      | Some (keyPattern, refs) \<Rightarrow> count_sub keyPattern ''%s'' = length refs)"

definition extractCacheFieldRefs :: "string \<Rightarrow> fieldRef list" where
  "extractCacheFieldRefs template =
     (case parseCacheTemplate template of None \<Rightarrow> [] | Some (_, refs) \<Rightarrow> refs)"

section \<open>Counting expressions\<close>

record countExpression =
  ce_sigmaIdx :: int
  ce_field :: string
  ce_distinct :: bool
  ce_operation :: string
  ce_threshold :: int

text \<open>\<open>\s\<close> and the class of field characters.\<close>

definition re_space :: "char \<Rightarrow> bool" where
  "re_space c \<longleftrightarrow> byte c \<in> {9, 10, 12, 13, 32}"

definition field_char :: "char \<Rightarrow> bool" where
  "field_char c \<longleftrightarrow> 65 \<le> byte c \<and> byte c \<le> 90 \<or> 97 \<le> byte c \<and> byte c \<le> 122 \<or> is_digit c
     \<or> c = CHR ''_'' \<or> c = CHR ''@'' \<or> c = CHR ''.'' \<or> c = CHR ''-''"

abbreviation skip_ws :: "string \<Rightarrow> string" where
  "skip_ws s \<equiv> dropWhile re_space s"

definition expect :: "string \<Rightarrow> string \<Rightarrow> string option" where
  "expect p s = (if has_prefix s p then Some (drop (length p) s) else None)"

text \<open>\<open>(==|!=|>=|<=|>|<)\s*(\d+)$\<close>.\<close>

definition scan_op :: "string \<Rightarrow> (string \<times> string) option" where
  "scan_op s =
     (if has_prefix s ''=='' \<or> has_prefix s ''!='' \<or> has_prefix s ''>='' \<or> has_prefix s ''<=''
      then Some (take 2 s, drop 2 s)
      else if has_prefix s ''>'' \<or> has_prefix s ''<'' then Some (take 1 s, drop 1 s) else None)"

definition scan_tail :: "string \<Rightarrow> (string \<times> string) option" where
  "scan_tail s =
     (case scan_op (skip_ws s) of
        None \<Rightarrow> None
      | Some (op, r) \<Rightarrow>
          let ds = skip_ws r in if ds \<noteq> [] \<and> list_all is_digit ds then Some (op, ds) else None)"

text \<open>\<open>\$s([1-9]\d*)\<close>.\<close>

definition scan_sel :: "string \<Rightarrow> (string \<times> string) option" where
  "scan_sel s =
     (case expect ''$s'' s of
        None \<Rightarrow> None
      | Some r \<Rightarrow>
          (case r of
             [] \<Rightarrow> None
           | c # _ \<Rightarrow> if is_digit c \<and> c \<noteq> CHR ''0''
                        then Some (takeWhile is_digit r, dropWhile is_digit r) else None))"

text \<open>The five patterns; a match is (selector, field, operator, number).\<close>

type_synonym count_match = "string \<times> string \<times> string \<times> string"

definition count_re1 :: "string \<Rightarrow> count_match option" where
  "count_re1 s =
     Option.bind (scan_sel s) (\<lambda>(n, r).
     Option.bind (expect ''._count'' r) (\<lambda>r.
     map_option (\<lambda>(op, k). (n, [], op, k)) (scan_tail r)))"

definition count_re2 :: "string \<Rightarrow> count_match option" where
  "count_re2 s =
     Option.bind (expect ''len('' s) (\<lambda>r.
     Option.bind (scan_sel (skip_ws r)) (\<lambda>(n, r).
     Option.bind (expect '')'' (skip_ws r)) (\<lambda>r.
     map_option (\<lambda>(op, k). (n, [], op, k)) (scan_tail r))))"

definition scan_sel_field :: "string \<Rightarrow> (string \<times> string \<times> string) option" where
  "scan_sel_field s =
     Option.bind (scan_sel s) (\<lambda>(n, r).
     Option.bind (expect ''.'' r) (\<lambda>r.
     let f = takeWhile field_char r in
     if f = [] then None else Some (n, f, dropWhile field_char r)))"

definition count_re3 :: "string \<Rightarrow> count_match option" where
  "count_re3 s =
     Option.bind (expect ''len('' s) (\<lambda>r.
     Option.bind (expect ''distinct('' (skip_ws r)) (\<lambda>r.
     Option.bind (scan_sel_field (skip_ws r)) (\<lambda>(n, f, r).
     Option.bind (expect '')'' (skip_ws r)) (\<lambda>r.
     Option.bind (expect '')'' (skip_ws r)) (\<lambda>r.
     map_option (\<lambda>(op, k). (n, f, op, k)) (scan_tail r))))))"

definition count_re4 :: "string \<Rightarrow> count_match option" where
  "count_re4 s =
     Option.bind (expect ''len('' s) (\<lambda>r.
     Option.bind (scan_sel_field (skip_ws r)) (\<lambda>(n, f, r).
     Option.bind (expect '')'' (skip_ws r)) (\<lambda>r.
     map_option (\<lambda>(op, k). (n, f, op, k)) (scan_tail r))))"

definition count_re5 :: "string \<Rightarrow> count_match option" where
  "count_re5 s =
     Option.bind (scan_sel_field s) (\<lambda>(n, f, r).
     if has_suffix f ''._count'' \<and> trim_suffix f ''._count'' \<noteq> []
     then map_option (\<lambda>(op, k). (n, trim_suffix f ''._count'', op, k)) (scan_tail r) else None)"

definition count_specs :: "((string \<Rightarrow> count_match option) \<times> bool) list" where
  "count_specs = [(count_re1, False), (count_re2, False), (count_re3, True), (count_re4, False),
     (count_re5, True)]"

fun count_spec_loop :: "string \<Rightarrow> string \<Rightarrow> ((string \<Rightarrow> count_match option) \<times> bool) list
    \<Rightarrow> string + countExpression" where
  "count_spec_loop s expression [] = Inl (''parse err '' @ s)"
| "count_spec_loop s expression ((re, uniq) # specs) =
     (case re expression of
        None \<Rightarrow> count_spec_loop s expression specs
      | Some (n, f, op, k) \<Rightarrow>
          (case parse_int n of
             None \<Rightarrow> Inl (''invalid count selector in '' @ s)
           | Some i \<Rightarrow>
               if i < 1 \<or> i > int MaxFlowSelections then Inl (''invalid count selector in '' @ s)
               else case atoi k of
                 None \<Rightarrow> Inl (''strconv.Atoi: parsing '' @ [CHR 0x22] @ k @ [CHR 0x22] @ '': value out of range'')
               | Some th \<Rightarrow> Inr \<lparr>ce_sigmaIdx = i - 1, ce_field = f, ce_distinct = uniq,
                   ce_operation = op, ce_threshold = th\<rparr>))"

definition parseCountExpression :: "string \<Rightarrow> string + countExpression" where
  "parseCountExpression s = count_spec_loop s (trim_space s) count_specs"

definition toCondition :: "countExpression \<Rightarrow> condition" where
  "toCondition e =
     \<lparr>fieldOneIdx = ce_sigmaIdx e, fieldOneVal = (if ce_field e \<noteq> [] then ce_field e else ''_count''),
      fieldTwoIdx = -1, fieldTwoVal = itoa (ce_threshold e), fieldTwoTyp = ''const'',
      operation = ce_operation e,
      valid = (ce_sigmaIdx e \<ge> 0 \<and> ce_operation e \<noteq> [] \<and> ce_threshold e \<ge> 0)\<rparr>"

definition parseExpression :: "string \<Rightarrow> string + (string \<times> int)" where
  "parseExpression s =
     (case parseCountExpression s of
        Inl e \<Rightarrow> Inl e
      | Inr ce \<Rightarrow>
          Inr ((if ce_field ce \<noteq> [] then ''s'' @ itoa (ce_sigmaIdx ce + 1) @ ''.'' @ ce_field ce @ ''._count''
                else ''s'' @ itoa (ce_sigmaIdx ce + 1) @ ''._count''), ce_threshold ce))"

section \<open>Single conditions\<close>

definition in_condition :: "string \<Rightarrow> string \<Rightarrow> string \<Rightarrow> condition" where
  "in_condition field1 two typ =
     (let (oneIdx, oneVal) = parseConditionKV field1 in
      \<lparr>fieldOneIdx = oneIdx, fieldOneVal = oneVal, fieldTwoIdx = -1, fieldTwoVal = two,
       fieldTwoTyp = typ, operation = ''in'', valid = (oneIdx \<ge> 0 \<and> oneVal \<noteq> [])\<rparr>)"

definition slice_condition :: "go_ext \<Rightarrow> string \<Rightarrow> condition" where
  "slice_condition E expression =
     (case splitN2 expression ''in$v.slice.'' of
        [field1, field2] \<Rightarrow>
          if \<not> has_prefix field1 ''$s'' then no_condition
          else (case x_json_strings E field2 of
            None \<Rightarrow> no_condition
          | Some stringList \<Rightarrow> in_condition field1 (join stringList '','') ''slice'')
      | _ \<Rightarrow> no_condition)"

definition lookup_condition :: "string \<Rightarrow> string \<Rightarrow> string \<Rightarrow> condition" where
  "lookup_condition expression sep typ =
     (case splitN2 expression sep of
        [field1, field2] \<Rightarrow>
          if \<not> has_prefix field2 ''key_'' then no_condition
          else if \<not> validateCacheTemplate field2 then no_condition
          else if \<not> has_prefix field1 ''$s'' then no_condition
          else in_condition field1 field2 typ
      | _ \<Rightarrow> no_condition)"

definition operators :: "string list" where
  "operators = [''=='', ''!='', ''>='', ''<='', ''>'', ''<'']"

definition compare_condition :: "string \<Rightarrow> condition" where
  "compare_condition expression =
     (case find (contains expression) operators of
        None \<Rightarrow> no_condition
      | Some opType \<Rightarrow>
          (case splitN2 expression opType of
             [field1, field2] \<Rightarrow>
               if \<not> has_prefix field1 ''$s'' then no_condition
               else let (oneIdx, oneVal) = parseConditionKV field1;
                        c = no_condition\<lparr>fieldOneIdx := oneIdx, fieldOneVal := oneVal, operation := opType\<rparr>
                 in if oneIdx < 0 \<or> oneVal = [] then c
                 else if has_prefix field2 ''$s'' then
                   let (twoIdx, twoVal) = parseConditionKV field2 in
                   c\<lparr>fieldTwoIdx := twoIdx, fieldTwoVal := twoVal, fieldTwoTyp := ''str'',
                     valid := (twoIdx \<ge> 0 \<and> twoVal \<noteq> [])\<rparr>
                 else c\<lparr>fieldTwoIdx := -1, fieldTwoVal := field2, fieldTwoTyp := ''const'',
                     valid := (field2 \<noteq> [])\<rparr>
           | _ \<Rightarrow> no_condition))"

definition parseCondition :: "go_ext \<Rightarrow> string \<Rightarrow> condition" where
  "parseCondition E c =
     (case parseCountExpression c of
        Inr ce \<Rightarrow> toCondition ce
      | Inl _ \<Rightarrow>
          let expression = remove_spaces c in
          if contains expression ''$v.slice.'' then slice_condition E expression
          else if contains expression ''$v.cache.'' then lookup_condition expression ''in$v.cache.'' ''cache''
          else if contains expression ''$v.ldap.'' then lookup_condition expression ''in$v.ldap.'' ''ldap''
          else compare_condition expression)"

section \<open>What a valid condition satisfies\<close>

lemma parseConditionKV_range:
  "parseConditionKV c = (i, f) \<Longrightarrow> i = -1 \<and> f = [] \<or> 0 \<le> i \<and> i < int MaxFlowSelections"
  by (auto simp: parseConditionKV_def split: if_splits list.splits option.splits)

text \<open>A printed reference is read back.\<close>

lemma cut_char: "d \<notin> set a \<Longrightarrow> Go_Base.cut [d] (a @ d # b) = Some (a, b)"
  by (induction a) auto

lemma parseConditionKV_print:
  assumes "1 \<le> n" "n \<le> MaxFlowSelections"
  shows "parseConditionKV (''$s'' @ nat_digits n @ ''.'' @ f) = (int n - 1, f)"
proof -
  have "CHR ''.'' \<notin> set (nat_digits n)"
    using nat_digits_wf[of n] by (auto simp: list_all_iff is_digit_def)
  then have "splitN2 (''$s'' @ nat_digits n @ ''.'' @ f) ''.'' = [''$s'' @ nat_digits n, f]"
    using cut_char[of "CHR ''.''" "''$s'' @ nat_digits n" f] by (simp add: splitN2_def)
  moreover have "parse_int (nat_digits n) = Some (int n)"
    using assms by (simp add: parse_int_nat_digits MaxFlowSelections_def)
  ultimately show ?thesis using assms
    by (simp add: parseConditionKV_def trim_prefix_def)
qed

definition condition_ok :: "condition \<Rightarrow> bool" where
  "condition_ok c \<longleftrightarrow> (valid c \<longrightarrow> 0 \<le> fieldOneIdx c \<and> fieldOneIdx c < int MaxFlowSelections
     \<and> fieldOneVal c \<noteq> [] \<and> operation c \<noteq> []
     \<and> (fieldTwoTyp c = ''str'' \<longrightarrow> 0 \<le> fieldTwoIdx c \<and> fieldTwoIdx c < int MaxFlowSelections
          \<and> fieldTwoVal c \<noteq> [])
     \<and> fieldTwoTyp c \<in> {''const'', ''str'', ''slice'', ''cache'', ''ldap''})"

lemma condition_ok_none [simp]: "condition_ok no_condition"
  by (simp add: condition_ok_def no_condition_def)

lemma in_condition_ok: "typ \<in> {''slice'', ''cache'', ''ldap''} \<Longrightarrow> condition_ok (in_condition f two typ)"
  using parseConditionKV_range[of f]
  by (auto simp: in_condition_def condition_ok_def split: prod.splits)

lemma count_spec_loop_range:
  "count_spec_loop s e specs = Inr ce \<Longrightarrow> 0 \<le> ce_sigmaIdx ce \<and> ce_sigmaIdx ce < int MaxFlowSelections"
  by (induction s e specs rule: count_spec_loop.induct)
    (auto split: option.splits prod.splits if_splits)

lemma scan_op_nonempty: "scan_op s = Some (op, r) \<Longrightarrow> op \<noteq> []"
  by (cases s) (auto simp: scan_op_def split: if_splits)

lemma lookup_condition_ok:
  "typ \<in> {''cache'', ''ldap''} \<Longrightarrow> condition_ok (lookup_condition e sep typ)"
  by (auto simp: lookup_condition_def in_condition_ok split: list.splits)

lemma slice_condition_ok: "condition_ok (slice_condition E e)"
  by (auto simp: slice_condition_def in_condition_ok split: list.splits option.splits)

lemma compare_condition_ok: "condition_ok (compare_condition e)"
proof -
  have ops: "find P operators = Some op \<Longrightarrow> op \<noteq> []" for P op
    by (auto simp: operators_def split: if_splits)
  have one: "condition_ok (let (oneIdx, oneVal) = parseConditionKV f1;
        c = no_condition\<lparr>fieldOneIdx := oneIdx, fieldOneVal := oneVal, operation := op\<rparr>
      in if oneIdx < 0 \<or> oneVal = [] then c
      else if has_prefix f2 ''$s'' then
        let (twoIdx, twoVal) = parseConditionKV f2 in
        c\<lparr>fieldTwoIdx := twoIdx, fieldTwoVal := twoVal, fieldTwoTyp := ''str'',
          valid := (twoIdx \<ge> 0 \<and> twoVal \<noteq> [])\<rparr>
      else c\<lparr>fieldTwoIdx := -1, fieldTwoVal := f2, fieldTwoTyp := ''const'', valid := (f2 \<noteq> [])\<rparr>)"
    if "op \<noteq> []" for f1 f2 op
    using that parseConditionKV_range[of f1] parseConditionKV_range[of f2]
    by (auto simp: Let_def condition_ok_def no_condition_def split: prod.splits)
  show ?thesis
    unfolding compare_condition_def using one ops
    by (auto split: option.splits list.splits)
qed

lemma toCondition_ok: "parseCountExpression s = Inr ce \<Longrightarrow> condition_ok (toCondition ce)"
  by (auto simp: toCondition_def condition_ok_def parseCountExpression_def dest!: count_spec_loop_range)

lemma parseCondition_ok: "condition_ok (parseCondition E c)"
  by (auto simp: parseCondition_def Let_def toCondition_ok slice_condition_ok lookup_condition_ok
      compare_condition_ok split: sum.splits)

section \<open>Counting expressions are read back\<close>

definition print_count :: "nat \<Rightarrow> string \<Rightarrow> nat \<Rightarrow> string" where
  "print_count n op k = ''$s'' @ nat_digits n @ ''._count'' @ op @ nat_digits k"

definition print_distinct :: "nat \<Rightarrow> string \<Rightarrow> string \<Rightarrow> nat \<Rightarrow> string" where
  "print_distinct n f op k = ''len(distinct($s'' @ nat_digits n @ ''.'' @ f @ ''))'' @ op @ nat_digits k"

lemma takeWhile_all: "list_all P xs \<Longrightarrow> \<not> P c \<Longrightarrow> takeWhile P (xs @ c # r) = xs \<and> dropWhile P (xs @ c # r) = c # r"
  by (induction xs) auto

lemma nat_digits_head: "1 \<le> n \<Longrightarrow> \<exists>c r. nat_digits n = c # r \<and> is_digit c \<and> c \<noteq> CHR ''0''"
proof (induction n rule: nat_digits.induct)
  case (1 n)
  show ?case
  proof (cases "n < 10")
    case True
    have "char_of (48 + n) \<noteq> CHR ''0''"
    proof
      assume "char_of (48 + n) = CHR ''0''"
      then have "byte (char_of (48 + n) :: char) = byte (CHR ''0'')" by simp
      then show False using True 1(2) by simp
    qed
    then show ?thesis using True by (simp add: nat_digits.simps[of n] is_digit_def)
  next
    case False
    then have "1 \<le> n div 10" by simp
    then show ?thesis using 1(1)[OF False] False by (auto simp: nat_digits.simps[of n])
  qed
qed

lemma scan_sel_print:
  assumes "1 \<le> n" "\<not> is_digit c"
  shows "scan_sel (''$s'' @ nat_digits n @ c # r) = Some (nat_digits n, c # r)"
proof -
  obtain d u where d: "nat_digits n = d # u" "is_digit d" "d \<noteq> CHR ''0''"
    using nat_digits_head[OF assms(1)] by blast
  have "list_all is_digit (d # u)" using nat_digits_wf[of n] d by simp
  from takeWhile_all[OF this assms(2), of r] d show ?thesis
    by (simp add: scan_sel_def expect_def)
qed

lemma skip_digits: "skip_ws (nat_digits k) = nat_digits k"
  using nat_digits_wf[of k] by (cases "nat_digits k") (auto simp: is_digit_def re_space_def)

lemma scan_tail_print: "op \<in> set operators \<Longrightarrow> scan_tail (op @ nat_digits k) = Some (op, nat_digits k)"
proof -
  obtain d u where d: "nat_digits k = d # u" "is_digit d"
    using nat_digits_wf[of k] by (cases "nat_digits k") auto
  have ne: "d \<noteq> CHR ''=''" using d(2) by (auto simp: is_digit_def)
  assume "op \<in> set operators"
  then have "skip_ws (op @ nat_digits k) = op @ nat_digits k"
    by (auto simp: operators_def re_space_def)
  moreover have "scan_op (op @ nat_digits k) = Some (op, nat_digits k)"
    using \<open>op \<in> set operators\<close> ne by (auto simp: operators_def scan_op_def d(1))
  ultimately show ?thesis using nat_digits_wf[of k] skip_digits[of k]
    by (simp add: scan_tail_def Let_def del: dropWhile_eq_Nil_conv)
qed

lemma ascii_digits: "list_all (\<lambda>c. byte c < 128) (nat_digits n)"
  using nat_digits_wf[of n] by (auto simp: list_all_iff is_digit_def)

lemma ends_in_digit:
  obtains v d where "nat_digits k = v @ [d]" "byte d < 128" "\<not> is_space (byte d)"
proof -
  obtain v d where "nat_digits k = v @ [d]" using nat_digits_wf[of k] by (metis rev_exhaust)
  moreover from this have "is_digit d" using nat_digits_wf[of k] by simp
  ultimately show thesis using that[of v d] by (auto simp: is_digit_def is_space_def)
qed

lemma trim_before_digits:
  assumes "byte c < 128" "\<not> is_space (byte c)" "list_all (\<lambda>c. byte c < 128) u"
  shows "trim_space (c # u @ nat_digits k) = c # u @ nat_digits k"
proof -
  obtain v d where vd: "nat_digits k = v @ [d]" "byte d < 128" "\<not> is_space (byte d)" by (rule ends_in_digit)
  show ?thesis
    by (rule trim_space_id[where v = "c # u @ v" and d = d])
      (use assms vd ascii_digits[of k] in \<open>simp_all\<close>)
qed

lemma ops_ascii: "op \<in> set operators \<Longrightarrow> list_all (\<lambda>c. byte c < 128) op"
  by (auto simp: operators_def)

lemma parse_print_count:
  assumes "1 \<le> n" "n \<le> MaxFlowSelections" "op \<in> set operators" "k < 2 ^ 63"
  shows "parseCountExpression (print_count n op k) =
    Inr \<lparr>ce_sigmaIdx = int n - 1, ce_field = [], ce_distinct = False, ce_operation = op,
      ce_threshold = int k\<rparr>"
proof -
  have "trim_space (print_count n op k) = print_count n op k"
    using trim_before_digits[of "CHR ''$''" "''s'' @ nat_digits n @ ''._count'' @ op" k] ops_ascii[OF assms(3)]
      ascii_digits[of n]
    by (simp add: print_count_def is_space_def)
  moreover have "count_re1 (print_count n op k) = Some (nat_digits n, [], op, nat_digits k)"
    using scan_sel_print[OF assms(1), of "CHR ''.''" "''_count'' @ op @ nat_digits k"]
      scan_tail_print[OF assms(3), of k]
    by (simp add: print_count_def count_re1_def is_digit_def expect_def)
  moreover have "parse_int (nat_digits n) = Some (int n)" "parse_int (nat_digits k) = Some (int k)"
    using assms by (simp_all add: parse_int_nat_digits MaxFlowSelections_def)
  ultimately show ?thesis using assms(1,2)
    by (simp add: parseCountExpression_def count_specs_def)
qed

lemma parse_print_distinct:
  assumes "1 \<le> n" "n \<le> MaxFlowSelections" "op \<in> set operators" "k < 2 ^ 63"
    and "f \<noteq> []" "list_all field_char f"
  shows "parseCountExpression (print_distinct n f op k) =
    Inr \<lparr>ce_sigmaIdx = int n - 1, ce_field = f, ce_distinct = True, ce_operation = op,
      ce_threshold = int k\<rparr>"
proof -
  have fa: "list_all (\<lambda>c. byte c < 128) f"
    using assms(6) by (auto simp: list_all_iff field_char_def is_digit_def)
  have "trim_space (print_distinct n f op k) = print_distinct n f op k"
    using trim_before_digits[of "CHR ''l''" "''en(distinct($s'' @ nat_digits n @ ''.'' @ f @ ''))'' @ op" k]
      ops_ascii[OF assms(3)] ascii_digits[of n] fa
    by (simp add: print_distinct_def is_space_def)
  moreover have "count_re1 (print_distinct n f op k) = None" "count_re2 (print_distinct n f op k) = None"
    by (simp_all add: print_distinct_def count_re1_def count_re2_def scan_sel_def expect_def re_space_def)
  moreover have "scan_sel_field (''$s'' @ nat_digits n @ ''.'' @ f @ ''))'' @ op @ nat_digits k)
      = Some (nat_digits n, f, ''))'' @ op @ nat_digits k)"
    using scan_sel_print[OF assms(1), of "CHR ''.''" "f @ ''))'' @ op @ nat_digits k"]
      takeWhile_all[OF assms(6), of "CHR '')''" "CHR '')'' # op @ nat_digits k"] assms(5)
    by (simp add: scan_sel_field_def expect_def field_char_def is_digit_def)
  then have "count_re3 (print_distinct n f op k) = Some (nat_digits n, f, op, nat_digits k)"
    using scan_tail_print[OF assms(3), of k]
    by (simp add: print_distinct_def count_re3_def expect_def re_space_def)
  moreover have "parse_int (nat_digits n) = Some (int n)" "parse_int (nat_digits k) = Some (int k)"
    using assms by (simp_all add: parse_int_nat_digits MaxFlowSelections_def)
  ultimately show ?thesis using assms(1,2)
    by (simp add: parseCountExpression_def count_specs_def)
qed

end
