(* ===== verification/Flow_Expr.thy ===== *)
theory Flow_Expr
  imports Flow_Condition
begin

text \<open>
  The \<open>match_by\<close> expression of a flow rule (\<open>engine/flow/match_expr.go\<close>): a recursive-descent
  parser over a byte position, \<open>OR\<close> over \<open>AND\<close> over \<open>NOT\<close>, parentheses, and conditions read up to the
  next keyword outside brackets and quotes. The parser's calls and loops carry a fuel argument;
  \<open>parse_fuel\<close> is always enough (lemma \<open>parse_total\<close>).
\<close>

section \<open>Expressions\<close>

datatype matchExprNode =
    MatchExprCondition condition
  | MatchExprAnd matchExprNode matchExprNode
  | MatchExprOr matchExprNode matchExprNode
  | MatchExprNot matchExprNode

fun collectConditions :: "matchExprNode \<Rightarrow> condition list" where
  "collectConditions (MatchExprCondition c) = [c]"
| "collectConditions (MatchExprNot l) = collectConditions l"
| "collectConditions (MatchExprAnd l r) = collectConditions l @ collectConditions r"
| "collectConditions (MatchExprOr l r) = collectConditions l @ collectConditions r"

section \<open>Scanning\<close>

definition isLogicalDelimiter :: "nat \<Rightarrow> bool" where
  "isLogicalDelimiter r \<longleftrightarrow> is_space r \<or> r = 40 \<or> r = 41"

definition keywordAt :: "string \<Rightarrow> nat \<Rightarrow> string \<Rightarrow> bool" where
  "keywordAt src pos keyword =
     (if pos + length keyword > length src then False
      else if \<not> equal_fold (take (length keyword) (drop pos src)) keyword then False
      else let beforeOK = (pos = 0 \<or> isLogicalDelimiter (byte (src ! (pos - 1))));
               after = pos + length keyword;
               afterOK = (after = length src \<or> isLogicalDelimiter (byte (src ! after)))
           in beforeOK \<and> afterOK)"

function skipSpaces :: "string \<Rightarrow> nat \<Rightarrow> nat" where
  "skipSpaces src pos =
     (if pos < length src \<and> is_space (byte (src ! pos)) then skipSpaces src (pos + 1) else pos)"
  by pat_completeness auto
termination
  by (relation "measure (\<lambda>(src, pos). length src - pos)") auto

declare skipSpaces.simps [simp del]

definition consumeKeyword :: "string \<Rightarrow> nat \<Rightarrow> string \<Rightarrow> bool \<times> nat" where
  "consumeKeyword src pos keyword =
     (let pos' = skipSpaces src pos in
      if \<not> keywordAt src pos' keyword then (False, pos') else (True, pos' + length keyword))"

text \<open>The loop of \<open>readCondition\<close>: it returns the position where the condition ends.\<close>

definition dquote :: char where "dquote = CHR 0x22"
definition squote :: char where "squote = CHR 0x27"

text \<open>The \<open>switch\<close> on the character: the new quote state and depths, or \<^const>\<open>None\<close> for the return
  at an unbalanced closing parenthesis.\<close>

definition read_switch :: "char \<Rightarrow> nat \<Rightarrow> nat \<Rightarrow> (char option \<times> nat \<times> nat) option" where
  "read_switch ch paren bracket =
     (if ch = dquote \<or> ch = squote then Some (Some ch, paren, bracket)
      else if ch = CHR ''['' then Some (None, paren, bracket + 1)
      else if ch = CHR '']'' then Some (None, paren, if bracket > 0 then bracket - 1 else bracket)
      else if ch = CHR ''('' then Some (None, if bracket = 0 then paren + 1 else paren, bracket)
      else if ch = CHR '')'' then
        (if bracket = 0 then (if paren = 0 then None else Some (None, paren - 1, bracket))
         else Some (None, paren, bracket))
      else Some (None, paren, bracket))"

function readCondition_loop :: "string \<Rightarrow> nat \<Rightarrow> char option \<Rightarrow> nat \<Rightarrow> nat \<Rightarrow> nat" where
  "readCondition_loop src pos inQuote paren bracket =
     (if pos < length src then
        (let ch = src ! pos in
         case inQuote of
           Some q \<Rightarrow>
             if ch = CHR 0x5C \<and> pos + 1 < length src
             then readCondition_loop src (pos + 2) inQuote paren bracket
             else readCondition_loop src (pos + 1) (if ch = q then None else inQuote) paren bracket
         | None \<Rightarrow>
             (case read_switch ch paren bracket of
                None \<Rightarrow> pos
              | Some (q, paren', bracket') \<Rightarrow>
                  if bracket' = 0 \<and> paren' = 0 \<and> (keywordAt src pos ''AND'' \<or> keywordAt src pos ''OR'')
                  then pos
                  else readCondition_loop src (pos + 1) q paren' bracket'))
      else pos)"
  by pat_completeness auto
termination
  by (relation "measure (\<lambda>(src, pos, _). length src - pos)") auto

declare readCondition_loop.simps [simp del]

definition readCondition :: "string \<Rightarrow> nat \<Rightarrow> string \<times> nat" where
  "readCondition src start =
     (let pos = readCondition_loop src start None 0 0 in
      (trim_space (take (pos - start) (drop start src)), pos))"

section \<open>The parser\<close>

text \<open>A result is \<^const>\<open>None\<close> when the fuel runs out, otherwise an error text or a node with the
  position after it.\<close>

type_synonym parse_result = "(string + matchExprNode \<times> nat) option"

definition quoted :: "string \<Rightarrow> string" where
  "quoted s = [dquote] @ s @ [dquote]"

definition bind_parse :: "parse_result \<Rightarrow> (matchExprNode \<Rightarrow> nat \<Rightarrow> parse_result) \<Rightarrow> parse_result" where
  "bind_parse r f = (case r of
     None \<Rightarrow> None
   | Some (Inl e) \<Rightarrow> Some (Inl e)
   | Some (Inr (n, pos)) \<Rightarrow> f n pos)"

lemma bind_parse_simps [simp]:
  "bind_parse None f = None" "bind_parse (Some (Inl e)) f = Some (Inl e)"
  "bind_parse (Some (Inr (n, p))) f = f n p"
  by (simp_all add: bind_parse_def)

definition parse_leaf :: "go_ext \<Rightarrow> string \<Rightarrow> nat \<Rightarrow> string + matchExprNode \<times> nat" where
  "parse_leaf E src pos =
     (let (conditionText, pos') = readCondition src pos in
      if conditionText = []
      then Inl (''missing condition near '' @ quoted (trim_space (drop pos' src)))
      else let c = parseCondition E conditionText in
        if \<not> valid c then Inl (''invalid condition '' @ quoted (trim_space conditionText))
        else Inr (MatchExprCondition c, pos'))"

text \<open>The five mutually recursive pieces of the parser: the three methods and the loops of the first
  two, each as a call with the arguments it gets.\<close>

datatype call = ParseOr nat | OrLoop matchExprNode nat | ParseAnd nat | AndLoop matchExprNode nat
  | ParseUnary nat

primrec parse_call :: "nat \<Rightarrow> go_ext \<Rightarrow> string \<Rightarrow> call \<Rightarrow> parse_result" where
  "parse_call 0 E src c = None"
| "parse_call (Suc n) E src c =
     (case c of
        ParseOr pos \<Rightarrow>
          bind_parse (parse_call n E src (ParseAnd pos)) (\<lambda>left pos. parse_call n E src (OrLoop left pos))
      | OrLoop left pos \<Rightarrow>
          (let (found, pos) = consumeKeyword src pos ''OR'' in
           if \<not> found then Some (Inr (left, pos))
           else bind_parse (parse_call n E src (ParseAnd pos)) (\<lambda>right pos.
             parse_call n E src (OrLoop (MatchExprOr left right) pos)))
      | ParseAnd pos \<Rightarrow>
          bind_parse (parse_call n E src (ParseUnary pos)) (\<lambda>left pos. parse_call n E src (AndLoop left pos))
      | AndLoop left pos \<Rightarrow>
          (let (found, pos) = consumeKeyword src pos ''AND'' in
           if \<not> found then Some (Inr (left, pos))
           else bind_parse (parse_call n E src (ParseUnary pos)) (\<lambda>right pos.
             parse_call n E src (AndLoop (MatchExprAnd left right) pos)))
      | ParseUnary pos \<Rightarrow>
          (let pos = skipSpaces src pos in
           if pos \<ge> length src then Some (Inl ''missing expression'')
           else let (found, pos) = consumeKeyword src pos ''NOT'' in
             if found then
               bind_parse (parse_call n E src (ParseUnary pos)) (\<lambda>child pos.
                 Some (Inr (MatchExprNot child, pos)))
             else if src ! pos = CHR ''('' then
               bind_parse (parse_call n E src (ParseOr (pos + 1))) (\<lambda>expr pos.
                 let pos = skipSpaces src pos in
                 if pos \<ge> length src \<or> src ! pos \<noteq> CHR '')''
                 then Some (Inl ''missing closing parenthesis'') else Some (Inr (expr, pos + 1)))
             else Some (parse_leaf E src pos)))"

definition parse_fuel :: "string \<Rightarrow> nat" where
  "parse_fuel src = 3 * length src + 3"

definition parseMatchExpression :: "go_ext \<Rightarrow> string \<Rightarrow> (string + matchExprNode \<times> condition list) option" where
  "parseMatchExpression E matchBy =
     (case parse_call (parse_fuel matchBy) E matchBy (ParseOr 0) of
        None \<Rightarrow> None
      | Some (Inl e) \<Rightarrow> Some (Inl e)
      | Some (Inr (expr, pos)) \<Rightarrow>
          let pos = skipSpaces matchBy pos in
          if pos \<noteq> length matchBy
          then Some (Inl (''unexpected token near '' @ quoted (trim_space (drop pos matchBy))))
          else Some (Inr (expr, collectConditions expr)))"

section \<open>Progress and termination\<close>

lemma skipSpaces_bounds: "pos \<le> skipSpaces src pos \<and> (pos \<le> length src \<longrightarrow> skipSpaces src pos \<le> length src)"
proof (induction src pos rule: skipSpaces.induct)
  case (1 src pos)
  then show ?case by (auto simp: skipSpaces.simps[of src pos])
qed

lemma keywordAt_length: "keywordAt src pos kw \<Longrightarrow> pos + length kw \<le> length src"
  by (simp add: keywordAt_def split: if_splits)

lemma consumeKeyword_bounds:
  assumes "consumeKeyword src pos kw = (found, pos')" "pos \<le> length src"
  shows "pos \<le> pos' \<and> pos' \<le> length src \<and> (found \<longrightarrow> pos + length kw \<le> pos')"
  using assms skipSpaces_bounds[of pos src] keywordAt_length[of src "skipSpaces src pos" kw]
  by (auto simp: consumeKeyword_def Let_def split: if_splits)

lemma readCondition_loop_bounds:
  "pos \<le> length src \<Longrightarrow> pos \<le> readCondition_loop src pos q p b \<and> readCondition_loop src pos q p b \<le> length src"
proof (induction src pos q p b rule: readCondition_loop.induct)
  case (1 src pos q p b)
  show ?case
  proof (cases "pos < length src")
    case False
    then have "readCondition_loop src pos q p b = pos" by (subst readCondition_loop.simps) simp
    then show ?thesis using "1.prems" by simp
  next
    case True
    have "pos \<le> m \<and> m \<le> length src" if "pos + 1 \<le> m \<and> m \<le> length src \<or> pos + 2 \<le> m \<and> m \<le> length src" for m
      using that by auto
    then show ?thesis
      using 1(1-3)[OF True refl] True
      by (auto simp: readCondition_loop.simps[of src pos] Let_def split: option.splits)
  qed
qed

lemma parse_leaf_progress:
  assumes "parse_leaf E src pos = Inr (nd, pos')" "pos \<le> length src"
  shows "pos < pos' \<and> pos' \<le> length src"
proof -
  let ?m = "readCondition_loop src pos None 0 0"
  have b: "pos \<le> ?m" "?m \<le> length src" using readCondition_loop_bounds[OF assms(2)] by blast+
  have p: "pos' = ?m" and ne: "trim_space (take (?m - pos) (drop pos src)) \<noteq> []"
    using assms(1) by (auto simp: parse_leaf_def readCondition_def Let_def split: if_splits)
  have "?m \<noteq> pos"
  proof
    assume "?m = pos"
    then show False using ne by (simp add: trim_space_def)
  qed
  then show ?thesis using p b by simp
qed

fun call_pos :: "call \<Rightarrow> nat" where
  "call_pos (ParseOr p) = p"
| "call_pos (OrLoop l p) = p"
| "call_pos (ParseAnd p) = p"
| "call_pos (AndLoop l p) = p"
| "call_pos (ParseUnary p) = p"

fun call_weight :: "call \<Rightarrow> nat" where
  "call_weight (ParseOr p) = 3"
| "call_weight (OrLoop l p) = 3"
| "call_weight (ParseAnd p) = 2"
| "call_weight (AndLoop l p) = 2"
| "call_weight (ParseUnary p) = 1"

fun call_consumes :: "call \<Rightarrow> bool" where
  "call_consumes (OrLoop l p) = False"
| "call_consumes (AndLoop l p) = False"
| "call_consumes _ = True"

definition parsed :: "string \<Rightarrow> nat \<Rightarrow> bool \<Rightarrow> parse_result \<Rightarrow> bool" where
  "parsed src pos strict r \<longleftrightarrow>
     (\<exists>v. r = Some v \<and> (\<forall>nd p. v = Inr (nd, p) \<longrightarrow>
        pos \<le> p \<and> p \<le> length src \<and> (strict \<longrightarrow> pos < p)))"

lemma parsed_bind:
  assumes "parsed src pos strict r"
    and "\<And>nd p. pos \<le> p \<Longrightarrow> p \<le> length src \<Longrightarrow> strict \<longrightarrow> pos < p \<Longrightarrow> parsed src pos' strict' (f nd p)"
  shows "parsed src pos' strict' (bind_parse r f)"
proof -
  obtain v where v: "r = Some v" using assms(1) by (auto simp: parsed_def)
  show ?thesis
  proof (cases v)
    case (Inl e)
    then show ?thesis using v by (simp add: parsed_def)
  next
    case (Inr x)
    obtain nd p where "x = (nd, p)" by fastforce
    then show ?thesis using v Inr assms by (simp add: parsed_def)
  qed
qed

lemma parsed_weaken: "parsed src pos strict r \<Longrightarrow> pos' \<le> pos \<Longrightarrow> (strict' \<Longrightarrow> strict \<or> pos' < pos) \<Longrightarrow> parsed src pos' strict' r"
  unfolding parsed_def by fastforce

lemma parse_enough:
  "call_pos c \<le> length src \<Longrightarrow> 3 * (length src - call_pos c) + call_weight c \<le> n \<Longrightarrow>
   parsed src (call_pos c) (call_consumes c) (parse_call n E src c)"
proof (induction n arbitrary: c)
  case 0
  then show ?case by (cases c) simp_all
next
  case (Suc n)
  have IH: "parsed src pos' strict' (parse_call n E src c')"
    if "call_pos c' \<le> length src" "3 * (length src - call_pos c') + call_weight c' \<le> n"
      "pos' \<le> call_pos c'" "strict' \<Longrightarrow> call_consumes c' \<or> pos' < call_pos c'" for c' pos' strict'
    using parsed_weaken[OF Suc.IH[OF that(1,2)] that(3)] that(4) by blast
  show ?case
  proof (cases c)
    case (ParseOr pos)
    then show ?thesis using Suc.prems
      by (auto intro!: parsed_bind[where pos = pos and strict = True] IH)
  next
    case (ParseAnd pos)
    then show ?thesis using Suc.prems
      by (auto intro!: parsed_bind[where pos = pos and strict = True] IH)
  next
    case (OrLoop l pos)
    obtain found pos1 where k: "consumeKeyword src pos ''OR'' = (found, pos1)" by fastforce
    note b = consumeKeyword_bounds[OF k]
    show ?thesis
    proof (cases found)
      case False
      then show ?thesis using OrLoop k b Suc.prems by (auto simp: parsed_def)
    next
      case True
      then have "pos + 2 \<le> pos1" "pos1 \<le> length src" using b OrLoop Suc.prems by simp_all
      then show ?thesis using OrLoop k True Suc.prems
        by (auto intro!: parsed_bind[where pos = pos1 and strict = True] IH)
    qed
  next
    case (AndLoop l pos)
    obtain found pos1 where k: "consumeKeyword src pos ''AND'' = (found, pos1)" by fastforce
    note b = consumeKeyword_bounds[OF k]
    show ?thesis
    proof (cases found)
      case False
      then show ?thesis using AndLoop k b Suc.prems by (auto simp: parsed_def)
    next
      case True
      then have "pos + 3 \<le> pos1" "pos1 \<le> length src" using b AndLoop Suc.prems by simp_all
      then show ?thesis using AndLoop k True Suc.prems
        by (auto intro!: parsed_bind[where pos = pos1 and strict = True] IH)
    qed
  next
    case (ParseUnary pos)
    define p0 where "p0 = skipSpaces src pos"
    have p0: "pos \<le> p0" "p0 \<le> length src"
      using skipSpaces_bounds[of pos src] ParseUnary Suc.prems by (simp_all add: p0_def)
    obtain found pos1 where k: "consumeKeyword src p0 ''NOT'' = (found, pos1)" by fastforce
    note b = consumeKeyword_bounds[OF k p0(2)]
    consider "length src \<le> p0" | "p0 < length src" found | "p0 < length src" "\<not> found" "src ! pos1 = CHR ''(''"
      "pos1 < length src" | "p0 < length src" "\<not> found" "src ! pos1 \<noteq> CHR ''('' \<or> length src \<le> pos1"
      by linarith
    then show ?thesis
    proof cases
      case 1
      then show ?thesis using ParseUnary by (simp add: p0_def parsed_def)
    next
      case 2
      then have "pos + 3 \<le> pos1" "pos1 \<le> length src" using b p0 by simp_all
      then show ?thesis using ParseUnary k 2 Suc.prems
        by (auto simp: p0_def[symmetric] parsed_def[of src pos True "Some _"]
            intro!: parsed_bind[where pos = pos1 and strict = True] IH)
    next
      case 3
      then have "pos \<le> pos1" using b p0 by simp
      have close: "parsed src pos True
          (let p = skipSpaces src p in
           if p \<ge> length src \<or> src ! p \<noteq> CHR '')''
           then Some (Inl ''missing closing parenthesis'') else Some (Inr (nd, p + 1)))"
        if "pos1 + 1 \<le> p" "p \<le> length src" for nd p
        using that skipSpaces_bounds[of p src] \<open>pos \<le> pos1\<close> by (auto simp: parsed_def Let_def)
      show ?thesis using ParseUnary k 3 Suc.prems \<open>pos \<le> pos1\<close> close
        by (auto simp: p0_def[symmetric] intro!: parsed_bind[where pos = "pos1 + 1" and strict = True] IH)
    next
      case 4
      have "pos1 = p0"
      proof -
        have "skipSpaces src p0 = p0" unfolding p0_def
        proof (induction src pos rule: skipSpaces.induct)
          case (1 src pos)
          then show ?case by (cases "pos < length src \<and> is_space (byte (src ! pos))")
            (simp_all add: skipSpaces.simps[of src pos] skipSpaces.simps)
        qed
        then show ?thesis using k 4(2) by (auto simp: consumeKeyword_def Let_def split: if_splits)
      qed
      then have "\<not> length src \<le> pos1" using 4(1) by simp
      then have "parse_call (Suc n) E src c = Some (parse_leaf E src pos1)"
        using ParseUnary k 4 by (simp add: p0_def[symmetric])
      moreover have "pos1 < p \<and> p \<le> length src" if "parse_leaf E src pos1 = Inr (nd, p)" for nd p
        using parse_leaf_progress[OF that] b by simp
      ultimately show ?thesis using ParseUnary b p0 by (fastforce simp: parsed_def)
    qed
  qed
qed

lemma parse_total: "\<exists>r. parseMatchExpression E s = Some r"
proof -
  have "parsed s 0 True (parse_call (parse_fuel s) E s (ParseOr 0))"
    using parse_enough[of "ParseOr 0" s "parse_fuel s" E] by (simp add: parse_fuel_def)
  then obtain v where "parse_call (parse_fuel s) E s (ParseOr 0) = Some v" by (auto simp: parsed_def)
  then show ?thesis
    by (cases v) (auto simp: parseMatchExpression_def Let_def split: prod.splits)
qed

section \<open>The parser as a relation\<close>

definition parses :: "go_ext \<Rightarrow> string \<Rightarrow> call \<Rightarrow> string + matchExprNode \<times> nat \<Rightarrow> bool" where
  "parses E src c r \<longleftrightarrow> (\<exists>n. parse_call n E src c = Some r)"

lemma bind_parse_mono:
  assumes "bind_parse r f = Some v" "\<And>x. r = Some x \<Longrightarrow> r' = Some x"
    "\<And>nd p x. f nd p = Some x \<Longrightarrow> f' nd p = Some x"
  shows "bind_parse r' f' = Some v"
  using assms by (auto simp: bind_parse_def split: option.splits sum.splits prod.splits)

lemma parse_call_Suc: "parse_call n E src c = Some r \<Longrightarrow> parse_call (Suc n) E src c = Some r"
proof (induction n arbitrary: c r)
  case (Suc n)
  show ?case
  proof (cases c)
    case (ParseOr p)
    show ?thesis using Suc.prems ParseOr
      by (auto simp del: parse_call.simps(2) simp: parse_call.simps(2)[of _ E src "ParseOr p"]
          elim!: bind_parse_mono intro: Suc.IH)
  next
    case (ParseAnd p)
    show ?thesis using Suc.prems ParseAnd
      by (auto simp del: parse_call.simps(2) simp: parse_call.simps(2)[of _ E src "ParseAnd p"]
          elim!: bind_parse_mono intro: Suc.IH)
  next
    case (OrLoop l p)
    show ?thesis using Suc.prems OrLoop
      by (auto simp del: parse_call.simps(2) simp: parse_call.simps(2)[of _ E src "OrLoop l p"] Let_def
          split: prod.splits if_splits elim!: bind_parse_mono intro: Suc.IH)
  next
    case (AndLoop l p)
    show ?thesis using Suc.prems AndLoop
      by (auto simp del: parse_call.simps(2) simp: parse_call.simps(2)[of _ E src "AndLoop l p"] Let_def
          split: prod.splits if_splits elim!: bind_parse_mono intro: Suc.IH)
  next
    case (ParseUnary p)
    show ?thesis using Suc.prems ParseUnary
      by (auto simp del: parse_call.simps(2) simp: parse_call.simps(2)[of _ E src "ParseUnary p"] Let_def
          split: prod.splits if_splits elim!: bind_parse_mono intro: Suc.IH)
  qed
qed simp

lemma parse_call_mono: "parse_call n E src c = Some r \<Longrightarrow> n \<le> m \<Longrightarrow> parse_call m E src c = Some r"
  by (induction m) (auto simp: le_Suc_eq simp del: parse_call.simps intro: parse_call_Suc)

lemma parses_run: "parses E src (ParseOr 0) r \<Longrightarrow> parse_call (parse_fuel src) E src (ParseOr 0) = Some r"
proof -
  assume "parses E src (ParseOr 0) r"
  then obtain n where n: "parse_call n E src (ParseOr 0) = Some r" by (auto simp: parses_def)
  have "parsed src 0 True (parse_call (parse_fuel src) E src (ParseOr 0))"
    using parse_enough[of "ParseOr 0" src "parse_fuel src" E] by (simp add: parse_fuel_def)
  then obtain v where v: "parse_call (parse_fuel src) E src (ParseOr 0) = Some v" by (auto simp: parsed_def)
  from parse_call_mono[OF n, of "max n (parse_fuel src)"] parse_call_mono[OF v, of "max n (parse_fuel src)"] v
  show ?thesis by simp
qed

lemma parses_two:
  assumes "parses E src c r" "parses E src d s"
  obtains n where "parse_call n E src c = Some r" "parse_call n E src d = Some s"
proof -
  obtain n m where "parse_call n E src c = Some r" "parse_call m E src d = Some s"
    using assms by (auto simp: parses_def)
  then show thesis
    using that[of "max n m"] parse_call_mono[of n E src c r "max n m"] parse_call_mono[of m E src d s "max n m"]
    by simp
qed

lemma parses_Or:
  assumes "parses E src (ParseAnd p) (Inr (l, q))" "parses E src (OrLoop l q) r"
  shows "parses E src (ParseOr p) r"
proof -
  obtain n where "parse_call n E src (ParseAnd p) = Some (Inr (l, q))" "parse_call n E src (OrLoop l q) = Some r"
    by (rule parses_two[OF assms])
  then have "parse_call (Suc n) E src (ParseOr p) = Some r" by simp
  then show ?thesis unfolding parses_def by blast
qed

lemma parses_And:
  assumes "parses E src (ParseUnary p) (Inr (l, q))" "parses E src (AndLoop l q) r"
  shows "parses E src (ParseAnd p) r"
proof -
  obtain n where "parse_call n E src (ParseUnary p) = Some (Inr (l, q))" "parse_call n E src (AndLoop l q) = Some r"
    by (rule parses_two[OF assms])
  then have "parse_call (Suc n) E src (ParseAnd p) = Some r" by simp
  then show ?thesis unfolding parses_def by blast
qed

lemma parses_loop_stop:
  "consumeKeyword src p ''OR'' = (False, q) \<Longrightarrow> parses E src (OrLoop l p) (Inr (l, q))"
  "consumeKeyword src p ''AND'' = (False, q) \<Longrightarrow> parses E src (AndLoop l p) (Inr (l, q))"
  unfolding parses_def by (rule exI[of _ 1], simp)+

lemma parses_OrLoop:
  assumes "consumeKeyword src p ''OR'' = (True, q)" "parses E src (ParseAnd q) (Inr (r, p'))"
    "parses E src (OrLoop (MatchExprOr l r) p') v"
  shows "parses E src (OrLoop l p) v"
proof -
  obtain n where "parse_call n E src (ParseAnd q) = Some (Inr (r, p'))"
    "parse_call n E src (OrLoop (MatchExprOr l r) p') = Some v"
    by (rule parses_two[OF assms(2,3)])
  then have "parse_call (Suc n) E src (OrLoop l p) = Some v" using assms(1) by simp
  then show ?thesis unfolding parses_def by blast
qed

lemma parses_AndLoop:
  assumes "consumeKeyword src p ''AND'' = (True, q)" "parses E src (ParseUnary q) (Inr (r, p'))"
    "parses E src (AndLoop (MatchExprAnd l r) p') v"
  shows "parses E src (AndLoop l p) v"
proof -
  obtain n where "parse_call n E src (ParseUnary q) = Some (Inr (r, p'))"
    "parse_call n E src (AndLoop (MatchExprAnd l r) p') = Some v"
    by (rule parses_two[OF assms(2,3)])
  then have "parse_call (Suc n) E src (AndLoop l p) = Some v" using assms(1) by simp
  then show ?thesis unfolding parses_def by blast
qed

lemma parses_Not:
  assumes "skipSpaces src p < length src" "consumeKeyword src (skipSpaces src p) ''NOT'' = (True, q)"
    "parses E src (ParseUnary q) (Inr (u, p'))"
  shows "parses E src (ParseUnary p) (Inr (MatchExprNot u, p'))"
proof -
  obtain n where "parse_call n E src (ParseUnary q) = Some (Inr (u, p'))"
    using assms(3) by (auto simp: parses_def)
  then have "parse_call (Suc n) E src (ParseUnary p) = Some (Inr (MatchExprNot u, p'))" using assms(1,2) by simp
  then show ?thesis unfolding parses_def by blast
qed

lemma parses_Group:
  assumes "skipSpaces src p < length src" "consumeKeyword src (skipSpaces src p) ''NOT'' = (False, q)"
    "src ! q = CHR ''(''" "parses E src (ParseOr (q + 1)) (Inr (u, p'))"
    "skipSpaces src p' < length src" "src ! skipSpaces src p' = CHR '')''"
  shows "parses E src (ParseUnary p) (Inr (u, skipSpaces src p' + 1))"
proof -
  obtain n where "parse_call n E src (ParseOr (q + 1)) = Some (Inr (u, p'))"
    using assms(4) by (auto simp: parses_def)
  then have "parse_call (Suc n) E src (ParseUnary p) = Some (Inr (u, skipSpaces src p' + 1))"
    using assms(1,2,3,5,6) by (simp add: Let_def)
  then show ?thesis unfolding parses_def by blast
qed

lemma parses_Leaf:
  assumes "skipSpaces src p < length src" "consumeKeyword src (skipSpaces src p) ''NOT'' = (False, q)"
    "src ! q \<noteq> CHR ''(''" "parse_leaf E src q = Inr x"
  shows "parses E src (ParseUnary p) (Inr x)"
proof -
  have "parse_call 1 E src (ParseUnary p) = Some (Inr x)" using assms by simp
  then show ?thesis unfolding parses_def by blast
qed

section \<open>Words and keywords\<close>

definition cond_char :: "char \<Rightarrow> bool" where
  "cond_char c \<longleftrightarrow> byte c < 128 \<and> \<not> is_space (byte c) \<and>
     c \<notin> {CHR ''('', CHR '')'', CHR ''['', CHR '']'', dquote, squote}"

definition cond_word :: "string \<Rightarrow> bool" where
  "cond_word t \<longleftrightarrow> t \<noteq> [] \<and> list_all cond_char t \<and>
     \<not> equal_fold t ''AND'' \<and> \<not> equal_fold t ''OR'' \<and> \<not> equal_fold t ''NOT''"

definition delim_before :: "string \<Rightarrow> bool" where
  "delim_before pre \<longleftrightarrow> pre = [] \<or> isLogicalDelimiter (byte (last pre))"

definition delim_after :: "string \<Rightarrow> bool" where
  "delim_after rest \<longleftrightarrow> rest = [] \<or> isLogicalDelimiter (byte (hd rest))"

lemma byte_parens: "byte c = 40 \<longleftrightarrow> c = CHR ''(''" "byte c = 41 \<longleftrightarrow> c = CHR '')''"
  using of_char_eq_iff[of c "CHR ''(''", where ?'a = nat] of_char_eq_iff[of c "CHR '')''", where ?'a = nat]
  by simp_all

lemma cond_char_delim: "cond_char c \<Longrightarrow> \<not> isLogicalDelimiter (byte c)"
  by (simp add: cond_char_def isLogicalDelimiter_def byte_parens)

lemma skip_at: "rest = [] \<or> \<not> is_space (byte (hd rest)) \<Longrightarrow> skipSpaces (pre @ rest) (length pre) = length pre"
  by (subst skipSpaces.simps) (cases rest, auto simp: nth_append)

lemma skip_space:
  "rest = [] \<or> \<not> is_space (byte (hd rest)) \<Longrightarrow>
   skipSpaces (pre @ CHR '' '' # rest) (length pre) = length pre + 1"
  using skip_at[of rest "pre @ '' ''"]
  by (subst skipSpaces.simps) (simp add: nth_append is_space_def[of 32])

lemma skipSpaces_idem [simp]: "skipSpaces src (skipSpaces src p) = skipSpaces src p"
proof (induction src p rule: skipSpaces.induct)
  case (1 src p)
  show ?case
  proof (cases "p < length src \<and> is_space (byte (src ! p))")
    case True
    then show ?thesis using 1 by (simp add: skipSpaces.simps[of src p])
  next
    case False
    then have "skipSpaces src p = p" by (subst skipSpaces.simps) auto
    then show ?thesis by simp
  qed
qed

lemma keyword_hit:
  "delim_before pre \<Longrightarrow> delim_after rest \<Longrightarrow> keywordAt (pre @ kw @ rest) (length pre) kw"
proof -
  assume b: "delim_before pre" and a: "delim_after rest"
  have "length pre = 0 \<or> isLogicalDelimiter (byte ((pre @ kw @ rest) ! (length pre - 1)))"
  proof (cases pre rule: rev_cases)
    case (snoc xs x)
    then show ?thesis using b by (simp add: delim_before_def nth_append)
  qed simp
  moreover have "length pre + length kw = length (pre @ kw @ rest) \<or>
      isLogicalDelimiter (byte ((pre @ kw @ rest) ! (length pre + length kw)))"
  proof (cases rest)
    case (Cons x xs)
    have "(pre @ kw @ rest) ! (length pre + length kw) = x"
      using nth_append_length[of "pre @ kw" x xs] by (simp add: Cons)
    then show ?thesis using a by (simp add: delim_after_def Cons)
  qed simp
  ultimately show ?thesis by (simp add: keywordAt_def equal_fold_def Let_def)
qed

lemma lower_letter: "ascii_lower c = d \<Longrightarrow> isLogicalDelimiter (byte c) \<Longrightarrow> 97 \<le> byte d \<Longrightarrow> byte d \<le> 122 \<Longrightarrow> False"
  by (auto simp: ascii_lower_def isLogicalDelimiter_def is_space_def split: if_splits)

definition keyword :: "string \<Rightarrow> bool" where
  "keyword kw \<longleftrightarrow> kw \<in> {''AND'', ''OR'', ''NOT''}"

lemma keyword_lower: "keyword kw \<Longrightarrow> d \<in> set (map ascii_lower kw) \<Longrightarrow> 97 \<le> byte d \<and> byte d \<le> 122"
  by (auto simp: keyword_def ascii_lower_def)

lemma keyword_miss:
  assumes "list_all cond_char t" "delim_after rest" "keyword kw" "\<not> equal_fold t kw" "k < length t"
  shows "\<not> keywordAt (pre @ t @ rest) (length pre + k) kw"
proof
  assume hit: "keywordAt (pre @ t @ rest) (length pre + k) kw"
  have inner: "\<not> isLogicalDelimiter (byte (t ! i))" if "i < length t" for i
    using assms(1) that cond_char_delim by (auto simp: list_all_length)
  show False
  proof (cases "k = 0")
    case False
    then obtain j where j: "k = Suc j" by (cases k) auto
    have "(pre @ t @ rest) ! (length pre + k - 1) = t ! (k - 1)"
      using assms(5) by (simp add: nth_append j)
    then show False using hit False inner[of "k - 1"] assms(5)
      by (auto simp: keywordAt_def Let_def split: if_splits)
  next
    case True
    let ?m = "length kw"
    have fold: "map ascii_lower (take ?m (t @ rest)) = map ascii_lower kw" and len: "?m \<le> length (t @ rest)"
      using hit True by (auto simp: keywordAt_def equal_fold_def Let_def split: if_splits)
    consider "?m < length t" | "?m = length t" | "length t < ?m" by linarith
    then show False
    proof cases
      case 1
      then have "(pre @ t @ rest) ! (length pre + ?m) = t ! ?m" by (simp add: nth_append)
      then show False using hit True 1 inner[OF 1] by (auto simp: keywordAt_def Let_def split: if_splits)
    next
      case 2
      then show False using fold assms(4) by (simp add: equal_fold_def)
    next
      case 3
      then have r: "rest \<noteq> []" "isLogicalDelimiter (byte (hd rest))"
        using len assms(2) by (auto simp: delim_after_def)
      have "(t @ rest) ! length t = hd rest" using r(1) by (simp add: hd_conv_nth nth_append)
      then have "ascii_lower (hd rest) = map ascii_lower kw ! length t"
        using fold 3 len by (metis nth_map nth_take length_take min.absorb2)
      moreover have "map ascii_lower kw ! length t \<in> set (map ascii_lower kw)" using 3 by simp
      ultimately show False using lower_letter[OF _ r(2)] keyword_lower[OF assms(3)] by metis
    qed
  qed
qed

lemma lower_initials: "ascii_lower (CHR ''A'') = CHR ''a''" "ascii_lower (CHR ''O'') = CHR ''o''"
  "ascii_lower (CHR ''N'') = CHR ''n''" "ascii_lower (CHR '' '') = CHR '' ''"
  "ascii_lower (CHR '')'') = CHR '')''" "ascii_lower (CHR ''('') = CHR ''(''"
  by code_simp+

lemma keyword_miss_at:
  assumes "rest = [] \<or> ascii_lower (hd rest) \<noteq> ascii_lower (hd kw)" "kw \<noteq> []"
  shows "\<not> keywordAt (pre @ rest) (length pre) kw"
  using assms by (cases rest; cases kw) (auto simp: keywordAt_def equal_fold_def)

section \<open>Reading one condition\<close>

lemma read_word:
  assumes "list_all cond_char t" "delim_after rest" "\<not> equal_fold t ''AND''" "\<not> equal_fold t ''OR''"
    "k \<le> length t"
  shows "readCondition_loop (pre @ t @ rest) (length pre) None 0 0
    = readCondition_loop (pre @ t @ rest) (length pre + k) None 0 0"
  using assms(5)
proof (induction k)
  case (Suc k)
  then have k: "k < length t" by simp
  have "(pre @ t @ rest) ! (length pre + k) = t ! k" using k by (simp add: nth_append)
  moreover have "read_switch (t ! k) 0 0 = Some (None, 0, 0)"
    using assms(1) k by (auto simp: read_switch_def list_all_length cond_char_def)
  moreover have "\<not> keywordAt (pre @ t @ rest) (length pre + k) ''AND''"
    "\<not> keywordAt (pre @ t @ rest) (length pre + k) ''OR''"
    using keyword_miss[OF assms(1,2) _ _ k] assms(3,4) by (simp_all add: keyword_def)
  ultimately have "readCondition_loop (pre @ t @ rest) (length pre + k) None 0 0
      = readCondition_loop (pre @ t @ rest) (length pre + Suc k) None 0 0"
    using k by (subst readCondition_loop.simps) simp
  then show ?case using Suc by simp
qed simp

text \<open>What may follow a condition.\<close>

definition ends_here :: "string \<Rightarrow> bool" where
  "ends_here rest \<longleftrightarrow> rest = [] \<or> (\<exists>r. rest = CHR '')'' # r)"

definition next_keyword :: "string \<Rightarrow> string \<Rightarrow> bool" where
  "next_keyword kw rest \<longleftrightarrow> (\<exists>r. rest = '' '' @ kw @ '' '' @ r)"

definition follows :: "string \<Rightarrow> bool" where
  "follows rest \<longleftrightarrow> ends_here rest \<or> next_keyword ''AND'' rest \<or> next_keyword ''OR'' rest"

lemma follows_delim: "follows rest \<Longrightarrow> delim_after rest"
  by (auto simp: follows_def ends_here_def next_keyword_def delim_after_def isLogicalDelimiter_def is_space_def)

lemma read_end:
  assumes "follows rest"
  shows "readCondition_loop (pre @ rest) (length pre) None 0 0
    = length pre + (if ends_here rest then 0 else 1)"
proof (cases "ends_here rest")
  case True
  then show ?thesis
    by (subst readCondition_loop.simps)
      (auto simp: ends_here_def read_switch_def dquote_def squote_def)
next
  case False
  then obtain kw r where kw: "rest = '' '' @ kw @ '' '' @ r" "kw = ''AND'' \<or> kw = ''OR''"
    using assms unfolding follows_def next_keyword_def by blast
  have "\<not> keywordAt (pre @ rest) (length pre) ''AND''" "\<not> keywordAt (pre @ rest) (length pre) ''OR''"
    by (rule keyword_miss_at; simp add: kw lower_initials)+
  then have one: "readCondition_loop (pre @ rest) (length pre) None 0 0
      = readCondition_loop (pre @ rest) (length pre + 1) None 0 0"
    by (subst readCondition_loop.simps) (simp add: kw read_switch_def dquote_def squote_def Let_def)
  have "keywordAt (pre @ rest) (length pre + 1) kw"
    using keyword_hit[of "pre @ '' ''" "'' '' @ r" kw]
    by (simp add: kw delim_before_def delim_after_def isLogicalDelimiter_def is_space_def)
  moreover have "read_switch ((pre @ rest) ! (length pre + 1)) 0 0 = Some (None, 0, 0)"
    using kw(2) by (auto simp: kw(1) nth_append read_switch_def dquote_def squote_def)
  moreover have "length pre + 1 < length (pre @ rest)" by (simp add: kw)
  ultimately have "readCondition_loop (pre @ rest) (length pre + 1) None 0 0 = length pre + 1"
    using kw(2) by (subst readCondition_loop.simps) auto
  then show ?thesis using one False by simp
qed

lemma trim_word:
  assumes "list_all cond_char t" "t \<noteq> []"
  shows "trim_space t = t" "trim_space (t @ '' '') = t"
proof -
  obtain c u where cu: "t = c # u" using assms(2) by (cases t) auto
  obtain v d where vd: "t = v @ [d]" using assms(2) by (metis rev_exhaust)
  have "cond_char c" using assms(1) unfolding cu by simp
  then have c: "byte c < 128" "\<not> is_space (byte c)" by (simp_all add: cond_char_def)
  have "cond_char d" using assms(1) unfolding vd by simp
  then have d: "byte d < 128" "\<not> is_space (byte d)" by (simp_all add: cond_char_def)
  have asc: "list_all (\<lambda>c. byte c < 128) t"
    using assms(1) by (rule list.pred_mono_strong) (simp add: cond_char_def)
  show plain: "trim_space t = t" by (rule trim_space_id[OF cu c vd d asc])
  have l: "trim_left_space (t @ '' '') = t @ '' ''" "trim_left_space t = t"
    unfolding cu using c by simp_all
  have "last_space_width (t @ '' '') = 1" by (simp add: last_space_width_def Let_def is_space_def)
  then have "trim_right_rev (rev (t @ '' '')) = trim_right_rev (rev t)" by (simp add: Let_def)
  then show "trim_space (t @ '' '') = t" using plain l by (simp add: trim_space_def)
qed

lemma parse_leaf_word:
  assumes "cond_word t" "follows rest" "valid (parseCondition E t)"
  shows "parse_leaf E (pre @ t @ rest) (length pre) =
    Inr (MatchExprCondition (parseCondition E t), length pre + length t + (if ends_here rest then 0 else 1))"
proof -
  have t: "list_all cond_char t" "t \<noteq> []" "\<not> equal_fold t ''AND''" "\<not> equal_fold t ''OR''"
    using assms(1) by (auto simp: cond_word_def)
  have loop: "readCondition_loop (pre @ t @ rest) (length pre) None 0 0
      = length pre + length t + (if ends_here rest then 0 else 1)"
    using read_word[OF t(1) follows_delim[OF assms(2)] t(3,4), of "length t" pre]
      read_end[OF assms(2), of "pre @ t"] by simp
  have "trim_space (take (length t + (if ends_here rest then 0 else 1)) (t @ rest)) = t"
  proof (cases "ends_here rest")
    case False
    then obtain r where "rest = CHR '' '' # r" using assms(2) by (auto simp: follows_def next_keyword_def)
    then show ?thesis using False trim_word(2)[OF t(1,2)] by simp
  qed (use trim_word(1)[OF t(1,2)] in simp)
  then have "readCondition (pre @ t @ rest) (length pre)
      = (t, length pre + length t + (if ends_here rest then 0 else 1))"
    using loop by (simp add: readCondition_def Let_def)
  then show ?thesis using t(2) assms(3) by (simp add: parse_leaf_def Let_def)
qed

section \<open>The expression grammar\<close>

datatype matom = MText string | MGroup mdisj
  and munit = MPos matom | MNeg munit
  and mconj = MOne munit | MConj munit mconj
  and mdisj = MSingle mconj | MDisj mconj mdisj

primrec atom_text :: "matom \<Rightarrow> string"
  and unit_text :: "munit \<Rightarrow> string"
  and conj_text :: "mconj \<Rightarrow> string"
  and disj_text :: "mdisj \<Rightarrow> string" where
  "atom_text (MText t) = t"
| "atom_text (MGroup d) = ''('' @ disj_text d @ '')''"
| "unit_text (MPos a) = atom_text a"
| "unit_text (MNeg u) = ''NOT '' @ unit_text u"
| "conj_text (MOne u) = unit_text u"
| "conj_text (MConj u c) = unit_text u @ '' AND '' @ conj_text c"
| "disj_text (MSingle c) = conj_text c"
| "disj_text (MDisj c d) = conj_text c @ '' OR '' @ disj_text d"

definition foldl1 :: "('a \<Rightarrow> 'a \<Rightarrow> 'a) \<Rightarrow> 'a list \<Rightarrow> 'a" where
  "foldl1 f xs = foldl f (hd xs) (tl xs)"

primrec atom_node :: "go_ext \<Rightarrow> matom \<Rightarrow> matchExprNode"
  and unit_node :: "go_ext \<Rightarrow> munit \<Rightarrow> matchExprNode"
  and conj_nodes :: "go_ext \<Rightarrow> mconj \<Rightarrow> matchExprNode list"
  and disj_nodes :: "go_ext \<Rightarrow> mdisj \<Rightarrow> matchExprNode list" where
  "atom_node E (MText t) = MatchExprCondition (parseCondition E t)"
| "atom_node E (MGroup d) = foldl1 MatchExprOr (disj_nodes E d)"
| "unit_node E (MPos a) = atom_node E a"
| "unit_node E (MNeg u) = MatchExprNot (unit_node E u)"
| "conj_nodes E (MOne u) = [unit_node E u]"
| "conj_nodes E (MConj u c) = unit_node E u # conj_nodes E c"
| "disj_nodes E (MSingle c) = [foldl1 MatchExprAnd (conj_nodes E c)]"
| "disj_nodes E (MDisj c d) = foldl1 MatchExprAnd (conj_nodes E c) # disj_nodes E d"

primrec atom_words :: "go_ext \<Rightarrow> matom \<Rightarrow> bool"
  and unit_words :: "go_ext \<Rightarrow> munit \<Rightarrow> bool"
  and conj_words :: "go_ext \<Rightarrow> mconj \<Rightarrow> bool"
  and disj_words :: "go_ext \<Rightarrow> mdisj \<Rightarrow> bool" where
  "atom_words E (MText t) = (cond_word t \<and> valid (parseCondition E t))"
| "atom_words E (MGroup d) = disj_words E d"
| "unit_words E (MPos a) = atom_words E a"
| "unit_words E (MNeg u) = unit_words E u"
| "conj_words E (MOne u) = unit_words E u"
| "conj_words E (MConj u c) = (unit_words E u \<and> conj_words E c)"
| "disj_words E (MSingle c) = conj_words E c"
| "disj_words E (MDisj c d) = (conj_words E c \<and> disj_words E d)"

text \<open>A call that starts by skipping spaces depends only on where the spaces end.\<close>

lemma same_spaces:
  assumes "skipSpaces src p = skipSpaces src p'"
  shows "parses E src (ParseUnary p) r \<longleftrightarrow> parses E src (ParseUnary p') r"
    "parses E src (ParseAnd p) r \<longleftrightarrow> parses E src (ParseAnd p') r"
    "consumeKeyword src p kw = consumeKeyword src p' kw"
proof -
  have u: "parse_call n E src (ParseUnary p) = parse_call n E src (ParseUnary p')" for n
    by (cases n) (simp_all add: assms)
  have a: "parse_call n E src (ParseAnd p) = parse_call n E src (ParseAnd p')" for n
    using u by (cases n) simp_all
  show "parses E src (ParseUnary p) r \<longleftrightarrow> parses E src (ParseUnary p') r"
    "parses E src (ParseAnd p) r \<longleftrightarrow> parses E src (ParseAnd p') r"
    by (simp_all add: parses_def u a)
  show "consumeKeyword src p kw = consumeKeyword src p' kw"
    by (simp add: consumeKeyword_def assms)
qed

lemma texts_start:
  "atom_words E a \<Longrightarrow> atom_text a \<noteq> [] \<and> \<not> is_space (byte (hd (atom_text a)))"
  "unit_words E u \<Longrightarrow> unit_text u \<noteq> [] \<and> \<not> is_space (byte (hd (unit_text u)))"
  "conj_words E c \<Longrightarrow> conj_text c \<noteq> [] \<and> \<not> is_space (byte (hd (conj_text c)))"
  "disj_words E d \<Longrightarrow> disj_text d \<noteq> [] \<and> \<not> is_space (byte (hd (disj_text d)))"
proof (induction a and u and c and d)
  case (MText t)
  then show ?case by (cases t) (auto simp: cond_word_def cond_char_def)
qed (auto simp: is_space_def)

text \<open>A keyword between spaces is consumed; the position is then just before a space.\<close>

lemma consume_hit:
  assumes "src = pre @ '' '' @ kw @ '' '' @ s" "kw \<noteq> []" "\<not> is_space (byte (hd kw))"
    "skipSpaces src p = skipSpaces src (length pre)"
  shows "consumeKeyword src p kw = (True, length pre + 1 + length kw)"
proof -
  have "skipSpaces src p = length pre + 1"
    using assms skip_space[of "kw @ '' '' @ s" pre] by simp
  moreover have "keywordAt src (length pre + 1) kw"
    using keyword_hit[of "pre @ '' ''" "'' '' @ s" kw]
    by (simp add: assms(1) delim_before_def delim_after_def isLogicalDelimiter_def is_space_def)
  ultimately show ?thesis by (simp add: consumeKeyword_def)
qed

lemma consume_miss:
  assumes "src = pre @ rest" "skipSpaces src p = skipSpaces src (length pre)"
    and "ends_here rest \<or> next_keyword kw' rest \<and> kw' \<noteq> [] \<and> \<not> is_space (byte (hd kw')) \<and>
      ascii_lower (hd kw') \<noteq> ascii_lower (hd kw)"
    and "kw = ''AND'' \<or> kw = ''OR''"
  shows "consumeKeyword src p kw = (False, skipSpaces src (length pre))"
proof -
  have "\<not> keywordAt src (skipSpaces src (length pre)) kw"
    using assms(3)
  proof
    assume e: "ends_here rest"
    then have "skipSpaces src (length pre) = length pre"
      using skip_at[of rest pre] assms(1) by (auto simp: ends_here_def is_space_def)
    then show ?thesis using e assms(1,4) keyword_miss_at[of rest kw pre]
      by (auto simp: ends_here_def lower_initials)
  next
    assume "next_keyword kw' rest \<and> kw' \<noteq> [] \<and> \<not> is_space (byte (hd kw')) \<and> ascii_lower (hd kw') \<noteq> ascii_lower (hd kw)"
    then obtain r where r: "rest = CHR '' '' # kw' @ '' '' @ r" "kw' \<noteq> []" "\<not> is_space (byte (hd kw'))"
      "ascii_lower (hd kw') \<noteq> ascii_lower (hd kw)" by (auto simp: next_keyword_def)
    then have "skipSpaces src (length pre) = length (pre @ '' '')"
      using skip_space[of "kw' @ '' '' @ r" pre] assms(1) by simp
    then show ?thesis using r assms(1,4) keyword_miss_at[of "kw' @ '' '' @ r" kw "pre @ '' ''"]
      by auto
  qed
  then show ?thesis using assms(2) by (simp add: consumeKeyword_def)
qed

section \<open>The parser follows the grammar\<close>

text \<open>The call gives the node and stops at \<open>stop\<close>, up to spaces.\<close>

definition reads :: "go_ext \<Rightarrow> string \<Rightarrow> call \<Rightarrow> matchExprNode \<Rightarrow> nat \<Rightarrow> bool" where
  "reads E src c nd stop \<longleftrightarrow>
     (\<exists>p. parses E src c (Inr (nd, p)) \<and> skipSpaces src p = skipSpaces src stop)"

lemma readsI: "parses E src c (Inr (nd, p)) \<Longrightarrow> skipSpaces src p = skipSpaces src stop \<Longrightarrow> reads E src c nd stop"
  unfolding reads_def by blast

lemma readsE:
  assumes "reads E src c nd stop"
  obtains p where "parses E src c (Inr (nd, p))" "skipSpaces src p = skipSpaces src stop"
  using assms unfolding reads_def by blast

lemma reads_text:
  assumes "cond_word t" "valid (parseCondition E t)" "follows rest" and src: "src = pre @ t @ rest"
  shows "reads E src (ParseUnary (length pre)) (MatchExprCondition (parseCondition E t)) (length pre + length t)"
proof -
  have t: "list_all cond_char t" "t \<noteq> []" "\<not> equal_fold t ''NOT''" using assms(1) by (auto simp: cond_word_def)
  then obtain c u where cu: "t = c # u" "cond_char c" by (cases t) auto
  have sk: "skipSpaces src (length pre) = length pre"
    using skip_at[of "t @ rest" pre] cu by (simp add: cond_char_def src)
  have "\<not> keywordAt src (length pre) ''NOT''"
    using keyword_miss[OF t(1) follows_delim[OF assms(3)] _ t(3), of 0 pre] t(2) by (simp add: keyword_def src)
  then have k: "consumeKeyword src (skipSpaces src (length pre)) ''NOT'' = (False, length pre)"
    by (simp add: consumeKeyword_def sk)
  have "src ! length pre = c" "length pre < length src" using cu by (simp_all add: nth_append src)
  then have p: "parses E src (ParseUnary (length pre)) (Inr (MatchExprCondition (parseCondition E t),
      length pre + length t + (if ends_here rest then 0 else 1)))"
    using cu sk parse_leaf_word[OF assms(1,3,2), of pre]
    by (intro parses_Leaf[OF _ k]) (auto simp: cond_char_def src)
  have "skipSpaces src (length pre + length t + (if ends_here rest then 0 else 1))
      = skipSpaces src (length pre + length t)"
  proof (cases "ends_here rest")
    case False
    then obtain r where r: "rest = CHR '' '' # r" using assms(3) by (auto simp: follows_def next_keyword_def)
    have "src ! (length pre + length t) = CHR '' ''"
      using nth_append_length[of "pre @ t" "CHR '' ''" r] by (simp add: r src)
    then have "skipSpaces src (length pre + length t) = skipSpaces src (length pre + length t + 1)"
      by (subst skipSpaces.simps) (simp add: r is_space_def src)
    then show ?thesis using False by simp
  qed simp
  then show ?thesis by (rule readsI[OF p])
qed

lemma reads_not:
  assumes "reads E src (ParseUnary (length pre + 4)) nd stop" "delim_before pre"
    "t \<noteq> []" "\<not> is_space (byte (hd t))" and src: "src = pre @ ''NOT '' @ t @ rest"
  shows "reads E src (ParseUnary (length pre)) (MatchExprNot nd) stop"
proof -
  obtain p where p: "parses E src (ParseUnary (length pre + 4)) (Inr (nd, p))"
    "skipSpaces src p = skipSpaces src stop" using assms(1) by (rule readsE)
  have sk: "skipSpaces src (length pre) = length pre"
    using skip_at[of "''NOT '' @ t @ rest" pre] by (simp add: is_space_def src)
  have "keywordAt src (length pre) ''NOT''"
    using keyword_hit[OF assms(2), of "'' '' @ t @ rest" "''NOT''"]
    by (simp add: delim_after_def isLogicalDelimiter_def is_space_def src)
  then have k: "consumeKeyword src (skipSpaces src (length pre)) ''NOT'' = (True, length pre + 3)"
    by (simp add: consumeKeyword_def sk)
  have "skipSpaces src (length pre + 3) = skipSpaces src (length pre + 4)"
    using skip_space[of "t @ rest" "pre @ ''NOT''"] skip_at[of "t @ rest" "pre @ ''NOT ''"] assms(3,4)
    by (simp add: src numeral_eq_Suc)
  then have "parses E src (ParseUnary (length pre + 3)) (Inr (nd, p))"
    using p(1) same_spaces(1) by blast
  moreover have "length pre < length src" by (simp add: src)
  ultimately have "parses E src (ParseUnary (length pre)) (Inr (MatchExprNot nd, p))"
    using sk by (intro parses_Not[OF _ k]) simp_all
  then show ?thesis using p(2) by (rule readsI)
qed

lemma reads_group:
  assumes "reads E src (ParseOr (length pre + 1)) nd (length pre + 1 + length t)"
    and src: "src = pre @ ''('' @ t @ '')'' @ rest"
  shows "reads E src (ParseUnary (length pre)) nd (length pre + length t + 2)"
proof -
  obtain p where p: "parses E src (ParseOr (length pre + 1)) (Inr (nd, p))"
    "skipSpaces src p = skipSpaces src (length pre + 1 + length t)" using assms(1) by (rule readsE)
  have sk: "skipSpaces src (length pre) = length pre"
    using skip_at[of "''('' @ t @ '')'' @ rest" pre] by (simp add: is_space_def src)
  have "\<not> keywordAt src (length pre) ''NOT''"
    unfolding src by (rule keyword_miss_at) (simp_all add: lower_initials)
  then have k: "consumeKeyword src (skipSpaces src (length pre)) ''NOT'' = (False, length pre)"
    by (simp add: consumeKeyword_def sk)
  have close: "skipSpaces src p = length pre + 1 + length t"
    using p(2) skip_at[of "'')'' @ rest" "pre @ ''('' @ t"] by (simp add: is_space_def src)
  moreover have "src ! (length pre + 1 + length t) = CHR '')''"
    using nth_append_length[of "pre @ ''('' @ t" "CHR '')''" rest] by (simp add: src)
  moreover have "src ! length pre = CHR ''(''" "length pre + 1 + length t < length src"
    by (simp_all add: src nth_append)
  ultimately have "parses E src (ParseUnary (length pre)) (Inr (nd, skipSpaces src p + 1))"
    using sk p(1) by (intro parses_Group[OF _ k]) simp_all
  then show ?thesis by (rule readsI) (simp add: close)
qed

text \<open>One turn of a loop: the keyword and the operand, after which the loop goes on from a position at
  the end of the operand, up to spaces.\<close>

lemma loop_keyword:
  assumes "src = pre @ '' '' @ kw @ '' '' @ t @ rest" "kw = ''AND'' \<or> kw = ''OR''"
    "t \<noteq> []" "\<not> is_space (byte (hd t))" "skipSpaces src p = skipSpaces src (length pre)"
  shows "consumeKeyword src p kw = (True, length pre + 1 + length kw)"
    "skipSpaces src (length pre + 1 + length kw) = skipSpaces src (length pre + length kw + 2)"
proof -
  show "consumeKeyword src p kw = (True, length pre + 1 + length kw)"
    using assms(2) by (intro consume_hit[OF assms(1) _ _ assms(5)]) (auto simp: is_space_def)
  show "skipSpaces src (length pre + 1 + length kw) = skipSpaces src (length pre + length kw + 2)"
    using skip_space[of "t @ rest" "pre @ '' '' @ kw"] skip_at[of "t @ rest" "pre @ '' '' @ kw @ '' ''"] assms(3,4)
    by (simp add: assms(1))
qed

lemma and_turn:
  assumes "reads E src (ParseUnary (length pre + 5)) nd stop" "src = pre @ '' AND '' @ t @ rest"
    "t \<noteq> []" "\<not> is_space (byte (hd t))" "skipSpaces src p = skipSpaces src (length pre)"
  obtains q where "skipSpaces src q = skipSpaces src stop"
    "\<And>r. parses E src (AndLoop (MatchExprAnd l nd) q) r \<Longrightarrow> parses E src (AndLoop l p) r"
proof -
  obtain q where q: "parses E src (ParseUnary (length pre + 5)) (Inr (nd, q))"
    "skipSpaces src q = skipSpaces src stop" using assms(1) by (rule readsE)
  have k: "consumeKeyword src p ''AND'' = (True, length pre + 4)"
    "skipSpaces src (length pre + 4) = skipSpaces src (length pre + 5)"
    using loop_keyword[of src pre "''AND''" t rest p] assms(2-5) by (simp_all add: numeral_eq_Suc)
  have "parses E src (ParseUnary (length pre + 4)) (Inr (nd, q))"
    using q(1) same_spaces(1)[OF k(2)] by blast
  then show thesis using that[OF q(2)] parses_AndLoop[OF k(1)] by blast
qed

lemma or_turn:
  assumes "reads E src (ParseAnd (length pre + 4)) nd stop" "src = pre @ '' OR '' @ t @ rest"
    "t \<noteq> []" "\<not> is_space (byte (hd t))" "skipSpaces src p = skipSpaces src (length pre)"
  obtains q where "skipSpaces src q = skipSpaces src stop"
    "\<And>r. parses E src (OrLoop (MatchExprOr l nd) q) r \<Longrightarrow> parses E src (OrLoop l p) r"
proof -
  obtain q where q: "parses E src (ParseAnd (length pre + 4)) (Inr (nd, q))"
    "skipSpaces src q = skipSpaces src stop" using assms(1) by (rule readsE)
  have k: "consumeKeyword src p ''OR'' = (True, length pre + 3)"
    "skipSpaces src (length pre + 3) = skipSpaces src (length pre + 4)"
    using loop_keyword[of src pre "''OR''" t rest p] assms(2-5) by (simp_all add: numeral_eq_Suc)
  have "parses E src (ParseAnd (length pre + 3)) (Inr (nd, q))"
    using q(1) same_spaces(2)[OF k(2)] by blast
  then show thesis using that[OF q(2)] parses_OrLoop[OF k(1)] by blast
qed

definition conj_follows :: "string \<Rightarrow> bool" where
  "conj_follows rest \<longleftrightarrow> ends_here rest \<or> next_keyword ''OR'' rest"

lemma and_stops:
  assumes "conj_follows rest" "src = pre @ rest" "skipSpaces src p = skipSpaces src (length pre)"
  shows "reads E src (AndLoop l p) l (length pre)"
  using consume_miss[OF assms(2,3), of "''OR''" "''AND''"] assms(1)
  by (intro readsI[where p = "skipSpaces src (length pre)", OF parses_loop_stop(2)]) (auto simp: conj_follows_def lower_initials is_space_def)

lemma or_stops:
  assumes "ends_here rest" "src = pre @ rest" "skipSpaces src p = skipSpaces src (length pre)"
  shows "reads E src (OrLoop l p) l (length pre)"
  using consume_miss[OF assms(2,3), of "''OR''" "''OR''"] assms(1)
  by (intro readsI[where p = "skipSpaces src (length pre)", OF parses_loop_stop(1)]) auto

lemma reads_loop:
  "(\<And>r. parses E src c' r \<Longrightarrow> parses E src c r) \<Longrightarrow> reads E src c' nd stop \<Longrightarrow> reads E src c nd stop"
  unfolding reads_def by blast

lemma follow_facts:
  "conj_follows rest \<Longrightarrow> follows rest" "ends_here rest \<Longrightarrow> conj_follows rest"
  "follows ('' AND '' @ r)" "conj_follows ('' OR '' @ r)" "ends_here ('')'' @ r)" "ends_here []"
  "delim_before (pre @ '' '')" "delim_before (pre @ ''('')" "delim_before []"
  by (auto simp: conj_follows_def follows_def next_keyword_def ends_here_def delim_before_def
      isLogicalDelimiter_def is_space_def)

text \<open>What each class of phrases is read as, in any surroundings.\<close>

definition unit_goal :: "go_ext \<Rightarrow> munit \<Rightarrow> bool" where
  "unit_goal E u \<longleftrightarrow> (\<forall>src pre rest. src = pre @ unit_text u @ rest \<longrightarrow> delim_before pre \<longrightarrow> follows rest \<longrightarrow>
     reads E src (ParseUnary (length pre)) (unit_node E u) (length pre + length (unit_text u)))"

definition conj_loop_goal :: "go_ext \<Rightarrow> mconj \<Rightarrow> bool" where
  "conj_loop_goal E c \<longleftrightarrow> (\<forall>src pre rest l p. src = pre @ '' AND '' @ conj_text c @ rest \<longrightarrow>
     conj_follows rest \<longrightarrow> skipSpaces src p = skipSpaces src (length pre) \<longrightarrow>
     reads E src (AndLoop l p) (foldl MatchExprAnd l (conj_nodes E c)) (length pre + 5 + length (conj_text c)))"

definition conj_goal :: "go_ext \<Rightarrow> mconj \<Rightarrow> bool" where
  "conj_goal E c \<longleftrightarrow> (\<forall>src pre rest. src = pre @ conj_text c @ rest \<longrightarrow> delim_before pre \<longrightarrow> conj_follows rest \<longrightarrow>
     reads E src (ParseAnd (length pre)) (foldl1 MatchExprAnd (conj_nodes E c)) (length pre + length (conj_text c)))"

definition disj_loop_goal :: "go_ext \<Rightarrow> mdisj \<Rightarrow> bool" where
  "disj_loop_goal E d \<longleftrightarrow> (\<forall>src pre rest l p. src = pre @ '' OR '' @ disj_text d @ rest \<longrightarrow>
     ends_here rest \<longrightarrow> skipSpaces src p = skipSpaces src (length pre) \<longrightarrow>
     reads E src (OrLoop l p) (foldl MatchExprOr l (disj_nodes E d)) (length pre + 4 + length (disj_text d)))"

definition disj_goal :: "go_ext \<Rightarrow> mdisj \<Rightarrow> bool" where
  "disj_goal E d \<longleftrightarrow> (\<forall>src pre rest. src = pre @ disj_text d @ rest \<longrightarrow> delim_before pre \<longrightarrow> ends_here rest \<longrightarrow>
     reads E src (ParseOr (length pre)) (foldl1 MatchExprOr (disj_nodes E d)) (length pre + length (disj_text d)))"

lemma unit_goalD:
  "unit_goal E u \<Longrightarrow> src = pre @ unit_text u @ rest \<Longrightarrow> delim_before pre \<Longrightarrow> follows rest \<Longrightarrow>
   n = length pre \<Longrightarrow> m = length pre + length (unit_text u) \<Longrightarrow> reads E src (ParseUnary n) (unit_node E u) m"
  by (simp add: unit_goal_def)

lemma conj_goalD:
  "conj_goal E c \<Longrightarrow> src = pre @ conj_text c @ rest \<Longrightarrow> delim_before pre \<Longrightarrow> conj_follows rest \<Longrightarrow>
   n = length pre \<Longrightarrow> m = length pre + length (conj_text c) \<Longrightarrow>
   reads E src (ParseAnd n) (foldl1 MatchExprAnd (conj_nodes E c)) m"
  by (simp add: conj_goal_def)

lemma conj_goals_one:
  assumes u: "unit_goal E u" "unit_words E u"
  shows "conj_loop_goal E (MOne u)" "conj_goal E (MOne u)"
proof -
  note start = texts_start(2)[OF u(2)]
  show "conj_loop_goal E (MOne u)"
    unfolding conj_loop_goal_def
  proof (intro allI impI)
    fix src pre rest l p
    assume src: "src = pre @ '' AND '' @ conj_text (MOne u) @ rest" and f: "conj_follows rest"
      and sp: "skipSpaces src p = skipSpaces src (length pre)"
    let ?stop = "length (pre @ '' AND '' @ unit_text u)"
    have r: "reads E src (ParseUnary (length pre + 5)) (unit_node E u) ?stop"
      by (rule unit_goalD[OF u(1), of src "pre @ '' AND ''" rest])
        (use src f follow_facts(1) follow_facts(7)[of "pre @ '' AND''"] in simp_all)
    obtain q where q: "skipSpaces src q = skipSpaces src ?stop"
      "\<And>r. parses E src (AndLoop (MatchExprAnd l (unit_node E u)) q) r \<Longrightarrow> parses E src (AndLoop l p) r"
      using and_turn[OF r, of "unit_text u" rest p l] start src sp by auto
    have "reads E src (AndLoop (MatchExprAnd l (unit_node E u)) q) (MatchExprAnd l (unit_node E u)) ?stop"
      by (rule and_stops[OF f _ q(1)]) (simp add: src)
    from reads_loop[OF q(2) this] show "reads E src (AndLoop l p)
        (foldl MatchExprAnd l (conj_nodes E (MOne u))) (length pre + 5 + length (conj_text (MOne u)))"
      by (simp add: numeral_eq_Suc)
  qed
  show "conj_goal E (MOne u)"
    unfolding conj_goal_def
  proof (intro allI impI)
    fix src pre rest
    assume src: "src = pre @ conj_text (MOne u) @ rest" and d: "delim_before pre" and f: "conj_follows rest"
    let ?stop = "length (pre @ unit_text u)"
    have "reads E src (ParseUnary (length pre)) (unit_node E u) ?stop"
      by (rule unit_goalD[OF u(1), of src pre rest]) (use src f d follow_facts(1) in simp_all)
    then obtain q where q: "parses E src (ParseUnary (length pre)) (Inr (unit_node E u, q))"
      "skipSpaces src q = skipSpaces src ?stop" by (rule readsE)
    have "reads E src (AndLoop (unit_node E u) q) (unit_node E u) ?stop"
      by (rule and_stops[OF f _ q(2)]) (simp add: src)
    from reads_loop[OF parses_And[OF q(1)] this]
    show "reads E src (ParseAnd (length pre)) (foldl1 MatchExprAnd (conj_nodes E (MOne u)))
        (length pre + length (conj_text (MOne u)))" by (simp add: foldl1_def)
  qed
qed

lemma conj_loop_goalD:
  "conj_loop_goal E c \<Longrightarrow> src = pre @ '' AND '' @ conj_text c @ rest \<Longrightarrow> conj_follows rest \<Longrightarrow>
   skipSpaces src p = skipSpaces src (length pre) \<Longrightarrow> m = length pre + 5 + length (conj_text c) \<Longrightarrow>
   nd = foldl MatchExprAnd l (conj_nodes E c) \<Longrightarrow> reads E src (AndLoop l p) nd m"
  by (simp add: conj_loop_goal_def)

lemma conj_goals_more:
  assumes u: "unit_goal E u" "unit_words E u" and c: "conj_loop_goal E c"
  shows "conj_loop_goal E (MConj u c)" "conj_goal E (MConj u c)"
proof -
  note start = texts_start(2)[OF u(2)]
  show "conj_loop_goal E (MConj u c)"
    unfolding conj_loop_goal_def
  proof (intro allI impI)
    fix src pre rest l p
    assume src: "src = pre @ '' AND '' @ conj_text (MConj u c) @ rest" and f: "conj_follows rest"
      and sp: "skipSpaces src p = skipSpaces src (length pre)"
    let ?stop = "length (pre @ '' AND '' @ unit_text u)"
    have r: "reads E src (ParseUnary (length pre + 5)) (unit_node E u) ?stop"
      by (rule unit_goalD[OF u(1), of src "pre @ '' AND ''" "'' AND '' @ conj_text c @ rest"])
        (use src follow_facts(7)[of "pre @ '' AND''"] in \<open>simp_all add: follow_facts(3)[simplified]\<close>)
    obtain q where q: "skipSpaces src q = skipSpaces src ?stop"
      "\<And>r. parses E src (AndLoop (MatchExprAnd l (unit_node E u)) q) r \<Longrightarrow> parses E src (AndLoop l p) r"
      using and_turn[OF r, of "unit_text u" "'' AND '' @ conj_text c @ rest" p l] start src sp by auto
    show "reads E src (AndLoop l p) (foldl MatchExprAnd l (conj_nodes E (MConj u c)))
        (length pre + 5 + length (conj_text (MConj u c)))"
      by (rule reads_loop[OF q(2)], assumption,
          rule conj_loop_goalD[OF c, of src "pre @ '' AND '' @ unit_text u" rest])
        (use src f q(1) in simp_all)
  qed
  show "conj_goal E (MConj u c)"
    unfolding conj_goal_def
  proof (intro allI impI)
    fix src pre rest
    assume src: "src = pre @ conj_text (MConj u c) @ rest" and d: "delim_before pre" and f: "conj_follows rest"
    let ?stop = "length (pre @ unit_text u)"
    have "reads E src (ParseUnary (length pre)) (unit_node E u) ?stop"
      by (rule unit_goalD[OF u(1), of src pre "'' AND '' @ conj_text c @ rest"])
        (use src d in \<open>simp_all add: follow_facts(3)[simplified]\<close>)
    then obtain q where q: "parses E src (ParseUnary (length pre)) (Inr (unit_node E u, q))"
      "skipSpaces src q = skipSpaces src ?stop" by (rule readsE)
    show "reads E src (ParseAnd (length pre)) (foldl1 MatchExprAnd (conj_nodes E (MConj u c)))
        (length pre + length (conj_text (MConj u c)))"
      by (rule reads_loop[OF parses_And[OF q(1)]], assumption,
          rule conj_loop_goalD[OF c, of src "pre @ unit_text u" rest])
        (use src f q(2) in \<open>simp_all add: foldl1_def\<close>)
  qed
qed

lemma disj_loop_goalD:
  "disj_loop_goal E d \<Longrightarrow> src = pre @ '' OR '' @ disj_text d @ rest \<Longrightarrow> ends_here rest \<Longrightarrow>
   skipSpaces src p = skipSpaces src (length pre) \<Longrightarrow> m = length pre + 4 + length (disj_text d) \<Longrightarrow>
   nd = foldl MatchExprOr l (disj_nodes E d) \<Longrightarrow> reads E src (OrLoop l p) nd m"
  by (simp add: disj_loop_goal_def)

lemma disj_goals_single:
  assumes c: "conj_goal E c" "conj_words E c"
  shows "disj_loop_goal E (MSingle c)" "disj_goal E (MSingle c)"
proof -
  note start = texts_start(3)[OF c(2)]
  let ?n = "foldl1 MatchExprAnd (conj_nodes E c)"
  show "disj_loop_goal E (MSingle c)"
    unfolding disj_loop_goal_def
  proof (intro allI impI)
    fix src pre rest l p
    assume src: "src = pre @ '' OR '' @ disj_text (MSingle c) @ rest" and f: "ends_here rest"
      and sp: "skipSpaces src p = skipSpaces src (length pre)"
    let ?stop = "length (pre @ '' OR '' @ conj_text c)"
    have r: "reads E src (ParseAnd (length pre + 4)) ?n ?stop"
      by (rule conj_goalD[OF c(1), of src "pre @ '' OR ''" rest])
        (use src f follow_facts(2) follow_facts(7)[of "pre @ '' OR''"] in simp_all)
    obtain q where q: "skipSpaces src q = skipSpaces src ?stop"
      "\<And>r. parses E src (OrLoop (MatchExprOr l ?n) q) r \<Longrightarrow> parses E src (OrLoop l p) r"
      using or_turn[OF r, of "conj_text c" rest p l] start src sp by auto
    have "reads E src (OrLoop (MatchExprOr l ?n) q) (MatchExprOr l ?n) ?stop"
      by (rule or_stops[OF f _ q(1)]) (simp add: src)
    from reads_loop[OF q(2) this] show "reads E src (OrLoop l p)
        (foldl MatchExprOr l (disj_nodes E (MSingle c))) (length pre + 4 + length (disj_text (MSingle c)))"
      by (simp add: numeral_eq_Suc)
  qed
  show "disj_goal E (MSingle c)"
    unfolding disj_goal_def
  proof (intro allI impI)
    fix src pre rest
    assume src: "src = pre @ disj_text (MSingle c) @ rest" and d: "delim_before pre" and f: "ends_here rest"
    let ?stop = "length (pre @ conj_text c)"
    have "reads E src (ParseAnd (length pre)) ?n ?stop"
      by (rule conj_goalD[OF c(1), of src pre rest]) (use src f d follow_facts(2) in simp_all)
    then obtain q where q: "parses E src (ParseAnd (length pre)) (Inr (?n, q))"
      "skipSpaces src q = skipSpaces src ?stop" by (rule readsE)
    have "reads E src (OrLoop ?n q) ?n ?stop"
      by (rule or_stops[OF f _ q(2)]) (simp add: src)
    from reads_loop[OF parses_Or[OF q(1)] this]
    show "reads E src (ParseOr (length pre)) (foldl1 MatchExprOr (disj_nodes E (MSingle c)))
        (length pre + length (disj_text (MSingle c)))" by (simp add: foldl1_def)
  qed
qed

lemma disj_goals_more:
  assumes c: "conj_goal E c" "conj_words E c" and d: "disj_loop_goal E d"
  shows "disj_loop_goal E (MDisj c d)" "disj_goal E (MDisj c d)"
proof -
  note start = texts_start(3)[OF c(2)]
  let ?n = "foldl1 MatchExprAnd (conj_nodes E c)"
  show "disj_loop_goal E (MDisj c d)"
    unfolding disj_loop_goal_def
  proof (intro allI impI)
    fix src pre rest l p
    assume src: "src = pre @ '' OR '' @ disj_text (MDisj c d) @ rest" and f: "ends_here rest"
      and sp: "skipSpaces src p = skipSpaces src (length pre)"
    let ?stop = "length (pre @ '' OR '' @ conj_text c)"
    have r: "reads E src (ParseAnd (length pre + 4)) ?n ?stop"
      by (rule conj_goalD[OF c(1), of src "pre @ '' OR ''" "'' OR '' @ disj_text d @ rest"])
        (use src follow_facts(7)[of "pre @ '' OR''"] in \<open>simp_all add: follow_facts(4)[simplified]\<close>)
    obtain q where q: "skipSpaces src q = skipSpaces src ?stop"
      "\<And>r. parses E src (OrLoop (MatchExprOr l ?n) q) r \<Longrightarrow> parses E src (OrLoop l p) r"
      using or_turn[OF r, of "conj_text c" "'' OR '' @ disj_text d @ rest" p l] start src sp by auto
    show "reads E src (OrLoop l p) (foldl MatchExprOr l (disj_nodes E (MDisj c d)))
        (length pre + 4 + length (disj_text (MDisj c d)))"
      by (rule reads_loop[OF q(2)], assumption,
          rule disj_loop_goalD[OF d, of src "pre @ '' OR '' @ conj_text c" rest])
        (use src f q(1) in simp_all)
  qed
  show "disj_goal E (MDisj c d)"
    unfolding disj_goal_def
  proof (intro allI impI)
    fix src pre rest
    assume src: "src = pre @ disj_text (MDisj c d) @ rest" and dl: "delim_before pre" and f: "ends_here rest"
    let ?stop = "length (pre @ conj_text c)"
    have "reads E src (ParseAnd (length pre)) ?n ?stop"
      by (rule conj_goalD[OF c(1), of src pre "'' OR '' @ disj_text d @ rest"])
        (use src dl in \<open>simp_all add: follow_facts(4)[simplified]\<close>)
    then obtain q where q: "parses E src (ParseAnd (length pre)) (Inr (?n, q))"
      "skipSpaces src q = skipSpaces src ?stop" by (rule readsE)
    show "reads E src (ParseOr (length pre)) (foldl1 MatchExprOr (disj_nodes E (MDisj c d)))
        (length pre + length (disj_text (MDisj c d)))"
      by (rule reads_loop[OF parses_Or[OF q(1)]], assumption,
          rule disj_loop_goalD[OF d, of src "pre @ conj_text c" rest])
        (use src f q(2) in \<open>simp_all add: foldl1_def\<close>)
  qed
qed

lemma unit_goal_not:
  assumes "unit_goal E u" "unit_words E u"
  shows "unit_goal E (MNeg u)"
  unfolding unit_goal_def
proof (intro allI impI)
  fix src pre rest
  assume src: "src = pre @ unit_text (MNeg u) @ rest" and d: "delim_before pre" and f: "follows rest"
  have "reads E src (ParseUnary (length pre + 4)) (unit_node E u) (length pre + length (unit_text (MNeg u)))"
    by (rule unit_goalD[OF assms(1), of src "pre @ ''NOT ''" rest])
      (use src f follow_facts(7)[of "pre @ ''NOT''"] in simp_all)
  from reads_not[OF this d, of "unit_text u" rest] texts_start(2)[OF assms(2)] src
  show "reads E src (ParseUnary (length pre)) (unit_node E (MNeg u)) (length pre + length (unit_text (MNeg u)))"
    by simp
qed

lemma unit_goal_group:
  assumes "disj_goal E d"
  shows "unit_goal E (MPos (MGroup d))"
  unfolding unit_goal_def
proof (intro allI impI)
  fix src pre rest
  assume src: "src = pre @ unit_text (MPos (MGroup d)) @ rest" and dl: "delim_before pre" and f: "follows rest"
  have "reads E src (ParseOr (length (pre @ ''(''))) (foldl1 MatchExprOr (disj_nodes E d))
      (length (pre @ ''('') + length (disj_text d))"
    using assms[unfolded disj_goal_def, rule_format, of src "pre @ ''(''" "'')'' @ rest"] src
      follow_facts(5)[of rest] follow_facts(8)[of pre]
    by simp
  then show "reads E src (ParseUnary (length pre)) (unit_node E (MPos (MGroup d)))
      (length pre + length (unit_text (MPos (MGroup d))))"
    using reads_group[of E src pre _ "disj_text d" rest] src by simp
qed

lemma grammar_goals:
  "atom_words E a \<Longrightarrow> unit_goal E (MPos a)"
  "unit_words E u \<Longrightarrow> unit_goal E u"
  "conj_words E c \<Longrightarrow> conj_loop_goal E c \<and> conj_goal E c"
  "disj_words E d \<Longrightarrow> disj_loop_goal E d \<and> disj_goal E d"
proof (induction a and u and c and d)
  case (MText t)
  then show ?case by (auto simp: unit_goal_def intro!: reads_text)
next
  case (MConj u c)
  then show ?case using conj_goals_more by simp
next
  case (MDisj c d)
  then show ?case using disj_goals_more by simp
qed (simp_all add: unit_goal_group unit_goal_not conj_goals_one disj_goals_single)

lemma parse_prints:
  assumes "disj_words E d"
  shows "parseMatchExpression E (disj_text d) =
    Some (Inr (foldl1 MatchExprOr (disj_nodes E d), collectConditions (foldl1 MatchExprOr (disj_nodes E d))))"
proof -
  let ?src = "disj_text d" and ?n = "foldl1 MatchExprOr (disj_nodes E d)"
  have "reads E ?src (ParseOr 0) ?n (length ?src)"
    using conjunct2[OF grammar_goals(4)[OF assms], unfolded disj_goal_def, rule_format, of ?src "[]" "[]"]
      follow_facts(6,9) by simp
  then obtain p where p: "parses E ?src (ParseOr 0) (Inr (?n, p))" "skipSpaces ?src p = skipSpaces ?src (length ?src)"
    by (rule readsE)
  have "skipSpaces ?src (length ?src) = length ?src" by (subst skipSpaces.simps) simp
  then show ?thesis using parses_run[OF p(1)] p(2) by (simp add: parseMatchExpression_def)
qed

end
