(* ===== verification/Flow_Rule.thy ===== *)
theory Flow_Rule
  imports Flow_Expr
begin

text \<open>
  Loading flow rules (\<open>engine/flow/rule.go\<close>) and the keys of flow instances
  (\<open>engine/flow/cache_key.go\<close>): the checks a decoded rule has to pass, the fields it needs from each
  sigma rule, the table from sigma rules to flow rules, and the normalisation of cache-key values.
  The file system and the YAML decoder are parameters.
\<close>

section \<open>Flow rules\<close>

record flowDetection =
  fd_EventType :: string
  fd_WinSize :: string
  fd_WinSizeTs :: int
  fd_Sorted :: bool
  fd_SigmaRules :: "string list"
  fd_CacheKey :: "(string \<times> string list) list"
  fd_MatchBy :: string
  fd_Conditions :: "condition list"
  fd_MatchExpr :: "matchExprNode option"

record FlowRule =
  fr_Title :: string
  fr_ID :: string
  fr_Status :: string
  fr_Enable :: bool
  fr_Description :: string
  fr_References :: "string list"
  fr_Author :: string
  fr_Date :: string
  fr_Modified :: string
  fr_Tags :: "string list"
  fr_Logsource :: string
  fr_Detection :: flowDetection
  fr_Level :: string
  fr_UniqueFilter :: "string list"
  fr_ExtFields :: "(string \<times> string list) list"

text \<open>\<open>FlowRule{Enable: true}\<close>, the value \<open>yaml.Unmarshal\<close> decodes into.\<close>

definition new_detection :: flowDetection where
  "new_detection = \<lparr>fd_EventType = [], fd_WinSize = [], fd_WinSizeTs = 0, fd_Sorted = False,
     fd_SigmaRules = [], fd_CacheKey = [], fd_MatchBy = [], fd_Conditions = [], fd_MatchExpr = None\<rparr>"

definition new_rule :: FlowRule where
  "new_rule = \<lparr>fr_Title = [], fr_ID = [], fr_Status = [], fr_Enable = True, fr_Description = [],
     fr_References = [], fr_Author = [], fr_Date = [], fr_Modified = [], fr_Tags = [],
     fr_Logsource = [], fr_Detection = new_detection, fr_Level = [], fr_UniqueFilter = [],
     fr_ExtFields = []\<rparr>"

definition EventTypeCount :: string where "EventTypeCount = ''count''"
definition EventTypeMultiEve :: string where "EventTypeMultiEve = ''multi_eve''"
definition EventTypeMultiPkt :: string where "EventTypeMultiPkt = ''multi_pkt''"
definition EventTypeMultiEvePkt :: string where "EventTypeMultiEvePkt = ''multi_eve_pkt''"

definition eventTypes :: "string list" where
  "eventTypes = [EventTypeCount, EventTypeMultiEve, EventTypeMultiPkt, EventTypeMultiEvePkt]"

section \<open>Files\<close>

text \<open>\<open>ff_walk\<close> is what \<open>filepath.Walk\<close> visits, with the error that stops it; \<open>ff_yaml\<close> decodes into
  a given rule.\<close>

record flow_fs =
  ff_walk :: "string \<Rightarrow> (string \<times> bool) list \<times> string option"
  ff_read :: "string \<Rightarrow> string + string"
  ff_yaml :: "string \<Rightarrow> FlowRule \<Rightarrow> string + FlowRule"

text \<open>The files found so far are returned with the error.\<close>

fun flow_file_loop :: "flow_fs \<Rightarrow> string list \<Rightarrow> string list \<Rightarrow> string list \<times> string option" where
  "flow_file_loop F [] out = (out, None)"
| "flow_file_loop F (dir # dirs) out =
     (let (entries, err) = ff_walk F dir;
          out' = out @ map fst (filter (\<lambda>(path, isDir). \<not> isDir \<and> has_suffix path ''yml'') entries)
      in case err of Some e \<Rightarrow> (out', Some e) | None \<Rightarrow> flow_file_loop F dirs out')"

definition FlowRuleFileList :: "flow_fs \<Rightarrow> string list \<Rightarrow> string list \<times> string option" where
  "FlowRuleFileList F dirs =
     (if dirs = [] then ([], Some ''no rule directories provided'') else flow_file_loop F dirs [])"

section \<open>Checks on a rule\<close>

definition validateConditions :: "condition list \<Rightarrow> string list \<Rightarrow> bool" where
  "validateConditions conditions sigmaIDs =
     (let sigmaRuleTotal = int (length sigmaIDs) in
      list_all (\<lambda>c. valid c
        \<and> \<not> (fieldOneIdx c < 0 \<or> fieldOneIdx c \<ge> sigmaRuleTotal)
        \<and> \<not> (fieldTwoTyp c = ''str'' \<and> (fieldTwoIdx c < 0 \<or> fieldTwoIdx c \<ge> sigmaRuleTotal)))
        conditions)"

text \<open>The sources of the sigma rules seen so far: (winlog, pktlog).\<close>

fun flow_sources :: "string list \<Rightarrow> bool \<Rightarrow> bool \<Rightarrow> (bool \<times> bool) option" where
  "flow_sources [] hasWinlog hasPktlog = Some (hasWinlog, hasPktlog)"
| "flow_sources (sid # sids) hasWinlog hasPktlog =
     (if has_prefix sid ''winlog-'' then flow_sources sids True hasPktlog
      else if has_prefix sid ''pktlog-'' then flow_sources sids hasWinlog True
      else None)"

definition validateFlowSources :: "FlowRule \<Rightarrow> bool" where
  "validateFlowSources r =
     (case flow_sources (fd_SigmaRules (fr_Detection r)) False False of
        None \<Rightarrow> False
      | Some (hasWinlog, hasPktlog) \<Rightarrow>
          let t = fd_EventType (fr_Detection r) in
          if t = EventTypeMultiEve then \<not> hasPktlog
          else if t = EventTypeMultiPkt then \<not> hasWinlog
          else if t = EventTypeMultiEvePkt then \<not> (\<not> hasWinlog \<or> \<not> hasPktlog)
          else True)"

section \<open>Cache-key specifications\<close>

fun read_normalizers :: "go_ext \<Rightarrow> string list \<Rightarrow> string list option" where
  "read_normalizers E [] = Some []"
| "read_normalizers E (item # items) =
     (let item = to_lower E (trim_space item) in
      if item = [] then read_normalizers E items
      else if item \<in> {''lower'', ''trim'', ''domain'', ''ip''}
      then map_option (\<lambda>ns. item # ns) (read_normalizers E items)
      else None)"

definition parseCacheKeyFieldSpec :: "go_ext \<Rightarrow> string \<Rightarrow> (string \<times> string list) option" where
  "parseCacheKeyFieldSpec E spec =
     (case split spec ''|'' of
        [] \<Rightarrow> None
      | p # ps \<Rightarrow>
          let field = trim_space (trim_prefix p ''$.'');
              field = (if has_prefix field ''$s'' then snd (parseConditionKV field) else field) in
          if field = [] then None
          else map_option (\<lambda>ns. (field, ns)) (read_normalizers E ps))"

definition validateCacheKeyConfig :: "go_ext \<Rightarrow> FlowRule \<Rightarrow> bool" where
  "validateCacheKeyConfig E r =
     (let d = fr_Detection r in
      if fd_CacheKey d = [] then True
      else list_all (\<lambda>(sid, specs).
        sid \<in> set (fd_SigmaRules d) \<and> specs \<noteq> []
        \<and> list_all (\<lambda>spec. parseCacheKeyFieldSpec E spec \<noteq> None) specs) (fd_CacheKey d))"

section \<open>Fields a flow rule needs\<close>

text \<open>\<open>m[k] = append(m[k], v)\<close>.\<close>

definition map_append :: "(string \<times> string list) list \<Rightarrow> string \<Rightarrow> string list \<Rightarrow> (string \<times> string list) list" where
  "map_append m k vs = map_put m k ((case map_get m k of Some xs \<Rightarrow> xs | None \<Rightarrow> []) @ vs)"

definition add_refs :: "string list \<Rightarrow> fieldRef list \<Rightarrow> (string \<times> string list) list \<Rightarrow> (string \<times> string list) list" where
  "add_refs sigmaIDs refs m =
     fold (\<lambda>ref m. if ref_idx ref < 0 \<or> ref_idx ref > int (length sigmaIDs) - 1 then m
       else map_append m (sigmaIDs ! nat (ref_idx ref)) [ref_field ref]) refs m"

definition extract_one :: "string list \<Rightarrow> condition \<Rightarrow> (string \<times> string list) list \<Rightarrow> (string \<times> string list) list" where
  "extract_one sigmaIDs c m =
     (let sigmaRuleTotal = int (length sigmaIDs) in
      if \<not> valid c then m
      else if fieldOneIdx c < 0 \<or> fieldOneIdx c > sigmaRuleTotal - 1 then m
      else if operation c = ''in'' \<or> operation c = ''count'' then
        let sid = sigmaIDs ! nat (fieldOneIdx c);
            m = (if fieldOneVal c \<noteq> ''_count'' then map_append m sid [fieldOneVal c] else m)
        in if operation c = ''in'' \<and> (fieldTwoTyp c = ''cache'' \<or> fieldTwoTyp c = ''ldap'')
           then add_refs sigmaIDs (extractCacheFieldRefs (fieldTwoVal c)) m else m
      else if fieldTwoTyp c = ''str'' \<and> (fieldTwoIdx c < 0 \<or> fieldTwoIdx c > sigmaRuleTotal - 1) then m
      else let m = map_append m (sigmaIDs ! nat (fieldOneIdx c)) [fieldOneVal c] in
        if fieldTwoTyp c = ''str'' then map_append m (sigmaIDs ! nat (fieldTwoIdx c)) [fieldTwoVal c]
        else m)"

definition extractFields :: "condition list \<Rightarrow> string list \<Rightarrow> (string \<times> string list) list" where
  "extractFields conditions sigmaIDs =
     (let sigmaFields = fold (\<lambda>sid m. map_put m sid []) sigmaIDs [] in
      fold (extract_one sigmaIDs) conditions sigmaFields)"

definition filter_fields :: "string list \<Rightarrow> string list" where
  "filter_fields flds = filter (\<lambda>f. f \<noteq> ''_count'' \<and> atoi f = None) flds"

definition collect_one :: "string \<times> string list \<Rightarrow> (string \<times> string list) list \<Rightarrow> (string \<times> string list) list" where
  "collect_one p m =
     (let (sid, flds) = p; fieldList = filter_fields flds in
      case map_get m sid of
        Some v \<Rightarrow> map_put m sid (RemoveDuplicate (v @ fieldList))
      | None \<Rightarrow> map_put m sid (RemoveDuplicate fieldList))"

definition collect_fields :: "(string \<times> string list) list \<Rightarrow> (string \<times> string list) list" where
  "collect_fields sFields = fold collect_one sFields []"

definition add_spec :: "go_ext \<Rightarrow> string \<Rightarrow> string \<Rightarrow> (string \<times> string list) list \<Rightarrow> (string \<times> string list) list" where
  "add_spec E sid spec m =
     (case parseCacheKeyFieldSpec E spec of None \<Rightarrow> m | Some (field, _) \<Rightarrow> map_append m sid [field])"

definition addCacheKeyFields :: "go_ext \<Rightarrow> (string \<times> string list) list \<Rightarrow> (string \<times> string list) list
    \<Rightarrow> (string \<times> string list) list" where
  "addCacheKeyFields E sigmaRuleFields cacheKey =
     fold (\<lambda>(sid, specs). fold (add_spec E sid) specs) cacheKey sigmaRuleFields"

section \<open>Loading\<close>

definition flow_levels :: "string list" where
  "flow_levels = [''info'', ''low'', ''medium'', ''high'', ''critical'', ''1'', ''2'', ''3'', ''4'', ''5'']"

definition convert_level :: "string \<Rightarrow> string" where
  "convert_level l = (case atoi l of Some levelInt \<Rightarrow> ConvertRiskLevel levelInt | None \<Rightarrow> l)"

text \<open>The body of the loop of \<open>NewRuleList\<close> after decoding; \<^const>\<open>None\<close> is \<open>continue\<close>.\<close>

definition match_rule :: "go_ext \<Rightarrow> FlowRule \<Rightarrow> FlowRule option" where
  "match_rule E r =
     (let d = fr_Detection r in
      case parseMatchExpression E (fd_MatchBy d) of
        Some (Inr (matchExpr, conditions)) \<Rightarrow>
          if conditions = [] then None
          else if \<not> validateConditions conditions (fd_SigmaRules d) then None
          else Some (r\<lparr>
            fr_Detection := d\<lparr>fd_MatchExpr := Some matchExpr, fd_Conditions := conditions\<rparr>,
            fr_ExtFields := addCacheKeyFields E
              (collect_fields (extractFields conditions (fd_SigmaRules d))) (fd_CacheKey d)\<rparr>)
      | _ \<Rightarrow> None)"

definition accept_rule :: "go_ext \<Rightarrow> string list \<Rightarrow> FlowRule \<Rightarrow> FlowRule option" where
  "accept_rule E seenRuleIDs r =
     (let d = fr_Detection r in
      if fr_Logsource r \<noteq> ''flow'' then None
      else if \<not> fr_Enable r then None
      else if fr_ID r \<in> set seenRuleIDs then None
      else if fr_Tags r = [] then None
      else if fd_EventType d \<notin> set eventTypes then None
      else if fr_Level r \<notin> set flow_levels then None
      else let r = r\<lparr>fr_Level := convert_level (fr_Level r)\<rparr> in
      if length (fd_SigmaRules d) > MaxFlowSelections then None
      else if fd_SigmaRules d = [] then None
      else if \<not> validateFlowSources r then None
      else if \<not> validateCacheKeyConfig E r then None
      else case ConvertStrTime (fd_WinSize d) of
        Inl _ \<Rightarrow> None
      | Inr val \<Rightarrow>
          if val = 0 \<or> val > MaxFlowWinSize then None
          else match_rule E (r\<lparr>fr_Detection := d\<lparr>fd_WinSizeTs := val\<rparr>\<rparr>))"

fun flow_rule_loop :: "go_ext \<Rightarrow> flow_fs \<Rightarrow> string list \<Rightarrow> string list \<Rightarrow> FlowRule list
    \<Rightarrow> string + FlowRule list" where
  "flow_rule_loop E F [] seenRuleIDs rules = Inr rules"
| "flow_rule_loop E F (file # files) seenRuleIDs rules =
     (case ff_read F file of
        Inl e \<Rightarrow> Inl e
      | Inr data \<Rightarrow>
          (case ff_yaml F data new_rule of
             Inl e \<Rightarrow> Inl e
           | Inr r \<Rightarrow>
               (case accept_rule E seenRuleIDs r of
                  None \<Rightarrow> flow_rule_loop E F files seenRuleIDs rules
                | Some r' \<Rightarrow> flow_rule_loop E F files (fr_ID r' # seenRuleIDs) (rules @ [r']))))"

definition FlowRuleList :: "go_ext \<Rightarrow> flow_fs \<Rightarrow> string list \<Rightarrow> string + FlowRule list" where
  "FlowRuleList E F files =
     (if files = [] then Inl ''missing flow rule file list'' else flow_rule_loop E F files [] [])"

definition parseMatchByExpression :: "go_ext \<Rightarrow> string \<Rightarrow> condition list" where
  "parseMatchByExpression E matchBy =
     (case parseMatchExpression E matchBy of Some (Inr (_, conditions)) \<Rightarrow> conditions | _ \<Rightarrow> [])"

section \<open>From sigma rules to flow rules\<close>

text \<open>The hash \<open>LoadRuleCache\<close> writes: the flow rules of each sigma rule, joined by commas.\<close>

definition add_flow_id :: "string \<Rightarrow> string \<Rightarrow> (string \<times> string) list \<Rightarrow> (string \<times> string) list" where
  "add_flow_id flowID sigmaId m =
     (case map_get m sigmaId of
        Some v \<Rightarrow> map_put m sigmaId (v @ '','' @ flowID)
      | None \<Rightarrow> map_put m sigmaId flowID)"

definition sigmaIDMap :: "FlowRule list \<Rightarrow> (string \<times> string) list" where
  "sigmaIDMap rules =
     fold (\<lambda>fRule m. if fd_SigmaRules (fr_Detection fRule) = [] then m
       else fold (add_flow_id (fr_ID fRule)) (fd_SigmaRules (fr_Detection fRule)) m) rules []"

section \<open>Flow rule sets\<close>

text \<open>\<open>Ruleset\<close> without its connections; the pointers of \<open>FlowRuleByID\<close> are the rules they point
  to.\<close>

record flow_ruleset =
  FlowRules :: "FlowRule list"
  FlowRuleByID :: "(string \<times> FlowRule) list"
  sigmaRuleTTLs :: "(string \<times> int) list"

text \<open>An error of \<open>ConvertStrTime\<close> is dropped and leaves 0.\<close>

definition win_size :: "FlowRule \<Rightarrow> int" where
  "win_size f = (case ConvertStrTime (fd_WinSize (fr_Detection f)) of Inr v \<Rightarrow> v | Inl _ \<Rightarrow> 0)"

definition put_ttl :: "int \<Rightarrow> string \<Rightarrow> (string \<times> int) list \<Rightarrow> (string \<times> int) list" where
  "put_ttl winSize sid m =
     (case map_get m sid of
        Some ttl \<Rightarrow> if ttl < winSize then map_put m sid winSize else map_put m sid winSize
      | None \<Rightarrow> map_put m sid winSize)"

definition rule_ttls :: "FlowRule list \<Rightarrow> (string \<times> int) list" where
  "rule_ttls rules = fold (\<lambda>f. fold (put_ttl (win_size f)) (map fst (fr_ExtFields f))) rules []"

definition FlowNewRuleset :: "go_ext \<Rightarrow> flow_fs \<Rightarrow> string \<Rightarrow> string + flow_ruleset" where
  "FlowNewRuleset E F flowRuleDir =
     (case FlowRuleFileList F [flowRuleDir] of
        (_, Some e) \<Rightarrow> Inl e
      | (files, None) \<Rightarrow>
          (case FlowRuleList E F files of
             Inl e \<Rightarrow> Inl e
           | Inr rules \<Rightarrow> Inr \<lparr>FlowRules = rules,
               FlowRuleByID = fold (\<lambda>r m. map_put m (fr_ID r) r) rules [],
               sigmaRuleTTLs = rule_ttls rules\<rparr>))"

section \<open>Instance keys\<close>

definition normalizeDomain :: "go_ext \<Rightarrow> string \<Rightarrow> string \<Rightarrow> string" where
  "normalizeDomain E domain dcHostname =
     (let domain = to_lower E (trim_space domain); dcHostname = to_lower E (trim_space dcHostname) in
      if domain = [] then []
      else if dcHostname = [] \<or> contains domain ''.'' then domain
      else if has_suffix dcHostname domain then domain
      else let parts = split dcHostname ''.'' in
        if length parts > 1 then join (tl parts) ''.'' else domain)"

definition normalizeIP :: "go_ext \<Rightarrow> string \<Rightarrow> string" where
  "normalizeIP E value =
     (let value = trim_space value in
      case x_parse_ip E value of None \<Rightarrow> value | Some ip \<Rightarrow> ip)"

definition normalize_step :: "go_ext \<Rightarrow> string \<Rightarrow> string \<Rightarrow> string \<Rightarrow> string" where
  "normalize_step E dcHostname normalizer value =
     (if normalizer = ''trim'' then trim_space value
      else if normalizer = ''lower'' then to_lower E value
      else if normalizer = ''domain'' then normalizeDomain E value dcHostname
      else if normalizer = ''ip'' then normalizeIP E value
      else value)"

definition normalizeFlowCacheKeyValue :: "go_ext \<Rightarrow> string \<Rightarrow> string \<Rightarrow> string list \<Rightarrow> string \<Rightarrow> string" where
  "normalizeFlowCacheKeyValue E field value normalizers dcHostname =
     fold (normalize_step E dcHostname) normalizers (trim_space value)"

definition hashCacheKeyParts :: "go_ext \<Rightarrow> string list \<Rightarrow> string" where
  "hashCacheKeyParts E parts = x_md5_hex E (join parts [CHR 0x1F])"

definition fallbackInstanceKeys :: "string \<Rightarrow> string list" where
  "fallbackInstanceKeys uniqueID =
     (let uniqueID = trim_space uniqueID in if uniqueID = [] then [] else [uniqueID])"

definition spec_value :: "go_ext \<Rightarrow> (string \<times> string) list \<Rightarrow> string \<Rightarrow> string \<Rightarrow> string option" where
  "spec_value E flds dcHostname spec =
     (case parseCacheKeyFieldSpec E spec of
        None \<Rightarrow> None
      | Some (field, normalizers) \<Rightarrow>
          let val = (case map_get flds field of Some v \<Rightarrow> v | None \<Rightarrow> []);
              val = (if val = [] \<and> field = ''Hostname'' then dcHostname else val);
              val = normalizeFlowCacheKeyValue E field val normalizers dcHostname
          in if val = [] then None else Some val)"

fun key_parts :: "go_ext \<Rightarrow> (string \<times> string) list \<Rightarrow> string \<Rightarrow> string list \<Rightarrow> string list \<Rightarrow> string list option" where
  "key_parts E flds dcHostname [] parts = Some parts"
| "key_parts E flds dcHostname (spec # specs) parts =
     (case spec_value E flds dcHostname spec of
        None \<Rightarrow> None
      | Some val \<Rightarrow> key_parts E flds dcHostname specs (parts @ [val]))"

text \<open>\<^const>\<open>None\<close> is the nil receiver.\<close>

definition BuildFlowInstanceKeys :: "go_ext \<Rightarrow> flow_ruleset option \<Rightarrow> string \<Rightarrow> string
    \<Rightarrow> (string \<times> string) list \<Rightarrow> string \<Rightarrow> string \<Rightarrow> string list" where
  "BuildFlowInstanceKeys E r flowID sigmaID flds dcHostname uniqueID =
     (case r of
        None \<Rightarrow> fallbackInstanceKeys uniqueID
      | Some rs \<Rightarrow>
          (case map_get (FlowRuleByID rs) flowID of
             None \<Rightarrow> fallbackInstanceKeys uniqueID
           | Some fr \<Rightarrow>
               if fd_CacheKey (fr_Detection fr) = [] then fallbackInstanceKeys uniqueID
               else case map_get (fd_CacheKey (fr_Detection fr)) sigmaID of
                 None \<Rightarrow> fallbackInstanceKeys uniqueID
               | Some specs \<Rightarrow>
                   if specs = [] then fallbackInstanceKeys uniqueID
                   else case key_parts E flds dcHostname specs [] of
                     None \<Rightarrow> []
                   | Some parts \<Rightarrow> if parts = [] then [] else [hashCacheKeyParts E parts]))"

section \<open>What an accepted rule satisfies\<close>

definition flow_rule_ok :: "go_ext \<Rightarrow> FlowRule \<Rightarrow> bool" where
  "flow_rule_ok E r \<longleftrightarrow>
     (let d = fr_Detection r; n = int (length (fd_SigmaRules d)) in
      fr_Logsource r = ''flow'' \<and> fr_Enable r \<and> fr_Tags r \<noteq> [] \<and> fd_EventType d \<in> set eventTypes
      \<and> fr_Level r \<in> set risk_levels
      \<and> 0 < n \<and> n \<le> int MaxFlowSelections
      \<and> validateFlowSources r \<and> validateCacheKeyConfig E r
      \<and> ConvertStrTime (fd_WinSize d) = Inr (fd_WinSizeTs d)
      \<and> fd_WinSizeTs d \<noteq> 0 \<and> fd_WinSizeTs d \<le> MaxFlowWinSize
      \<and> (\<exists>e. fd_MatchExpr d = Some e
           \<and> parseMatchExpression E (fd_MatchBy d) = Some (Inr (e, fd_Conditions d)))
      \<and> fd_Conditions d \<noteq> []
      \<and> (\<forall>c \<in> set (fd_Conditions d). valid c \<and> 0 \<le> fieldOneIdx c \<and> fieldOneIdx c < n
           \<and> (fieldTwoTyp c = ''str'' \<longrightarrow> 0 \<le> fieldTwoIdx c \<and> fieldTwoIdx c < n))
      \<and> fr_ExtFields r = addCacheKeyFields E
          (collect_fields (extractFields (fd_Conditions d) (fd_SigmaRules d))) (fd_CacheKey d))"

lemma validateFlowSources_cong:
  "fd_SigmaRules (fr_Detection r) = fd_SigmaRules (fr_Detection r')
   \<Longrightarrow> fd_EventType (fr_Detection r) = fd_EventType (fr_Detection r')
   \<Longrightarrow> validateFlowSources r = validateFlowSources r'"
  by (simp only: validateFlowSources_def)

lemma validateCacheKeyConfig_cong:
  "fd_SigmaRules (fr_Detection r) = fd_SigmaRules (fr_Detection r')
   \<Longrightarrow> fd_CacheKey (fr_Detection r) = fd_CacheKey (fr_Detection r')
   \<Longrightarrow> validateCacheKeyConfig E r = validateCacheKeyConfig E r'"
  by (simp only: validateCacheKeyConfig_def Let_def)

lemma validate_level [simp]:
  "validateFlowSources (r\<lparr>fr_Level := l\<rparr>) = validateFlowSources r"
  "validateCacheKeyConfig E (r\<lparr>fr_Level := l\<rparr>) = validateCacheKeyConfig E r"
  by (rule validateFlowSources_cong validateCacheKeyConfig_cong, simp_all)+

lemma convert_level_range: "l \<in> set flow_levels \<Longrightarrow> convert_level l \<in> set risk_levels"
  by (auto simp: flow_levels_def convert_level_def ConvertRiskLevel_def parse_int_def parse_digits_def
      is_digit_def risk_levels_def)

lemma risk_level_kept: "l \<in> set risk_levels \<Longrightarrow> l \<in> set flow_levels \<and> convert_level l = l"
  by (auto simp: flow_levels_def convert_level_def parse_int_def parse_digits_def
      is_digit_def risk_levels_def)

lemma match_rule_ok:
  assumes "match_rule E r = Some r'"
  shows "\<exists>e cs. parseMatchExpression E (fd_MatchBy (fr_Detection r)) = Some (Inr (e, cs)) \<and> cs \<noteq> []
    \<and> validateConditions cs (fd_SigmaRules (fr_Detection r))
    \<and> r' = r\<lparr>fr_Detection := (fr_Detection r)\<lparr>fd_MatchExpr := Some e, fd_Conditions := cs\<rparr>,
        fr_ExtFields := addCacheKeyFields E
          (collect_fields (extractFields cs (fd_SigmaRules (fr_Detection r)))) (fd_CacheKey (fr_Detection r))\<rparr>"
  using assms
  by (auto simp: match_rule_def Let_def split: option.splits sum.splits prod.splits if_splits)

lemma accept_rule_ok:
  assumes "accept_rule E seen r = Some r'"
  shows "flow_rule_ok E r' \<and> fr_ID r' = fr_ID r \<and> fr_ID r' \<notin> set seen"
proof -
  obtain v where v: "ConvertStrTime (fd_WinSize (fr_Detection r)) = Inr v" "v \<noteq> 0" "v \<le> MaxFlowWinSize"
    and checks: "fr_Logsource r = ''flow''" "fr_Enable r" "fr_ID r \<notin> set seen" "fr_Tags r \<noteq> []"
      "fd_EventType (fr_Detection r) \<in> set eventTypes" "fr_Level r \<in> set flow_levels"
      "length (fd_SigmaRules (fr_Detection r)) \<le> MaxFlowSelections" "fd_SigmaRules (fr_Detection r) \<noteq> []"
      "validateFlowSources r" "validateCacheKeyConfig E r"
    and m: "match_rule E (r\<lparr>fr_Level := convert_level (fr_Level r),
      fr_Detection := (fr_Detection r)\<lparr>fd_WinSizeTs := v\<rparr>\<rparr>) = Some r'"
    using assms
    by (auto simp: accept_rule_def Let_def not_less split: if_splits sum.splits)
  from match_rule_ok[OF m] obtain e cs where
    p: "parseMatchExpression E (fd_MatchBy (fr_Detection r)) = Some (Inr (e, cs))" "cs \<noteq> []"
      "validateConditions cs (fd_SigmaRules (fr_Detection r))"
    and r': "r' = r\<lparr>fr_Level := convert_level (fr_Level r),
      fr_Detection := (fr_Detection r)\<lparr>fd_WinSizeTs := v, fd_MatchExpr := Some e, fd_Conditions := cs\<rparr>,
      fr_ExtFields := addCacheKeyFields E
        (collect_fields (extractFields cs (fd_SigmaRules (fr_Detection r)))) (fd_CacheKey (fr_Detection r))\<rparr>"
    by auto
  show ?thesis
    using p v checks convert_level_range[of "fr_Level r"]
      validateFlowSources_cong[of r' r] validateCacheKeyConfig_cong[of r' r E]
    by (auto simp: r' flow_rule_ok_def Let_def validateConditions_def list_all_iff)
qed

text \<open>A loaded rule is loaded again unchanged.\<close>

lemma accept_rule_again:
  assumes "flow_rule_ok E r" "fr_ID r \<notin> set seen"
  shows "accept_rule E seen r = Some r"
proof -
  obtain e where e: "fd_MatchExpr (fr_Detection r) = Some e"
      "parseMatchExpression E (fd_MatchBy (fr_Detection r)) = Some (Inr (e, fd_Conditions (fr_Detection r)))"
    using assms(1) by (auto simp: flow_rule_ok_def Let_def)
  have "validateConditions (fd_Conditions (fr_Detection r)) (fd_SigmaRules (fr_Detection r))"
    using assms(1) by (auto simp: flow_rule_ok_def Let_def validateConditions_def list_all_iff)
  moreover have "fr_Level r \<in> set flow_levels \<and> convert_level (fr_Level r) = fr_Level r"
    using assms(1) risk_level_kept by (auto simp: flow_rule_ok_def Let_def)
  ultimately show ?thesis
    using assms e by (auto simp: flow_rule_ok_def Let_def accept_rule_def match_rule_def)
qed

lemma flow_rule_loop_ok:
  assumes "flow_rule_loop E F files seen rules = Inr rs"
    and "distinct (map fr_ID rules)" "set seen = fr_ID ` set rules" "\<forall>r \<in> set rules. flow_rule_ok E r"
  shows "distinct (map fr_ID rs) \<and> (\<forall>r \<in> set rs. flow_rule_ok E r) \<and> length rs \<le> length rules + length files"
  using assms
proof (induction files arbitrary: seen rules)
  case Nil
  then show ?case by simp
next
  case (Cons p files)
  then obtain r where read: "\<exists>data. ff_read F p = Inr data \<and> ff_yaml F data new_rule = Inr r"
    by (auto split: sum.splits)
  show ?case
  proof (cases "accept_rule E seen r")
    case None
    then show ?thesis using Cons read by fastforce
  next
    case (Some r')
    from accept_rule_ok[OF Some] have r': "flow_rule_ok E r'" "fr_ID r' \<notin> set seen" by blast+
    have "distinct (map fr_ID rs) \<and> (\<forall>r \<in> set rs. flow_rule_ok E r) \<and> length rs \<le> length (rules @ [r']) + length files"
    proof (rule Cons.IH[of "fr_ID r' # seen" "rules @ [r']"])
      show "flow_rule_loop E F files (fr_ID r' # seen) (rules @ [r']) = Inr rs"
        using Cons.prems(1) read Some by auto
      show "distinct (map fr_ID (rules @ [r']))" using Cons.prems(2,3) r'(2) by auto
      show "set (fr_ID r' # seen) = fr_ID ` set (rules @ [r'])" using Cons.prems(3) by auto
      show "\<forall>r \<in> set (rules @ [r']). flow_rule_ok E r" using Cons.prems(4) r'(1) by auto
    qed
    then show ?thesis by simp
  qed
qed

lemma FlowRuleList_ok:
  "FlowRuleList E F files = Inr rs \<Longrightarrow>
   distinct (map fr_ID rs) \<and> (\<forall>r \<in> set rs. flow_rule_ok E r) \<and> length rs \<le> length files"
  using flow_rule_loop_ok[of E F files "[]" "[]" rs] by (auto simp: FlowRuleList_def split: if_splits)

section \<open>The fields of a rule\<close>

abbreviation fields_of :: "(string \<times> string list) list \<Rightarrow> string \<Rightarrow> string set" where
  "fields_of m sid \<equiv> (case map_of m sid of Some fs \<Rightarrow> set fs | None \<Rightarrow> {})"

text \<open>The references \<open>(index, field)\<close> of a condition.\<close>

definition condition_refs :: "condition \<Rightarrow> (int \<times> string) set" where
  "condition_refs c =
     {(fieldOneIdx c, fieldOneVal c)}
     \<union> (if operation c = ''in'' \<or> operation c = ''count'' then
          (if operation c = ''in'' \<and> (fieldTwoTyp c = ''cache'' \<or> fieldTwoTyp c = ''ldap'')
           then (\<lambda>ref. (ref_idx ref, ref_field ref)) ` set (extractCacheFieldRefs (fieldTwoVal c)) else {})
        else if fieldTwoTyp c = ''str'' then {(fieldTwoIdx c, fieldTwoVal c)} else {})"

definition internal_field :: "string \<Rightarrow> bool" where
  "internal_field f \<longleftrightarrow> f = ''_count'' \<or> atoi f \<noteq> None"

lemma fields_of_map_append:
  "fields_of (map_append m k vs) sid = fields_of m sid \<union> (if sid = k then set vs else {})"
  by (auto simp: map_append_def map_of_map_put split: option.splits)

lemma keys_map_append: "fst ` set (map_append m k vs) = insert k (fst ` set m)"
  by (simp add: map_append_def keys_map_put)

lemma fields_of_add_refs:
  "fields_of (add_refs ids refs m) sid = fields_of m sid \<union>
     {f. \<exists>ref \<in> set refs. ref_field ref = f \<and> 0 \<le> ref_idx ref \<and> ref_idx ref < int (length ids)
        \<and> ids ! nat (ref_idx ref) = sid}"
proof (induction refs arbitrary: m)
  case Nil
  then show ?case by (simp add: add_refs_def)
next
  case (Cons ref refs)
  show ?case
  proof (cases "ref_idx ref < 0 \<or> ref_idx ref > int (length ids) - 1")
    case True
    then have "add_refs ids (ref # refs) m = add_refs ids refs m" by (simp add: add_refs_def)
    then show ?thesis using Cons True by auto
  next
    case False
    then have "add_refs ids (ref # refs) m
        = add_refs ids refs (map_append m (ids ! nat (ref_idx ref)) [ref_field ref])"
      by (auto simp: add_refs_def)
    then show ?thesis using Cons False by (auto simp: fields_of_map_append)
  qed
qed

lemma keys_add_refs: "fst ` set m = set ids \<Longrightarrow> fst ` set (add_refs ids refs m) = set ids"
proof (induction refs arbitrary: m)
  case Nil
  then show ?case by (simp add: add_refs_def)
next
  case (Cons ref refs)
  let ?m = "if ref_idx ref < 0 \<or> ref_idx ref > int (length ids) - 1 then m
    else map_append m (ids ! nat (ref_idx ref)) [ref_field ref]"
  have "fst ` set ?m = set ids"
    using Cons.prems by (auto simp: keys_map_append insert_absorb nat_less_iff simp del: set_map)
  moreover have "add_refs ids (ref # refs) m = add_refs ids refs ?m" by (simp add: add_refs_def)
  ultimately show ?case using Cons.IH by presburger
qed

definition refs_at :: "string list \<Rightarrow> condition \<Rightarrow> string \<Rightarrow> string set" where
  "refs_at ids c sid = {f. \<exists>i. (i, f) \<in> condition_refs c \<and> 0 \<le> i \<and> i < int (length ids) \<and> ids ! nat i = sid}"

definition in_range :: "string list \<Rightarrow> condition \<Rightarrow> bool" where
  "in_range ids c \<longleftrightarrow> valid c \<and> 0 \<le> fieldOneIdx c \<and> fieldOneIdx c < int (length ids)
     \<and> (fieldTwoTyp c = ''str'' \<longrightarrow> 0 \<le> fieldTwoIdx c \<and> fieldTwoIdx c < int (length ids))"

text \<open>Up to the internal field \<open>_count\<close>, one condition adds exactly its references.\<close>

lemma fields_of_extract_one:
  assumes "in_range ids c"
  shows "fields_of (extract_one ids c m) sid - {''_count''}
    = (fields_of m sid \<union> refs_at ids c sid) - {''_count''}"
proof (cases "operation c = ''in'' \<or> operation c = ''count''")
  case True
  then show ?thesis using assms
    by (auto simp: extract_one_def Let_def in_range_def refs_at_def condition_refs_def
        fields_of_add_refs fields_of_map_append)
next
  case False
  then show ?thesis using assms
    by (auto simp: extract_one_def Let_def in_range_def refs_at_def condition_refs_def
        fields_of_map_append)
qed

lemma keys_extract_one:
  assumes "fst ` set m = set ids"
  shows "fst ` set (extract_one ids c m) = set ids"
  using assms
  by (auto simp: extract_one_def Let_def keys_map_append keys_add_refs insert_absorb nat_less_iff)

lemma extract_fold:
  assumes "\<forall>c \<in> set cs. in_range ids c"
  shows "fields_of (fold (extract_one ids) cs m) sid - {''_count''}
    = (fields_of m sid \<union> (\<Union>c \<in> set cs. refs_at ids c sid)) - {''_count''}"
  using assms
proof (induction cs arbitrary: m)
  case Nil
  then show ?case by simp
next
  case (Cons c cs)
  have "fields_of (extract_one ids c m) sid - {''_count''} = (fields_of m sid \<union> refs_at ids c sid) - {''_count''}"
    using Cons.prems by (simp add: fields_of_extract_one)
  with Cons show ?case by auto
qed

lemma keys_extract_fold: "fst ` set m = set ids \<Longrightarrow> fst ` set (fold (extract_one ids) cs m) = set ids"
  by (induction cs arbitrary: m) (simp_all add: keys_extract_one)

lemma keys_fold_put: "fst ` set (fold (\<lambda>x m. map_put m x v) xs m) = set xs \<union> fst ` set m"
  by (induction xs arbitrary: m) (auto simp: keys_map_put)

lemma fields_fold_put: "fields_of m sid = {} \<Longrightarrow> fields_of (fold (\<lambda>x m. map_put m x []) xs m) sid = {}"
  by (induction xs arbitrary: m) (simp_all add: map_of_map_put)

lemma extractFields_fields:
  "\<forall>c \<in> set cs. in_range ids c \<Longrightarrow>
   fields_of (extractFields cs ids) sid - {''_count''} = (\<Union>c \<in> set cs. refs_at ids c sid) - {''_count''}"
  using extract_fold[of cs ids "fold (\<lambda>sid m. map_put m sid []) ids []" sid]
  by (simp add: extractFields_def Let_def fields_fold_put)

lemma extractFields_keys: "fst ` set (extractFields cs ids) = set ids"
  by (simp add: extractFields_def Let_def keys_extract_fold keys_fold_put)

lemma distinct_extract_one: "distinct (map fst m) \<Longrightarrow> distinct (map fst (extract_one ids c m))"
proof -
  have app: "distinct (map fst m) \<Longrightarrow> distinct (map fst (map_append m k vs))" for m k vs
    by (simp add: map_append_def distinct_map_put)
  have "distinct (map fst m) \<Longrightarrow> distinct (map fst (add_refs ids refs m))" for refs m
    by (induction refs arbitrary: m) (simp_all add: add_refs_def app)
  with app show "distinct (map fst m) \<Longrightarrow> ?thesis"
    by (simp add: extract_one_def Let_def)
qed

lemma distinct_extractFields: "distinct (map fst (extractFields cs ids))"
proof -
  have "distinct (map fst m) \<Longrightarrow> distinct (map fst (fold (extract_one ids) cs m))" for m
    by (induction cs arbitrary: m) (simp_all add: distinct_extract_one)
  moreover have "distinct (map fst m) \<Longrightarrow> distinct (map fst (fold (\<lambda>sid m. map_put m sid []) xs m))" for xs :: "string list" and m :: "(string \<times> string list) list"
    by (induction xs arbitrary: m) (simp_all add: distinct_map_put)
  ultimately show ?thesis by (simp add: extractFields_def Let_def)
qed

lemma collect_fold:
  assumes "distinct (map fst fs)" "fst ` set fs \<inter> fst ` set m = {}"
  shows "map_of (fold collect_one fs m) k
    = (case map_of fs k of Some flds \<Rightarrow> Some (remdups (filter_fields flds)) | None \<Rightarrow> map_of m k)"
  using assms
proof (induction fs arbitrary: m)
  case Nil
  then show ?case by simp
next
  case (Cons p fs)
  obtain sid flds where p: "p = (sid, flds)" by (cases p)
  let ?m = "map_put m sid (RemoveDuplicate (filter_fields flds))"
  have "map_of m sid = None" using Cons.prems p by (auto simp: map_of_eq_None_iff)
  moreover have "fst ` set fs \<inter> fst ` set ?m = {}" using Cons.prems p by (auto simp: keys_map_put)
  moreover have "fold collect_one (p # fs) m = fold collect_one fs ?m"
    using \<open>map_of m sid = None\<close> by (simp add: collect_one_def p)
  moreover have "map_of fs sid = None" using Cons.prems p by (simp add: map_of_eq_None_iff)
  ultimately show ?case using Cons.IH[of ?m] Cons.prems p
    by (auto simp: map_of_map_put RemoveDuplicate_remdups split: option.splits)
qed

lemma collect_fields_map:
  "distinct (map fst fs) \<Longrightarrow> map_of (collect_fields fs) k = map_option (remdups \<circ> filter_fields) (map_of fs k)"
  using collect_fold[of fs "[]" k] by (auto simp: collect_fields_def split: option.splits)

lemma collect_fields_fields:
  "distinct (map fst fs) \<Longrightarrow> fields_of (collect_fields fs) k = {f \<in> fields_of fs k. \<not> internal_field f}"
  by (auto simp: collect_fields_map filter_fields_def internal_field_def split: option.splits)

definition cache_fields :: "go_ext \<Rightarrow> (string \<times> string list) list \<Rightarrow> string \<Rightarrow> string set" where
  "cache_fields E cacheKey sid =
     {f. \<exists>specs spec ns. (sid, specs) \<in> set cacheKey \<and> spec \<in> set specs
        \<and> parseCacheKeyFieldSpec E spec = Some (f, ns)}"

lemma add_specs_fields:
  "fields_of (fold (add_spec E k) specs m) sid
   = fields_of m sid \<union> (if sid = k then
       {f. \<exists>spec \<in> set specs. \<exists>ns. parseCacheKeyFieldSpec E spec = Some (f, ns)} else {})"
proof (induction specs arbitrary: m)
  case Nil
  then show ?case by simp
next
  case (Cons spec specs)
  then show ?case
    by (cases "parseCacheKeyFieldSpec E spec") (auto simp: add_spec_def fields_of_map_append)
qed

lemma addCacheKeyFields_fields:
  "fields_of (addCacheKeyFields E m cacheKey) sid = fields_of m sid \<union> cache_fields E cacheKey sid"
proof (induction cacheKey arbitrary: m)
  case Nil
  then show ?case by (simp add: addCacheKeyFields_def cache_fields_def)
next
  case (Cons p cacheKey)
  obtain k specs where p: "p = (k, specs)" by (cases p)
  let ?m = "fold (add_spec E k) specs m"
  have "addCacheKeyFields E m (p # cacheKey) = addCacheKeyFields E ?m cacheKey"
    by (simp add: addCacheKeyFields_def p)
  moreover have "cache_fields E (p # cacheKey) sid = cache_fields E cacheKey sid
      \<union> (if sid = k then {f. \<exists>spec \<in> set specs. \<exists>ns. parseCacheKeyFieldSpec E spec = Some (f, ns)} else {})"
    by (auto simp: cache_fields_def p)
  ultimately show ?case using Cons.IH[of ?m] by (auto simp: add_specs_fields)
qed

text \<open>The fields a loaded rule asks of a sigma rule: what its conditions refer to, without the internal
  ones, and what the instance key is built from.\<close>

lemma ext_fields_exact:
  assumes "flow_rule_ok E r"
  shows "fields_of (fr_ExtFields r) sid =
    {f. \<exists>c \<in> set (fd_Conditions (fr_Detection r)). \<exists>i. (i, f) \<in> condition_refs c
       \<and> 0 \<le> i \<and> i < int (length (fd_SigmaRules (fr_Detection r)))
       \<and> fd_SigmaRules (fr_Detection r) ! nat i = sid \<and> \<not> internal_field f}
    \<union> cache_fields E (fd_CacheKey (fr_Detection r)) sid"
proof -
  let ?d = "fr_Detection r"
  let ?fs = "extractFields (fd_Conditions ?d) (fd_SigmaRules ?d)"
  have "\<forall>c \<in> set (fd_Conditions ?d). in_range (fd_SigmaRules ?d) c"
    using assms by (auto simp: flow_rule_ok_def Let_def in_range_def)
  from extractFields_fields[OF this, of sid]
  have "{f \<in> fields_of ?fs sid. \<not> internal_field f}
      = {f \<in> (\<Union>c \<in> set (fd_Conditions ?d). refs_at (fd_SigmaRules ?d) c sid). \<not> internal_field f}"
    by (auto simp: internal_field_def)
  moreover have "fields_of (fr_ExtFields r) sid
      = {f \<in> fields_of ?fs sid. \<not> internal_field f} \<union> cache_fields E (fd_CacheKey ?d) sid"
    using assms by (simp add: flow_rule_ok_def Let_def addCacheKeyFields_fields
        collect_fields_fields distinct_extractFields)
  ultimately show ?thesis by (auto simp: refs_at_def)
qed

section \<open>The table of flow rules\<close>

text \<open>The flow rules of a sigma rule, once per occurrence.\<close>

definition flows_of :: "FlowRule list \<Rightarrow> string \<Rightarrow> string list" where
  "flows_of rules sid = concat (map (\<lambda>r. map (\<lambda>_. fr_ID r)
     (filter (\<lambda>s. s = sid) (fd_SigmaRules (fr_Detection r)))) rules)"

definition joined :: "string list \<Rightarrow> string option" where
  "joined ids = (if ids = [] then None else Some (join ids '',''))"

lemma joined_snoc: "joined (ids @ [x]) = Some (case joined ids of Some v \<Rightarrow> v @ '','' @ x | None \<Rightarrow> x)"
  by (simp add: joined_def join_snoc)

lemma add_flow_fold:
  "map_of m sid = joined ids \<Longrightarrow> map_of (fold (add_flow_id f) sids m) sid
     = joined (ids @ map (\<lambda>_. f) (filter (\<lambda>s. s = sid) sids))"
proof (induction sids arbitrary: m ids)
  case Nil
  then show ?case by simp
next
  case (Cons s sids)
  let ?ids = "if s = sid then ids @ [f] else ids"
  have "map_of (add_flow_id f s m) sid = joined ?ids"
    using Cons.prems by (auto simp: add_flow_id_def map_of_map_put joined_snoc split: option.splits)
  from Cons.IH[OF this] show ?case by simp
qed

lemma sigmaIDMap_map: "map_of (sigmaIDMap rules) sid = joined (flows_of rules sid)"
proof -
  have "map_of m sid = joined ids \<Longrightarrow> map_of (fold (\<lambda>fRule m.
      if fd_SigmaRules (fr_Detection fRule) = [] then m
      else fold (add_flow_id (fr_ID fRule)) (fd_SigmaRules (fr_Detection fRule)) m) rules m) sid
    = joined (ids @ flows_of rules sid)" for m ids
  proof (induction rules arbitrary: m ids)
    case Nil
    then show ?case by (simp add: flows_of_def)
  next
    case (Cons r rules)
    let ?m = "if fd_SigmaRules (fr_Detection r) = [] then m
      else fold (add_flow_id (fr_ID r)) (fd_SigmaRules (fr_Detection r)) m"
    have "map_of ?m sid = joined (ids @ flows_of [r] sid)"
      using Cons.prems add_flow_fold[OF Cons.prems] by (simp add: flows_of_def)
    from Cons.IH[OF this] show ?case by (simp add: flows_of_def)
  qed
  from this[of "[]" "[]"] show ?thesis by (simp add: sigmaIDMap_def joined_def)
qed

text \<open>Splitting an entry at the commas gives the flow rules back.\<close>

lemma sigmaIDMap_split:
  assumes "map_of (sigmaIDMap rules) sid = Some v" "\<forall>r \<in> set rules. CHR '','' \<notin> set (fr_ID r)"
  shows "split v '','' = flows_of rules sid"
proof -
  have "flows_of rules sid \<noteq> []" "v = join (flows_of rules sid) '',''"
    using assms(1) by (auto simp: sigmaIDMap_map joined_def split: if_splits)
  moreover have "\<forall>x \<in> set (flows_of rules sid). CHR '','' \<notin> set x"
    using assms(2) by (auto simp: flows_of_def)
  ultimately show ?thesis using split_join[of "flows_of rules sid" "CHR '',''"] by simp
qed

lemma flows_of_set: "set (flows_of rules sid) = {fr_ID r | r. r \<in> set rules \<and> sid \<in> set (fd_SigmaRules (fr_Detection r))}"
  by (auto simp: flows_of_def)

section \<open>Retention of activities\<close>

lemma put_ttl_map: "map_of (put_ttl w s m) = (map_of m)(s \<mapsto> w)"
  by (simp add: put_ttl_def map_of_map_put split: option.splits)

lemma put_ttl_fold: "map_of (fold (put_ttl w) ks m) sid = (if sid \<in> set ks then Some w else map_of m sid)"
  by (induction ks arbitrary: m) (auto simp: put_ttl_map)

text \<open>The last rule that uses a sigma rule decides.\<close>

lemma rule_ttls_last:
  "map_of (rule_ttls rules) sid =
     (case filter (\<lambda>f. sid \<in> fst ` set (fr_ExtFields f)) (rev rules) of
        [] \<Rightarrow> None | f # _ \<Rightarrow> Some (win_size f))"
proof -
  have "map_of (fold (\<lambda>f. fold (put_ttl (win_size f)) (map fst (fr_ExtFields f))) rules m) sid =
     (case filter (\<lambda>f. sid \<in> fst ` set (fr_ExtFields f)) (rev rules) of
        [] \<Rightarrow> map_of m sid | f # _ \<Rightarrow> Some (win_size f))" for m
    by (induction rules arbitrary: m rule: rev_induct) (simp_all add: put_ttl_fold)
  then show ?thesis by (simp add: rule_ttls_def split: list.splits)
qed

lemma win_size_ok: "flow_rule_ok E r \<Longrightarrow> win_size r = fd_WinSizeTs (fr_Detection r)"
  by (simp add: win_size_def flow_rule_ok_def Let_def)

section \<open>Instance keys\<close>

lemma key_parts_acc:
  "key_parts E flds h specs parts = map_option (\<lambda>ps. parts @ ps) (key_parts E flds h specs [])"
proof (induction specs arbitrary: parts)
  case Nil
  then show ?case by simp
next
  case (Cons s specs)
  show ?case
  proof (cases "spec_value E flds h s")
    case (Some v)
    then show ?thesis using Cons[of "parts @ [v]"] Cons[of "[v]"]
      by (simp add: option.map_comp o_def)
  qed simp
qed

lemma key_parts_values:
  "key_parts E flds h specs [] = Some parts \<longleftrightarrow> map (spec_value E flds h) specs = map Some parts"
proof (induction specs arbitrary: parts)
  case Nil
  then show ?case by auto
next
  case (Cons s specs)
  show ?case
  proof (cases "spec_value E flds h s")
    case None
    then show ?thesis by (cases parts) simp_all
  next
    case (Some v)
    then have "key_parts E flds h (s # specs) [] = map_option (\<lambda>ps. v # ps) (key_parts E flds h specs [])"
      using key_parts_acc[of E flds h specs "[v]"] by simp
    then show ?thesis using Cons Some by (cases parts) auto
  qed
qed

text \<open>The separator keeps lists of values apart.\<close>

lemma hash_parts_inj:
  assumes "inj (x_md5_hex E)" "ps \<noteq> []" "qs \<noteq> []"
    and "\<forall>x \<in> set ps \<union> set qs. CHR 0x1F \<notin> set x"
  shows "hashCacheKeyParts E ps = hashCacheKeyParts E qs \<longleftrightarrow> ps = qs"
proof
  assume "hashCacheKeyParts E ps = hashCacheKeyParts E qs"
  then have "join ps [CHR 0x1F] = join qs [CHR 0x1F]"
    using assms(1) by (auto simp: hashCacheKeyParts_def dest: injD)
  then have "split (join ps [CHR 0x1F]) [CHR 0x1F] = split (join qs [CHR 0x1F]) [CHR 0x1F]" by simp
  then show "ps = qs" using split_join[of ps "CHR 0x1F"] split_join[of qs "CHR 0x1F"] assms(2-4) by auto
qed simp

lemma instance_keys_configured:
  assumes "map_of (FlowRuleByID rs) fid = Some fr" "map_of (fd_CacheKey (fr_Detection fr)) sid = Some specs"
    "specs \<noteq> []"
  shows "BuildFlowInstanceKeys E (Some rs) fid sid flds h uid =
    (if \<forall>spec \<in> set specs. spec_value E flds h spec \<noteq> None
     then [hashCacheKeyParts E (map (the \<circ> spec_value E flds h) specs)] else [])"
proof -
  have ne: "fd_CacheKey (fr_Detection fr) \<noteq> []" using assms(2) by auto
  show ?thesis
  proof (cases "\<forall>spec \<in> set specs. spec_value E flds h spec \<noteq> None")
    case True
    then have "map (spec_value E flds h) specs = map Some (map (the \<circ> spec_value E flds h) specs)" by auto
    then have "key_parts E flds h specs [] = Some (map (the \<circ> spec_value E flds h) specs)"
      by (simp only: key_parts_values)
    then show ?thesis using assms ne True by (simp add: BuildFlowInstanceKeys_def)
  next
    case False
    then have "key_parts E flds h specs [] \<noteq> Some ps" for ps
      by (auto simp: key_parts_values) (metis in_set_conv_nth length_map nth_map option.distinct(1))
    then have "key_parts E flds h specs [] = None" by (cases "key_parts E flds h specs []") auto
    then show ?thesis using assms ne False by (simp add: BuildFlowInstanceKeys_def)
  qed
qed

end
