(* ===== verification/Engine_Store.thy ===== *)
theory Engine_Store
  imports Engine_Common "HOL-Library.State_Monad"
begin

text \<open>
  The services the engine talks to: Redis, MongoDB, Elasticsearch, the clock and the generator of object ids. They
  are outside the repository, so every call is a field of the record \<open>services\<close>, a state transformer
  over an arbitrary state \<open>'s\<close> of the outside world; time-outs of a context show as errors of the
  calls. The documents of \<open>engine/model/types.go\<close> are records.
\<close>

section \<open>Documents\<close>

text \<open>An object id is its hexadecimal form; a creation time is in nanoseconds.\<close>

record alert_activity =
  aa_ID :: string
  aa_Title :: string
  aa_Desc :: string
  aa_RuleId :: string
  aa_UniqueId :: string
  aa_AttCkId :: string
  aa_Level :: int
  aa_Status :: string
  aa_Tags :: "string list"
  aa_DcHostname :: string
  aa_RawLog :: string
  aa_Result :: string
  aa_FieldData :: "(string \<times> string) list"
  aa_CreateTm :: int
  aa_TimeStamp :: int

record alert_event =
  ae_ID :: string
  ae_Title :: string
  ae_Desc :: string
  ae_FlowId :: string
  ae_UniqueId :: string
  ae_AttCkId :: string
  ae_Level :: int
  ae_Status :: string
  ae_EventStatus :: int
  ae_Tags :: "string list"
  ae_DcHostname :: string
  ae_ActivityIds :: "string list"
  ae_Result :: string
  ae_Remark :: string
  ae_FieldData :: "(string \<times> string) list"
  ae_CreateTm :: int
  ae_StartTs :: int
  ae_EndTs :: int

datatype document = DocActivity alert_activity | DocEvent alert_event

definition activity_collection :: string where
  "activity_collection = ''tb_alert_activity''"

definition event_collection :: string where
  "event_collection = ''tb_alert_event''"

section \<open>Services\<close>

text \<open>\<open>redis.Nil\<close> is the error for a missing key. A call that only reports an error returns
  \<open>rdx_error option\<close>.\<close>

datatype rdx_error = RdxNil | RdxErr string

type_synonym ('s, 'a) io = "('s, 'a) state"

text \<open>Scores are Unix milliseconds, exact as \<open>float64\<close>; times to live are in seconds, 0 for none. A
  hash is an association list in the order of one iteration over the Go map. \<open>rdx_brpop\<close> waits on the two
  log queues; \<open>es_index_exists\<close> returns the status code.\<close>

record 's services =
  rdx_del :: "string \<Rightarrow> ('s, rdx_error option) io"
  rdx_exists :: "string \<Rightarrow> ('s, int) io"
  rdx_expire :: "string \<Rightarrow> int \<Rightarrow> ('s, rdx_error option) io"
  rdx_set :: "string \<Rightarrow> string \<Rightarrow> int \<Rightarrow> ('s, rdx_error option) io"
  rdx_setnx :: "string \<Rightarrow> string \<Rightarrow> int \<Rightarrow> ('s, rdx_error + bool) io"
  rdx_publish :: "string \<Rightarrow> string \<Rightarrow> ('s, rdx_error option) io"
  rdx_lpush :: "string \<Rightarrow> string \<Rightarrow> ('s, rdx_error option) io"
  rdx_smembers :: "string \<Rightarrow> ('s, rdx_error + string list) io"
  rdx_sadd :: "string \<Rightarrow> string \<Rightarrow> ('s, rdx_error option) io"
  rdx_srem :: "string \<Rightarrow> string \<Rightarrow> ('s, rdx_error option) io"
  rdx_keys :: "string \<Rightarrow> ('s, string list) io"
  rdx_hget :: "string \<Rightarrow> string \<Rightarrow> ('s, rdx_error + string) io"
  rdx_hgetall :: "string \<Rightarrow> ('s, rdx_error + (string \<times> string) list) io"
  rdx_hset :: "string \<Rightarrow> string \<Rightarrow> gval \<Rightarrow> ('s, rdx_error option) io"
  rdx_hmset :: "string \<Rightarrow> (string \<times> gval) list \<Rightarrow> ('s, rdx_error option) io"
  rdx_zadd :: "string \<Rightarrow> int \<Rightarrow> string \<Rightarrow> ('s, rdx_error option) io"
  rdx_zrange :: "string \<Rightarrow> ('s, rdx_error + (string \<times> int) list) io"
  rdx_zrangebyscore :: "string \<Rightarrow> string \<Rightarrow> string \<Rightarrow> ('s, rdx_error + (string \<times> int) list) io"
  rdx_zrem :: "string \<Rightarrow> string \<Rightarrow> ('s, rdx_error option) io"
  rdx_zremrangebyscore :: "string \<Rightarrow> string \<Rightarrow> string \<Rightarrow> ('s, rdx_error option) io"
  rdx_brpop :: "('s, rdx_error + string list) io"
  rdx_ping :: "('s, rdx_error option) io"
  es_index_exists :: "string \<Rightarrow> ('s, string + int) io"
  es_index_create :: "string \<Rightarrow> ('s, string option) io"
  db_insert :: "string \<Rightarrow> document \<Rightarrow> ('s, string option) io"
  sys_new_id :: "('s, string) io"
  sys_now :: "('s, int) io"

abbreviation ret :: "'a \<Rightarrow> ('s, 'a) io" where
  "ret \<equiv> State_Monad.return"

text \<open>\<open>time.Now().UnixNano() / 1e6\<close> and \<open>time.Now().Unix()\<close>; the clock is past 1970.\<close>

definition now_ms :: "'s services \<Rightarrow> ('s, int) io" where
  "now_ms S = do { t \<leftarrow> sys_now S; ret (t div 1000000) }"

definition now_s :: "'s services \<Rightarrow> ('s, int) io" where
  "now_s S = do { t \<leftarrow> sys_now S; ret (t div 1000000000) }"

section \<open>Loops and panics\<close>

text \<open>A panic unwinds the goroutine; what was written before it stays written.\<close>

datatype 'a outcome = Panic string | Done 'a

fun foreach :: "('a \<Rightarrow> ('s, unit) io) \<Rightarrow> 'a list \<Rightarrow> ('s, unit) io" where
  "foreach f [] = ret ()"
| "foreach f (x # xs) = do { f x; foreach f xs }"

fun foreach_panic :: "('a \<Rightarrow> ('s, unit outcome) io) \<Rightarrow> 'a list \<Rightarrow> ('s, unit outcome) io" where
  "foreach_panic f [] = ret (Done ())"
| "foreach_panic f (x # xs) =
     do { r \<leftarrow> f x; case r of Panic m \<Rightarrow> ret (Panic m) | Done _ \<Rightarrow> foreach_panic f xs }"

section \<open>Invariants of a call\<close>

text \<open>\<open>keeps I m\<close>: the call \<open>m\<close> keeps the predicate \<open>I\<close>, and \<open>yields I m P\<close>: started in \<open>I\<close> it also
  returns a value with \<open>P\<close>.\<close>

named_theorems io_rules \<open>rules for the invariants of calls\<close>

definition yields :: "('s \<Rightarrow> bool) \<Rightarrow> ('s, 'a) io \<Rightarrow> ('a \<Rightarrow> bool) \<Rightarrow> bool" where
  "yields I m P \<longleftrightarrow> (\<forall>s. I s \<longrightarrow> I (snd (run_state m s)) \<and> P (fst (run_state m s)))"

abbreviation keeps :: "('s \<Rightarrow> bool) \<Rightarrow> ('s, 'a) io \<Rightarrow> bool" where
  "keeps I m \<equiv> yields I m (\<lambda>_. True)"

lemma yieldsD: "yields I m P \<Longrightarrow> I s \<Longrightarrow> run_state m s = (a, s') \<Longrightarrow> I s' \<and> P a"
  by (auto simp: yields_def dest!: spec[of _ s])

lemma yields_ret [io_rules]: "P a \<Longrightarrow> yields I (ret a) P"
  by (simp add: yields_def)

lemma yields_bind:
  "yields I m Q \<Longrightarrow> (\<And>a. Q a \<Longrightarrow> yields I (f a) P) \<Longrightarrow> yields I (State_Monad.bind m f) P"
  by (auto simp: yields_def split: prod.splits)

lemma keeps_bind [io_rules]:
  "keeps I m \<Longrightarrow> (\<And>a. keeps I (f a)) \<Longrightarrow> keeps I (State_Monad.bind m f)"
  by (rule yields_bind)

lemma yields_if [io_rules]:
  "(b \<Longrightarrow> yields I m P) \<Longrightarrow> (\<not> b \<Longrightarrow> yields I n P) \<Longrightarrow> yields I (if b then m else n) P"
  by simp

lemma yields_weaken: "yields I m P \<Longrightarrow> (\<And>a. P a \<Longrightarrow> Q a) \<Longrightarrow> yields I m Q"
  by (auto simp: yields_def)

lemma keepsI: "yields I m P \<Longrightarrow> keeps I m"
  by (auto simp: yields_def)

lemma yields_option [io_rules]:
  "(x = None \<Longrightarrow> yields I m P) \<Longrightarrow> (\<And>a. x = Some a \<Longrightarrow> yields I (f a) P)
   \<Longrightarrow> yields I (case x of None \<Rightarrow> m | Some a \<Rightarrow> f a) P"
  by (cases x) simp_all

lemma yields_sum [io_rules]:
  "(\<And>a. x = Inl a \<Longrightarrow> yields I (f a) P) \<Longrightarrow> (\<And>b. x = Inr b \<Longrightarrow> yields I (g b) P)
   \<Longrightarrow> yields I (case x of Inl a \<Rightarrow> f a | Inr b \<Rightarrow> g b) P"
  by (cases x) simp_all

lemma yields_prod [io_rules]:
  "(\<And>a b. x = (a, b) \<Longrightarrow> yields I (f a b) P) \<Longrightarrow> yields I (case x of (a, b) \<Rightarrow> f a b) P"
  by (cases x) simp_all

lemma yields_outcome [io_rules]:
  "(\<And>a. x = Panic a \<Longrightarrow> yields I (f a) P) \<Longrightarrow> (\<And>b. x = Done b \<Longrightarrow> yields I (g b) P)
   \<Longrightarrow> yields I (case x of Panic a \<Rightarrow> f a | Done b \<Rightarrow> g b) P"
  by (cases x) simp_all

lemma yields_let [io_rules]: "yields I (f x) P \<Longrightarrow> yields I (let y = x in f y) P"
  by simp

lemma keeps_foreach [io_rules]: "(\<And>x. x \<in> set xs \<Longrightarrow> keeps I (f x)) \<Longrightarrow> keeps I (foreach f xs)"
  by (induction xs) (auto intro!: yields_ret yields_bind)

lemma yields_foreach_panic:
  "(\<And>x. x \<in> set xs \<Longrightarrow> yields I (f x) (\<lambda>r. r = Done ())) \<Longrightarrow> yields I (foreach_panic f xs) (\<lambda>r. r = Done ())"
proof (induction xs)
  case Nil
  then show ?case by (simp add: yields_ret)
next
  case (Cons x xs)
  have "yields I (f x) (\<lambda>r. r = Done ())" using Cons.prems by simp
  moreover have "yields I (foreach_panic f xs) (\<lambda>r. r = Done ())" using Cons by simp
  ultimately show ?case by (auto intro!: yields_bind)
qed

lemma keeps_foreach_panic [io_rules]:
  "(\<And>x. x \<in> set xs \<Longrightarrow> keeps I (f x)) \<Longrightarrow> keeps I (foreach_panic f xs)"
proof (induction xs)
  case Nil
  then show ?case by (simp add: yields_ret)
next
  case (Cons x xs)
  then have "keeps I (f x)" "keeps I (foreach_panic f xs)" by simp_all
  then show ?case by (auto intro!: yields_bind yields_outcome yields_ret)
qed

end
