(* ===== verification/Flow_Match.thy ===== *)
theory Flow_Match
  imports Flow_Rule Engine_Store
begin

text \<open>
  Matching the activities of a flow instance against a flow rule
  (\<open>engine/flow/parse_multieve.go\<close>, the pure parts of \<open>engine/flow/parse_count.go\<close>, the lookup keys of
  \<open>engine/flow/cache_key.go\<close> and \<open>engine/flow/ldap_lookup.go\<close>): comparisons, counting, the choice of one
  activity per sigma rule, and the evaluation of a match expression, whose \<open>in\<close> conditions ask Redis.
\<close>

section \<open>Activities\<close>

text \<open>\<open>act_nil\<close> says that \<open>activityCache\<close> is the nil map, which reads as empty and panics on an
  assignment.\<close>

record flowActivity =
  act_timestamp :: int
  act_id :: string
  act_cache :: "(string \<times> string) list"
  act_nil :: bool

definition getFieldVal :: "string \<Rightarrow> flowActivity \<Rightarrow> string" where
  "getFieldVal field act =
     (case map_get (act_cache act) (''field_'' @ field) of None \<Rightarrow> [] | Some v \<Rightarrow> v)"

section \<open>Comparisons\<close>

definition compare :: "string \<Rightarrow> string \<Rightarrow> string \<Rightarrow> bool" where
  "compare op value1 value2 =
     (if op = ''=='' then value1 = value2
      else if op = ''!='' then value1 \<noteq> value2
      else if op = ''<'' then str_less value1 value2
      else if op = ''<='' then \<not> str_less value2 value1
      else if op = ''>'' then str_less value2 value1
      else if op = ''>='' then \<not> str_less value1 value2
      else False)"

definition compareInt :: "string \<Rightarrow> int \<Rightarrow> int \<Rightarrow> bool" where
  "compareInt op value1 value2 =
     (if op = ''=='' then value1 = value2
      else if op = ''!='' then value1 \<noteq> value2
      else if op = ''<'' then value1 < value2
      else if op = ''<='' then value1 \<le> value2
      else if op = ''>'' then value1 > value2
      else if op = ''>='' then value1 \<ge> value2
      else False)"

section \<open>Counting\<close>

text \<open>The loop of \<open>count\<close> with the total and the set of distinct values so far.\<close>

fun count_loop :: "go_ext \<Rightarrow> countExpression \<Rightarrow> string \<Rightarrow> flowActivity list \<Rightarrow> int \<Rightarrow> string list
    \<Rightarrow> int \<times> string list" where
  "count_loop E e targetSID [] tot distinctVals = (tot, distinctVals)"
| "count_loop E e targetSID (activity # activities) tot distinctVals =
     (let sid = (case map_get (act_cache activity) ''sid'' of Some v \<Rightarrow> v | None \<Rightarrow> []) in
      if targetSID \<noteq> [] \<and> sid \<noteq> targetSID then count_loop E e targetSID activities tot distinctVals
      else if ce_field e = [] then count_loop E e targetSID activities (tot + 1) distinctVals
      else let fieldVal = trim_space (getFieldVal (ce_field e) activity) in
        if fieldVal = [] then count_loop E e targetSID activities tot distinctVals
        else if ce_distinct e
        then count_loop E e targetSID activities tot (List.insert (to_lower E fieldVal) distinctVals)
        else count_loop E e targetSID activities (tot + 1) distinctVals)"

definition count :: "go_ext \<Rightarrow> countExpression \<Rightarrow> flowActivity list \<Rightarrow> string list \<Rightarrow> int" where
  "count E e activities sigmaIDs =
     (let targetSID = (if ce_sigmaIdx e \<ge> 0 \<and> ce_sigmaIdx e < int (length sigmaIDs)
            then sigmaIDs ! nat (ce_sigmaIdx e) else []);
          (tot, distinctVals) = count_loop E e targetSID activities 0 []
      in if ce_distinct e then int (length distinctVals) else tot)"

section \<open>White lists\<close>

definition whitelistCompare :: "go_ext \<Rightarrow> string \<Rightarrow> string \<Rightarrow> string \<Rightarrow> flowActivity list \<Rightarrow> bool" where
  "whitelistCompare E op field value activities =
     (let fieldVals = filter (\<lambda>v. v \<noteq> []) (map (getFieldVal field) activities) in
      if fieldVals = [] then False
      else if op = ''=='' then list_ex (\<lambda>val. val = value) fieldVals
      else if op = ''!='' then \<not> list_ex (\<lambda>val. val = value) fieldVals
      else if op = ''<'' then \<not> list_ex (\<lambda>val. \<not> str_less val value) fieldVals
      else if op = ''<='' then \<not> list_ex (\<lambda>val. str_less value val) fieldVals
      else if op = ''>'' then \<not> list_ex (\<lambda>val. \<not> str_less value val) fieldVals
      else if op = ''>='' then \<not> list_ex (\<lambda>val. str_less val value) fieldVals
      else if op = ''in'' then \<not> list_ex (\<lambda>val. str_less val value) fieldVals
      else if op = ''not_in'' then \<not> list_ex (\<lambda>val. val \<in> set (split value '','')) fieldVals
      else if op = ''contain'' then list_ex (\<lambda>val. contains val value) fieldVals
      else if op = ''not_contain'' then \<not> list_ex (\<lambda>val. contains val value) fieldVals
      else if op = ''regex'' then x_regex_compiles E value \<and> list_ex (\<lambda>val. x_regex_match E value val) fieldVals
      else False)"

fun whitelist_conditions :: "go_ext \<Rightarrow> string list \<Rightarrow> flowActivity list \<Rightarrow> bool" where
  "whitelist_conditions E [] activities = True"
| "whitelist_conditions E (condition # conditions) activities =
     (case splitN3 condition '','' of
        [f, op, v] \<Rightarrow>
          if \<not> whitelistCompare E op f v activities then False
          else whitelist_conditions E conditions activities
      | _ \<Rightarrow> whitelist_conditions E conditions activities)"

fun whitelist_loop :: "go_ext \<Rightarrow> (string \<times> string) list \<Rightarrow> flowActivity list \<Rightarrow> string \<Rightarrow> bool" where
  "whitelist_loop E [] activities dcHostname = False"
| "whitelist_loop E ((wId, item) # whitelists) activities dcHostname =
     (case splitN2 item ''||'' of
        [domain, body] \<Rightarrow>
          if \<not> has_suffix (to_lower E dcHostname) domain
          then whitelist_loop E whitelists activities dcHostname
          else let conditions = split body ''|[AND]|'' in
            if conditions = [] then whitelist_loop E whitelists activities dcHostname
            else if whitelist_conditions E conditions activities then True
            else whitelist_loop E whitelists activities dcHostname
      | _ \<Rightarrow> whitelist_loop E whitelists activities dcHostname)"

section \<open>One activity per sigma rule\<close>

definition group_step :: "string list \<Rightarrow> nat \<times> flowActivity \<Rightarrow> nat list list \<Rightarrow> nat list list" where
  "group_step sigmaIds p sigIdTypes =
     (let (aIdx, act) = p in
      if act_cache act = [] then sigIdTypes
      else case map_get (act_cache act) ''sid'' of
        None \<Rightarrow> sigIdTypes
      | Some val \<Rightarrow> map2 (\<lambda>sigmaId g. if val = sigmaId then g @ [aIdx] else g) sigmaIds sigIdTypes)"

definition group_activities :: "flowActivity list \<Rightarrow> string list \<Rightarrow> nat list list" where
  "group_activities activities sigmaIds =
     fold (group_step sigmaIds) (enumerate 0 activities) (map (\<lambda>_. []) sigmaIds)"

fun dfs :: "bool \<Rightarrow> nat list list \<Rightarrow> nat list \<Rightarrow> nat list list" where
  "dfs srt [] cur = [cur]"
| "dfs srt (vs # rest) cur =
     concat (map (\<lambda>v. if srt \<and> cur \<noteq> [] \<and> v \<le> last cur then [] else dfs srt rest (cur @ [v])) vs)"

text \<open>\<^const>\<open>None\<close> is the panic of \<open>v[0]\<close> on an empty combination. The subtraction and the product
  are those of \<open>int64\<close>.\<close>

fun win_filter :: "flowActivity list \<Rightarrow> int \<Rightarrow> nat list list \<Rightarrow> nat list list option" where
  "win_filter activities winSize [] = Some []"
| "win_filter activities winSize ([] # fullSet) = None"
| "win_filter activities winSize ((n # v) # fullSet) =
     (let hi = fold max v n; lo = fold min v n in
      map_option (\<lambda>validSet.
        if wrap64 (act_timestamp (activities ! hi) - act_timestamp (activities ! lo)) \<le> wrap64 (winSize * 1000)
        then (n # v) # validSet else validSet)
      (win_filter activities winSize fullSet))"

definition extractActivities :: "flowActivity list \<Rightarrow> string list \<Rightarrow> int \<Rightarrow> bool \<Rightarrow> nat list list option" where
  "extractActivities activities sigmaIds winSize srt =
     win_filter activities winSize (dfs srt (group_activities activities sigmaIds) [])"

section \<open>Lookups in Redis\<close>

definition normalizeCacheLookupValue :: "go_ext \<Rightarrow> string \<Rightarrow> string \<Rightarrow> flowActivity list \<Rightarrow> string" where
  "normalizeCacheLookupValue E field value acts =
     (let value = to_lower E (trim_space value) in
      if field \<noteq> ''TargetDomainName'' \<or> value = [] \<or> acts = [] then value
      else let raw = (case map_get (act_cache (hd acts)) ''field_Hostname'' of Some v \<Rightarrow> v | None \<Rightarrow> []);
               hostname = to_lower E (trim_space raw) in
        if hostname = [] then value else normalizeDomain E value hostname)"

fun lookup_params :: "go_ext \<Rightarrow> fieldRef list \<Rightarrow> flowActivity list \<Rightarrow> string list option" where
  "lookup_params E [] acts = Some []"
| "lookup_params E (ref # refs) acts =
     (if ref_idx ref < 0 \<or> ref_idx ref \<ge> int (length acts) then None
      else let fieldVal = normalizeCacheLookupValue E (ref_field ref)
                 (getFieldVal (ref_field ref) (acts ! nat (ref_idx ref))) acts in
        if fieldVal = [] then None
        else map_option (\<lambda>ps. fieldVal # ps) (lookup_params E refs acts))"

definition buildCacheLookupKey :: "go_ext \<Rightarrow> string \<Rightarrow> flowActivity list \<Rightarrow> string option" where
  "buildCacheLookupKey E template acts =
     (case parseCacheTemplate template of
        None \<Rightarrow> None
      | Some (keyExpr, refs) \<Rightarrow>
          if count_sub keyExpr ''%s'' \<noteq> length refs then None
          else if refs = [] then Some keyExpr
          else map_option (sprintf E keyExpr) (lookup_params E refs acts))"

definition ldapPendingKey :: "go_ext \<Rightarrow> string \<Rightarrow> string" where
  "ldapPendingKey E cacheKey = ''ada:engine:ldap_search_pending:'' @ hashCacheKeyParts E [cacheKey]"

definition LdapSearchCacheTTLSeconds :: int where
  "LdapSearchCacheTTLSeconds = 60"

definition ldap_request :: "string \<Rightarrow> string \<Rightarrow> int \<Rightarrow> (string \<times> gval) list" where
  "ldap_request cacheKey template requestedAt =
     [(''cache_key'', VString cacheKey), (''template'', VString template),
      (''cache_ttl_seconds'', VInt64 LdapSearchCacheTTLSeconds), (''requested_at'', VInt64 requestedAt)]"

definition publishLDAPLookupMiss :: "'s services \<Rightarrow> go_ext \<Rightarrow> string \<Rightarrow> string \<Rightarrow> ('s, unit) io" where
  "publishLDAPLookupMiss S E template cacheKey =
     (let pendingKey = ldapPendingKey E cacheKey in do {
        t \<leftarrow> now_s S;
        case x_json_struct E (ldap_request cacheKey template t) of
          None \<Rightarrow> ret ()
        | Some payload \<Rightarrow> do {
            r \<leftarrow> rdx_setnx S pendingKey payload LdapSearchCacheTTLSeconds;
            case r of
              Inl _ \<Rightarrow> ret ()
            | Inr ok \<Rightarrow>
                if \<not> ok then ret ()
                else do {
                  err \<leftarrow> rdx_publish S ''ada:engine:ldap_search_channel'' payload;
                  case err of
                    None \<Rightarrow> ret ()
                  | Some _ \<Rightarrow> do { rdx_del S pendingKey; ret () }
                }
          }
      })"

text \<open>The client is never nil here: the rule set is built with a connected one.\<close>

definition getFieldLDAPVal :: "'s services \<Rightarrow> go_ext \<Rightarrow> string \<Rightarrow> flowActivity list \<Rightarrow> ('s, string list) io" where
  "getFieldLDAPVal S E field2 acts =
     (case buildCacheLookupKey E field2 acts of
        None \<Rightarrow> ret []
      | Some cacheKey \<Rightarrow> do {
          r \<leftarrow> rdx_smembers S cacheKey;
          case r of
            Inl _ \<Rightarrow> ret []
          | Inr items \<Rightarrow>
              if items \<noteq> [] then ret items
              else do { publishLDAPLookupMiss S E field2 cacheKey; ret [] }
        })"

definition getFieldRdxVal :: "'s services \<Rightarrow> go_ext \<Rightarrow> string \<Rightarrow> flowActivity list \<Rightarrow> ('s, string list) io" where
  "getFieldRdxVal S E field2 acts =
     (case buildCacheLookupKey E field2 acts of
        None \<Rightarrow> ret []
      | Some cacheKey \<Rightarrow> do {
          r \<leftarrow> rdx_smembers S cacheKey;
          case r of Inl _ \<Rightarrow> ret [] | Inr items \<Rightarrow> ret items
        })"

section \<open>Evaluation of a match expression\<close>

definition matchCondition :: "'s services \<Rightarrow> go_ext \<Rightarrow> condition \<Rightarrow> flowActivity list \<Rightarrow> ('s, bool) io" where
  "matchCondition S E c activity =
     (if \<not> valid c \<or> fieldOneIdx c < 0 \<or> fieldOneIdx c \<ge> int (length activity) then ret False
      else let v1 = getFieldVal (fieldOneVal c) (activity ! nat (fieldOneIdx c)) in
      if operation c = ''in'' then
        (if fieldTwoTyp c = ''slice'' then ret (list_ex (\<lambda>v. v1 = v) (split (fieldTwoVal c) '',''))
         else if fieldTwoTyp c = ''cache'' then do {
           v2 \<leftarrow> getFieldRdxVal S E (fieldTwoVal c) activity;
           ret (list_ex (\<lambda>v. to_lower E v1 = to_lower E v) v2)
         }
         else if fieldTwoTyp c = ''ldap'' then do {
           v2 \<leftarrow> getFieldLDAPVal S E (fieldTwoVal c) activity;
           ret (list_ex (\<lambda>v. to_lower E v1 = to_lower E v) v2)
         }
         else ret False)
      else if fieldTwoTyp c \<noteq> ''const'' \<and> (fieldTwoIdx c < 0 \<or> fieldTwoIdx c \<ge> int (length activity))
      then ret False
      else let v2 = (if fieldTwoTyp c = ''const'' then fieldTwoVal c
             else getFieldVal (fieldTwoVal c) (activity ! nat (fieldTwoIdx c))) in
        if v1 = [] \<and> v2 = [] then ret True
        else if v1 = [] \<or> v2 = [] then ret False
        else ret (compare (operation c) v1 v2))"

fun matchExpr :: "'s services \<Rightarrow> go_ext \<Rightarrow> matchExprNode \<Rightarrow> flowActivity list \<Rightarrow> ('s, bool) io" where
  "matchExpr S E (MatchExprCondition c) activity = matchCondition S E c activity"
| "matchExpr S E (MatchExprAnd l r) activity =
     do { a \<leftarrow> matchExpr S E l activity; if a then matchExpr S E r activity else ret False }"
| "matchExpr S E (MatchExprOr l r) activity =
     do { a \<leftarrow> matchExpr S E l activity; if a then ret True else matchExpr S E r activity }"
| "matchExpr S E (MatchExprNot l) activity =
     do { a \<leftarrow> matchExpr S E l activity; ret (\<not> a) }"

fun match :: "'s services \<Rightarrow> go_ext \<Rightarrow> condition list \<Rightarrow> flowActivity list \<Rightarrow> ('s, bool) io" where
  "match S E [] activity = ret True"
| "match S E (c # conditions) activity =
     do { b \<leftarrow> matchCondition S E c activity;
          if \<not> b then ret False else match S E conditions activity }"

definition act_list :: "flowActivity list \<Rightarrow> nat list \<Rightarrow> flowActivity list" where
  "act_list activities validSet = map (\<lambda>i. activities ! i) (filter (\<lambda>i. i < length activities) validSet)"

fun match_sets :: "'s services \<Rightarrow> go_ext \<Rightarrow> matchExprNode \<Rightarrow> flowActivity list \<Rightarrow> nat list list
    \<Rightarrow> ('s, flowActivity list option) io" where
  "match_sets S E expr activities [] = ret None"
| "match_sets S E expr activities (validSet # validSets) =
     (let actList = act_list activities validSet in
      do { matched \<leftarrow> matchExpr S E expr actList;
           if matched then ret (Some actList) else match_sets S E expr activities validSets })"

definition matchByActivities :: "'s services \<Rightarrow> go_ext \<Rightarrow> flowActivity list \<Rightarrow> nat list list \<Rightarrow> string
    \<Rightarrow> ('s, flowActivity list option) io" where
  "matchByActivities S E activities validSets matchBy =
     (case parseMatchExpression E matchBy of
        Some (Inr (expr, _)) \<Rightarrow> match_sets S E expr activities validSets
      | _ \<Rightarrow> ret None)"

end
