(* ===== verification/Flow_Match_Props.thy ===== *)
theory Flow_Match_Props
  imports Flow_Match
begin

text \<open>
  What matching computes: the comparison operators are those of one linear order, counting is the
  size of a filtered list or of a set of values, the combinations of activities are exactly those of
  one activity per sigma rule inside the window, and a match expression is evaluated as the Boolean
  formula it is.
\<close>

section \<open>Comparison operators\<close>

text \<open>The contract of a comparison: the six operators are those of one linear order, any other
  operator is false.\<close>

locale comparator =
  fixes lt :: "'a \<Rightarrow> 'a \<Rightarrow> bool" and cmp :: "string \<Rightarrow> 'a \<Rightarrow> 'a \<Rightarrow> bool"
  assumes lt_irrefl: "\<not> lt a a"
    and lt_trans: "lt a b \<Longrightarrow> lt b c \<Longrightarrow> lt a c"
    and lt_total: "lt a b \<or> a = b \<or> lt b a"
    and cmp_eq: "cmp ''=='' a b \<longleftrightarrow> a = b"
    and cmp_ne: "cmp ''!='' a b \<longleftrightarrow> a \<noteq> b"
    and cmp_lt: "cmp ''<'' a b \<longleftrightarrow> lt a b"
    and cmp_le: "cmp ''<='' a b \<longleftrightarrow> \<not> lt b a"
    and cmp_gt: "cmp ''>'' a b \<longleftrightarrow> lt b a"
    and cmp_ge: "cmp ''>='' a b \<longleftrightarrow> \<not> lt a b"
    and cmp_other: "op \<notin> set operators \<Longrightarrow> \<not> cmp op a b"
begin

lemmas cmps = cmp_eq cmp_ne cmp_lt cmp_le cmp_gt cmp_ge

lemma lt_asym: "lt a b \<Longrightarrow> \<not> lt b a"
  using lt_irrefl lt_trans by blast

lemma exactly_one:
  "(cmp ''<'' a b \<longleftrightarrow> \<not> cmp ''=='' a b \<and> \<not> cmp ''>'' a b)
   \<and> (cmp ''<='' a b \<longleftrightarrow> cmp ''<'' a b \<or> cmp ''=='' a b)
   \<and> (cmp ''>='' a b \<longleftrightarrow> cmp ''>'' a b \<or> cmp ''=='' a b)"
  using lt_total[of a b] lt_asym[of a b] lt_asym[of b a] lt_irrefl[of a] by (auto simp: cmps)

lemma negated:
  "cmp ''!='' a b = (\<not> cmp ''=='' a b)" "cmp ''>='' a b = (\<not> cmp ''<'' a b)"
  "cmp ''<='' a b = (\<not> cmp ''>'' a b)"
  by (simp_all add: cmps)

lemma not_lt_trans: "\<not> lt a b \<Longrightarrow> \<not> lt b c \<Longrightarrow> \<not> lt a c"
  using lt_total lt_trans by metis

lemma transitive:
  "op \<in> {''=='', ''<'', ''<='', ''>'', ''>=''} \<Longrightarrow> cmp op a b \<Longrightarrow> cmp op b c \<Longrightarrow> cmp op a c"
  using lt_trans[of a b c] lt_trans[of c b a] not_lt_trans[of a b c] not_lt_trans[of c b a]
  by (elim insertE emptyE) (simp_all add: cmps)

end

lemma str_less_irrefl: "\<not> str_less s s"
  by (induction s) auto

lemma str_less_trans: "str_less s t \<Longrightarrow> str_less t u \<Longrightarrow> str_less s u"
proof (induction s t arbitrary: u rule: str_less.induct)
  case (1 t)
  then show ?case by (cases t; cases u) auto
next
  case (2 c s)
  then show ?case by simp
next
  case (3 c s d t)
  then show ?case by (cases u) auto
qed

lemma byte_inj: "byte c = byte d \<longleftrightarrow> c = d"
  by simp

lemma str_less_total: "str_less s t \<or> s = t \<or> str_less t s"
proof (induction s t rule: str_less.induct)
  case (3 c s d t)
  have "byte c < byte d \<or> c = d \<or> byte d < byte c" using byte_inj[of c d] by linarith
  then show ?case using 3 by auto
qed auto

interpretation string_compare: comparator str_less compare
proof
  show "str_less a b \<Longrightarrow> str_less b c \<Longrightarrow> str_less a c" for a b c by (rule str_less_trans)
  show "str_less a b \<or> a = b \<or> str_less b a" for a b by (rule str_less_total)
qed (simp_all add: compare_def operators_def str_less_irrefl)

interpretation int_compare: comparator "(<) :: int \<Rightarrow> int \<Rightarrow> bool" compareInt
  by unfold_locales (auto simp: compareInt_def operators_def)

section \<open>Counting\<close>

text \<open>The activities a counting expression looks at, and the value it reads from one.\<close>

definition target_sid :: "countExpression \<Rightarrow> string list \<Rightarrow> string" where
  "target_sid e sids =
     (if ce_sigmaIdx e \<ge> 0 \<and> ce_sigmaIdx e < int (length sids) then sids ! nat (ce_sigmaIdx e) else [])"

definition act_sid :: "flowActivity \<Rightarrow> string" where
  "act_sid a = (case map_of (act_cache a) ''sid'' of Some v \<Rightarrow> v | None \<Rightarrow> [])"

definition counted :: "countExpression \<Rightarrow> string \<Rightarrow> flowActivity \<Rightarrow> bool" where
  "counted e sid a \<longleftrightarrow> (sid = [] \<or> act_sid a = sid)
     \<and> (ce_field e = [] \<or> trim_space (getFieldVal (ce_field e) a) \<noteq> [])"

definition counted_value :: "go_ext \<Rightarrow> countExpression \<Rightarrow> flowActivity \<Rightarrow> string" where
  "counted_value E e a = to_lower E (trim_space (getFieldVal (ce_field e) a))"

lemma count_loop_spec:
  "count_loop E e sid acts n ds =
     (if ce_field e \<noteq> [] \<and> ce_distinct e
      then (n, fold List.insert (map (counted_value E e) (filter (counted e sid) acts)) ds)
      else (n + int (length (filter (counted e sid) acts)), ds))"
  by (induction acts arbitrary: n ds)
    (auto simp: Let_def counted_def counted_value_def act_sid_def)

lemma set_fold_insert: "set (fold List.insert xs ds) = set xs \<union> set ds"
  by (induction xs arbitrary: ds) auto

lemma distinct_fold_insert: "distinct ds \<Longrightarrow> distinct (fold List.insert xs ds)"
  by (induction xs arbitrary: ds) (auto intro: distinct_insert)

lemma count_plain:
  "\<not> ce_distinct e \<Longrightarrow> count E e acts sids = int (length (filter (counted e (target_sid e sids)) acts))"
  by (simp add: count_def target_sid_def count_loop_spec Let_def)

lemma count_distinct:
  assumes "ce_distinct e" "ce_field e \<noteq> []"
  shows "count E e acts sids = int (card (counted_value E e ` set (filter (counted e (target_sid e sids)) acts)))"
proof -
  let ?xs = "map (counted_value E e) (filter (counted e (target_sid e sids)) acts)"
  have "length (fold List.insert ?xs []) = card (set (fold List.insert ?xs []))"
    using distinct_card[OF distinct_fold_insert[of "[]" ?xs]] by simp
  then have "length (fold List.insert ?xs []) = card (set ?xs)" by (simp add: set_fold_insert)
  then show ?thesis using assms
    by (simp add: count_def target_sid_def[symmetric] count_loop_spec Let_def)
qed

lemma count_bounds: "0 \<le> count E e acts sids \<and> count E e acts sids \<le> int (length acts)"
proof (cases "ce_distinct e \<and> ce_field e \<noteq> []")
  case True
  then have "count E e acts sids = int (card (counted_value E e ` set (filter (counted e (target_sid e sids)) acts)))"
    by (simp add: count_distinct)
  moreover have "card (counted_value E e ` set (filter (counted e (target_sid e sids)) acts))
      \<le> length (filter (counted e (target_sid e sids)) acts)"
    using card_length[of "map (counted_value E e) (filter (counted e (target_sid e sids)) acts)"] by simp
  ultimately show ?thesis
    using length_filter_le[of "counted e (target_sid e sids)" acts] by linarith
next
  case False
  show ?thesis
  proof (cases "ce_distinct e")
    case True
    then show ?thesis using False by (simp add: count_def count_loop_spec Let_def)
  next
    case False
    then show ?thesis by (simp add: count_plain)
  qed
qed

section \<open>Combinations of activities\<close>

text \<open>Position \<open>s\<close> of the groups holds, in order, the activities of the sigma rule at \<open>s\<close>.\<close>

definition has_sid :: "flowActivity \<Rightarrow> string \<Rightarrow> bool" where
  "has_sid a sid \<longleftrightarrow> map_of (act_cache a) ''sid'' = Some sid"

definition group_of :: "(nat \<times> flowActivity) list \<Rightarrow> string \<Rightarrow> nat list" where
  "group_of ps sid = map fst (filter (\<lambda>(i, a). has_sid a sid) ps)"

lemma group_step_map:
  "group_step sids p (map g sids) = map (\<lambda>sid. g sid @ (if has_sid (snd p) sid then [fst p] else [])) sids"
proof -
  have "map2 f sids (map g sids) = map (\<lambda>sid. f sid (g sid)) sids" for f :: "string \<Rightarrow> nat list \<Rightarrow> nat list"
    by (induction sids) auto
  then show ?thesis
    by (cases p) (auto simp: group_step_def has_sid_def split: option.splits)
qed

lemma group_fold:
  "fold (group_step sids) ps (map g sids) = map (\<lambda>sid. g sid @ group_of ps sid) sids"
proof (induction ps arbitrary: g)
  case Nil
  then show ?case by (simp add: group_of_def)
next
  case (Cons p ps)
  have "fold (group_step sids) (p # ps) (map g sids)
      = fold (group_step sids) ps (map (\<lambda>sid. g sid @ (if has_sid (snd p) sid then [fst p] else [])) sids)"
    by (simp add: group_step_map)
  also have "\<dots> = map (\<lambda>sid. (g sid @ (if has_sid (snd p) sid then [fst p] else [])) @ group_of ps sid) sids"
    by (rule Cons.IH)
  also have "\<dots> = map (\<lambda>sid. g sid @ group_of (p # ps) sid) sids"
    by (auto simp: group_of_def split: prod.splits)
  finally show ?case .
qed

lemma group_activities_map: "group_activities acts sids = map (group_of (enumerate 0 acts)) sids"
  using group_fold[of sids "enumerate 0 acts" "\<lambda>_. []"] by (simp add: group_activities_def)

lemma group_of_set: "i \<in> set (group_of (enumerate 0 acts) sid) \<longleftrightarrow> i < length acts \<and> has_sid (acts ! i) sid"
  by (force simp: group_of_def in_set_enumerate_eq)

text \<open>The search returns the choices of one element per group, increasing when asked to.\<close>

definition ascending :: "bool \<Rightarrow> nat list \<Rightarrow> bool" where
  "ascending srt v \<longleftrightarrow> (srt \<longrightarrow> sorted_wrt (<) v)"

lemma sorted_wrt_snoc_last:
  "sorted_wrt (<) (cur @ [v :: nat]) \<longleftrightarrow> sorted_wrt (<) cur \<and> (cur \<noteq> [] \<longrightarrow> last cur < v)"
proof (cases cur rule: rev_cases)
  case Nil
  then show ?thesis by simp
next
  case (snoc xs x)
  then show ?thesis by (auto simp: sorted_wrt_append dest: less_trans)
qed

lemma dfs_set:
  "ascending srt cur \<Longrightarrow>
   w \<in> set (dfs srt gs cur) \<longleftrightarrow> (\<exists>v. w = cur @ v \<and> list_all2 (\<lambda>x g. x \<in> set g) v gs \<and> ascending srt w)"
proof (induction gs arbitrary: cur)
  case Nil
  then show ?case by auto
next
  case (Cons g gs)
  have step: "ascending srt (cur @ [x]) \<longleftrightarrow> \<not> (srt \<and> cur \<noteq> [] \<and> x \<le> last cur)" for x
    using Cons.prems by (auto simp: ascending_def sorted_wrt_snoc_last not_le)
  have pre: "ascending srt (cur @ [x])" if "ascending srt (cur @ x # v)" for x v
    using that by (auto simp: ascending_def sorted_wrt_append)
  have "w \<in> set (dfs srt (g # gs) cur) \<longleftrightarrow>
      (\<exists>x \<in> set g. ascending srt (cur @ [x]) \<and> w \<in> set (dfs srt gs (cur @ [x])))"
    by (auto simp: step split: if_splits)
  also have "\<dots> \<longleftrightarrow> (\<exists>x \<in> set g. ascending srt (cur @ [x]) \<and>
      (\<exists>v. w = (cur @ [x]) @ v \<and> list_all2 (\<lambda>x g. x \<in> set g) v gs \<and> ascending srt w))"
    using Cons.IH by blast
  also have "\<dots> \<longleftrightarrow> (\<exists>v. w = cur @ v \<and> list_all2 (\<lambda>x g. x \<in> set g) v (g # gs) \<and> ascending srt w)"
  proof
    assume "\<exists>x \<in> set g. ascending srt (cur @ [x]) \<and>
      (\<exists>v. w = (cur @ [x]) @ v \<and> list_all2 (\<lambda>x g. x \<in> set g) v gs \<and> ascending srt w)"
    then show "\<exists>v. w = cur @ v \<and> list_all2 (\<lambda>x g. x \<in> set g) v (g # gs) \<and> ascending srt w"
      by (metis append_Cons append_Nil append_assoc list_all2_Cons)
  next
    assume "\<exists>v. w = cur @ v \<and> list_all2 (\<lambda>x g. x \<in> set g) v (g # gs) \<and> ascending srt w"
    then obtain x v where "x \<in> set g" "list_all2 (\<lambda>x g. x \<in> set g) v gs" "w = cur @ x # v" "ascending srt w"
      by (auto simp: list_all2_Cons2)
    then show "\<exists>x \<in> set g. ascending srt (cur @ [x]) \<and>
      (\<exists>v. w = (cur @ [x]) @ v \<and> list_all2 (\<lambda>x g. x \<in> set g) v gs \<and> ascending srt w)"
      using pre by auto
  qed
  finally show ?case .
qed

text \<open>One combination: an activity of the right kind for every sigma rule, in the order of the rule
  when the flow is sorted.\<close>

definition combination :: "flowActivity list \<Rightarrow> string list \<Rightarrow> bool \<Rightarrow> nat list \<Rightarrow> bool" where
  "combination acts sids srt v \<longleftrightarrow>
     list_all2 (\<lambda>i sid. i < length acts \<and> has_sid (acts ! i) sid) v sids \<and> ascending srt v"

lemma dfs_combination:
  "v \<in> set (dfs srt (group_activities acts sids) []) \<longleftrightarrow> combination acts sids srt v"
  by (simp add: dfs_set ascending_def combination_def group_activities_map list_all2_map2 group_of_set)

text \<open>The window test on one combination, with the newest and the oldest index.\<close>

definition in_window :: "flowActivity list \<Rightarrow> int \<Rightarrow> nat list \<Rightarrow> bool" where
  "in_window acts winSize v \<longleftrightarrow>
     wrap64 (act_timestamp (acts ! Max (set v)) - act_timestamp (acts ! Min (set v))) \<le> wrap64 (winSize * 1000)"

lemma fold_max_Max: "fold max v (n :: nat) = Max (set (n # v))"
  using Max.set_eq_fold[of n v] by simp

lemma fold_min_Min: "fold min v (n :: nat) = Min (set (n # v))"
  using Min.set_eq_fold[of n v] by simp

lemma win_filter_spec:
  "win_filter acts winSize vs =
     (if [] \<in> set vs then None else Some (filter (in_window acts winSize) vs))"
proof (induction vs)
  case Nil
  then show ?case by simp
next
  case (Cons w vs)
  show ?case
  proof (cases w)
    case Nil
    then show ?thesis by simp
  next
    case w: (Cons n v)
    have "win_filter acts winSize (w # vs) = map_option (\<lambda>validSet.
        if in_window acts winSize w then w # validSet else validSet) (win_filter acts winSize vs)"
      by (simp only: w win_filter.simps Let_def in_window_def fold_max_Max fold_min_Min)
    then show ?thesis using Cons.IH w by simp
  qed
qed

lemma combination_Nil: "combination acts sids srt [] \<longleftrightarrow> sids = []"
  by (auto simp: combination_def ascending_def)

text \<open>The combinations are found exactly; only an empty list of sigma rules panics.\<close>

lemma extractActivities_exact:
  assumes "sids \<noteq> []"
  shows "\<exists>vs. extractActivities acts sids winSize srt = Some vs
    \<and> set vs = {v. combination acts sids srt v \<and> in_window acts winSize v}"
proof -
  let ?full = "dfs srt (group_activities acts sids) []"
  have "[] \<notin> set ?full" using assms by (simp add: dfs_combination combination_Nil)
  then show ?thesis
    by (auto simp: extractActivities_def win_filter_spec dfs_combination)
qed

lemma extractActivities_empty_rules: "extractActivities acts [] winSize srt = None"
  by (simp add: extractActivities_def group_activities_map win_filter_spec)

text \<open>On activities in the order of their times the window test speaks about every pair.\<close>

definition by_time :: "flowActivity list \<Rightarrow> bool" where
  "by_time acts \<longleftrightarrow> sorted (map act_timestamp acts) \<and> (\<forall>a \<in> set acts. 0 \<le> act_timestamp a \<and> act_timestamp a < 2 ^ 63)"

lemma in_window_pairs:
  assumes "by_time acts" "v \<noteq> []" "\<forall>i \<in> set v. i < length acts" "0 \<le> winSize" "winSize \<le> MaxFlowWinSize"
  shows "in_window acts winSize v \<longleftrightarrow>
    (\<forall>i \<in> set v. \<forall>j \<in> set v. act_timestamp (acts ! i) - act_timestamp (acts ! j) \<le> winSize * 1000)"
proof -
  let ?hi = "Max (set v)" and ?lo = "Min (set v)" and ?ts = "\<lambda>i. act_timestamp (acts ! i)"
  have mem: "?hi \<in> set v" "?lo \<in> set v" using assms(2) by auto
  have mono: "?ts i \<le> ?ts j" if "i \<le> j" "j \<in> set v" for i j
    using assms(1,3) that sorted_nth_mono[of "map act_timestamp acts" i j] by (auto simp: by_time_def)
  have "?ts ?lo \<le> ?ts i \<and> ?ts i \<le> ?ts ?hi" if "i \<in> set v" for i
    using mono that mem by simp
  moreover have "0 \<le> ?ts i \<and> ?ts i < 2 ^ 63" if "i \<in> set v" for i
    using assms(1,3) that by (auto simp: by_time_def)
  then have "wrap64 (?ts ?hi - ?ts ?lo) = ?ts ?hi - ?ts ?lo"
    using mem by (intro wrap64_id) (smt (verit))+
  moreover have "wrap64 (winSize * 1000) = winSize * 1000"
    using assms(4,5) by (intro wrap64_id) (auto simp: MaxFlowWinSize_def)
  ultimately show ?thesis unfolding in_window_def using mem by (smt (verit))
qed

section \<open>Match expressions\<close>

text \<open>What a condition says about the chosen activities when the sets of Redis are \<open>sets\<close>.\<close>

definition looked_up :: "go_ext \<Rightarrow> (string \<Rightarrow> string list) \<Rightarrow> string \<Rightarrow> flowActivity list \<Rightarrow> string list" where
  "looked_up E sets template acts =
     (case buildCacheLookupKey E template acts of None \<Rightarrow> [] | Some k \<Rightarrow> sets k)"

definition cond_holds :: "go_ext \<Rightarrow> (string \<Rightarrow> string list) \<Rightarrow> condition \<Rightarrow> flowActivity list \<Rightarrow> bool" where
  "cond_holds E sets c acts \<longleftrightarrow>
     valid c \<and> 0 \<le> fieldOneIdx c \<and> fieldOneIdx c < int (length acts) \<and>
     (let v1 = getFieldVal (fieldOneVal c) (acts ! nat (fieldOneIdx c)) in
      if operation c = ''in'' then
        (fieldTwoTyp c = ''slice'' \<and> v1 \<in> set (split (fieldTwoVal c) '',''))
        \<or> (fieldTwoTyp c \<in> {''cache'', ''ldap''}
           \<and> to_lower E v1 \<in> to_lower E ` set (looked_up E sets (fieldTwoVal c) acts))
      else if fieldTwoTyp c = ''const'' then
        (v1 = [] \<and> fieldTwoVal c = []
         \<or> v1 \<noteq> [] \<and> fieldTwoVal c \<noteq> [] \<and> compare (operation c) v1 (fieldTwoVal c))
      else 0 \<le> fieldTwoIdx c \<and> fieldTwoIdx c < int (length acts) \<and>
        (let v2 = getFieldVal (fieldTwoVal c) (acts ! nat (fieldTwoIdx c)) in
         v1 = [] \<and> v2 = [] \<or> v1 \<noteq> [] \<and> v2 \<noteq> [] \<and> compare (operation c) v1 v2))"

fun expr_holds :: "go_ext \<Rightarrow> (string \<Rightarrow> string list) \<Rightarrow> matchExprNode \<Rightarrow> flowActivity list \<Rightarrow> bool" where
  "expr_holds E sets (MatchExprCondition c) acts = cond_holds E sets c acts"
| "expr_holds E sets (MatchExprAnd l r) acts = (expr_holds E sets l acts \<and> expr_holds E sets r acts)"
| "expr_holds E sets (MatchExprOr l r) acts = (expr_holds E sets l acts \<or> expr_holds E sets r acts)"
| "expr_holds E sets (MatchExprNot l) acts = (\<not> expr_holds E sets l acts)"

text \<open>What matching relies on: \<open>SMEMBERS\<close> returns the members, and neither it nor the announcement of
  a missing LDAP entry changes a set. \<open>I\<close> is the predicate on the outside world that says so.\<close>

definition sets_documented :: "'s services \<Rightarrow> ('s \<Rightarrow> bool) \<Rightarrow> (string \<Rightarrow> string list) \<Rightarrow> bool" where
  "sets_documented S I sets \<longleftrightarrow>
     (\<forall>k. yields I (rdx_smembers S k) (\<lambda>r. r = Inr (sets k)))
     \<and> (\<forall>k v t. keeps I (rdx_setnx S k v t))
     \<and> (\<forall>c p. keeps I (rdx_publish S c p))
     \<and> (\<forall>k. keeps I (rdx_del S (''ada:engine:ldap_search_pending:'' @ k)))
     \<and> keeps I (sys_now S)"

lemma sets_documentedD:
  assumes "sets_documented S I sets"
  shows "yields I (rdx_smembers S k) (\<lambda>r. r = Inr (sets k))"
    "keeps I (rdx_setnx S k v t)" "keeps I (rdx_publish S c p)" "keeps I (rdx_del S (ldapPendingKey E k))"
    "keeps I (now_s S)" "keeps I (now_ms S)"
  using assms
  by (auto simp: sets_documented_def ldapPendingKey_def now_s_def now_ms_def intro!: yields_bind yields_ret)

lemma publish_keeps:
  assumes "sets_documented S I sets"
  shows "keeps I (publishLDAPLookupMiss S E template k)"
  unfolding publishLDAPLookupMiss_def Let_def
  by (intro io_rules sets_documentedD[OF assms] TrueI)

lemma getFieldRdxVal_spec:
  assumes "sets_documented S I sets"
  shows "yields I (getFieldRdxVal S E f acts) (\<lambda>vs. vs = looked_up E sets f acts)"
proof (cases "buildCacheLookupKey E f acts")
  case None
  then show ?thesis by (simp add: getFieldRdxVal_def looked_up_def yields_ret)
next
  case (Some k)
  have "yields I (State_Monad.bind (rdx_smembers S k) (\<lambda>r. case r of Inl _ \<Rightarrow> ret [] | Inr items \<Rightarrow> ret items))
      (\<lambda>vs. vs = sets k)"
    by (rule yields_bind[OF sets_documentedD(1)[OF assms]]) (simp add: yields_ret)
  then show ?thesis using Some by (simp add: getFieldRdxVal_def looked_up_def)
qed

lemma getFieldLDAPVal_spec:
  assumes "sets_documented S I sets"
  shows "yields I (getFieldLDAPVal S E f acts) (\<lambda>vs. vs = looked_up E sets f acts)"
proof (cases "buildCacheLookupKey E f acts")
  case None
  then show ?thesis by (simp add: getFieldLDAPVal_def looked_up_def yields_ret)
next
  case (Some k)
  have "yields I (State_Monad.bind (rdx_smembers S k) (\<lambda>r. case r of Inl _ \<Rightarrow> ret [] | Inr items \<Rightarrow>
      if items \<noteq> [] then ret items
      else do { publishLDAPLookupMiss S E f k; ret [] })) (\<lambda>vs. vs = sets k)"
    by (rule yields_bind[OF sets_documentedD(1)[OF assms]])
      (auto intro!: yields_ret yields_bind[OF publish_keeps[OF assms]])
  then show ?thesis using Some by (simp add: getFieldLDAPVal_def looked_up_def)
qed

lemma list_ex_mem: "list_ex (\<lambda>v. x = v) vs \<longleftrightarrow> x \<in> set vs"
  by (auto simp: list_ex_iff)

lemma in_lookup: "list_ex (\<lambda>v. f x = f v) vs \<longleftrightarrow> f x \<in> f ` set vs"
  by (auto simp: list_ex_iff)

lemma matchCondition_spec:
  assumes "sets_documented S I sets"
  shows "yields I (matchCondition S E c acts) (\<lambda>b. b = cond_holds E sets c acts)"
proof (cases "\<not> valid c \<or> fieldOneIdx c < 0 \<or> fieldOneIdx c \<ge> int (length acts)")
  case True
  then show ?thesis by (auto simp: matchCondition_def cond_holds_def intro!: yields_ret)
next
  case False
  let ?v1 = "getFieldVal (fieldOneVal c) (acts ! nat (fieldOneIdx c))"
  have look: "yields I (State_Monad.bind m (\<lambda>v2. ret (list_ex (\<lambda>v. to_lower E ?v1 = to_lower E v) v2)))
      (\<lambda>b. b = (to_lower E ?v1 \<in> to_lower E ` set vs))"
    if "yields I m (\<lambda>r. r = vs)" for m vs
    by (rule yields_bind[OF that]) (simp add: yields_ret in_lookup)
  show ?thesis
  proof (cases "operation c = ''in''")
    case True
    then show ?thesis using False
      by (auto simp: matchCondition_def cond_holds_def Let_def list_ex_mem
          intro!: yields_ret yields_weaken[OF look[OF getFieldRdxVal_spec[OF assms]]]
            yields_weaken[OF look[OF getFieldLDAPVal_spec[OF assms]]])
  next
    case op: False
    show ?thesis
    proof (cases "fieldTwoTyp c = ''const''")
      case True
      then show ?thesis using False op
        by (auto simp: matchCondition_def cond_holds_def Let_def intro!: yields_ret)
    next
      case two: False
      then show ?thesis using False op
        by (auto simp: matchCondition_def cond_holds_def Let_def intro!: yields_ret)
    qed
  qed
qed

lemma matchExpr_spec:
  assumes "sets_documented S I sets"
  shows "yields I (matchExpr S E e acts) (\<lambda>b. b = expr_holds E sets e acts)"
proof (induction e)
  case (MatchExprCondition c)
  then show ?case using matchCondition_spec[OF assms] by simp
next
  case (MatchExprAnd l r)
  show ?case
    by (simp, rule yields_bind[OF MatchExprAnd.IH(1)])
      (auto intro: yields_ret yields_weaken[OF MatchExprAnd.IH(2)])
next
  case (MatchExprOr l r)
  show ?case
    by (simp, rule yields_bind[OF MatchExprOr.IH(1)])
      (auto intro: yields_ret yields_weaken[OF MatchExprOr.IH(2)])
next
  case (MatchExprNot l)
  show ?case
    by (simp, rule yields_bind[OF MatchExprNot.IH]) (auto intro: yields_ret)
qed

lemma match_spec:
  assumes "sets_documented S I sets"
  shows "yields I (match S E cs acts) (\<lambda>b. b = (\<forall>c \<in> set cs. cond_holds E sets c acts))"
proof (induction cs)
  case Nil
  then show ?case by (simp add: yields_ret)
next
  case (Cons c cs)
  show ?case
    by (simp, rule yields_bind[OF matchCondition_spec[OF assms]])
      (auto intro: yields_ret yields_weaken[OF Cons.IH])
qed

text \<open>The first combination that satisfies the expression is reported.\<close>

lemma match_sets_spec:
  assumes "sets_documented S I sets"
  shows "yields I (match_sets S E e acts vs)
    (\<lambda>r. r = find (expr_holds E sets e) (map (act_list acts) vs))"
proof (induction vs)
  case Nil
  then show ?case by (simp add: yields_ret)
next
  case (Cons v vs)
  show ?case
    unfolding match_sets.simps Let_def by (rule yields_bind[OF matchExpr_spec[OF assms]])
      (auto intro: yields_ret yields_weaken[OF Cons.IH])
qed

lemma matchByActivities_spec:
  assumes "sets_documented S I sets" "parseMatchExpression E matchBy = Some (Inr (e, cs))"
  shows "yields I (matchByActivities S E acts vs matchBy)
    (\<lambda>r. r = find (expr_holds E sets e) (map (act_list acts) vs))"
  using match_sets_spec[OF assms(1)] assms(2) by (simp add: matchByActivities_def)

end
