(* ===== verification/Flow_Engine.thy ===== *)
theory Flow_Engine
  imports Flow_Match_Props
begin

text \<open>
  The flow engine (\<open>engine/flow/flow.go\<close> and the handlers of \<open>engine/flow/parse_count.go\<close>,
  \<open>engine/flow/parse_multieve.go\<close>, \<open>engine/flow/parse_multipkt.go\<close>,
  \<open>engine/flow/parse_multievepkt.go\<close>): every flow instance is a sorted set of activities in Redis;
  one round of the matcher reads the window of each instance, stores an event for what matches and
  deletes it, one round of the cleaner removes old activities.
\<close>

section \<open>Reading instances\<close>

definition active_key :: "string \<Rightarrow> string" where
  "active_key flowId = ''ada:engine:active:'' @ flowId"

text \<open>Dead instances are removed from the set, and still returned.\<close>

definition getFlowInstances :: "'s services \<Rightarrow> string \<Rightarrow> ('s, string list) io" where
  "getFlowInstances S flowId = do {
     r \<leftarrow> rdx_smembers S (active_key flowId);
     case r of
       Inr instances \<Rightarrow>
         if instances \<noteq> [] then do {
           foreach (\<lambda>k. do {
             n \<leftarrow> rdx_exists S k;
             if n = 0 then do { rdx_srem S (active_key flowId) k; ret () } else ret ()
           }) instances;
           ret instances
         }
         else rdx_keys S (''ada:engine:instance:'' @ flowId @ ''_*'')
     | Inl _ \<Rightarrow> rdx_keys S (''ada:engine:instance:'' @ flowId @ ''_*'')
   }"

text \<open>\<^const>\<open>None\<close> is the nil map.\<close>

definition getActivityCache :: "'s services \<Rightarrow> string \<Rightarrow> ('s, rdx_error + (string \<times> string) list option) io" where
  "getActivityCache S instancesId = do {
     r \<leftarrow> rdx_hgetall S instancesId;
     case r of
       Inl RdxNil \<Rightarrow> ret (Inr None)
     | Inl e \<Rightarrow> ret (Inl e)
     | Inr val \<Rightarrow> ret (Inr (Some val))
   }"

text \<open>Reading a nil map is reading an empty one.\<close>

definition entries :: "(string \<times> string) list option \<Rightarrow> (string \<times> string) list" where
  "entries val = (case val of None \<Rightarrow> [] | Some m \<Rightarrow> m)"

fun read_activities :: "'s services \<Rightarrow> (string \<times> int) list \<Rightarrow> ('s, flowActivity list) io" where
  "read_activities S [] = ret []"
| "read_activities S ((member, score) # zs) = do {
     r \<leftarrow> getActivityCache S member;
     case r of
       Inl _ \<Rightarrow> read_activities S zs
     | Inr val \<Rightarrow> do {
         activities \<leftarrow> read_activities S zs;
         ret (\<lparr>act_timestamp = score, act_id = member, act_cache = entries val, act_nil = (val = None)\<rparr> # activities)
       }
   }"

definition getFlowActivitiesByWinSize :: "'s services \<Rightarrow> string \<Rightarrow> int \<Rightarrow> int
    \<Rightarrow> ('s, rdx_error + flowActivity list) io" where
  "getFlowActivitiesByWinSize S instancesId winSize stop =
     (let start = wrap64 (stop - wrap64 (winSize * 1000)) in do {
        r \<leftarrow> rdx_zrangebyscore S instancesId (itoa start) (itoa stop);
        case r of
          Inl e \<Rightarrow> ret (Inl e)
        | Inr zs \<Rightarrow> do { activities \<leftarrow> read_activities S zs; ret (Inr activities) }
      })"

section \<open>Unique filters\<close>

definition filter_part :: "go_ext \<Rightarrow> flowActivity list \<Rightarrow> string \<Rightarrow> string" where
  "filter_part E acts field =
     (if has_prefix field ''ttl_'' then []
      else let (idx, val) = parseConditionKV field in
        if idx = -1 \<or> val = [] then []
        else if int (length acts) - 1 < idx then []
        else '':'' @ to_lower E (getFieldVal val (acts ! nat idx)))"

definition filter_key :: "go_ext \<Rightarrow> string \<Rightarrow> string list \<Rightarrow> flowActivity list \<Rightarrow> string" where
  "filter_key E flowId uniqueFilter acts =
     ''ada:engine:flow_filter:'' @ flowId @ concat (map (filter_part E acts) uniqueFilter)"

definition filter_ttl :: "string list \<Rightarrow> int" where
  "filter_ttl uniqueFilter =
     fold (\<lambda>field ttl. if has_prefix field ''ttl_'' then
         (case atoi (trim_prefix field ''ttl_'') of Some n \<Rightarrow> n | None \<Rightarrow> ttl) else ttl) uniqueFilter 0"

definition checkUniqueFilter :: "'s services \<Rightarrow> go_ext \<Rightarrow> string \<Rightarrow> string list \<Rightarrow> flowActivity list \<Rightarrow> ('s, bool) io" where
  "checkUniqueFilter S E flowId uniqueFilter acts =
     (if uniqueFilter = [] then ret False
      else do { n \<leftarrow> rdx_exists S (filter_key E flowId uniqueFilter acts); ret (n = 1) })"

text \<open>A time to live of 0 means that the key does not expire.\<close>

definition addUniqueFilter :: "'s services \<Rightarrow> go_ext \<Rightarrow> string \<Rightarrow> string list \<Rightarrow> flowActivity list
    \<Rightarrow> ('s, rdx_error option) io" where
  "addUniqueFilter S E flowId uniqueFilter acts =
     (if uniqueFilter = [] then ret None
      else rdx_set S (filter_key E flowId uniqueFilter acts) ''1'' (filter_ttl uniqueFilter))"

section \<open>Storing an event\<close>

definition whitelistFilter :: "'s services \<Rightarrow> go_ext \<Rightarrow> FlowRule \<Rightarrow> flowActivity list \<Rightarrow> string \<Rightarrow> ('s, bool) io" where
  "whitelistFilter S E fr activities dcHostname = do {
     r \<leftarrow> rdx_hgetall S (''ada:engine:flow_whitelist:'' @ fr_ID fr);
     case r of
       Inl _ \<Rightarrow> ret False
     | Inr whitelists \<Rightarrow> ret (whitelist_loop E whitelists activities dcHostname)
   }"

definition notify_info :: "FlowRule \<Rightarrow> string \<Rightarrow> (string \<times> string) list \<Rightarrow> int \<Rightarrow> (string \<times> gval) list" where
  "notify_info fr tag params t =
     [(''title'', VString (fr_Title fr)), (''msg_type'', VString ''alert''),
      (''event_type'', VString tag), (''desc'', VString (fr_Description fr)),
      (''params'', VMap (map (\<lambda>(k, v). (k, VString v)) params)), (''timestamp'', VInt64 t)]"

text \<open>An error of \<open>json.Marshal\<close> is dropped and leaves no bytes.\<close>

definition pushNotify :: "'s services \<Rightarrow> go_ext \<Rightarrow> FlowRule \<Rightarrow> (string \<times> string) list
    \<Rightarrow> ('s, rdx_error option outcome) io" where
  "pushNotify S E fr params =
     (case fr_Tags fr of
        [] \<Rightarrow> ret (Panic ''index out of range'')
      | tag # _ \<Rightarrow> do {
          t \<leftarrow> now_s S;
          let notifyByte = (case x_json_struct E (notify_info fr tag params t) of Some b \<Rightarrow> b | None \<Rightarrow> []);
          err \<leftarrow> rdx_lpush S ''ada:server:notify_queue'' notifyByte;
          ret (Done err)
        })"

definition event_fields :: "flowActivity list \<Rightarrow> (string \<times> string) list" where
  "event_fields activities =
     fold (\<lambda>(idx, activity) flds.
       fold (\<lambda>(fk, fv) flds. map_put flds (''$s'' @ itoa (int idx + 1) @ ''.'' @ fk) fv) (act_cache activity) flds)
     (enumerate 0 activities) []"

definition cache_get :: "flowActivity \<Rightarrow> string \<Rightarrow> string" where
  "cache_get a k = (case map_get (act_cache a) k of Some v \<Rightarrow> v | None \<Rightarrow> [])"

definition max_ts :: "flowActivity list \<Rightarrow> int \<Rightarrow> int" where
  "max_ts activities t0 = fold (\<lambda>a m. if act_timestamp a > m then act_timestamp a else m) activities t0"

definition min_ts :: "flowActivity list \<Rightarrow> int \<Rightarrow> int" where
  "min_ts activities t0 = fold (\<lambda>a m. if act_timestamp a < m then act_timestamp a else m) activities t0"

text \<open>The parameters of the notification are written into the map of the first activity; the flow
  code reads only its \<open>field_\<close> entries afterwards.\<close>

definition notify_params :: "FlowRule \<Rightarrow> string \<Rightarrow> int \<Rightarrow> int \<Rightarrow> (string \<times> string) list \<Rightarrow> (string \<times> string) list" where
  "notify_params fr eid minTs maxTs params =
     map_put (map_put (map_put (map_put (map_put params ''eid'' eid) ''rule_id'' (fr_ID fr))
       ''level'' (itoa (GetRiskLevel (fr_Level fr)))) ''start_tm'' (itoa minTs)) ''end_tm'' (itoa maxTs)"

definition alert_of :: "FlowRule \<Rightarrow> string \<Rightarrow> flowActivity list \<Rightarrow> string \<Rightarrow> string \<Rightarrow> int \<Rightarrow> alert_event" where
  "alert_of fr uniqueId activities eid tag t =
     \<lparr>ae_ID = eid, ae_Title = fr_Title fr, ae_Desc = fr_Description fr, ae_FlowId = fr_ID fr,
      ae_UniqueId = uniqueId, ae_AttCkId = tag, ae_Level = GetRiskLevel (fr_Level fr),
      ae_Status = fr_Status fr, ae_EventStatus = 0, ae_Tags = fr_Tags fr,
      ae_DcHostname = cache_get (hd activities) ''dc_hostname'',
      ae_ActivityIds = map (\<lambda>a. cache_get a ''mid'') activities,
      ae_Result = ''-'', ae_Remark = [], ae_FieldData = event_fields activities, ae_CreateTm = t,
      ae_StartTs = min_ts activities (act_timestamp (hd activities)),
      ae_EndTs = max_ts activities (act_timestamp (hd activities))\<rparr>"

definition storeEvent :: "'s services \<Rightarrow> go_ext \<Rightarrow> string \<Rightarrow> FlowRule \<Rightarrow> flowActivity list
    \<Rightarrow> ('s, string option outcome) io" where
  "storeEvent S E insId fr activities =
     (if activities = [] then ret (Panic ''index out of range'')
      else do {
        ignored \<leftarrow> whitelistFilter S E fr activities (cache_get (hd activities) ''dc_hostname'');
        if ignored then ret (Done None)
        else case splitN2 insId ''_'' of
          [_, uniqueId] \<Rightarrow> do {
            eid \<leftarrow> sys_new_id S;
            case fr_Tags fr of
              [] \<Rightarrow> ret (Panic ''index out of range'')
            | tag # _ \<Rightarrow> do {
                t \<leftarrow> sys_now S;
                let aet = alert_of fr uniqueId activities eid tag t;
                err \<leftarrow> db_insert S event_collection (DocEvent aet);
                case err of
                  Some e \<Rightarrow> ret (Done (Some e))
                | None \<Rightarrow>
                    if act_nil (hd activities) then ret (Panic ''assignment to entry in nil map'')
                    else do {
                      r \<leftarrow> pushNotify S E fr
                        (notify_params fr eid (ae_StartTs aet) (ae_EndTs aet) (act_cache (hd activities)));
                      case r of Panic m \<Rightarrow> ret (Panic m) | Done _ \<Rightarrow> ret (Done None)
                    }
              }
          }
        | _ \<Rightarrow> ret (Done None)
      })"

section \<open>The matchers\<close>

definition count_instance :: "'s services \<Rightarrow> go_ext \<Rightarrow> FlowRule \<Rightarrow> string \<Rightarrow> ('s, unit outcome) io" where
  "count_instance S E fr insId = do {
     stop \<leftarrow> now_ms S;
     r \<leftarrow> getFlowActivitiesByWinSize S insId (fd_WinSizeTs (fr_Detection fr)) stop;
     case r of
       Inl _ \<Rightarrow> ret (Done ())
     | Inr activities \<Rightarrow>
         (case parseCountExpression (fd_MatchBy (fr_Detection fr)) of
            Inl _ \<Rightarrow> ret (Done ())
          | Inr countExpr \<Rightarrow>
              if compareInt (ce_operation countExpr)
                   (count E countExpr activities (fd_SigmaRules (fr_Detection fr))) (ce_threshold countExpr)
              then do {
                st \<leftarrow> storeEvent S E insId fr activities;
                case st of
                  Panic m \<Rightarrow> ret (Panic m)
                | Done _ \<Rightarrow> do {
                    rdx_zremrangebyscore S insId (itoa (stop - MaxFlowWinSize * 1000)) (itoa stop);
                    ret (Done ())
                  }
              }
              else ret (Done ()))
   }"

definition matchEventCount :: "'s services \<Rightarrow> go_ext \<Rightarrow> FlowRule \<Rightarrow> string list \<Rightarrow> ('s, unit outcome) io" where
  "matchEventCount S E fr flowInstances = foreach_panic (count_instance S E fr) flowInstances"

text \<open>What follows a match: the unique filter, the event, the new filter entry, and the end of the
  instance.\<close>

definition report_match :: "'s services \<Rightarrow> go_ext \<Rightarrow> FlowRule \<Rightarrow> string \<Rightarrow> flowActivity list \<Rightarrow> ('s, unit outcome) io" where
  "report_match S E fr insId matchedActivities = do {
     seen \<leftarrow> checkUniqueFilter S E (fr_ID fr) (fr_UniqueFilter fr) matchedActivities;
     if seen then ret (Done ())
     else do {
       st \<leftarrow> storeEvent S E insId fr matchedActivities;
       case st of
         Panic m \<Rightarrow> ret (Panic m)
       | Done _ \<Rightarrow> do {
           addUniqueFilter S E (fr_ID fr) (fr_UniqueFilter fr) matchedActivities;
           rdx_del S insId;
           ret (Done ())
         }
     }
   }"

definition sequence_instance :: "'s services \<Rightarrow> go_ext \<Rightarrow> FlowRule \<Rightarrow> string \<Rightarrow> ('s, unit outcome) io" where
  "sequence_instance S E fr insId =
     (let d = fr_Detection fr in do {
        stop \<leftarrow> now_ms S;
        r \<leftarrow> getFlowActivitiesByWinSize S insId (fd_WinSizeTs d) stop;
        case r of
          Inl _ \<Rightarrow> ret (Done ())
        | Inr activities \<Rightarrow>
            if activities = [] then ret (Done ())
            else case extractActivities activities (fd_SigmaRules d) (fd_WinSizeTs d) (fd_Sorted d) of
              None \<Rightarrow> ret (Panic ''index out of range'')
            | Some validSets \<Rightarrow>
                if validSets = [] then ret (Done ())
                else do {
                  m \<leftarrow> matchByActivities S E activities validSets (fd_MatchBy d);
                  case m of
                    None \<Rightarrow> ret (Done ())
                  | Some matchedActivities \<Rightarrow> report_match S E fr insId matchedActivities
                }
      })"

definition matchEventSequence :: "'s services \<Rightarrow> go_ext \<Rightarrow> FlowRule \<Rightarrow> string list \<Rightarrow> string \<Rightarrow> ('s, unit outcome) io" where
  "matchEventSequence S E fr flowInstances eventName = foreach_panic (sequence_instance S E fr) flowInstances"

definition matchEventMultiEve :: "'s services \<Rightarrow> go_ext \<Rightarrow> FlowRule \<Rightarrow> string list \<Rightarrow> ('s, unit outcome) io" where
  "matchEventMultiEve S E fr flowInstances = matchEventSequence S E fr flowInstances ''multi-eve''"

definition matchEventMultiPkt :: "'s services \<Rightarrow> go_ext \<Rightarrow> FlowRule \<Rightarrow> string list \<Rightarrow> ('s, unit outcome) io" where
  "matchEventMultiPkt S E fr flowInstances = matchEventSequence S E fr flowInstances ''multi-pkt''"

definition matchEventMultiEvePkt :: "'s services \<Rightarrow> go_ext \<Rightarrow> FlowRule \<Rightarrow> string list \<Rightarrow> ('s, unit outcome) io" where
  "matchEventMultiEvePkt S E fr flowInstances = matchEventSequence S E fr flowInstances ''multi-eve-pkt''"

definition match_rule_instances :: "'s services \<Rightarrow> go_ext \<Rightarrow> FlowRule \<Rightarrow> ('s, unit outcome) io" where
  "match_rule_instances S E fr = do {
     flowInstances \<leftarrow> getFlowInstances S (fr_ID fr);
     let t = fd_EventType (fr_Detection fr);
     if flowInstances = [] then ret (Done ())
     else if t = EventTypeCount then matchEventCount S E fr flowInstances
     else if t = EventTypeMultiEve then matchEventMultiEve S E fr flowInstances
     else if t = EventTypeMultiPkt then matchEventMultiPkt S E fr flowInstances
     else if t = EventTypeMultiEvePkt then matchEventMultiEvePkt S E fr flowInstances
     else ret (Done ())
   }"

definition FlowMatcher :: "'s services \<Rightarrow> go_ext \<Rightarrow> flow_ruleset \<Rightarrow> ('s, unit outcome) io" where
  "FlowMatcher S E r = foreach_panic (match_rule_instances S E) (FlowRules r)"

section \<open>The cleaner\<close>

definition expired :: "flow_ruleset \<Rightarrow> int \<Rightarrow> (string \<times> string) list \<Rightarrow> int \<Rightarrow> bool" where
  "expired r currTs val score =
     (case map_get val ''sid'' of
        None \<Rightarrow> False
      | Some sid \<Rightarrow>
          (case map_get (sigmaRuleTTLs r) sid of
             None \<Rightarrow> False
           | Some ttl \<Rightarrow> wrap64 (currTs - score) > wrap64 ((ttl + 10) * 1000)))"

definition clean_member :: "'s services \<Rightarrow> flow_ruleset \<Rightarrow> int \<Rightarrow> string \<Rightarrow> string \<times> int \<Rightarrow> ('s, unit) io" where
  "clean_member S r currTs instancesId z =
     (let (member, score) = z in do {
        c \<leftarrow> getActivityCache S member;
        case c of
          Inl _ \<Rightarrow> ret ()
        | Inr val \<Rightarrow>
            if \<not> expired r currTs (entries val) score then ret ()
            else do {
              err \<leftarrow> rdx_zrem S instancesId member;
              case err of
                Some _ \<Rightarrow> ret ()
              | None \<Rightarrow> do { rdx_del S member; ret () }
            }
      })"

definition clean_instance :: "'s services \<Rightarrow> flow_ruleset \<Rightarrow> int \<Rightarrow> string \<Rightarrow> ('s, unit) io" where
  "clean_instance S r currTs instancesId = do {
     zr \<leftarrow> rdx_zrange S instancesId;
     case zr of
       Inl _ \<Rightarrow> ret ()
     | Inr zs \<Rightarrow> foreach (clean_member S r currTs instancesId) zs
   }"

definition clean_rule :: "'s services \<Rightarrow> flow_ruleset \<Rightarrow> FlowRule \<Rightarrow> ('s, unit) io" where
  "clean_rule S r fr = do {
     flowInstances \<leftarrow> getFlowInstances S (fr_ID fr);
     if flowInstances = [] then ret ()
     else do {
       currTs \<leftarrow> now_ms S;
       foreach (clean_instance S r currTs) flowInstances
     }
   }"

definition FlowCleaner :: "'s services \<Rightarrow> flow_ruleset \<Rightarrow> ('s, unit) io" where
  "FlowCleaner S r = foreach (clean_rule S r) (FlowRules r)"

section \<open>The rule cache\<close>

definition LoadRuleCache :: "'s services \<Rightarrow> flow_ruleset \<Rightarrow> ('s, rdx_error option) io" where
  "LoadRuleCache S r = do {
     err \<leftarrow> rdx_del S ''ada:engine:flow_rule_map'';
     case err of
       Some e \<Rightarrow> ret (Some e)
     | None \<Rightarrow> rdx_hmset S ''ada:engine:flow_rule_map''
         (map (\<lambda>(sid, v). (sid, VString v)) (sigmaIDMap (FlowRules r)))
   }"

section \<open>When the matcher cannot panic\<close>

text \<open>Every call of the services returns something, so a call that has no panic of its own ends with
  \<open>Done\<close> in every state.\<close>

abbreviation safe :: "('s, 'a outcome) io \<Rightarrow> bool" where
  "safe m \<equiv> yields (\<lambda>_. True) m (\<lambda>r. \<forall>msg. r \<noteq> Panic msg)"

lemma keeps_True [io_rules, simp]: "keeps (\<lambda>_. True) m"
  by (simp add: yields_def)

lemma safe_bind [io_rules]: "(\<And>a. safe (f a)) \<Longrightarrow> safe (State_Monad.bind m f)"
  by (rule yields_bind[OF keeps_True])

lemma safe_ret [io_rules]: "safe (ret (Done x))"
  by (simp add: yields_ret)

lemma pushNotify_safe: "fr_Tags fr \<noteq> [] \<Longrightarrow> safe (pushNotify S E fr params)"
  unfolding pushNotify_def Let_def by (cases "fr_Tags fr") (auto intro!: io_rules)

lemma storeEvent_safe:
  assumes "fr_Tags fr \<noteq> []" "acts \<noteq> []" "\<not> act_nil (hd acts)"
  shows "safe (storeEvent (S :: 's services) E insId fr acts)"
proof -
  obtain tag tags where t: "fr_Tags fr = tag # tags" using assms(1) by (cases "fr_Tags fr") auto
  have push: "safe (State_Monad.bind (pushNotify S E fr ps)
      (\<lambda>r. case r of Panic m \<Rightarrow> ret (Panic m) | Done _ \<Rightarrow> ret (Done None)))" for ps
    by (rule yields_bind[OF pushNotify_safe[OF assms(1)]]) (auto intro!: yields_outcome safe_ret)
  have insert: "safe (State_Monad.bind (db_insert S c doc) (\<lambda>err. case err of
        Some e \<Rightarrow> ret (Done (Some e))
      | None \<Rightarrow> State_Monad.bind (pushNotify S E fr ps)
          (\<lambda>r. case r of Panic m \<Rightarrow> ret (Panic m) | Done _ \<Rightarrow> ret (Done None))))" for c doc ps
    by (rule safe_bind, rule yields_option, rule push, rule safe_ret)
  have parts: "safe (case xs of [_, u] \<Rightarrow> m u | _ \<Rightarrow> ret (Done None))" if "\<And>u. safe (m u)"
    for xs :: "string list" and m :: "string \<Rightarrow> ('s, string option outcome) io"
    using that by (auto split: list.split intro: safe_ret)
  show ?thesis
    unfolding storeEvent_def Let_def t list.case if_not_P[OF assms(2)] if_not_P[OF assms(3)]
    by (rule safe_bind, rule yields_if, rule safe_ret, rule parts, rule safe_bind, rule safe_bind, rule insert)
qed

text \<open>No activities count as 0.\<close>

lemma count_no_activities: "count E e [] sids = 0"
  using count_bounds[of E e "[]" sids] by simp

definition zero_quiet :: "FlowRule \<Rightarrow> bool" where
  "zero_quiet fr \<longleftrightarrow> (\<forall>ce. parseCountExpression (fd_MatchBy (fr_Detection fr)) = Inr ce
     \<longrightarrow> \<not> compareInt (ce_operation ce) 0 (ce_threshold ce))"

lemma store_then_safe:
  assumes "fr_Tags fr \<noteq> []" "acts \<noteq> []" "\<not> act_nil (hd acts)" "\<And>x. safe (f x)"
  shows "safe (State_Monad.bind (storeEvent S E insId fr acts)
    (\<lambda>st. case st of Panic m \<Rightarrow> ret (Panic m) | Done x \<Rightarrow> f x))"
  by (rule yields_bind[OF storeEvent_safe[OF assms(1-3)]]) (auto intro!: yields_outcome assms(4))

text \<open>Redis answers a missing hash with an empty map and not with \<open>redis.Nil\<close>.\<close>

definition hashes_documented :: "'s services \<Rightarrow> bool" where
  "hashes_documented S \<longleftrightarrow> (\<forall>k s. fst (run_state (rdx_hgetall S k) s) \<noteq> Inl RdxNil)"

definition with_maps :: "flowActivity list \<Rightarrow> bool" where
  "with_maps acts \<longleftrightarrow> (\<forall>a \<in> set acts. \<not> act_nil a)"

lemma with_maps_hd: "with_maps acts \<Longrightarrow> acts \<noteq> [] \<Longrightarrow> \<not> act_nil (hd acts)"
  by (simp add: with_maps_def)

lemma with_maps_Cons: "\<not> act_nil a \<Longrightarrow> with_maps acts \<Longrightarrow> with_maps (a # acts)"
  by (simp add: with_maps_def)

lemma read_activities_maps:
  assumes "hashes_documented S"
  shows "yields (\<lambda>_. True) (read_activities S zs) with_maps"
proof (induction zs)
  case Nil
  then show ?case by (simp add: yields_ret with_maps_def)
next
  case (Cons z zs)
  obtain k t where z: "z = (k, t)" by (cases z)
  have "yields (\<lambda>_. True) (rdx_hgetall S k) (\<lambda>r. r \<noteq> Inl RdxNil)"
    using assms by (simp add: yields_def hashes_documented_def)
  then have "yields (\<lambda>_. True) (getActivityCache S k) (\<lambda>r. r \<noteq> Inr None)"
    unfolding getActivityCache_def
    by (rule yields_bind) (auto intro!: yields_ret split: sum.split rdx_error.split)
  then show ?case unfolding z read_activities.simps
    by (rule yields_bind) (auto intro!: yields_sum Cons.IH yields_bind[OF Cons.IH] yields_ret with_maps_Cons)
qed

lemma window_maps:
  assumes "hashes_documented S"
  shows "yields (\<lambda>_. True) (getFlowActivitiesByWinSize S insId w stop) (\<lambda>r. \<forall>acts. r = Inr acts \<longrightarrow> with_maps acts)"
  unfolding getFlowActivitiesByWinSize_def Let_def
  by (rule yields_bind[OF keeps_True], rule yields_sum, simp add: yields_ret,
      rule yields_bind[OF read_activities_maps[OF assms]]) (simp add: yields_ret)

lemma count_instance_safe:
  assumes "hashes_documented S" "fr_Tags fr \<noteq> []" "zero_quiet fr"
  shows "safe (count_instance S E fr insId)"
proof -
  have ne: "acts \<noteq> []" if "parseCountExpression (fd_MatchBy (fr_Detection fr)) = Inr ce"
    "compareInt (ce_operation ce) (count E ce acts sids) (ce_threshold ce)" for acts ce sids
    using that assms(3) by (auto simp: zero_quiet_def count_no_activities)
  show ?thesis
    unfolding count_instance_def
    by (rule safe_bind, rule yields_bind[OF window_maps[OF assms(1)]])
      (intro io_rules store_then_safe assms(2); use ne with_maps_hd in auto)
qed

lemma act_list_nonempty:
  assumes "extractActivities acts sids w srt = Some vs" "v \<in> set vs" "sids \<noteq> []"
  shows "act_list acts v \<noteq> [] \<and> act_list acts v = map (\<lambda>i. acts ! i) v \<and> length v = length sids"
proof -
  have v: "combination acts sids srt v"
    using extractActivities_exact[OF assms(3), of acts w srt] assms(1,2) by auto
  then have "\<forall>i \<in> set v. i < length acts"
    by (auto simp: combination_def list_all2_conv_all_nth in_set_conv_nth)
  then have "filter (\<lambda>i. i < length acts) v = v" by (simp add: filter_id_conv)
  moreover have "length v = length sids" using v by (auto simp: combination_def dest: list_all2_lengthD)
  ultimately show ?thesis using assms(3) by (auto simp: act_list_def)
qed

lemma match_sets_from:
  "yields (\<lambda>_. True) (match_sets S E e acts vs) (\<lambda>r. \<forall>m. r = Some m \<longrightarrow> m \<in> act_list acts ` set vs)"
proof (induction vs)
  case Nil
  then show ?case by (simp add: yields_ret)
next
  case (Cons v vs)
  show ?case
    unfolding match_sets.simps Let_def
    by (rule yields_bind[OF keeps_True]) (auto intro!: yields_ret yields_weaken[OF Cons.IH])
qed

lemma matchByActivities_from:
  "yields (\<lambda>_. True) (matchByActivities S E acts vs matchBy)
     (\<lambda>r. \<forall>m. r = Some m \<longrightarrow> m \<in> act_list acts ` set vs)"
  unfolding matchByActivities_def
  by (auto intro!: io_rules yields_ret match_sets_from split: option.split sum.split prod.split)

lemma report_match_safe:
  "fr_Tags fr \<noteq> [] \<Longrightarrow> ma \<noteq> [] \<Longrightarrow> \<not> act_nil (hd ma) \<Longrightarrow> safe (report_match S E fr insId ma)"
  unfolding report_match_def
  by (rule safe_bind, rule yields_if, rule safe_ret, rule store_then_safe)
    (simp_all add: safe_bind safe_ret)

lemma sequence_instance_safe:
  assumes "fr_Tags fr \<noteq> []" "fd_SigmaRules (fr_Detection fr) \<noteq> []" "hashes_documented S"
  shows "safe (sequence_instance S E fr insId)"
proof -
  let ?d = "fr_Detection fr"
  have some: "extractActivities acts (fd_SigmaRules ?d) (fd_WinSizeTs ?d) (fd_Sorted ?d) \<noteq> None" for acts
    using extractActivities_exact[OF assms(2), of acts "fd_WinSizeTs ?d" "fd_Sorted ?d"] by auto
  have inner: "safe (State_Monad.bind (matchByActivities S E acts vs (fd_MatchBy ?d)) (\<lambda>m. case m of
        None \<Rightarrow> ret (Done ()) | Some ma \<Rightarrow> report_match S E fr insId ma))"
    if "extractActivities acts (fd_SigmaRules ?d) (fd_WinSizeTs ?d) (fd_Sorted ?d) = Some vs" "with_maps acts" for acts vs
  proof (rule yields_bind[OF matchByActivities_from], rule yields_option)
    fix m ma
    assume "\<forall>a. m = Some a \<longrightarrow> a \<in> act_list acts ` set vs" "m = Some ma"
    then obtain v where v: "v \<in> set vs" "ma = act_list acts v" by auto
    have "ma \<noteq> []" using act_list_nonempty[OF that(1) v(1) assms(2), THEN conjunct1] unfolding v(2) .
    moreover have "with_maps ma" using that(2) unfolding v(2) by (auto simp: with_maps_def act_list_def)
    ultimately show "safe (report_match S E fr insId ma)"
      by (intro report_match_safe[OF assms(1)] with_maps_hd)
  qed (rule safe_ret)
  show ?thesis
    unfolding sequence_instance_def Let_def
    by (rule safe_bind, rule yields_bind[OF window_maps[OF assms(3)]], rule yields_sum, rule safe_ret, rule yields_if,
        rule safe_ret, rule yields_option) (use some in auto, auto intro!: yields_if safe_ret inner)
qed

lemma safe_foreach: "(\<And>x. x \<in> set xs \<Longrightarrow> safe (f x)) \<Longrightarrow> safe (foreach_panic f xs)"
proof (induction xs)
  case Nil
  then show ?case by (simp add: safe_ret)
next
  case (Cons x xs)
  have "safe (f x)" "safe (foreach_panic f xs)" using Cons by simp_all
  then show ?case by (auto intro!: yields_bind[of _ "f x"] yields_outcome)
qed

text \<open>A round of the matcher on loaded rules ends without a panic, whatever the services answer, when
  no counting rule is satisfied by an empty instance.\<close>

lemma FlowMatcher_safe:
  assumes hashes: "hashes_documented S" and "\<And>fr. fr \<in> set (FlowRules r) \<Longrightarrow> flow_rule_ok E fr"
    and "\<And>fr. fr \<in> set (FlowRules r) \<Longrightarrow> fd_EventType (fr_Detection fr) = EventTypeCount \<Longrightarrow> zero_quiet fr"
  shows "safe (FlowMatcher S E r)"
  unfolding FlowMatcher_def
proof (rule safe_foreach)
  fix fr
  assume fr: "fr \<in> set (FlowRules r)"
  have ok: "fr_Tags fr \<noteq> []" "fd_SigmaRules (fr_Detection fr) \<noteq> []"
    using assms(2)[OF fr] by (auto simp: flow_rule_ok_def Let_def)
  show "safe (match_rule_instances S E fr)"
    unfolding match_rule_instances_def Let_def matchEventCount_def matchEventMultiEve_def
      matchEventMultiPkt_def matchEventMultiEvePkt_def matchEventSequence_def
    by (intro safe_bind yields_if safe_ret safe_foreach count_instance_safe sequence_instance_safe ok
        hashes assms(3)[OF fr])
qed

section \<open>Every stored event lies in the window of its rule\<close>

text \<open>\<open>ev\<close> reads the stored events off the outside world. What the matcher relies on: only an insertion
  adds an event, an insertion adds at most its own, a range query returns scores of the range, and
  the clock reads a time after 1970.\<close>

definition quiet :: "('s \<Rightarrow> 'e) \<Rightarrow> ('s, 'a) io \<Rightarrow> bool" where
  "quiet ev m \<longleftrightarrow> (\<forall>s. ev (snd (run_state m s)) = ev s)"

definition doc_events :: "document \<Rightarrow> alert_event list" where
  "doc_events d = (case d of DocEvent e \<Rightarrow> [e] | DocActivity _ \<Rightarrow> [])"

definition events_documented :: "'s services \<Rightarrow> ('s \<Rightarrow> alert_event list) \<Rightarrow> bool" where
  "events_documented S ev \<longleftrightarrow>
     (\<forall>k. quiet ev (rdx_smembers S k) \<and> quiet ev (rdx_exists S k) \<and> quiet ev (rdx_keys S k)
        \<and> quiet ev (rdx_hgetall S k) \<and> quiet ev (rdx_del S k))
     \<and> (\<forall>k v. quiet ev (rdx_srem S k v) \<and> quiet ev (rdx_publish S k v) \<and> quiet ev (rdx_lpush S k v))
     \<and> (\<forall>k v t. quiet ev (rdx_setnx S k v t) \<and> quiet ev (rdx_set S k v t))
     \<and> (\<forall>k a b. quiet ev (rdx_zrangebyscore S k a b) \<and> quiet ev (rdx_zremrangebyscore S k a b))
     \<and> quiet ev (sys_new_id S) \<and> quiet ev (sys_now S)
     \<and> (\<forall>c d s. ev (snd (run_state (db_insert S c d) s)) \<in> {ev s, ev s @ doc_events d})
     \<and> (\<forall>k lo hi s zs. fst (run_state (rdx_zrangebyscore S k (itoa lo) (itoa hi)) s) = Inr zs
          \<longrightarrow> (\<forall>z \<in> set zs. lo \<le> snd z \<and> snd z \<le> hi))
     \<and> (\<forall>s. 0 \<le> fst (run_state (sys_now S) s) \<and> fst (run_state (sys_now S) s) < 2 ^ 63)"

lemma quiet_keeps: "quiet ev m \<Longrightarrow> keeps (\<lambda>s. P (ev s)) m"
  by (simp add: quiet_def yields_def)

lemma events_quiet:
  assumes "events_documented S ev"
  shows "keeps (\<lambda>s. P (ev s)) (rdx_smembers S k)" "keeps (\<lambda>s. P (ev s)) (rdx_exists S k)"
    "keeps (\<lambda>s. P (ev s)) (rdx_keys S k)" "keeps (\<lambda>s. P (ev s)) (rdx_hgetall S k)"
    "keeps (\<lambda>s. P (ev s)) (rdx_del S k)" "keeps (\<lambda>s. P (ev s)) (rdx_srem S k v)"
    "keeps (\<lambda>s. P (ev s)) (rdx_publish S k v)" "keeps (\<lambda>s. P (ev s)) (rdx_lpush S k v)"
    "keeps (\<lambda>s. P (ev s)) (rdx_setnx S k v t)" "keeps (\<lambda>s. P (ev s)) (rdx_set S k v t)"
    "keeps (\<lambda>s. P (ev s)) (rdx_zremrangebyscore S k v v')"
    "keeps (\<lambda>s. P (ev s)) (sys_new_id S)" "keeps (\<lambda>s. P (ev s)) (sys_now S)"
  using assms unfolding events_documented_def by (blast intro: quiet_keeps)+

lemma now_quiet:
  assumes "events_documented S ev"
  shows "keeps (\<lambda>s. P (ev s)) (now_s S)" "yields (\<lambda>s. P (ev s)) (now_ms S) (\<lambda>t. 0 \<le> t \<and> t < 2 ^ 63)"
proof -
  show "keeps (\<lambda>s. P (ev s)) (now_s S)"
    unfolding now_s_def by (intro io_rules events_quiet[OF assms] TrueI)
  have q: "quiet ev (sys_now S)" and
    b: "\<And>s. 0 \<le> fst (run_state (sys_now S) s) \<and> fst (run_state (sys_now S) s) < 2 ^ 63"
    using assms by (auto simp: events_documented_def)
  have "yields (\<lambda>s. P (ev s)) (sys_now S) (\<lambda>t. 0 \<le> t \<and> t < 2 ^ 63)"
    using q b by (simp add: yields_def quiet_def)
  then show "yields (\<lambda>s. P (ev s)) (now_ms S) (\<lambda>t. 0 \<le> t \<and> t < 2 ^ 63)"
    unfolding now_ms_def by (rule yields_bind) (auto intro!: yields_ret)
qed

text \<open>What an event says about its rule.\<close>

definition event_ok :: "FlowRule \<Rightarrow> alert_event \<Rightarrow> bool" where
  "event_ok fr e \<longleftrightarrow> ae_FlowId e = fr_ID fr \<and> ae_Tags e = fr_Tags fr \<and> ae_AttCkId e \<in> set (fr_Tags fr)
     \<and> 1 \<le> ae_Level e \<and> ae_Level e \<le> 5 \<and> ae_ActivityIds e \<noteq> []
     \<and> ae_StartTs e \<le> ae_EndTs e
     \<and> ae_EndTs e - ae_StartTs e \<le> fd_WinSizeTs (fr_Detection fr) * 1000"

definition events_ok :: "FlowRule list \<Rightarrow> alert_event list \<Rightarrow> alert_event list \<Rightarrow> bool" where
  "events_ok rules old es \<longleftrightarrow> (\<forall>e \<in> set es. e \<in> set old \<or> (\<exists>fr \<in> set rules. event_ok fr e))"

definition within :: "int \<Rightarrow> int \<Rightarrow> flowActivity list \<Rightarrow> bool" where
  "within lo hi acts \<longleftrightarrow> (\<forall>a \<in> set acts. lo \<le> act_timestamp a \<and> act_timestamp a \<le> hi)"

lemma ts_bounds:
  "t0 \<le> max_ts acts t0" "min_ts acts t0 \<le> t0"
  "lo \<le> t0 \<Longrightarrow> t0 \<le> hi \<Longrightarrow> within lo hi acts \<Longrightarrow> max_ts acts t0 \<le> hi \<and> lo \<le> min_ts acts t0"
proof -
  show "t0 \<le> max_ts acts t0" unfolding max_ts_def by (induction acts arbitrary: t0) (auto intro: order_trans[OF less_imp_le])
  show "min_ts acts t0 \<le> t0" unfolding min_ts_def by (induction acts arbitrary: t0) (auto intro: order_trans[OF _ less_imp_le])
  show "lo \<le> t0 \<Longrightarrow> t0 \<le> hi \<Longrightarrow> within lo hi acts \<Longrightarrow> max_ts acts t0 \<le> hi \<and> lo \<le> min_ts acts t0"
    unfolding max_ts_def min_ts_def within_def by (induction acts arbitrary: t0) auto
qed

lemma GetRiskLevel_range: "1 \<le> GetRiskLevel l \<and> GetRiskLevel l \<le> 5"
  by (simp add: GetRiskLevel_def RiskLevelMap_def)

lemma alert_ok:
  assumes "acts \<noteq> []" "within lo hi acts" "hi - lo \<le> fd_WinSizeTs (fr_Detection fr) * 1000" "tag \<in> set (fr_Tags fr)"
  shows "event_ok fr (alert_of fr u acts eid tag t)"
proof -
  have "lo \<le> act_timestamp (hd acts)" "act_timestamp (hd acts) \<le> hi"
    using assms(1,2) by (auto simp: within_def)
  from ts_bounds(3)[OF this assms(2)] show ?thesis
    using assms(1,3,4) ts_bounds(1)[of "act_timestamp (hd acts)" acts] ts_bounds(2)[of acts "act_timestamp (hd acts)"]
      GetRiskLevel_range[of "fr_Level fr"]
    by (simp add: event_ok_def alert_of_def)
qed

lemma events_insert:
  "events_documented S ev \<Longrightarrow> ev (snd (run_state (db_insert S c d) s)) \<in> {ev s, ev s @ doc_events d}"
  unfolding events_documented_def by blast

lemma insert_keeps:
  assumes "events_documented S ev" "fr \<in> set rules" "event_ok fr e"
  shows "keeps (\<lambda>s. events_ok rules old (ev s)) (db_insert S c (DocEvent e))"
  unfolding yields_def
proof (intro allI impI conjI TrueI)
  fix s
  assume I: "events_ok rules old (ev s)"
  have "ev (snd (run_state (db_insert S c (DocEvent e)) s)) \<in> {ev s, ev s @ [e]}"
    using events_insert[OF assms(1), of c "DocEvent e" s] by (simp add: doc_events_def)
  then show "events_ok rules old (ev (snd (run_state (db_insert S c (DocEvent e)) s)))"
    using I assms(2,3) by (auto simp: events_ok_def)
qed

lemma pushNotify_keeps:
  assumes "events_documented S ev"
  shows "keeps (\<lambda>s. P (ev s)) (pushNotify S E fr ps)"
  unfolding pushNotify_def Let_def
  by (cases "fr_Tags fr") (auto intro!: io_rules events_quiet[OF assms] now_quiet[OF assms])

lemma storeEvent_keeps:
  assumes doc: "events_documented S ev" and fr: "fr \<in> set rules"
    and w: "within lo hi acts" "hi - lo \<le> fd_WinSizeTs (fr_Detection fr) * 1000"
  shows "keeps (\<lambda>s. events_ok rules old (ev s)) (storeEvent S E insId fr acts)" (is "keeps ?I _")
proof (cases "acts = []")
  case True
  then show ?thesis by (simp add: storeEvent_def yields_ret)
next
  case ne: False
  have rest: "keeps ?I (case fr_Tags fr of [] \<Rightarrow> ret (Panic msg) | tag # _ \<Rightarrow> do {
      t \<leftarrow> sys_now S;
      err \<leftarrow> db_insert S event_collection (DocEvent (alert_of fr u acts eid tag t));
      case err of
        Some e \<Rightarrow> ret (Done (Some e))
      | None \<Rightarrow> if b then ret (Panic msg') else do {
          r \<leftarrow> pushNotify S E fr (ps tag t);
          case r of Panic m \<Rightarrow> ret (Panic m) | Done _ \<Rightarrow> ret (Done None)
        }
    })" for msg msg' b u eid ps
  proof (cases "fr_Tags fr")
    case Nil
    then show ?thesis by (simp add: yields_ret)
  next
    case (Cons tag tags)
    then have "event_ok fr (alert_of fr u acts eid tag t)" for t
      using alert_ok[OF ne w] by simp
    then show ?thesis unfolding Cons list.case
      by (intro io_rules events_quiet[OF doc] insert_keeps[OF doc fr] pushNotify_keeps[OF doc] TrueI)
  qed
  have parts: "keeps ?I (case xs of [_, u] \<Rightarrow> m u | _ \<Rightarrow> ret (Done None))" if "\<And>u. keeps ?I (m u)"
    for xs :: "string list" and m :: "string \<Rightarrow> ('a, string option outcome) io"
    using that by (auto split: list.split intro: yields_ret)
  have wl: "keeps ?I (whitelistFilter S E fr acts h)" for h
    unfolding whitelistFilter_def by (intro io_rules events_quiet[OF doc] TrueI)
  show ?thesis
    unfolding storeEvent_def Let_def if_not_P[OF ne]
    by (rule keeps_bind, rule wl, rule yields_if, simp add: yields_ret, rule parts, rule keeps_bind,
        rule events_quiet(12)[OF doc], rule rest)
qed

lemma read_activities_keeps:
  assumes "events_documented S ev"
  shows "yields (\<lambda>s. P (ev s)) (read_activities S zs)
    (\<lambda>acts. \<forall>a \<in> set acts. act_timestamp a \<in> snd ` set zs)"
proof (induction zs)
  case Nil
  then show ?case by (simp add: yields_ret)
next
  case (Cons z zs)
  obtain k t where z: "z = (k, t)" by (cases z)
  have "keeps (\<lambda>s. P (ev s)) (getActivityCache S k)"
    unfolding getActivityCache_def
    by (rule keeps_bind, rule events_quiet(4)[OF assms]) (auto intro!: yields_ret split: sum.split rdx_error.split)
  then show ?case unfolding z read_activities.simps
    by (rule yields_bind) (auto intro!: yields_sum yields_weaken[OF Cons.IH] yields_bind[OF Cons.IH] yields_ret)
qed

lemma window_read:
  assumes doc: "events_documented S ev" and w: "0 \<le> w" "w \<le> MaxFlowWinSize" and stop: "0 \<le> stop" "stop < 2 ^ 63"
  shows "yields (\<lambda>s. P (ev s)) (getFlowActivitiesByWinSize S insId w stop)
    (\<lambda>r. \<forall>acts. r = Inr acts \<longrightarrow> within (stop - w * 1000) stop acts)"
proof -
  have wrap: "wrap64 (w * 1000) = w * 1000" "wrap64 (stop - w * 1000) = stop - w * 1000"
    using w stop by (auto intro!: wrap64_id simp: MaxFlowWinSize_def)
  have q: "quiet ev (rdx_zrangebyscore S insId a b)" for a b
    using doc by (auto simp: events_documented_def)
  have "\<forall>s zs. fst (run_state (rdx_zrangebyscore S insId (itoa lo) (itoa stop)) s) = Inr zs
      \<longrightarrow> (\<forall>z \<in> set zs. lo \<le> snd z \<and> snd z \<le> stop)" for lo
    using doc unfolding events_documented_def by blast
  then have range: "yields (\<lambda>s. P (ev s)) (rdx_zrangebyscore S insId (itoa lo) (itoa stop))
      (\<lambda>r. \<forall>zs. r = Inr zs \<longrightarrow> (\<forall>z \<in> set zs. lo \<le> snd z \<and> snd z \<le> stop))" for lo
    using q by (simp add: yields_def quiet_def)
  have read: "yields (\<lambda>s. P (ev s)) (State_Monad.bind (read_activities S zs) (\<lambda>as. ret (Inr as :: rdx_error + _)))
      (\<lambda>r. \<forall>acts. r = Inr acts \<longrightarrow> within lo stop acts)" if "\<forall>z \<in> set zs. lo \<le> snd z \<and> snd z \<le> stop" for zs lo
    by (rule yields_bind[OF read_activities_keeps[OF doc]]) (use that in \<open>force intro!: yields_ret simp: within_def\<close>)
  show ?thesis
    unfolding getFlowActivitiesByWinSize_def Let_def wrap
    by (rule yields_bind[OF range], rule yields_sum, simp add: yields_ret, rule read) simp
qed

lemma lookups_keep:
  assumes "events_documented S ev"
  shows "keeps (\<lambda>s. P (ev s)) (getFieldRdxVal S E f acts)" "keeps (\<lambda>s. P (ev s)) (getFieldLDAPVal S E f acts)"
  unfolding getFieldRdxVal_def getFieldLDAPVal_def publishLDAPLookupMiss_def Let_def
  by (intro io_rules events_quiet[OF assms] now_quiet[OF assms] TrueI)+

lemma matchCondition_keeps:
  assumes "events_documented S ev"
  shows "keeps (\<lambda>s. P (ev s)) (matchCondition S E c acts)"
  unfolding matchCondition_def Let_def
  by (intro io_rules lookups_keep[OF assms] TrueI)

lemma matchExpr_keeps:
  assumes "events_documented S ev"
  shows "keeps (\<lambda>s. P (ev s)) (matchExpr S E e acts)"
proof (induction e)
  case (MatchExprCondition c)
  then show ?case by (simp add: matchCondition_keeps[OF assms])
qed (simp_all, (intro io_rules TrueI; assumption)+)

lemma match_sets_keeps:
  assumes "events_documented S ev"
  shows "yields (\<lambda>s. P (ev s)) (match_sets S E e acts vs) (\<lambda>r. \<forall>m. r = Some m \<longrightarrow> set m \<subseteq> set acts)"
proof (induction vs)
  case Nil
  then show ?case by (simp add: yields_ret)
next
  case (Cons v vs)
  have "set (act_list acts v) \<subseteq> set acts" by (auto simp: act_list_def)
  then show ?case
    unfolding match_sets.simps Let_def
    by (intro yields_bind[OF matchExpr_keeps[OF assms]] yields_if Cons.IH) (simp add: yields_ret)
qed

lemma matchByActivities_keeps:
  assumes "events_documented S ev"
  shows "yields (\<lambda>s. P (ev s)) (matchByActivities S E acts vs matchBy) (\<lambda>r. \<forall>m. r = Some m \<longrightarrow> set m \<subseteq> set acts)"
  unfolding matchByActivities_def
  by (auto intro!: yields_ret match_sets_keeps[OF assms] split: option.split sum.split prod.split)

lemma getFlowInstances_keeps:
  assumes "events_documented S ev"
  shows "keeps (\<lambda>s. P (ev s)) (getFlowInstances S f)"
  unfolding getFlowInstances_def
  by (intro io_rules events_quiet[OF assms] TrueI)

lemma count_instance_keeps:
  assumes doc: "events_documented S ev" and fr: "fr \<in> set rules"
    and w: "0 \<le> fd_WinSizeTs (fr_Detection fr)" "fd_WinSizeTs (fr_Detection fr) \<le> MaxFlowWinSize"
  shows "keeps (\<lambda>s. events_ok rules old (ev s)) (count_instance S E fr insId)"
  unfolding count_instance_def
proof (rule yields_bind[OF now_quiet(2)[OF doc]])
  fix stop :: int
  let ?lo = "stop - fd_WinSizeTs (fr_Detection fr) * 1000"
  assume "0 \<le> stop \<and> stop < 2 ^ 63"
  then have "yields (\<lambda>s. events_ok rules old (ev s))
      (getFlowActivitiesByWinSize S insId (fd_WinSizeTs (fr_Detection fr)) stop)
      (\<lambda>r. \<forall>acts. r = Inr acts \<longrightarrow> within ?lo stop acts)" (is "yields ?I ?m _")
    using window_read[OF doc w] by blast
  then show "keeps ?I (State_Monad.bind ?m (\<lambda>r. case r of
       Inl _ \<Rightarrow> ret (Done ())
     | Inr activities \<Rightarrow>
         (case parseCountExpression (fd_MatchBy (fr_Detection fr)) of
            Inl _ \<Rightarrow> ret (Done ())
          | Inr countExpr \<Rightarrow>
              if compareInt (ce_operation countExpr)
                   (count E countExpr activities (fd_SigmaRules (fr_Detection fr))) (ce_threshold countExpr)
              then do {
                st \<leftarrow> storeEvent S E insId fr activities;
                case st of
                  Panic m \<Rightarrow> ret (Panic m)
                | Done _ \<Rightarrow> do {
                    rdx_zremrangebyscore S insId (itoa (stop - MaxFlowWinSize * 1000)) (itoa stop);
                    ret (Done ())
                  }
              }
              else ret (Done ()))))"
    by (rule yields_bind)
      (intro io_rules storeEvent_keeps[OF doc fr, of ?lo stop] events_quiet[OF doc] TrueI; simp)
qed

lemma sequence_instance_keeps:
  assumes doc: "events_documented S ev" and fr: "fr \<in> set rules"
    and w: "0 \<le> fd_WinSizeTs (fr_Detection fr)" "fd_WinSizeTs (fr_Detection fr) \<le> MaxFlowWinSize"
  shows "keeps (\<lambda>s. events_ok rules old (ev s)) (sequence_instance S E fr insId)" (is "keeps ?I _")
proof -
  let ?w = "fd_WinSizeTs (fr_Detection fr)"
  have report: "keeps ?I (report_match S E fr insId ma)" if "within (stop - ?w * 1000) stop ma" for stop ma
    unfolding report_match_def checkUniqueFilter_def addUniqueFilter_def
    by (intro io_rules storeEvent_keeps[OF doc fr that] events_quiet[OF doc] TrueI) simp
  have matched: "keeps ?I (State_Monad.bind (matchByActivities S E acts vs mb) (\<lambda>m. case m of
      None \<Rightarrow> ret (Done ()) | Some ma \<Rightarrow> report_match S E fr insId ma))"
    if "within (stop - ?w * 1000) stop acts" for acts vs mb stop
  proof (rule yields_bind[OF matchByActivities_keeps[OF doc]], rule yields_option)
    fix m ma
    assume "\<forall>a. m = Some a \<longrightarrow> set a \<subseteq> set acts" "m = Some ma"
    then have "within (stop - ?w * 1000) stop ma" using that by (auto simp: within_def)
    then show "keeps ?I (report_match S E fr insId ma)" by (rule report)
  qed (simp add: yields_ret)
  have tail: "keeps ?I (case r of Inl _ \<Rightarrow> ret (Done ()) | Inr acts \<Rightarrow>
        if acts = [] then ret (Done ())
        else case extractActivities acts sids ?w srt of
          None \<Rightarrow> ret (Panic msg)
        | Some vs \<Rightarrow> if vs = [] then ret (Done ())
            else State_Monad.bind (matchByActivities S E acts vs mb) (\<lambda>m. case m of
              None \<Rightarrow> ret (Done ()) | Some ma \<Rightarrow> report_match S E fr insId ma))"
    if "\<forall>acts. r = Inr acts \<longrightarrow> within (stop - ?w * 1000) stop acts" for r :: "rdx_error + _" and sids srt msg mb stop
    by (intro yields_sum yields_if yields_option matched[where stop = stop]) (use that in \<open>simp_all add: yields_ret\<close>)
  show ?thesis
    unfolding sequence_instance_def Let_def
    by (rule yields_bind[OF now_quiet(2)[OF doc]], rule yields_bind[OF window_read[OF doc w]])
      (auto intro: tail)
qed

lemma FlowMatcher_events:
  assumes doc: "events_documented S ev"
    and w: "\<And>fr. fr \<in> set (FlowRules r) \<Longrightarrow> 0 \<le> fd_WinSizeTs (fr_Detection fr) \<and> fd_WinSizeTs (fr_Detection fr) \<le> MaxFlowWinSize"
  shows "keeps (\<lambda>s. events_ok (FlowRules r) old (ev s)) (FlowMatcher S E r)"
  unfolding FlowMatcher_def match_rule_instances_def Let_def matchEventCount_def matchEventMultiEve_def
      matchEventMultiPkt_def matchEventMultiEvePkt_def matchEventSequence_def
  by (intro io_rules count_instance_keeps[OF doc] sequence_instance_keeps[OF doc] getFlowInstances_keeps[OF doc] TrueI)
    (use w in auto)

section \<open>An empty instance\<close>

text \<open>A counting rule that 0 satisfies makes the matcher panic on an instance without activities.\<close>

lemma count_instance_panics:
  assumes "run_state (now_ms S) s = (stop, s1)"
    and "run_state (getFlowActivitiesByWinSize S insId (fd_WinSizeTs (fr_Detection fr)) stop) s1 = (Inr [], s2)"
    and "parseCountExpression (fd_MatchBy (fr_Detection fr)) = Inr ce"
    and "compareInt (ce_operation ce) 0 (ce_threshold ce)"
  shows "run_state (count_instance S E fr insId) s = (Panic ''index out of range'', s2)"
  using assms by (simp add: count_instance_def count_no_activities storeEvent_def)

text \<open>The panic ends the whole round.\<close>

lemma foreach_panic_stops:
  "run_state (f x) s = (Panic m, s') \<Longrightarrow> run_state (foreach_panic f (x # xs)) s = (Panic m, s')"
  by simp

section \<open>What a sequence match means\<close>

text \<open>The chosen activities of a combination.\<close>

lemma combination_acts:
  assumes "combination acts sids srt v"
  shows "act_list acts v = map (\<lambda>i. acts ! i) v"
proof -
  have "\<forall>i \<in> set v. i < length acts"
    using assms by (auto simp: combination_def list_all2_conv_all_nth in_set_conv_nth)
  then show ?thesis by (simp add: act_list_def filter_id_conv)
qed

lemma sequence_match_spec:
  assumes doc: "sets_documented S I sets" and ok: "flow_rule_ok E fr" and s: "I s"
    and d: "d = fr_Detection fr" and e: "fd_MatchExpr d = Some e"
    and vs: "extractActivities acts (fd_SigmaRules d) (fd_WinSizeTs d) (fd_Sorted d) = Some vs"
    and run: "run_state (matchByActivities S E acts vs (fd_MatchBy d)) s = (r, s')"
  shows "case r of
      Some ma \<Rightarrow> (\<exists>v. combination acts (fd_SigmaRules d) (fd_Sorted d) v \<and> in_window acts (fd_WinSizeTs d) v
        \<and> ma = map (\<lambda>i. acts ! i) v \<and> expr_holds E sets e ma)
    | None \<Rightarrow> \<not> (\<exists>v. combination acts (fd_SigmaRules d) (fd_Sorted d) v \<and> in_window acts (fd_WinSizeTs d) v
        \<and> expr_holds E sets e (map (\<lambda>i. acts ! i) v))"
proof -
  have "fd_SigmaRules d \<noteq> []" and p: "parseMatchExpression E (fd_MatchBy d) = Some (Inr (e, fd_Conditions d))"
    using ok e by (auto simp: flow_rule_ok_def Let_def d)
  then have set_vs: "set vs = {v. combination acts (fd_SigmaRules d) (fd_Sorted d) v \<and> in_window acts (fd_WinSizeTs d) v}"
    using extractActivities_exact[of "fd_SigmaRules d" acts "fd_WinSizeTs d" "fd_Sorted d"] vs by auto
  have r: "r = find (expr_holds E sets e) (map (act_list acts) vs)"
    using yieldsD[OF matchByActivities_spec[OF doc p] s run] by simp
  show ?thesis
  proof (cases r)
    case None
    then have "\<forall>v \<in> set vs. \<not> expr_holds E sets e (act_list acts v)"
      using r by (auto simp: find_None_iff)
    then show ?thesis using None set_vs combination_acts by fastforce
  next
    case (Some ma)
    then obtain i where i: "i < length vs" "ma = act_list acts (vs ! i)" "expr_holds E sets e ma"
      using r by (auto simp: find_Some_iff)
    then have "vs ! i \<in> set vs" by simp
    then show ?thesis using Some set_vs combination_acts i by fastforce
  qed
qed

section \<open>Notification parameters\<close>

text \<open>Writing the parameters of the notification into the map of an activity does not change what
  its fields read.\<close>

lemma notify_params_fields:
  "getFieldVal f (a\<lparr>act_cache := notify_params fr eid lo hi (act_cache a)\<rparr>) = getFieldVal f a"
  by (simp add: getFieldVal_def notify_params_def map_of_map_put)

end
