(* ===== verification/Infra_Map.thy ===== *)
theory Infra_Map
  imports Go_Base
begin

text \<open>
  \<open>datamodels.Map\<close> (\<open>infra/datamodels/map.go\<close>): a log entry as a nested map, with lookups by path. A
  map of Go is a reference, so \<open>Set\<close> on a nested map changes it in place; here the path is rebuilt.
  Nested maps are not nil: the JSON decoder makes none.
\<close>

section \<open>Operations\<close>

fun Map_Get :: "(string \<times> gval) list \<Rightarrow> string list \<Rightarrow> gval option" where
  "Map_Get d [] = None"
| "Map_Get d (k # ks) =
     (case map_get d k of
        None \<Rightarrow> None
      | Some (VDataMap res) \<Rightarrow> if ks = [] then Some (VDataMap res) else Map_Get res ks
      | Some (VMap res) \<Rightarrow> if ks = [] then Some (VMap res) else Map_Get res ks
      | Some val \<Rightarrow> Some val)"

fun Map_Set :: "(string \<times> gval) list \<Rightarrow> gval \<Rightarrow> string list \<Rightarrow> (string \<times> gval) list" where
  "Map_Set d value [] = d"
| "Map_Set d value [k] = map_put d k value"
| "Map_Set d value (k # k' # ks) =
     (case map_get d k of
        Some (VMap res) \<Rightarrow> map_put d k (VMap (Map_Set res value (k' # ks)))
      | Some (VDataMap res) \<Rightarrow> map_put d k (VDataMap (Map_Set res value (k' # ks)))
      | _ \<Rightarrow> map_put d k (VDataMap (Map_Set [] value (k' # ks))))"

definition Map_Select :: "(string \<times> gval) list \<Rightarrow> string \<Rightarrow> gval option" where
  "Map_Select d key = Map_Get d (split key ''.'')"

definition Map_GetString :: "(string \<times> gval) list \<Rightarrow> string list \<Rightarrow> string option" where
  "Map_GetString d key = (case Map_Get d key of Some (VString s) \<Rightarrow> Some s | _ \<Rightarrow> None)"

definition Map_GetNumber :: "(string \<times> gval) list \<Rightarrow> string list \<Rightarrow> (int \<times> int) option" where
  "Map_GetNumber d key = (case Map_Get d key of Some (VFloat m e) \<Rightarrow> Some (m, e) | _ \<Rightarrow> None)"

text \<open>The order of the words follows one iteration over the maps. A value of another type that prints
  as the empty string would be dropped when it is a \<open>fmt.Stringer\<close>; the decoder makes none.\<close>

fun collectKeywords :: "go_ext \<Rightarrow> gval \<Rightarrow> string list" where
  "collectKeywords E (VDataMap m) = concat (map (\<lambda>(_, child). collectKeywords E child) m)"
| "collectKeywords E (VMap m) = concat (map (\<lambda>(_, child). collectKeywords E child) m)"
| "collectKeywords E (VSlice xs) = concat (map (collectKeywords E) xs)"
| "collectKeywords E (VStrings ss) = filter (\<lambda>s. s \<noteq> []) ss"
| "collectKeywords E (VString s) = (if s \<noteq> [] then [s] else [])"
| "collectKeywords E (VNumber s) = (if s \<noteq> [] then [s] else [])"
| "collectKeywords E VNil = []"
| "collectKeywords E v = [sprint_v E v]"

definition Map_Keywords :: "go_ext \<Rightarrow> (string \<times> gval) list \<Rightarrow> string list option" where
  "Map_Keywords E d =
     (let keywords = collectKeywords E (VDataMap d) in
      if keywords = [] then None
      else case x_json_marshal E (VDataMap d) of
        Some raw \<Rightarrow> Some (keywords @ [raw])
      | None \<Rightarrow> Some keywords)"

section \<open>Laws\<close>

fun submap :: "gval \<Rightarrow> (string \<times> gval) list option" where
  "submap (VMap m) = Some m"
| "submap (VDataMap m) = Some m"
| "submap _ = None"

lemma Map_Get_Cons:
  "Map_Get d (k # ks) =
     (case map_of d k of
        None \<Rightarrow> None
      | Some v \<Rightarrow> (case submap v of Some m \<Rightarrow> if ks = [] then Some v else Map_Get m ks | None \<Rightarrow> Some v))"
  by (auto split: option.split gval.split)

text \<open>Setting below a key leaves a map there, made from the one found or from nothing.\<close>

lemma Map_Set_Cons:
  "ks \<noteq> [] \<Longrightarrow> \<exists>v'. Map_Set d v (k # ks) = map_put d k v'
     \<and> submap v' = Some (Map_Set (case Option.bind (map_of d k) submap of Some m \<Rightarrow> m | None \<Rightarrow> []) v ks)"
  by (cases ks) (auto split: option.split gval.split)

text \<open>What was set is read back.\<close>

lemma Get_Set_same: "ks \<noteq> [] \<Longrightarrow> Map_Get (Map_Set d v ks) ks = Some v"
proof (induction ks arbitrary: d)
  case Nil
  then show ?case by simp
next
  case (Cons k ks)
  show ?case
  proof (cases "ks = []")
    case True
    then show ?thesis by (simp add: Map_Get_Cons map_of_map_put del: Map_Get.simps(2) split: option.split)
  next
    case False
    then show ?thesis using Map_Set_Cons[OF False, of d v k] Cons.IH[OF False]
      by (auto simp: Map_Get_Cons map_of_map_put simp del: Map_Get.simps(2))
  qed
qed

text \<open>A path that parts from the one written reads as before, when no scalar stood in the way.\<close>

fun no_scalar :: "(string \<times> gval) list \<Rightarrow> string list \<Rightarrow> bool" where
  "no_scalar d [] = True"
| "no_scalar d (k # ks) =
     (case map_of d k of
        None \<Rightarrow> True
      | Some v \<Rightarrow> (case submap v of Some m \<Rightarrow> no_scalar m ks | None \<Rightarrow> False))"

lemma Map_Get_empty: "Map_Get [] ks = None"
  by (cases ks) simp_all

lemma Get_Set_other:
  "k \<noteq> k' \<Longrightarrow> no_scalar d pre \<Longrightarrow>
   Map_Get (Map_Set d v (pre @ k # ks)) (pre @ k' # js) = Map_Get d (pre @ k' # js)"
proof (induction pre arbitrary: d)
  case Nil
  obtain v' where "Map_Set d v (k # ks) = map_put d k v'"
    using Map_Set_Cons[of ks d v k] by (cases "ks = []") auto
  then show ?case using Nil by (simp add: Map_Get_Cons map_of_map_put del: Map_Get.simps(2))
next
  case (Cons p pre)
  obtain v' where v': "Map_Set d v (p # pre @ k # ks) = map_put d p v'"
    "submap v' = Some (Map_Set (case Option.bind (map_of d p) submap of Some m \<Rightarrow> m | None \<Rightarrow> []) v (pre @ k # ks))"
    using Map_Set_Cons[of "pre @ k # ks" d v p] by auto
  have empty: "no_scalar [] pre" by (cases pre) simp_all
  show ?case
    using Cons.IH[OF Cons.prems(1)] Cons.IH[OF Cons.prems(1) empty] Cons.prems(2) v'
    by (auto simp: Map_Get_Cons map_of_map_put Map_Get_empty simp del: Map_Get.simps(2) split: option.splits)
qed

text \<open>A scalar answers for every longer path.\<close>

lemma Get_scalar_prefix: "map_of d k = Some v \<Longrightarrow> submap v = None \<Longrightarrow> Map_Get d (k # ks) = Some v"
  by (simp add: Map_Get_Cons del: Map_Get.simps(2))

text \<open>Every text of the entry is a keyword, however deep.\<close>

inductive text_in :: "string \<Rightarrow> gval \<Rightarrow> bool" where
  here: "s \<noteq> [] \<Longrightarrow> text_in s (VString s)"
| in_strings: "s \<noteq> [] \<Longrightarrow> s \<in> set ss \<Longrightarrow> text_in s (VStrings ss)"
| in_slice: "x \<in> set xs \<Longrightarrow> text_in s x \<Longrightarrow> text_in s (VSlice xs)"
| in_map: "(k, x) \<in> set m \<Longrightarrow> text_in s x \<Longrightarrow> text_in s (VMap m)"
| in_data_map: "(k, x) \<in> set m \<Longrightarrow> text_in s x \<Longrightarrow> text_in s (VDataMap m)"

lemma text_in_keywords: "text_in s v \<Longrightarrow> s \<in> set (collectKeywords E v)"
  by (induction rule: text_in.induct) force+

lemma Map_Keywords_complete:
  "text_in s (VDataMap d) \<Longrightarrow> \<exists>ws. Map_Keywords E d = Some ws \<and> s \<in> set ws"
  using text_in_keywords[of s "VDataMap d" E] list.set(1)
  by (auto simp: Map_Keywords_def Let_def simp del: collectKeywords.simps split: option.splits)

end
