(* ===== verification/Engine_Indexer.thy ===== *)
theory Engine_Indexer
  imports Go_Base "HOL-Library.Word"
begin

text \<open>
  The batching writer of alert documents (\<open>engine/core/es_indexer.go\<close>): documents are appended to a
  buffer, a single goroutine takes the whole buffer and sends it with a bounded number of retries,
  and a batch that cannot be sent is dropped. The counters are \<open>uint64\<close>. The answers of
  Elasticsearch and the end of the context are parameters; the interleaving of enqueueing with a
  running flush is the step relation \<open>idx_step\<close>, at the granularity of the mutex.
\<close>

section \<open>State\<close>

record bulkItem =
  item_id :: string
  item_body :: string

record ESIndexerStats =
  st_EnqueuedItems :: "64 word"
  st_FlushBatches :: "64 word"
  st_IndexedItems :: "64 word"
  st_RetryAttempts :: "64 word"
  st_FailedBatches :: "64 word"
  st_DroppedItems :: "64 word"
  st_LastError :: string

text \<open>\<open>ix_es_nil\<close>: the client is nil; \<open>ix_wake\<close>: the wake channel, of capacity 1, is full. Delays are in
  nanoseconds.\<close>

record ESIndexer =
  ix_es_nil :: bool
  ix_index :: string
  ix_flushMaxItems :: int
  ix_flushInterval :: int
  ix_maxRetries :: int
  ix_retryBaseDelay :: int
  ix_buf :: "bulkItem list"
  ix_wake :: bool
  ix_stats :: ESIndexerStats

definition no_stats :: ESIndexerStats where
  "no_stats = \<lparr>st_EnqueuedItems = 0, st_FlushBatches = 0, st_IndexedItems = 0, st_RetryAttempts = 0,
     st_FailedBatches = 0, st_DroppedItems = 0, st_LastError = []\<rparr>"

definition NewESIndexer :: "bool \<Rightarrow> string \<Rightarrow> int \<Rightarrow> int \<Rightarrow> ESIndexer" where
  "NewESIndexer es_nil index flushMaxItems flushInterval =
     \<lparr>ix_es_nil = es_nil, ix_index = index, ix_flushMaxItems = flushMaxItems,
      ix_flushInterval = flushInterval, ix_maxRetries = 3, ix_retryBaseDelay = 200 * 1000000,
      ix_buf = [], ix_wake = False, ix_stats = no_stats\<rparr>"

section \<open>Enqueueing\<close>

text \<open>The send on the wake channel does not block: it leaves a full channel full.\<close>

definition EnqueueBytes :: "string \<Rightarrow> string \<Rightarrow> ESIndexer \<Rightarrow> ESIndexer" where
  "EnqueueBytes did body i =
     (if ix_es_nil i then i
      else let buf = ix_buf i @ [\<lparr>item_id = did, item_body = body\<rparr>];
               n = int (length buf) in
        i\<lparr>ix_buf := buf,
          ix_stats := (ix_stats i)\<lparr>st_EnqueuedItems := st_EnqueuedItems (ix_stats i) + 1\<rparr>,
          ix_wake := (if n \<ge> ix_flushMaxItems i then True else ix_wake i)\<rparr>)"

definition Enqueue :: "go_ext \<Rightarrow> string \<Rightarrow> gval \<Rightarrow> ESIndexer \<Rightarrow> ESIndexer" where
  "Enqueue E did doc i =
     (if ix_es_nil i then i
      else case x_json_marshal E doc of None \<Rightarrow> i | Some b \<Rightarrow> EnqueueBytes did b i)"

definition Stats :: "ESIndexer option \<Rightarrow> ESIndexerStats" where
  "Stats i = (case i of None \<Rightarrow> no_stats | Some i \<Rightarrow> ix_stats i)"

section \<open>Sending a batch\<close>

datatype bulk_result = BulkError string | BulkStatus string | BulkOK

definition recordRetry :: "ESIndexerStats \<Rightarrow> ESIndexerStats" where
  "recordRetry st = st\<lparr>st_RetryAttempts := st_RetryAttempts st + 1\<rparr>"

definition dropFailedBatch :: "nat \<Rightarrow> string option \<Rightarrow> ESIndexerStats \<Rightarrow> string \<times> ESIndexerStats" where
  "dropFailedBatch itemCount err st =
     (let e = (case err of None \<Rightarrow> ''bulk request failed'' | Some e \<Rightarrow> e) in
      (e, st\<lparr>st_FailedBatches := st_FailedBatches st + 1,
             st_DroppedItems := st_DroppedItems st + of_nat itemCount, st_LastError := e\<rparr>))"

text \<open>The delay before the retry \<open>attempt\<close>: doubled from the base, capped at two seconds.\<close>

definition two_seconds :: int where
  "two_seconds = 2 * 1000000000"

fun delay_loop :: "nat \<Rightarrow> int \<Rightarrow> int" where
  "delay_loop 0 delay = delay"
| "delay_loop (Suc j) delay =
     (let delay = delay * 2 in if delay > two_seconds then two_seconds else delay_loop j delay)"

definition retry_delay :: "int \<Rightarrow> nat \<Rightarrow> int" where
  "retry_delay base attempt = delay_loop (attempt - 1) base"

text \<open>\<open>waitRetryDelay\<close>: \<open>ctx_end\<close> is the error of the context when it ends before the timer fires; a delay
  that is not positive is not waited for.\<close>

definition waitRetryDelay :: "int \<Rightarrow> string option \<Rightarrow> string option" where
  "waitRetryDelay base ctx_end = (if base \<le> 0 then None else ctx_end)"

text \<open>One turn of the loop of \<open>flushPayloadWithRetry\<close>: \<^const>\<open>Inl\<close> is a return, \<^const>\<open>Inr\<close> the last
  error.\<close>

definition attempt_turn :: "int \<Rightarrow> nat \<Rightarrow> nat \<Rightarrow> bulk_result \<Rightarrow> string option \<Rightarrow> ESIndexerStats
    \<Rightarrow> (string option + string) \<times> ESIndexerStats" where
  "attempt_turn base itemCount attempt res ctx_end st =
     (let st = (if attempt > 0 then recordRetry st else st);
          stopped = (if attempt > 0 then waitRetryDelay base ctx_end else None) in
      case stopped of
        Some e \<Rightarrow> map_prod (Inl \<circ> Some) id (dropFailedBatch itemCount (Some e) st)
      | None \<Rightarrow>
          (case res of
             BulkError e \<Rightarrow> (Inr e, st)
           | BulkStatus s \<Rightarrow> (Inr (''bulk status: '' @ s), st)
           | BulkOK \<Rightarrow> (Inl None, st\<lparr>st_IndexedItems := st_IndexedItems st + of_nat itemCount,
                          st_LastError := []\<rparr>)))"

fun flush_attempts :: "int \<Rightarrow> nat \<Rightarrow> (nat \<Rightarrow> bulk_result) \<Rightarrow> (nat \<Rightarrow> string option) \<Rightarrow> nat \<Rightarrow> nat
    \<Rightarrow> string option \<Rightarrow> ESIndexerStats \<Rightarrow> string option \<times> ESIndexerStats" where
  "flush_attempts base itemCount bulk ctx_end 0 attempt lastErr st =
     map_prod Some id (dropFailedBatch itemCount lastErr st)"
| "flush_attempts base itemCount bulk ctx_end (Suc n) attempt lastErr st =
     (case attempt_turn base itemCount attempt (bulk attempt) (ctx_end attempt) st of
        (Inl r, st') \<Rightarrow> (r, st')
      | (Inr e, st') \<Rightarrow> flush_attempts base itemCount bulk ctx_end n (attempt + 1) (Some e) st')"

definition attempts :: "ESIndexer \<Rightarrow> nat" where
  "attempts i = (let a = ix_maxRetries i + 1 in nat (if a < 1 then 1 else a))"

definition flushPayloadWithRetry :: "nat \<Rightarrow> (nat \<Rightarrow> bulk_result) \<Rightarrow> (nat \<Rightarrow> string option) \<Rightarrow> ESIndexer
    \<Rightarrow> string option \<times> ESIndexer" where
  "flushPayloadWithRetry itemCount bulk ctx_end i =
     (let (r, st) = flush_attempts (ix_retryBaseDelay i) itemCount bulk ctx_end (attempts i) 0 None (ix_stats i)
      in (r, i\<lparr>ix_stats := st\<rparr>))"

definition bulk_meta :: string where
  "bulk_meta = ''{'' @ [CHR 0x22] @ ''index'' @ [CHR 0x22] @ '':{'' @ [CHR 0x22] @ ''_index'' @ [CHR 0x22]
     @ '':%q,'' @ [CHR 0x22] @ ''_id'' @ [CHR 0x22] @ '':%q}}'' @ [CHR 0x0A]"

definition bulk_payload :: "go_ext \<Rightarrow> string \<Rightarrow> bulkItem list \<Rightarrow> string" where
  "bulk_payload E index items =
     concat (map (\<lambda>it. sprintf E bulk_meta [index, item_id it] @ item_body it @ [CHR 0x0A]) items)"

definition take_batch :: "ESIndexer \<Rightarrow> (bulkItem list \<times> ESIndexer) option" where
  "take_batch i =
     (if ix_es_nil i then None
      else if ix_buf i = [] then None
      else Some (ix_buf i, i\<lparr>ix_buf := [],
             ix_stats := (ix_stats i)\<lparr>st_FlushBatches := st_FlushBatches (ix_stats i) + 1\<rparr>\<rparr>))"

text \<open>\<open>bulk\<close> answers a payload at each attempt.\<close>

definition Flush :: "go_ext \<Rightarrow> (string \<Rightarrow> nat \<Rightarrow> bulk_result) \<Rightarrow> (nat \<Rightarrow> string option) \<Rightarrow> ESIndexer
    \<Rightarrow> string option \<times> ESIndexer" where
  "Flush E bulk ctx_end i =
     (case take_batch i of
        None \<Rightarrow> (None, i)
      | Some (items, i') \<Rightarrow>
          flushPayloadWithRetry (length items) (bulk (bulk_payload E (ix_index i) items)) ctx_end i')"

section \<open>Interleaving\<close>

text \<open>The goroutine of \<open>loop\<close> is between two flushes, or at an attempt of one.\<close>

record flight =
  fl_items :: "bulkItem list"
  fl_attempt :: nat
  fl_lastErr :: "string option"

text \<open>A flush starts on the ticker, on the wake channel, which it empties, or at the end of the
  context.\<close>

inductive idx_step :: "ESIndexer \<times> flight option \<Rightarrow> ESIndexer \<times> flight option \<Rightarrow> bool" where
  enqueue: "idx_step (i, f) (EnqueueBytes did body i, f)"
| wake: "ix_wake i \<Longrightarrow> take_batch (i\<lparr>ix_wake := False\<rparr>) = Some (items, i')
    \<Longrightarrow> idx_step (i, None) (i', Some \<lparr>fl_items = items, fl_attempt = 0, fl_lastErr = None\<rparr>)"
| wake_empty: "ix_wake i \<Longrightarrow> take_batch (i\<lparr>ix_wake := False\<rparr>) = None
    \<Longrightarrow> idx_step (i, None) (i\<lparr>ix_wake := False\<rparr>, None)"
| tick: "take_batch i = Some (items, i')
    \<Longrightarrow> idx_step (i, None) (i', Some \<lparr>fl_items = items, fl_attempt = 0, fl_lastErr = None\<rparr>)"
| attempt: "fl_attempt f < attempts i
    \<Longrightarrow> attempt_turn (ix_retryBaseDelay i) (length (fl_items f)) (fl_attempt f) res ctx_end (ix_stats i) = (Inr e, st)
    \<Longrightarrow> idx_step (i, Some f)
          (i\<lparr>ix_stats := st\<rparr>, Some (f\<lparr>fl_attempt := fl_attempt f + 1, fl_lastErr := Some e\<rparr>))"
| finish: "fl_attempt f < attempts i
    \<Longrightarrow> attempt_turn (ix_retryBaseDelay i) (length (fl_items f)) (fl_attempt f) res ctx_end (ix_stats i) = (Inl r, st)
    \<Longrightarrow> idx_step (i, Some f) (i\<lparr>ix_stats := st\<rparr>, None)"
| drop: "\<not> fl_attempt f < attempts i
    \<Longrightarrow> dropFailedBatch (length (fl_items f)) (fl_lastErr f) (ix_stats i) = (e, st)
    \<Longrightarrow> idx_step (i, Some f) (i\<lparr>ix_stats := st\<rparr>, None)"

inductive idx_reach :: "ESIndexer \<times> flight option \<Rightarrow> ESIndexer \<times> flight option \<Rightarrow> bool" where
  start: "idx_reach s s"
| more: "idx_reach s t \<Longrightarrow> idx_step t u \<Longrightarrow> idx_reach s u"

inductive_cases idx_stepE: "idx_step s t"

section \<open>No document is lost unaccounted\<close>

text \<open>What was enqueued is in the buffer, in flight, indexed or counted as dropped.\<close>

fun accounted :: "ESIndexer \<times> flight option \<Rightarrow> bool" where
  "accounted (i, f) \<longleftrightarrow>
     st_EnqueuedItems (ix_stats i) = st_IndexedItems (ix_stats i) + st_DroppedItems (ix_stats i)
       + of_nat (length (ix_buf i)) + (case f of None \<Rightarrow> 0 | Some f \<Rightarrow> of_nat (length (fl_items f)))"

lemma drop_stats:
  "dropFailedBatch n err st = (e, st') \<Longrightarrow> st_EnqueuedItems st' = st_EnqueuedItems st
     \<and> st_IndexedItems st' = st_IndexedItems st \<and> st_DroppedItems st' = st_DroppedItems st + of_nat n
     \<and> st_RetryAttempts st' = st_RetryAttempts st"
  by (auto simp: dropFailedBatch_def Let_def)

lemma turn_stats:
  "attempt_turn base n k res ctx_end st = (out, st') \<Longrightarrow>
     st_EnqueuedItems st' = st_EnqueuedItems st
     \<and> st_IndexedItems st' + st_DroppedItems st' = st_IndexedItems st + st_DroppedItems st
         + (case out of Inl _ \<Rightarrow> of_nat n | Inr _ \<Rightarrow> 0)
     \<and> st_RetryAttempts st' = st_RetryAttempts st + (if k > 0 then 1 else 0)"
  by (auto simp: attempt_turn_def Let_def dropFailedBatch_def recordRetry_def
      split: option.splits bulk_result.splits)

lemma take_batch_stats:
  "take_batch i = Some (items, i') \<Longrightarrow> items = ix_buf i \<and> ix_buf i' = []
     \<and> st_EnqueuedItems (ix_stats i') = st_EnqueuedItems (ix_stats i)
     \<and> st_IndexedItems (ix_stats i') = st_IndexedItems (ix_stats i)
     \<and> st_DroppedItems (ix_stats i') = st_DroppedItems (ix_stats i)"
  by (auto simp: take_batch_def split: if_splits)

lemma idx_step_accounted: "idx_step s t \<Longrightarrow> accounted s \<Longrightarrow> accounted t"
proof (induction rule: idx_step.induct)
  case (enqueue i f did body)
  then show ?case by (auto simp: EnqueueBytes_def Let_def split: option.splits)
next
  case (wake i items i')
  then show ?case using take_batch_stats[OF wake(2)] by auto
next
  case (tick i items i')
  then show ?case using take_batch_stats[OF tick(1)] by auto
next
  case (attempt f i res ctx_end e st)
  then show ?case using turn_stats[OF attempt(2)] by auto
next
  case (finish f i res ctx_end r st)
  then show ?case using turn_stats[OF finish(2)] by auto
next
  case (drop f i e st)
  then show ?case using drop_stats[OF drop(2)] by auto
qed simp

lemma idx_reach_accounted: "idx_reach s t \<Longrightarrow> accounted s \<Longrightarrow> accounted t"
  by (induction rule: idx_reach.induct) (auto intro: idx_step_accounted)

section \<open>Retries\<close>

lemma flush_attempts_retries:
  "flush_attempts base n bulk ctx_end m k e st = (r, st') \<Longrightarrow>
   \<exists>j \<le> m. st_RetryAttempts st' = st_RetryAttempts st + of_nat j \<and> (k = 0 \<longrightarrow> j \<le> m - 1)"
proof (induction m arbitrary: k e st)
  case 0
  then show ?case by (auto dest: drop_stats simp: map_prod_def split: prod.splits)
next
  case (Suc m)
  obtain out st1 where t: "attempt_turn base n k (bulk k) (ctx_end k) st = (out, st1)" by fastforce
  show ?case
  proof (cases out)
    case (Inl a)
    then have "st' = st1" using Suc.prems t by simp
    then show ?thesis using turn_stats[OF t] by (intro exI[of _ "if k > 0 then 1 else 0"]) auto
  next
    case (Inr e1)
    then have "flush_attempts base n bulk ctx_end m (k + 1) (Some e1) st1 = (r, st')"
      using Suc.prems t by simp
    from Suc.IH[OF this] obtain j where "j \<le> m" "st_RetryAttempts st' = st_RetryAttempts st1 + of_nat j" by auto
    then show ?thesis using turn_stats[OF t] by (intro exI[of _ "j + (if k > 0 then 1 else 0)"]) auto
  qed
qed

text \<open>The delay is the base doubled once per earlier retry, at most two seconds.\<close>

lemma delay_loop_min: "0 < d \<Longrightarrow> d \<le> two_seconds \<Longrightarrow> delay_loop j d = min (d * 2 ^ j) two_seconds"
proof (induction j arbitrary: d)
  case 0
  then show ?case by simp
next
  case (Suc j)
  show ?case
  proof (cases "d * 2 > two_seconds")
    case True
    have "d * 2 * 1 \<le> d * 2 * 2 ^ j" using Suc.prems(1) by (intro mult_left_mono) auto
    then have "two_seconds \<le> d * 2 ^ Suc j" using True by (simp add: mult.assoc)
    then show ?thesis using True by (simp add: min_def)
  next
    case False
    then show ?thesis using Suc.IH[of "d * 2"] Suc.prems by (simp add: mult.assoc)
  qed
qed

end
