(* ===== verification/Engine_Core.thy ===== *)
theory Engine_Core
  imports Sigma_Rule Flow_Engine Infra_Map Engine_Indexer
begin

text \<open>
  The worker of the engine (\<open>engine/core/core.go\<close>, \<open>engine/core/match.go\<close>): it loads the flow rules and
  the sigma rules, evaluates every log entry against the sigma rules, stores the alerts, and hands
  them to the flow engine through Redis. The state of a handler is the worker and the outside world.
\<close>

section \<open>The worker\<close>

definition RuleWinLog :: string where "RuleWinLog = ''winlog''"
definition RulePktLog :: string where "RulePktLog = ''pktlog''"

definition EveLogQueueKey :: string where "EveLogQueueKey = ''ada:evelog_queue''"
definition PktLogQueueKey :: string where "PktLogQueueKey = ''ada:pktlog_queue''"

text \<open>A missing entry of \<open>ew_ruleset\<close> is the nil rule set.\<close>

record engine_worker =
  ew_ruleset :: "(string \<times> ruleset) list"
  ew_Flowset :: "flow_ruleset option"
  ew_esIndexer :: "ESIndexer option"
  ew_es :: bool
  ew_stopped :: bool

datatype core_error = CoreSigma sigma_error | CoreFlow string | CoreRedis rdx_error | CoreES string

type_synonym ('s, 'a) core = "(engine_worker \<times> 's, 'a) state"

definition world :: "('s, 'a) io \<Rightarrow> ('s, 'a) core" where
  "world m = State (\<lambda>(w, s). case run_state m s of (a, s') \<Rightarrow> (a, (w, s')))"

definition worker :: "('s, engine_worker) core" where
  "worker = State (\<lambda>(w, s). (w, (w, s)))"

definition put_worker :: "engine_worker \<Rightarrow> ('s, unit) core" where
  "put_worker w = State (\<lambda>(_, s). ((), (w, s)))"

section \<open>Loading\<close>

definition merge_ext :: "string \<times> string list \<Rightarrow> (string \<times> string list) list \<Rightarrow> (string \<times> string list) list" where
  "merge_ext p m =
     (let (sid, flds) = p in
      case map_get m sid of
        Some v \<Rightarrow> map_put m sid (RemoveDuplicate (v @ flds))
      | None \<Rightarrow> map_put m sid (RemoveDuplicate flds))"

definition sigmaExtFields :: "FlowRule list \<Rightarrow> (string \<times> string list) list" where
  "sigmaExtFields rules = fold (\<lambda>f. fold merge_ext (fr_ExtFields f)) rules []"

definition sigma_config :: "string \<Rightarrow> (string \<times> string list) list \<Rightarrow> config" where
  "sigma_config dir ext = \<lparr>cfg_Directory = [dir], cfg_FailOnRuleParse = False, cfg_FailOnYamlParse = False,
     cfg_NoCollapseWS = False, cfg_ExtractFields = ext\<rparr>"

definition flowRulePath :: string where "flowRulePath = ''/home/adadmin/rules/flow''"
definition winLogRulePath :: string where "winLogRulePath = ''/home/adadmin/rules/winlog''"
definition pktLogRulePath :: string where "pktLogRulePath = ''/home/adadmin/rules/pktlog''"

text \<open>The two sigma rule sets of a flow rule set.\<close>

definition load_sigma :: "go_ext \<Rightarrow> fs \<Rightarrow> flow_ruleset \<Rightarrow> core_error + (string \<times> ruleset) list" where
  "load_sigma E F flowset =
     (let ext = sigmaExtFields (FlowRules flowset) in
      case NewRuleset E F (sigma_config winLogRulePath ext) [] of
        Inl e \<Rightarrow> Inl (CoreSigma e)
      | Inr winLogRule \<Rightarrow>
          (case NewRuleset E F (sigma_config pktLogRulePath ext) [] of
             Inl e \<Rightarrow> Inl (CoreSigma e)
           | Inr pktLogRule \<Rightarrow> Inr [(RuleWinLog, winLogRule), (RulePktLog, pktLogRule)]))"

text \<open>The first loop of \<open>New\<close>: \<open>FF n\<close> is the file system at the \<open>n\<close>-th try; it tries again while there
  are no rule files. \<^const>\<open>None\<close> is an exhausted bound on the tries.\<close>

fun wait_flowset :: "nat \<Rightarrow> go_ext \<Rightarrow> (nat \<Rightarrow> flow_fs) \<Rightarrow> nat \<Rightarrow> (core_error + flow_ruleset) option" where
  "wait_flowset 0 E FF n = None"
| "wait_flowset (Suc fuel) E FF n =
     (case FlowNewRuleset E (FF n) flowRulePath of
        Inl e \<Rightarrow> if e = ''missing flow rule file list'' then wait_flowset fuel E FF (n + 1)
                  else Some (Inl (CoreFlow e))
      | Inr flowset \<Rightarrow> Some (Inr flowset))"

definition New :: "nat \<Rightarrow> go_ext \<Rightarrow> (nat \<Rightarrow> flow_fs) \<Rightarrow> fs \<Rightarrow> bool \<Rightarrow> (core_error + engine_worker) option" where
  "New fuel E FF F es =
     (case wait_flowset fuel E FF 0 of
        None \<Rightarrow> None
      | Some (Inl e) \<Rightarrow> Some (Inl e)
      | Some (Inr flowset) \<Rightarrow>
          (case load_sigma E F flowset of
             Inl e \<Rightarrow> Some (Inl e)
           | Inr rs \<Rightarrow> Some (Inr \<lparr>ew_ruleset = rs, ew_Flowset = Some flowset,
               ew_esIndexer = (if es then Some (NewESIndexer False ''ada-activity'' 200 (3 * 1000000000)) else None),
               ew_es = es, ew_stopped = False\<rparr>)))"

text \<open>The fields of a flow rule for the portal: those the rule needs and those of its sigma rules.\<close>

definition rule_fields :: "(string \<times> ruleset) list \<Rightarrow> FlowRule \<Rightarrow> string list" where
  "rule_fields rs f =
     concat (map (\<lambda>(sid, item). item @
       (case find (\<lambda>(_, r). map_get (rs_FieldsMap r) sid \<noteq> None) rs of
          None \<Rightarrow> []
        | Some (_, r) \<Rightarrow> the (map_get (rs_FieldsMap r) sid))) (fr_ExtFields f))"

definition flowAllFields :: "(string \<times> ruleset) list \<Rightarrow> FlowRule list \<Rightarrow> (string \<times> string list) list" where
  "flowAllFields rs rules = fold (\<lambda>f. merge_ext (fr_ID f, rule_fields rs f)) rules []"

definition field_map :: "(string \<times> string list) list \<Rightarrow> (string \<times> gval) list" where
  "field_map m = map (\<lambda>(flowId, flds). (flowId, VString (join flds '',''))) m"

definition store_fields :: "'s services \<Rightarrow> engine_worker \<Rightarrow> flow_ruleset \<Rightarrow> ('s, core_error option) io" where
  "store_fields S w flowset = do {
     err \<leftarrow> rdx_del S ''ada:engine:flow_field_map'';
     case err of
       Some e \<Rightarrow> ret (Some (CoreRedis e))
     | None \<Rightarrow> do {
         err \<leftarrow> rdx_hmset S ''ada:engine:flow_field_map''
           (field_map (flowAllFields (ew_ruleset w) (FlowRules flowset)));
         ret (map_option CoreRedis err)
       }
   }"

definition ensure_index :: "'s services \<Rightarrow> ('s, core_error option) io" where
  "ensure_index S = do {
     r \<leftarrow> es_index_exists S ''ada-activity'';
     case r of
       Inl e \<Rightarrow> ret (Some (CoreES e))
     | Inr code \<Rightarrow>
         if code = 404 then do { err \<leftarrow> es_index_create S ''ada-activity''; ret (map_option CoreES err) }
         else ret None
   }"

definition Setup :: "'s services \<Rightarrow> flow_ruleset \<Rightarrow> ('s, core_error option) core" where
  "Setup S flowset = do {
     w \<leftarrow> worker;
     err \<leftarrow> world (LoadRuleCache S flowset);
     case err of
       Some e \<Rightarrow> ret (Some (CoreRedis e))
     | None \<Rightarrow> do {
         err \<leftarrow> world (store_fields S w flowset);
         case err of
           Some e \<Rightarrow> ret (Some e)
         | None \<Rightarrow> if \<not> ew_es w then ret None else world (ensure_index S)
       }
   }"

definition Stop :: "('s, unit) core" where
  "Stop = do { w \<leftarrow> worker; put_worker (w\<lparr>ew_stopped := True\<rparr>) }"

text \<open>The new rule sets replace the old ones under the lock, before the tables in Redis are written.\<close>

definition Reload :: "'s services \<Rightarrow> go_ext \<Rightarrow> flow_fs \<Rightarrow> fs \<Rightarrow> ('s, core_error option) core" where
  "Reload S E FF F =
     (case FlowNewRuleset E FF flowRulePath of
        Inl e \<Rightarrow> ret (Some (CoreFlow e))
      | Inr newFlowset \<Rightarrow>
          (case load_sigma E F newFlowset of
             Inl e \<Rightarrow> ret (Some e)
           | Inr new \<Rightarrow> do {
               w \<leftarrow> worker;
               let w' = w\<lparr>ew_Flowset := Some newFlowset,
                 ew_ruleset := fold (\<lambda>(t, r) m. map_put m t r) new (ew_ruleset w)\<rparr>;
               put_worker w';
               err \<leftarrow> world (LoadRuleCache S newFlowset);
               case err of
                 Some e \<Rightarrow> ret (Some (CoreRedis e))
               | None \<Rightarrow> world (store_fields S w' newFlowset)
             }))"

section \<open>Alerts\<close>

text \<open>The hash of an activity, and its key.\<close>

definition put_field :: "string \<times> string \<Rightarrow> (string \<times> gval) list \<Rightarrow> (string \<times> gval) list" where
  "put_field p m = map_put m (''field_'' @ fst p) (VString (snd p))"

definition event_info :: "string \<Rightarrow> string \<Rightarrow> string \<Rightarrow> sigma_result \<Rightarrow> rule \<Rightarrow> (string \<times> gval) list" where
  "event_info eId mId dcHostname result rule =
     fold put_field (res_Fields result)
       [(''mid'', VString mId), (''eid'', VString eId), (''sid'', VString (res_ID result)),
        (''dc_hostname'', VString dcHostname), (''timestamp'', VInt64 (res_Timestamp result)),
        (''unique_id'', VString (res_UniqueId result)),
        (''unique_key'', VString (join (r_UniqueFields rule) '',''))]"

definition activity_key :: "string \<Rightarrow> string" where
  "activity_key mId = ''ada:engine:activity_cache_'' @ mId"

definition cacheActivityMeta :: "'s services \<Rightarrow> string \<Rightarrow> string \<Rightarrow> string \<Rightarrow> sigma_result \<Rightarrow> rule
    \<Rightarrow> ('s, rdx_error + string) io" where
  "cacheActivityMeta S eId mId dcHostname result rule = do {
     err \<leftarrow> rdx_hmset S (activity_key mId) (event_info eId mId dcHostname result rule);
     case err of
       Some e \<Rightarrow> ret (Inl e)
     | None \<Rightarrow> do {
         err \<leftarrow> rdx_expire S (activity_key mId) MaxFlowWinSize;
         case err of Some e \<Rightarrow> ret (Inl e) | None \<Rightarrow> ret (Inr (activity_key mId))
       }
   }"

definition instance_key :: "string \<Rightarrow> string \<Rightarrow> string" where
  "instance_key flowId instanceKey = ''ada:engine:instance:'' @ flowId @ ''_'' @ instanceKey"

definition add_to_instance :: "'s services \<Rightarrow> string \<Rightarrow> string \<Rightarrow> int \<Rightarrow> string \<Rightarrow> ('s, unit) io" where
  "add_to_instance S flowId cacheId timestamp instanceKey =
     (let zsetKey = instance_key flowId instanceKey in do {
        err \<leftarrow> rdx_zadd S zsetKey timestamp cacheId;
        case err of
          Some _ \<Rightarrow> ret ()
        | None \<Rightarrow> do {
            err \<leftarrow> rdx_expire S zsetKey MaxFlowWinSize;
            case err of
              Some _ \<Rightarrow> ret ()
            | None \<Rightarrow> do {
                rdx_sadd S (active_key flowId) zsetKey;
                rdx_expire S (active_key flowId) (MaxFlowWinSize + 3600);
                ret ()
              }
          }
      })"

definition sync_flow :: "'s services \<Rightarrow> go_ext \<Rightarrow> flow_ruleset \<Rightarrow> string \<Rightarrow> string \<Rightarrow> sigma_result \<Rightarrow> string \<Rightarrow> ('s, unit) io" where
  "sync_flow S E flowset cacheId dcHostname result flowId =
     (let flowId = trim_space flowId in
      if flowId = [] then ret ()
      else foreach (add_to_instance S flowId cacheId (res_Timestamp result))
        (BuildFlowInstanceKeys E (Some flowset) flowId (res_ID result) (res_Fields result) dcHostname
           (res_UniqueId result)))"

definition syncFlowEngine :: "'s services \<Rightarrow> go_ext \<Rightarrow> flow_ruleset option \<Rightarrow> string \<Rightarrow> string \<Rightarrow> string
    \<Rightarrow> sigma_result \<Rightarrow> rule \<Rightarrow> ('s, rdx_error option) io" where
  "syncFlowEngine S E flowset eId mId dcHostname result rule = do {
     r \<leftarrow> rdx_hget S ''ada:engine:flow_rule_map'' (r_ID rule);
     case r of
       Inl RdxNil \<Rightarrow> ret None
     | Inl e \<Rightarrow> ret (Some e)
     | Inr v \<Rightarrow>
         (case flowset of
            None \<Rightarrow> ret None
          | Some fs \<Rightarrow> do {
              c \<leftarrow> cacheActivityMeta S eId mId dcHostname result rule;
              case c of
                Inl e \<Rightarrow> ret (Some e)
              | Inr cacheId \<Rightarrow> do {
                  foreach (sync_flow S E fs cacheId dcHostname result) (split v '','');
                  ret None
                }
            })
   }"

definition user_info :: "sigma_result \<Rightarrow> string \<times> (string \<times> gval) list" where
  "user_info result =
     fold (\<lambda>(field, val) (domain, info).
       if field = ''Hostname'' then (domain, map_put info ''dc_hostname'' (VString val))
       else if field = ''TargetUserName'' then (domain, map_put info ''name'' (VString val))
       else if field = ''TargetUserSid'' then (domain, map_put info ''sid'' (VString val))
       else if field = ''IpAddress'' then (domain, map_put info ''ip'' (VString val))
       else if field = ''TargetDomainName'' then (val, info)
       else (domain, info)) (res_Fields result) ([], [(''timestamp'', VInt64 (res_Timestamp result))])"

definition cacheInternalActivity :: "'s services \<Rightarrow> go_ext \<Rightarrow> sigma_result \<Rightarrow> rule \<Rightarrow> ('s, unit) io" where
  "cacheInternalActivity S E result rule =
     (if r_RdxKey rule = ''rule_cache:aduser_info'' then
        let (domain, info) = user_info result in do {
          rdx_hmset S (''ada:engine:'' @ to_lower E domain @ '':'' @ r_RdxKey rule) info;
          ret ()
        }
      else ret ())"

definition internal_rule :: "rule \<Rightarrow> bool" where
  "internal_rule rule \<longleftrightarrow> (has_prefix (r_ID rule) ''winlog-0000-'' \<or> has_prefix (r_ID rule) ''pktlog-0000-'')
     \<and> r_RdxKey rule \<noteq> [] \<and> has_prefix (r_RdxKey rule) ''rule_cache''"

definition activity_of :: "sigma_result \<Rightarrow> rule \<Rightarrow> string \<Rightarrow> string \<Rightarrow> string \<Rightarrow> int \<Rightarrow> int \<Rightarrow> alert_activity" where
  "activity_of result rule tag dcHostname rawLog t ts =
     \<lparr>aa_ID = [], aa_Title = r_Title rule, aa_Desc = r_Description rule, aa_RuleId = res_ID result,
      aa_UniqueId = res_UniqueId result, aa_AttCkId = tag, aa_Level = GetRiskLevel (r_Level rule),
      aa_Status = r_Status rule, aa_Tags = r_Tags rule, aa_DcHostname = dcHostname, aa_RawLog = rawLog,
      aa_Result = [], aa_FieldData = res_Fields result, aa_CreateTm = t, aa_TimeStamp = ts\<rparr>"

text \<open>A time is given by its nanoseconds; its JSON form is the marshaller's.\<close>

definition activity_json :: "alert_activity \<Rightarrow> (string \<times> gval) list" where
  "activity_json a =
     [(''activity_id'', VString (aa_ID a)), (''title'', VString (aa_Title a)), (''desc'', VString (aa_Desc a)),
      (''rule_id'', VString (aa_RuleId a)), (''unique_id'', VString (aa_UniqueId a)),
      (''attck_id'', VString (aa_AttCkId a)), (''level'', VInt32 (aa_Level a)),
      (''status'', VString (aa_Status a)), (''tags'', VStrings (aa_Tags a)),
      (''dc_hostname'', VString (aa_DcHostname a)), (''raw_log'', VString (aa_RawLog a)),
      (''result'', VString (aa_Result a)),
      (''field_data'', VMap (map (\<lambda>(k, v). (k, VString v)) (aa_FieldData a))),
      (''create_tm'', VOther KStruct (itoa (aa_CreateTm a))), (''@timestamp'', VInt64 (aa_TimeStamp a))]"

definition syncMongodb :: "'s services \<Rightarrow> alert_activity \<Rightarrow> ('s, string + string) io" where
  "syncMongodb S act = do {
     oid \<leftarrow> sys_new_id S;
     err \<leftarrow> db_insert S activity_collection (DocActivity (act\<lparr>aa_ID := oid\<rparr>));
     case err of Some e \<Rightarrow> ret (Inl e) | None \<Rightarrow> ret (Inr oid)
   }"

definition enqueue_alert :: "string \<Rightarrow> string \<Rightarrow> ('s, unit) core" where
  "enqueue_alert eId alertByte = do {
     w \<leftarrow> worker;
     put_worker (w\<lparr>ew_esIndexer := map_option (EnqueueBytes eId alertByte) (ew_esIndexer w)\<rparr>)
   }"

definition store_alert :: "'s services \<Rightarrow> go_ext \<Rightarrow> string \<Rightarrow> string \<Rightarrow> sigma_result \<Rightarrow> rule \<Rightarrow> ('s, unit outcome) core" where
  "store_alert S E rawLog dcHostname result rule =
     (case r_Tags rule of
        [] \<Rightarrow> ret (Panic ''index out of range'')
      | tag # _ \<Rightarrow> do {
          t \<leftarrow> world (sys_now S);
          ts \<leftarrow> world (now_ms S);
          let act = activity_of result rule tag dcHostname rawLog t ts;
          r \<leftarrow> world (syncMongodb S act);
          case r of
            Inl _ \<Rightarrow> ret (Done ())
          | Inr mId \<Rightarrow>
              (case x_json_struct E (activity_json (act\<lparr>aa_ID := mId\<rparr>)) of
                 None \<Rightarrow> ret (Done ())
               | Some alertByte \<Rightarrow> do {
                   enqueue_alert mId alertByte;
                   w \<leftarrow> worker;
                   world (syncFlowEngine S E (ew_Flowset w) mId mId dcHostname result rule);
                   ret (Done ())
                 })
        })"

definition sync_result :: "'s services \<Rightarrow> go_ext \<Rightarrow> string \<Rightarrow> string \<Rightarrow> string \<Rightarrow> sigma_result \<Rightarrow> ('s, unit outcome) core" where
  "sync_result S E ruleType rawLog dcHostname result = do {
     w \<leftarrow> worker;
     case map_get (ew_ruleset w) ruleType of
       None \<Rightarrow> ret (Done ())
     | Some rs \<Rightarrow>
         (case GetRule rs (res_ID result) of
            Inl _ \<Rightarrow> ret (Panic ''nil pointer dereference'')
          | Inr None \<Rightarrow> ret (Done ())
          | Inr (Some rule) \<Rightarrow>
              if internal_rule rule
              then do { world (cacheInternalActivity S E result rule); ret (Done ()) }
              else store_alert S E rawLog dcHostname result rule)
   }"

definition syncAlert :: "'s services \<Rightarrow> go_ext \<Rightarrow> string \<Rightarrow> string \<Rightarrow> string \<Rightarrow> sigma_result list \<Rightarrow> ('s, unit outcome) core" where
  "syncAlert S E ruleType rawLog dcHostname results =
     foreach_panic (sync_result S E ruleType rawLog dcHostname) results"

section \<open>Log entries\<close>

definition heartbeat :: "'s services \<Rightarrow> string \<Rightarrow> string \<Rightarrow> int \<Rightarrow> ('s, unit) io" where
  "heartbeat S ruleType dcHostname ts = do {
     rdx_hset S ''ada:sensor:collect_stats'' (ruleType @ ''_'' @ dcHostname) (VInt64 ts);
     ret ()
   }"

text \<open>The heartbeat runs in a goroutine of its own; here it runs where it is started.\<close>

definition recordHeartbeat :: "'s services \<Rightarrow> string \<Rightarrow> string \<Rightarrow> ('s, unit) io" where
  "recordHeartbeat S ruleType dcHostname = do {
     ts \<leftarrow> now_s S;
     if ts mod 10 \<noteq> 0 then ret () else heartbeat S ruleType dcHostname ts
   }"

definition preFilter :: "(string \<times> gval) list \<Rightarrow> bool" where
  "preFilter obj = (case Map_GetNumber obj [''EventID''] of None \<Rightarrow> False | Some _ \<Rightarrow> False)"

definition entry_event :: "go_ext \<Rightarrow> (string \<times> gval) list \<Rightarrow> event" where
  "entry_event E obj = \<lparr>ev_keywords = Map_Keywords E obj, ev_select = Map_Select obj\<rparr>"

definition rule_type :: "string \<Rightarrow> string option" where
  "rule_type channel =
     (if channel = EveLogQueueKey then Some RuleWinLog
      else if channel = PktLogQueueKey then Some RulePktLog else None)"

text \<open>\<open>clock i\<close> is the time when the \<open>i\<close>-th rule is evaluated.\<close>

definition sigmaRuleMatcher :: "'s services \<Rightarrow> go_ext \<Rightarrow> (nat \<Rightarrow> int) \<Rightarrow> string \<Rightarrow> string \<Rightarrow> ('s, unit outcome) core" where
  "sigmaRuleMatcher S E clock channel payload =
     (case x_json_object E payload of
        None \<Rightarrow> ret (Done ())
      | Some obj \<Rightarrow>
          (case rule_type channel of
             None \<Rightarrow> ret (Done ())
           | Some ruleType \<Rightarrow>
               (case Map_GetString obj [''Hostname''] of
                  None \<Rightarrow> ret (Done ())
                | Some dcHostname \<Rightarrow> do {
                    world (recordHeartbeat S ruleType dcHostname);
                    if preFilter obj then ret (Done ())
                    else do {
                      w \<leftarrow> worker;
                      case map_get (ew_ruleset w) ruleType of
                        None \<Rightarrow> ret (Done ())
                      | Some rs \<Rightarrow>
                          (case EvalAll E clock rs (entry_event E obj) of
                             None \<Rightarrow> ret (Done ())
                           | Some results \<Rightarrow>
                               if length results > 0 then syncAlert S E ruleType payload dcHostname results
                               else ret (Done ()))
                    }
                  })))"

section \<open>The goroutines\<close>

text \<open>One turn of the queue reader: a job for the pool, another turn, or the end. \<open>ctx_done\<close> decides the
  choice between a full pool and the end of the context.\<close>

datatype turn = TurnJob string string | TurnAgain | TurnEnd

definition SigmaMatcher_turn :: "'s services \<Rightarrow> bool \<Rightarrow> ('s, turn) core" where
  "SigmaMatcher_turn S ctx_done = do {
     w \<leftarrow> worker;
     if ew_stopped w then ret TurnEnd
     else do {
       r \<leftarrow> world (rdx_brpop S);
       case r of
         Inl _ \<Rightarrow> do {
           p \<leftarrow> world (rdx_ping S);
           case p of
             Some _ \<Rightarrow> do { Stop; ret TurnEnd }
           | None \<Rightarrow> ret TurnAgain
         }
       | Inr msg \<Rightarrow>
           (case msg of
              [channel, payload] \<Rightarrow> if ctx_done then ret TurnEnd else ret (TurnJob channel payload)
            | _ \<Rightarrow> ret TurnAgain)
     }
   }"

text \<open>One turn of the matching goroutine; a nil flow set panics.\<close>

definition FlowMatcher_turn :: "'s services \<Rightarrow> go_ext \<Rightarrow> ('s, bool outcome) core" where
  "FlowMatcher_turn S E = do {
     w \<leftarrow> worker;
     if ew_stopped w then ret (Done False)
     else case ew_Flowset w of
       None \<Rightarrow> ret (Panic ''nil pointer dereference'')
     | Some flowset \<Rightarrow> do {
         r \<leftarrow> world (FlowMatcher S E flowset);
         case r of Panic m \<Rightarrow> ret (Panic m) | Done _ \<Rightarrow> ret (Done True)
       }
   }"

end
