(* ===== verification/Engine_Core_Props.thy ===== *)
theory Engine_Core_Props
  imports Engine_Core
begin

text \<open>
  What the worker guarantees: the fields it asks the sigma rules for, the agreement of what it caches
  with what the flow engine reads, the start and the reload of the rules, and that a log entry is
  handled without a panic.
\<close>

section \<open>Fields handed to the sigma rules\<close>

lemma merge_ext_fields:
  "fields_of (merge_ext p m) sid = fields_of m sid \<union> (if sid = fst p then set (snd p) else {})"
  by (cases p) (auto simp: merge_ext_def map_of_map_put RemoveDuplicate_remdups split: option.splits)

lemma merge_ext_fold:
  "fields_of (fold merge_ext ps m) sid = fields_of m sid \<union> {f. \<exists>flds. (sid, flds) \<in> set ps \<and> f \<in> set flds}"
proof (induction ps arbitrary: m)
  case Nil
  then show ?case by simp
next
  case (Cons p ps)
  show ?case using Cons[of "merge_ext p m"] by (cases p) (auto simp: merge_ext_fields)
qed

lemma sigmaExtFields_exact:
  "fields_of (sigmaExtFields rules) sid =
     {f. \<exists>r \<in> set rules. \<exists>flds. (sid, flds) \<in> set (fr_ExtFields r) \<and> f \<in> set flds}"
proof -
  have "fields_of (fold (\<lambda>f. fold merge_ext (fr_ExtFields f)) rules m) sid = fields_of m sid \<union>
      {f. \<exists>r \<in> set rules. \<exists>flds. (sid, flds) \<in> set (fr_ExtFields r) \<and> f \<in> set flds}" for m
  proof (induction rules arbitrary: m)
    case Nil
    then show ?case by simp
  next
    case (Cons r rules)
    show ?case using Cons[of "fold merge_ext (fr_ExtFields r) m"] merge_ext_fold[of "fr_ExtFields r" m sid] by auto
  qed
  from this[of "[]"] show ?thesis by (simp add: sigmaExtFields_def)
qed

section \<open>From the cache to the flow engine\<close>

text \<open>Redis stores the printed values of a hash.\<close>

definition stored_hash :: "go_ext \<Rightarrow> (string \<times> gval) list \<Rightarrow> (string \<times> string) list" where
  "stored_hash E m = map (\<lambda>(k, v). (k, sprint_v E v)) m"

lemma map_of_stored: "map_of (stored_hash E m) k = map_option (sprint_v E) (map_of m k)"
  by (induction m) (auto simp: stored_hash_def)

lemma field_fold:
  "distinct (map fst fs) \<Longrightarrow> map_of (fold put_field fs m) (''field_'' @ f)
     = (case map_of fs f of Some v \<Rightarrow> Some (VString v) | None \<Rightarrow> map_of m (''field_'' @ f))"
proof (induction fs arbitrary: m)
  case Nil
  then show ?case by simp
next
  case (Cons p fs)
  have "fst p \<notin> fst ` set fs" using Cons.prems by simp
  then have "map_of fs (fst p) = None" by (simp add: map_of_eq_None_iff)
  then show ?case using Cons.IH[of "put_field p m"] Cons.prems
    by (auto simp: put_field_def map_of_map_put split: option.split)
qed

lemma other_fold: "\<not> has_prefix k ''field_'' \<Longrightarrow> map_of (fold put_field fs m) k = map_of m k"
  by (induction fs arbitrary: m) (auto simp: put_field_def map_of_map_put)

text \<open>What the flow engine reads from the cached activity is what the sigma rule extracted.\<close>

lemma cached_activity:
  assumes "distinct (map fst (res_Fields result))"
    and "act_cache a = stored_hash E (event_info eId mId dcHostname result rule)"
  shows "has_sid a (res_ID result)" "cache_get a ''mid'' = mId" "cache_get a ''dc_hostname'' = dcHostname"
    "getFieldVal f a = (case map_of (res_Fields result) f of Some v \<Rightarrow> v | None \<Rightarrow> [])"
proof -
  show "has_sid a (res_ID result)" "cache_get a ''mid'' = mId" "cache_get a ''dc_hostname'' = dcHostname"
    using assms(2) by (simp_all add: has_sid_def cache_get_def event_info_def map_of_stored other_fold)
  have "map_of (act_cache a) (''field_'' @ f) = map_of (res_Fields result) f"
    unfolding assms(2) map_of_stored event_info_def field_fold[OF assms(1)]
    by (simp split: option.split)
  then show "getFieldVal f a = (case map_of (res_Fields result) f of Some v \<Rightarrow> v | None \<Rightarrow> [])"
    unfolding getFieldVal_def by simp
qed

text \<open>The unique id of an event is the instance key, when the flow id has no underscore.\<close>

lemma instance_key_split:
  "CHR ''_'' \<notin> set flowId \<Longrightarrow>
   splitN2 (instance_key flowId k) ''_'' = [''ada:engine:instance:'' @ flowId, k]"
  using cut_char[of "CHR ''_''" "''ada:engine:instance:'' @ flowId" k]
  by (simp add: splitN2_def instance_key_def)

section \<open>Start and reload\<close>

lemma wait_flowset_first:
  assumes "\<And>k. k < n \<Longrightarrow> FlowNewRuleset E (FF (m + k)) flowRulePath = Inl ''missing flow rule file list''"
    and "FlowNewRuleset E (FF (m + n)) flowRulePath \<noteq> Inl ''missing flow rule file list''"
    and "n < fuel"
  shows "wait_flowset fuel E FF m = Some (map_sum CoreFlow id (FlowNewRuleset E (FF (m + n)) flowRulePath))"
  using assms
proof (induction n arbitrary: m fuel)
  case 0
  then obtain fuel' where "fuel = Suc fuel'" by (cases fuel) auto
  then show ?case using 0(2) by (auto split: sum.splits)
next
  case (Suc n)
  then obtain fuel' where fuel: "fuel = Suc fuel'" "n < fuel'" by (cases fuel) auto
  have "FlowNewRuleset E (FF m) flowRulePath = Inl ''missing flow rule file list''"
    using Suc.prems(1)[of 0] by simp
  moreover have "wait_flowset fuel' E FF (m + 1)
      = Some (map_sum CoreFlow id (FlowNewRuleset E (FF (m + 1 + n)) flowRulePath))"
    using Suc.prems(1)[of "Suc k" for k] Suc.prems(2) fuel(2)
    by (intro Suc.IH) (simp_all add: add.assoc)
  ultimately show ?case using fuel(1) by (simp add: id_def)
qed

text \<open>Rules that can be evaluated: every tree has its rule, every rule a tag.\<close>

definition ruleset_ok :: "ruleset \<Rightarrow> bool" where
  "ruleset_ok rs \<longleftrightarrow> (\<forall>t \<in> set (rs_Rules rs). \<exists>h. tree_Rule t = Some h \<and> r_Tags (rh_Rule h) \<noteq> [])"

definition worker_ok :: "go_ext \<Rightarrow> engine_worker \<Rightarrow> bool" where
  "worker_ok E w \<longleftrightarrow> (\<forall>(t, rs) \<in> set (ew_ruleset w). ruleset_ok rs)
     \<and> (\<forall>fs. ew_Flowset w = Some fs \<longrightarrow> distinct (map fr_ID (FlowRules fs)) \<and> (\<forall>r \<in> set (FlowRules fs). flow_rule_ok E r))"

lemma NewRuleset_ok: "NewRuleset E F c tags = Inr rs \<Longrightarrow> ruleset_ok rs"
proof -
  assume "NewRuleset E F c tags = Inr rs"
  then obtain files rules err st where
    l: "NewRuleList E F files (\<not> cfg_FailOnYamlParse c) (cfg_NoCollapseWS c) tags (cfg_ExtractFields c) = Inr (rules, err)"
    and st: "RulesetFromRuleList E rules = Inr st" "rs_Rules rs = rs_Rules st"
    by (auto simp: NewRuleset_def bind_result_Inr Let_def)
  have "list_all (loaded_ok tags (cfg_ExtractFields c)) rules"
    using l by (auto simp: NewRuleList_def bind_result_Inr split: if_splits dest!: rule_loop_invariant)
  then have "\<forall>h \<in> set rules. r_Tags (rh_Rule h) \<noteq> []" by (auto simp: list_all_iff loaded_ok_def)
  then show ?thesis
    using ruleset_trees[OF st(1)] st(2) compiled_have_rule[of _ E rules] by (fastforce simp: ruleset_ok_def)
qed

lemma load_sigma_ok: "load_sigma E F fs = Inr rs \<Longrightarrow> \<forall>(t, r) \<in> set rs. ruleset_ok r"
  by (auto simp: load_sigma_def Let_def split: sum.splits dest: NewRuleset_ok)

lemma FlowNewRuleset_ok:
  "FlowNewRuleset E F dir = Inr fs \<Longrightarrow>
   distinct (map fr_ID (FlowRules fs)) \<and> (\<forall>r \<in> set (FlowRules fs). flow_rule_ok E r)"
  by (auto simp: FlowNewRuleset_def split: prod.splits option.splits sum.splits dest!: FlowRuleList_ok)

lemma wait_flowset_ok:
  "wait_flowset fuel E FF n = Some (Inr fs) \<Longrightarrow>
   distinct (map fr_ID (FlowRules fs)) \<and> (\<forall>r \<in> set (FlowRules fs). flow_rule_ok E r)"
  by (induction fuel arbitrary: n) (auto split: sum.splits if_splits dest: FlowNewRuleset_ok)

lemma New_ok: "New fuel E FF F es = Some (Inr w) \<Longrightarrow> worker_ok E w"
  using load_sigma_ok
  by (fastforce simp: New_def worker_ok_def split: option.splits sum.splits dest: wait_flowset_ok)

lemma run_world [simp]: "run_state (world m) (w, s) = (case run_state m s of (a, s') \<Rightarrow> (a, (w, s')))"
  by (simp add: world_def)

lemma run_worker [simp]: "run_state worker (w, s) = (w, (w, s))"
  by (simp add: worker_def)

lemma run_put_worker [simp]: "run_state (put_worker w') (w, s) = ((), (w', s))"
  by (simp add: put_worker_def)

text \<open>A reload either replaces both kinds of rule sets by good ones or, when a file cannot be loaded,
  leaves the worker and the outside world as they were.\<close>

lemma fold_put_ok:
  "\<forall>(t, r) \<in> set new. P r \<Longrightarrow> \<forall>(t, r) \<in> set m. P r \<Longrightarrow> \<forall>(t, r) \<in> set (fold (\<lambda>(t, r) m. map_put m t r) new m). P r"
proof (induction new arbitrary: m)
  case Nil
  then show ?case by simp
next
  case (Cons p new)
  have put: "\<forall>(t, r) \<in> set (map_put m k v). P r" if "\<forall>(t, r) \<in> set m. P r" "P v" for m k v
    using that by (induction m k v rule: map_put.induct) auto
  obtain k v where p: "p = (k, v)" by (cases p)
  have "\<forall>(t, r) \<in> set (fold (\<lambda>(t, r) m. map_put m t r) new (map_put m k v)). P r"
    using Cons.prems p by (intro Cons.IH put) auto
  then show ?case by (simp add: p)
qed

lemma Reload_cases:
  assumes "run_state (Reload S E FF F) (w, s) = (r, (w', s'))"
  obtains (kept) e where "r = Some e" "w' = w" "s' = s"
      "(\<exists>m. FlowNewRuleset E FF flowRulePath = Inl m) \<or> (\<exists>fs m. FlowNewRuleset E FF flowRulePath = Inr fs \<and> load_sigma E F fs = Inl m)"
    | (replaced) fs new where "FlowNewRuleset E FF flowRulePath = Inr fs" "load_sigma E F fs = Inr new"
      "w' = w\<lparr>ew_Flowset := Some fs, ew_ruleset := fold (\<lambda>(t, r) m. map_put m t r) new (ew_ruleset w)\<rparr>"
  using assms
  by (auto simp: Reload_def Let_def split: sum.splits prod.splits option.splits)

lemma Reload_ok:
  assumes "run_state (Reload S E FF F) (w, s) = (r, (w', s'))" "worker_ok E w"
  shows "worker_ok E w'"
  using assms(1)
proof (cases rule: Reload_cases)
  case (kept e)
  then show ?thesis using assms(2) by simp
next
  case (replaced fs new)
  have "\<forall>(t, r) \<in> set (fold (\<lambda>(t, r) m. map_put m t r) new (ew_ruleset w)). ruleset_ok r"
    using load_sigma_ok[OF replaced(2)] assms(2) by (intro fold_put_ok) (auto simp: worker_ok_def)
  then show ?thesis using FlowNewRuleset_ok[OF replaced(1)] replaced(3) by (simp add: worker_ok_def)
qed

section \<open>A log entry is handled without a panic\<close>

abbreviation good :: "go_ext \<Rightarrow> engine_worker \<times> 's \<Rightarrow> bool" where
  "good E \<equiv> (\<lambda>ws. worker_ok E (fst ws))"

lemma keeps_world: "keeps (\<lambda>ws. P (fst ws)) (world m)"
  by (simp add: yields_def world_def split: prod.splits)

lemma yields_worker: "yields (good E) worker (worker_ok E)"
  by (simp add: yields_def worker_def split: prod.splits)

lemma enqueue_alert_keeps: "keeps (good E) (enqueue_alert eId b)"
  by (auto simp: yields_def enqueue_alert_def worker_ok_def)

abbreviation fine :: "go_ext \<Rightarrow> ('s, 'a outcome) core \<Rightarrow> bool" where
  "fine E m \<equiv> yields (good E) m (\<lambda>r. \<forall>msg. r \<noteq> Panic msg)"

lemma fine_ret: "fine E (ret (Done x))"
  by (simp add: yields_ret)

lemma fine_bind: "keeps (good E) m \<Longrightarrow> (\<And>a. fine E (f a)) \<Longrightarrow> fine E (State_Monad.bind m f)"
  by (rule yields_bind)

lemma store_alert_fine:
  assumes "r_Tags rule \<noteq> []"
  shows "fine E (store_alert S E raw h result rule)"
proof -
  obtain tag tags where t: "r_Tags rule = tag # tags" using assms by (cases "r_Tags rule") auto
  show ?thesis
    unfolding store_alert_def Let_def t list.case
    by (intro fine_bind keeps_world yields_sum yields_option fine_ret enqueue_alert_keeps
        keepsI[OF yields_worker])
qed

lemma GetRule_ok:
  assumes "ruleset_ok rs"
  shows "GetRule rs ID = Inr None \<or> (\<exists>r. GetRule rs ID = Inr (Some r) \<and> r_Tags r \<noteq> [])"
proof -
  have "\<And>t. t \<in> set (rs_Rules rs) \<Longrightarrow> tree_Rule t \<noteq> None" using assms by (auto simp: ruleset_ok_def)
  from get_rule_loop_find[OF this]
  have g: "GetRule rs ID = Inr (map_option (rh_Rule \<circ> the \<circ> tree_Rule) (find (\<lambda>t. tree_ID t = ID) (rs_Rules rs)))"
    by (simp add: GetRule_def)
  show ?thesis
  proof (cases "find (\<lambda>t. tree_ID t = ID) (rs_Rules rs)")
    case None
    then show ?thesis using g by simp
  next
    case (Some t)
    then have "t \<in> set (rs_Rules rs)" by (auto simp: find_Some_iff)
    then obtain h where "tree_Rule t = Some h" "r_Tags (rh_Rule h) \<noteq> []" using assms by (auto simp: ruleset_ok_def)
    then show ?thesis using g Some by simp
  qed
qed

lemma sync_result_fine: "fine E (sync_result S E rt raw h result)"
  unfolding sync_result_def
proof (rule yields_bind[OF yields_worker], rule yields_option)
  fix w rs
  assume w: "worker_ok E w" "map_get (ew_ruleset w) rt = Some rs"
  then have "ruleset_ok rs" by (auto simp: worker_ok_def dest: map_of_SomeD)
  from GetRule_ok[OF this, of "res_ID result"]
  show "fine E (case GetRule rs (res_ID result) of
      Inl _ \<Rightarrow> ret (Panic ''nil pointer dereference'')
    | Inr None \<Rightarrow> ret (Done ())
    | Inr (Some rule) \<Rightarrow>
        if internal_rule rule
        then do { world (cacheInternalActivity S E result rule); ret (Done ()) }
        else store_alert S E raw h result rule)"
  proof (elim disjE exE conjE)
    fix r
    assume "GetRule rs (res_ID result) = Inr (Some r)" "r_Tags r \<noteq> []"
    then show ?thesis
      by (simp add: store_alert_fine) (intro impI fine_bind keeps_world fine_ret)
  qed (simp add: fine_ret)
qed (rule fine_ret)

lemma fine_foreach: "(\<And>x. fine E (f x)) \<Longrightarrow> fine E (foreach_panic f xs)"
proof (induction xs)
  case Nil
  then show ?case by (simp add: fine_ret)
next
  case (Cons x xs)
  have "fine E (foreach_panic f xs)" using Cons by simp
  then show ?case unfolding foreach_panic.simps
    by (intro yields_bind[OF Cons.prems[of x]] yields_outcome) simp_all
qed

lemma sigmaRuleMatcher_fine: "fine E (sigmaRuleMatcher S E clock channel payload)"
  unfolding sigmaRuleMatcher_def syncAlert_def
  by (intro yields_option fine_bind keeps_world yields_if fine_ret keepsI[OF yields_worker] fine_foreach
      sync_result_fine)

section \<open>Rules of the system\<close>

text \<open>An internal rule writes its cache and nothing else.\<close>

lemma internal_rule_silent:
  assumes "map_get (ew_ruleset w) rt = Some rs" "GetRule rs (res_ID result) = Inr (Some rule)" "internal_rule rule"
  shows "run_state (sync_result S E rt raw h result) (w, s) =
    (Done (), (w, snd (run_state (cacheInternalActivity S E result rule) s)))"
  using assms by (simp add: sync_result_def split: prod.split)

section \<open>Runs of the engine\<close>

text \<open>The goroutines interleave at the granularity of a log entry, a round of the flow matcher and a
  reload; a panic ends the process, so a run only continues after a handler that returned.\<close>

inductive engine_run :: "'s services \<Rightarrow> go_ext \<Rightarrow> engine_worker \<times> 's \<Rightarrow> bool" for S E where
  started: "New fuel E FF F es = Some (Inr w) \<Longrightarrow> engine_run S E (w, s)"
| reloaded: "engine_run S E ws \<Longrightarrow> run_state (Reload S E FF F) ws = (r, ws') \<Longrightarrow> engine_run S E ws'"
| entry: "engine_run S E ws \<Longrightarrow> run_state (sigmaRuleMatcher S E clock channel payload) ws = (Done (), ws')
    \<Longrightarrow> engine_run S E ws'"
| round: "engine_run S E ws \<Longrightarrow> run_state (FlowMatcher_turn S E) ws = (Done b, ws') \<Longrightarrow> engine_run S E ws'"
| queue: "engine_run S E ws \<Longrightarrow> run_state (SigmaMatcher_turn S c) ws = (t, ws') \<Longrightarrow> engine_run S E ws'"
| outside: "engine_run S E (w, s) \<Longrightarrow> engine_run S E (w, s')"

lemma FlowMatcher_turn_keeps: "keeps (\<lambda>ws. P (fst ws)) (FlowMatcher_turn S E)"
  unfolding FlowMatcher_turn_def
  by (intro io_rules keeps_world TrueI) (simp add: yields_def worker_def split: prod.splits)

lemma Stop_keeps: "keeps (good E) Stop"
  by (auto simp: yields_def Stop_def worker_ok_def)

lemma SigmaMatcher_turn_keeps: "keeps (good E) (SigmaMatcher_turn S c)"
proof -
  have msg: "keeps (good E) (case m of [ch, p] \<Rightarrow> if c then ret TurnEnd else ret (TurnJob ch p) | _ \<Rightarrow> ret TurnAgain)"
    for m :: "string list"
    by (auto split: list.split intro: yields_ret)
  show ?thesis
    unfolding SigmaMatcher_turn_def
    by (intro keeps_bind yields_if yields_sum yields_option keeps_world keepsI[OF yields_worker] Stop_keeps msg
        yields_ret TrueI)
qed

lemma engine_run_ok: "engine_run S E ws \<Longrightarrow> worker_ok E (fst ws)"
proof (induction rule: engine_run.induct)
  case (started fuel FF F es w s)
  then show ?case using New_ok by simp
next
  case (reloaded ws FF F r ws')
  then show ?case using Reload_ok[of S E FF F "fst ws" "snd ws" r "fst ws'" "snd ws'"] by simp
next
  case (entry ws clock channel payload ws')
  then show ?case using yieldsD[OF sigmaRuleMatcher_fine entry.IH entry.hyps(2)] by simp
next
  case (round ws b ws')
  then show ?case using yieldsD[OF FlowMatcher_turn_keeps[of "worker_ok E"] round.IH round.hyps(2)] by simp
next
  case (queue ws c t ws')
  then show ?case using yieldsD[OF SigmaMatcher_turn_keeps queue.IH queue.hyps(2)] by simp
qed simp

end
