(* ===== verification/Sigma_Lexer_Props.thy ===== *)
theory Sigma_Lexer_Props
  imports Sigma_Lexer
begin

text \<open>
  The correctness of the condition lexer: it terminates on every input, it sends exactly one
  closing item and sends it last, and it reads back every well-formed token sequence written with
  single spaces.
\<close>

section \<open>The scanner always finishes\<close>

lemma is_space_neq_eof: "is_space r \<Longrightarrow> r \<noteq> eof"
  by (cases "r = 0") (auto simp: eof_def)

text \<open>Where a call of \<open>lexCondition\<close> can leave the lexer.\<close>

definition cond_out :: "lexer \<Rightarrow> lexer \<Rightarrow> stateFn \<Rightarrow> bool" where
  "cond_out l l' f \<longleftrightarrow>
     input l' = input l \<and> position l \<le> position l' \<and> position l' \<le> length (input l) \<and>
     (f = LexOneOf \<and> position l' + 4 \<le> length (input l)
      \<or> f = LexAllOf \<and> position l' + 6 \<le> length (input l)
      \<or> f = LexEOF
      \<or> f \<in> {LexRparWithTokens, LexLpar, LexPipe} \<and> position l < position l'
      \<or> f = LexAccumulateBeforeWhitespace \<and>
        (position l + 2 \<le> position l' \<or>
         position l < position l' \<and> is_space (fst (decode_rune (drop (position l' - 1) (input l))))))"

lemma lexCondition_out:
  "position l \<le> length (input l) \<Longrightarrow> lexCondition l = (l', f) \<Longrightarrow> cond_out l l' f"
proof (induction l rule: lexCondition.induct)
  case (1 l)
  obtain r l1 where nx: "next_rune l = (r, l1)" by fastforce
  consider (one) "has_prefix (todo l) (literal TokStOne)"
    | (all) "\<not> has_prefix (todo l) (literal TokStOne)" "has_prefix (todo l) (literal TokStAll)"
    | (eof) "\<not> has_prefix (todo l) (literal TokStOne)" "\<not> has_prefix (todo l) (literal TokStAll)"
        "r = eof"
    | (more) "\<not> has_prefix (todo l) (literal TokStOne)" "\<not> has_prefix (todo l) (literal TokStAll)"
        "r \<noteq> eof"
    by blast
  then show ?case
  proof cases
    case one
    then show ?thesis using 1(2,3) has_prefix_length[OF one]
      by (auto simp: lexCondition.simps[of l] cond_out_def todo_def)
  next
    case all
    then show ?thesis using 1(2,3) has_prefix_length[OF all(2)]
      by (auto simp: lexCondition.simps[of l] cond_out_def todo_def)
  next
    case eof
    then show ?thesis using 1(2,3) nx decode_rune_width_le[of "todo l"]
      by (auto simp: lexCondition.simps[of l] cond_out_def next_rune_def todo_def
          split: if_splits prod.splits)
  next
    case more
    note pr = next_rune_progress[OF nx more(3)]
    have w: "r = fst (decode_rune (todo l))" "position l1 = position l + snd (decode_rune (todo l))"
      using nx pr(5) by (auto simp: next_rune_def split: prod.splits)
    show ?thesis
    proof (cases "r = token_rune TokSepRpar \<or> r = token_rune TokSepLpar \<or> r = token_rune TokSepPipe")
      case True
      then show ?thesis using 1(2,3) nx more pr
        by (auto simp: lexCondition.simps[of l] cond_out_def split: if_splits)
    next
      case no_sep: False
      show ?thesis
      proof (cases "is_space r")
        case True
        have out: "l' = l1" "f = LexAccumulateBeforeWhitespace"
          using True 1(3) nx more no_sep by (auto simp: lexCondition.simps[of l])
        show ?thesis
        proof (cases "snd (decode_rune (todo l)) = 1")
          case w1: True
          then show ?thesis using out True w pr by (auto simp: cond_out_def todo_def)
        next
          case False
          then show ?thesis using out w pr by (auto simp: cond_out_def)
        qed
      next
        case False
        have rec: "lexCondition l1 = (l', f)"
          using False 1(3) nx more no_sep by (auto simp: lexCondition.simps[of l])
        have "cond_out l1 l' f"
          using 1(1)[OF more(1,2) nx[symmetric] refl] more no_sep False rec pr by auto
        then show ?thesis using pr by (auto simp: cond_out_def)
      qed
    qed
  qed
qed

lemma lexRparLoop_out:
  "position l \<le> length (input l) \<Longrightarrow> lexRparLoop l = (l', f) \<Longrightarrow>
   input l' = input l \<and> position l' \<le> length (input l) \<and>
   (f = LexEOF \<or> f = LexRpar \<and> position l < position l')"
proof (induction l rule: lexRparLoop.induct)
  case (1 l)
  obtain r l1 where nx: "next_rune l = (r, l1)" by fastforce
  show ?case
  proof (cases "r = eof")
    case True
    then show ?thesis using 1(2,3) nx decode_rune_width_le[of "todo l"]
      by (auto simp: lexRparLoop.simps[of l] next_rune_def todo_def split: if_splits prod.splits)
  next
    case False
    note pr = next_rune_progress[OF nx False]
    show ?thesis
    proof (cases "is_space r")
      case True
      have "lexRparLoop (ignore l1) = (l', f)"
        using True False 1(3) nx by (simp add: lexRparLoop.simps[of l])
      then have "input l' = input (ignore l1) \<and> position l' \<le> length (input (ignore l1)) \<and>
          (f = LexEOF \<or> f = LexRpar \<and> position (ignore l1) < position l')"
        using 1(1)[OF nx[symmetric] refl False True] pr by (simp add: ignore_def)
      then show ?thesis using pr by (auto simp: ignore_def)
    next
      case sp: False
      then show ?thesis using False 1(3) nx pr by (auto simp: lexRparLoop.simps[of l])
    qed
  qed
qed

lemma lexWhitespace_out:
  "position l \<le> length (input l) \<Longrightarrow> lexWhitespace l = (l', f) \<Longrightarrow>
   input l' = input l \<and> position l' \<le> length (input l) \<and>
   (f = LexEOF \<or> f = LexCondition \<and> position l \<le> position l' \<and>
     (is_space (fst (decode_rune (todo l))) \<longrightarrow> position l < position l'))"
proof (induction l rule: lexWhitespace.induct)
  case (1 l)
  obtain r l1 where nx: "next_rune l = (r, l1)" by fastforce
  show ?case
  proof (cases "r = eof")
    case True
    then show ?thesis using 1(2,3) nx decode_rune_width_le[of "todo l"]
      by (auto simp: lexWhitespace.simps[of l] next_rune_def todo_def split: if_splits prod.splits)
  next
    case False
    note pr = next_rune_progress[OF nx False]
    have r: "r = fst (decode_rune (todo l))"
      using nx pr(5) by (auto simp: next_rune_def split: prod.splits)
    show ?thesis
    proof (cases "is_space r")
      case True
      have "lexWhitespace (ignore l1) = (l', f)"
        using True False 1(3) nx by (simp add: lexWhitespace.simps[of l])
      then have "input l' = input (ignore l1) \<and> position l' \<le> length (input (ignore l1)) \<and>
          (f = LexEOF \<or> f = LexCondition \<and> position (ignore l1) \<le> position l')"
        using 1(1)[OF nx[symmetric] refl False] True pr by (auto simp: ignore_def)
      then show ?thesis using pr by (auto simp: ignore_def)
    next
      case sp: False
      then show ?thesis using False 1(3) nx pr r
        by (auto simp: lexWhitespace.simps[of l] backup_def)
    qed
  qed
qed

definition ends_well :: "item list \<Rightarrow> bool" where
  "ends_well is \<longleftrightarrow> is \<noteq> [] \<and> item_T (last is) \<in> {TokLitEof, TokUnsupp}"

definition finishes :: "nat \<Rightarrow> go_ext \<Rightarrow> stateFn \<Rightarrow> lexer \<Rightarrow> bool" where
  "finishes n E f l \<longleftrightarrow> (\<exists>is. scan n E f l = Some is \<and> ends_well is)"

lemma finishes_step:
  "lex_step E f l = (is, l', Some f') \<Longrightarrow> finishes n E f' l' \<Longrightarrow> finishes (Suc n) E f l"
  by (auto simp: finishes_def ends_well_def)

lemma finishes_EOF: "finishes (Suc n) E LexEOF l"
  by (auto simp: finishes_def ends_well_def emit_def Let_def)

lemma finishes_Pipe: "finishes (Suc (Suc n)) E LexPipe l"
  by (auto simp: finishes_def ends_well_def emit_def Let_def)

lemma finishes_sep:
  "finishes n E LexCondition (ignore l) \<Longrightarrow> finishes (Suc n) E LexLpar l"
  "finishes n E LexCondition (ignore l) \<Longrightarrow> finishes (Suc n) E LexRpar l"
  by (rule finishes_step, simp_all add: emit_def)+

lemma finishes_st:
  "finishes n E LexCondition (ignore (l\<lparr>position := position l + 4\<rparr>)) \<Longrightarrow> finishes (Suc n) E LexOneOf l"
  "finishes n E LexCondition (ignore (l\<lparr>position := position l + 6\<rparr>)) \<Longrightarrow> finishes (Suc n) E LexAllOf l"
  by (rule finishes_step, simp_all add: emit_def numeral_eq_Suc)+

lemma ignore_simps [simp]:
  "input (ignore l) = input l" "position (ignore l) = position l" "start (ignore l) = position l"
  by (simp_all add: ignore_def)

lemma finishes_RparWithTokens:
  assumes "position l \<le> length (input l)"
    and "\<And>l2. input l2 = input l \<Longrightarrow> position l \<le> position l2 \<Longrightarrow> position l2 \<le> length (input l)
      \<Longrightarrow> finishes (Suc n) E LexCondition l2"
  shows "finishes (Suc (Suc (Suc n))) E LexRparWithTokens l"
proof (cases "position l > start l")
  case True
  define t where "t = checkKeyWord E (collected (backup l))"
  define l2 where "l2 = (if t \<noteq> TokNil then ignore (backup l) else backup l)"
  obtain l3 f3 where r: "lexRparLoop l2 = (l3, f3)" by fastforce
  have p2: "input l2 = input l" "position l2 = position l - 1"
    by (auto simp: l2_def ignore_def backup_def)
  have st: "lex_step E LexRparWithTokens l =
      (if t \<noteq> TokNil then [mk_item t (collected (backup l))] else [], l3, Some f3)"
    using True r by (auto simp: t_def l2_def emit_def Let_def)
  have "position l2 \<le> length (input l2)" using assms(1) p2 by simp
  from lexRparLoop_out[OF this r] p2
  have o3: "input l3 = input l" "position l3 \<le> length (input l)"
    "f3 = LexEOF \<or> f3 = LexRpar \<and> position l \<le> position l3" by auto
  have "finishes (Suc (Suc n)) E f3 l3"
    using o3(3)
  proof
    assume "f3 = LexEOF"
    then show ?thesis by (simp add: finishes_EOF)
  next
    assume "f3 = LexRpar \<and> position l \<le> position l3"
    then show ?thesis using o3(1,2) by (auto intro!: finishes_sep assms(2))
  qed
  then show ?thesis by (rule finishes_step[OF st])
next
  case False
  then have "lex_step E LexRparWithTokens l = ([], l, Some LexRpar)" by simp
  moreover have "finishes (Suc (Suc n)) E LexRpar l"
    using assms by (auto intro!: finishes_sep)
  ultimately show ?thesis by (rule finishes_step)
qed

lemma finishes_Accumulate:
  assumes "position l \<le> length (input l)"
    and "p + 2 \<le> position l \<or>
         p < position l \<and> is_space (fst (decode_rune (drop (position l - 1) (input l))))"
    and "\<And>l2. input l2 = input l \<Longrightarrow> p < position l2 \<Longrightarrow> position l2 \<le> length (input l)
      \<Longrightarrow> finishes (Suc n) E LexCondition l2"
  shows "finishes (Suc (Suc (Suc n))) E LexAccumulateBeforeWhitespace l"
proof -
  obtain js l2 where st: "lex_step E LexAccumulateBeforeWhitespace l = (js, l2, Some LexWhitespace)"
    and p2: "input l2 = input l" "position l2 = position l - 1"
    by (cases "start l < position l - 1") (auto simp: emit_def Let_def backup_def)
  obtain l3 f3 where r: "lexWhitespace l2 = (l3, f3)" by fastforce
  have "position l2 \<le> length (input l2)" using assms(1) p2 by simp
  from lexWhitespace_out[OF this r] p2
  have o3: "input l3 = input l" "position l3 \<le> length (input l)"
    "f3 = LexEOF \<or> f3 = LexCondition \<and> p < position l3"
    using assms(2) by (auto simp: todo_def)
  have "finishes (Suc n) E f3 l3"
    using o3 assms(3)[of l3] by (auto simp: finishes_EOF)
  moreover have "lex_step E LexWhitespace l2 = ([], l3, Some f3)" using r by simp
  ultimately show ?thesis by (blast intro: finishes_step[OF st] finishes_step)
qed

text \<open>Every round through \<open>lexCondition\<close> takes at most four steps and consumes input.\<close>

lemma scan_enough:
  "position l \<le> length (input l) \<Longrightarrow> 4 * (length (input l) - position l) + 4 \<le> n
    \<Longrightarrow> finishes n E LexCondition l"
proof (induction "length (input l) - position l" arbitrary: l n rule: less_induct)
  case less
  obtain l1 f where c: "lexCondition l = (l1, f)" by fastforce
  note out = lexCondition_out[OF less.prems(1) c]
  have again: "finishes m E LexCondition l2"
    if "input l2 = input l" "position l < position l2" "position l2 \<le> length (input l)"
      "n \<le> m + 4" for l2 m
    using that less.prems less.hyps[of l2 m] by simp
  obtain m where m: "n = Suc (Suc (Suc (Suc m)))"
    using less.prems(2) by (intro that[of "n - 4"]) simp
  have len: "input l1 = input l" "position l \<le> position l1" "position l1 \<le> length (input l)"
    using out by (auto simp: cond_out_def)
  have "finishes (Suc (Suc (Suc m))) E f l1"
  proof (cases "f = LexRparWithTokens \<or> f = LexAccumulateBeforeWhitespace")
    case True
    then show ?thesis
    proof
      assume "f = LexRparWithTokens"
      then show ?thesis using out len m
        by (auto intro!: finishes_RparWithTokens again simp: cond_out_def)
    next
      assume "f = LexAccumulateBeforeWhitespace"
      then show ?thesis using out len m
        by (auto intro!: finishes_Accumulate[where p = "position l"] again simp: cond_out_def)
    qed
  next
    case False
    then show ?thesis using out len m
      by (auto simp: cond_out_def finishes_EOF finishes_Pipe
          intro!: finishes_sep finishes_st again)
  qed
  moreover have "lex_step E LexCondition l = ([], l1, Some f)" using c by simp
  ultimately show ?case unfolding m by (blast intro: finishes_step)
qed

lemma lex_total: "\<exists>is. lex E s = Some is \<and> ends_well is"
  using scan_enough[of "new_lexer s" "lex_fuel s" E]
  by (simp add: lex_def new_lexer_def lex_fuel_def finishes_def)

section \<open>The machine as a relation\<close>

text \<open>\<open>lex_runs E f l is\<close>: from state \<open>f\<close> the machine stops after sending exactly the items
  \<open>is\<close>. The relation does not mention fuel; \<open>lex\<close> computes it.\<close>

inductive lex_runs :: "go_ext \<Rightarrow> stateFn \<Rightarrow> lexer \<Rightarrow> item list \<Rightarrow> bool" where
  stop: "lex_step E f l = (is, l', None) \<Longrightarrow> lex_runs E f l is"
| step: "lex_step E f l = (is, l', Some f') \<Longrightarrow> lex_runs E f' l' js \<Longrightarrow> lex_runs E f l (is @ js)"

lemma scan_runs: "scan n E f l = Some is \<Longrightarrow> lex_runs E f l is"
proof (induction n E f l arbitrary: "is" rule: scan.induct)
  case (1 E f l)
  then show ?case by simp
next
  case (2 n E f l)
  obtain js l' g where st: "lex_step E f l = (js, l', g)" by (metis prod_cases3)
  show ?case
  proof (cases g)
    case None
    then show ?thesis using 2(2) st by (auto intro: lex_runs.stop)
  next
    case (Some f')
    then obtain ks where "scan n E f' l' = Some ks" "is = js @ ks"
      using 2(2) st by auto
    then show ?thesis using 2(1)[OF st[symmetric] refl] Some st
      by (auto intro: lex_runs.step)
  qed
qed

lemma runs_deterministic: "lex_runs E f l is \<Longrightarrow> lex_runs E f l js \<Longrightarrow> is = js"
proof (induction arbitrary: js rule: lex_runs.induct)
  case (stop E f l "is" l')
  from stop(2,1) show ?case by (cases rule: lex_runs.cases) auto
next
  case (step E f l "is" l' f' ks)
  from step(4,1) obtain ks' where "lex_runs E f' l' ks'" "js = is @ ks'"
    by (cases rule: lex_runs.cases) auto
  then show ?case using step.IH by simp
qed

lemma lex_iff_runs: "lex E s = Some is \<longleftrightarrow> lex_runs E LexCondition (new_lexer s) is"
proof
  assume "lex E s = Some is"
  then show "lex_runs E LexCondition (new_lexer s) is" by (simp add: lex_def scan_runs)
next
  assume r: "lex_runs E LexCondition (new_lexer s) is"
  obtain js where js: "lex E s = Some js" using lex_total by blast
  then have "lex_runs E LexCondition (new_lexer s) js" by (simp add: lex_def scan_runs)
  then show "lex E s = Some is" using js runs_deterministic[OF r] by simp
qed

section \<open>Lexing a rendered token sequence\<close>

text \<open>The lexer seen as a zipper: what was sent, the segment being scanned, what is left.\<close>

definition lx_at :: "string \<Rightarrow> string \<Rightarrow> string \<Rightarrow> nat \<Rightarrow> lexer" where
  "lx_at pre acc rest w =
     \<lparr>input = pre @ acc @ rest, start = length pre, position = length pre + length acc, width = w\<rparr>"

lemma lx_at_simps [simp]:
  "todo (lx_at pre acc rest w) = rest"
  "collected (lx_at pre acc rest w) = acc"
  "ignore (lx_at pre acc rest w) = lx_at (pre @ acc) [] rest w"
  "emit k (lx_at pre acc rest w) = (mk_item k acc, lx_at (pre @ acc) [] rest w)"
  "position (lx_at pre acc rest w) > start (lx_at pre acc rest w) \<longleftrightarrow> acc \<noteq> []"
  by (auto simp: lx_at_def todo_def collected_def ignore_def emit_def)

lemma new_lexer_at: "new_lexer s = lx_at [] [] s 0"
  by (simp add: new_lexer_def lx_at_def)

lemma backup_at [simp]: "backup (lx_at pre (acc @ [c]) rest w) = lx_at pre acc (c # rest) w"
  by (simp add: lx_at_def backup_def)

lemma next_rune_at [simp]:
  "byte c < 128 \<Longrightarrow> next_rune (lx_at pre acc (c # rest) w) = (byte c, lx_at pre (acc @ [c]) rest 1)"
  by (simp add: lx_at_def next_rune_def todo_def)

lemma next_rune_at_end [simp]: "next_rune (lx_at pre acc [] w) = (eof, lx_at pre acc [] 0)"
  by (simp add: lx_at_def next_rune_def)

lemma advance_at:
  "(lx_at pre [] (v @ rest) w)\<lparr>position := position (lx_at pre [] (v @ rest) w) + length v\<rparr>
     = lx_at pre v rest w"
  by (simp add: lx_at_def)

definition plain :: "char \<Rightarrow> bool" where
  "plain c \<longleftrightarrow> byte c < 128 \<and> byte c \<notin> {0, 40, 41, 124} \<and> \<not> is_space (byte c)"

definition word :: "string \<Rightarrow> bool" where
  "word w \<longleftrightarrow> w \<noteq> [] \<and> list_all plain w"

lemma plain_not_space: "plain c \<Longrightarrow> c \<noteq> CHR '' ''"
  by (auto simp: plain_def is_space_def)

lemma plain_runes:
  "plain c \<Longrightarrow> byte c < 128 \<and> byte c \<noteq> eof \<and> byte c \<noteq> token_rune TokSepRpar
     \<and> byte c \<noteq> token_rune TokSepLpar \<and> byte c \<noteq> token_rune TokSepPipe \<and> \<not> is_space (byte c)"
  by (auto simp: plain_def eof_def token_rune_def)

text \<open>Inside a word, \<open>1 of\<close> and \<open>all of\<close> are recognised only where the word ends in
  \<open>1\<close> or \<open>all\<close> and \<open>of\<close> follows.\<close>

definition boundary :: "string \<Rightarrow> bool" where
  "boundary rest \<longleftrightarrow> rest = [] \<or> (\<exists>r. rest = CHR '' '' # r)"

lemma prefix_1of:
  "list_all plain (c # u) \<Longrightarrow> has_prefix ((c # u) @ rest) ''1 of''
    \<Longrightarrow> c # u = ''1'' \<and> has_prefix rest '' of''"
  by (cases u) (auto dest: plain_not_space)

lemma prefix_allof:
  "list_all plain (c # u) \<Longrightarrow> boundary rest \<Longrightarrow> has_prefix ((c # u) @ rest) ''all of''
    \<Longrightarrow> c # u = ''all'' \<and> has_prefix rest '' of''"
  by (cases u; cases "tl u"; cases "tl (tl u)")
    (auto dest: plain_not_space simp: boundary_def)

definition no_st :: "string \<Rightarrow> string \<Rightarrow> bool" where
  "no_st v rest \<longleftrightarrow> \<not> (has_prefix rest '' of'' \<and> (has_suffix v ''1'' \<or> has_suffix v ''all''))"

lemma no_st_Cons: "no_st (c # u) rest \<Longrightarrow> no_st u rest"
  by (auto simp: no_st_def has_suffix_iff)

lemma lexCondition_plain:
  assumes "plain c" "\<not> has_prefix (c # rest) ''1 of''" "\<not> has_prefix (c # rest) ''all of''"
  shows "lexCondition (lx_at pre acc (c # rest) w) = lexCondition (lx_at pre (acc @ [c]) rest 1)"
  using assms plain_runes[OF assms(1)]
  by (subst lexCondition.simps) (simp del: has_prefix_Cons)

lemma lexCondition_word:
  "list_all plain v \<Longrightarrow> boundary rest \<Longrightarrow> no_st v rest \<Longrightarrow>
   lexCondition (lx_at pre acc (v @ rest) w)
     = lexCondition (lx_at pre (acc @ v) rest (if v = [] then w else 1))"
proof (induction v arbitrary: acc w)
  case Nil
  then show ?case by simp
next
  case (Cons c u)
  have "\<not> has_prefix ((c # u) @ rest) ''1 of''"
    using prefix_1of[OF Cons.prems(1), of rest] Cons.prems(3) unfolding no_st_def
    by (metis append_Nil has_suffix_iff)
  moreover have "\<not> has_prefix ((c # u) @ rest) ''all of''"
    using prefix_allof[OF Cons.prems(1,2)] Cons.prems(3) unfolding no_st_def
    by (metis append_Nil has_suffix_iff)
  ultimately have "lexCondition (lx_at pre acc (c # u @ rest) w)
      = lexCondition (lx_at pre (acc @ [c]) (u @ rest) 1)"
    using Cons.prems(1) by (intro lexCondition_plain) auto
  then show ?case using Cons.IH[of "acc @ [c]" 1] Cons.prems no_st_Cons by auto
qed

lemma lexCondition_end: "lexCondition (lx_at pre acc [] w) = (lx_at pre acc [] 0, LexEOF)"
  by (subst lexCondition.simps) simp

lemma lexCondition_space:
  "lexCondition (lx_at pre acc (CHR '' '' # rest) w)
     = (lx_at pre (acc @ '' '') rest 1, LexAccumulateBeforeWhitespace)"
  by (subst lexCondition.simps) (simp add: eof_def token_rune_def is_space_def)

lemma lexWhitespace_space:
  assumes "byte c < 128" "byte c \<noteq> 0" "\<not> is_space (byte c)"
  shows "lexWhitespace (lx_at pre [] (CHR '' '' # c # rest) w)
     = (lx_at (pre @ '' '') [] (c # rest) 1, LexCondition)"
  using assms backup_at[of "pre @ '' ''" "[]" c rest 1]
  by (subst lexWhitespace.simps, simp add: eof_def is_space_def[of 32], subst lexWhitespace.simps)
    (simp add: eof_def)

lemma runs_step: "lex_step E f l = (is, l', Some f') \<Longrightarrow> lex_runs E f' l' js \<Longrightarrow> ks = is @ js
  \<Longrightarrow> lex_runs E f l ks"
  using lex_runs.step by blast

lemma runs_Condition:
  "lexCondition l = (l', f) \<Longrightarrow> lex_runs E f l' js \<Longrightarrow> lex_runs E LexCondition l js"
  using lex_runs.step[of E LexCondition l "[]" l' f js] by simp

text \<open>After a complete segment the machine skips one space and is back in
  \<open>lexCondition\<close>.\<close>

lemma runs_skip_space:
  assumes "lex_runs E LexCondition (lx_at (pre @ acc @ '' '') [] (c # rest) 1) js"
    and "byte c < 128" "byte c \<noteq> 0" "\<not> is_space (byte c)"
  shows "lex_runs E LexAccumulateBeforeWhitespace (lx_at pre (acc @ '' '') (c # rest) w)
     ((if acc = [] then [] else [mk_item (checkKeyWord E acc) acc]) @ js)"
proof -
  have ws: "lex_runs E LexWhitespace (lx_at (pre @ acc) [] (CHR '' '' # c # rest) w) js"
    by (rule runs_step[OF _ assms(1)])
      (use assms lexWhitespace_space[of c "pre @ acc"] in simp_all)
  show ?thesis
    by (rule runs_step[OF _ ws]) (use backup_at[of pre acc "CHR '' ''"] in \<open>auto simp: Let_def\<close>)
qed

definition wf_item :: "go_ext \<Rightarrow> item \<Rightarrow> bool" where
  "wf_item E it \<longleftrightarrow> word (item_Val it) \<and> item_T it = checkKeyWord E (item_Val it)
     \<or> it \<in> {mk_item TokSepLpar ''('', mk_item TokSepRpar '')'', mk_item TokStOne ''1 of'',
              mk_item TokStAll ''all of''}"

definition render :: "item list \<Rightarrow> string" where
  "render its = join (map item_Val its) '' ''"

definition eof_item :: item where
  "eof_item = mk_item TokLitEof []"

definition ok_start :: "char \<Rightarrow> bool" where
  "ok_start c \<longleftrightarrow> byte c < 128 \<and> byte c \<noteq> 0 \<and> \<not> is_space (byte c)"

lemma runs_EOF:
  "lex_runs E LexEOF (lx_at pre acc [] w)
     ((if acc = [] then [] else [mk_item (checkKeyWord E acc) acc]) @ [eof_item])"
  by (rule lex_runs.stop) (auto simp: Let_def eof_item_def)

lemma runs_at_end: "lex_runs E LexCondition (lx_at pre [] [] w) [eof_item]"
  by (rule runs_step[OF _ runs_EOF[of E pre "[]" 0]]) (simp_all add: lexCondition_end)

lemma runs_at_space:
  assumes "lex_runs E LexCondition (lx_at (pre @ '' '') [] (c # rest) 1) js" "ok_start c"
  shows "lex_runs E LexCondition (lx_at pre [] ('' '' @ c # rest) w) js"
  using runs_skip_space[of E pre "[]" c rest js 1] assms
  by (intro runs_Condition[where f = LexAccumulateBeforeWhitespace])
    (auto simp: lexCondition_space ok_start_def)

text \<open>The separators and the \<open>1 of\<close>/\<open>all of\<close> statements are sent at once.\<close>

lemma runs_sep:
  assumes "it \<in> {mk_item TokSepLpar ''('', mk_item TokSepRpar '')'', mk_item TokStOne ''1 of'',
              mk_item TokStAll ''all of''}"
    and "\<And>w. lex_runs E LexCondition (lx_at (pre @ item_Val it) [] rest w) js"
  shows "lex_runs E LexCondition (lx_at pre [] (item_Val it @ rest) w) (it # js)"
proof -
  consider "it = mk_item TokSepLpar ''(''" | "it = mk_item TokSepRpar '')''"
    | "it = mk_item TokStOne ''1 of''" | "it = mk_item TokStAll ''all of''" using assms(1) by blast
  then show ?thesis
  proof cases
    case 1
    have "lex_runs E LexLpar (lx_at pre ''('' rest 1) (it # js)"
      by (rule runs_step[OF _ assms(2)]) (simp_all add: 1)
    moreover have "lexCondition (lx_at pre [] (CHR ''('' # rest) w) = (lx_at pre ''('' rest 1, LexLpar)"
      by (subst lexCondition.simps) (simp add: eof_def token_rune_def)
    ultimately show ?thesis by (auto intro: runs_Condition simp: 1)
  next
    case 2
    have "lexRparLoop (lx_at pre [] (CHR '')'' # rest) 1) = (lx_at pre '')'' rest 1, LexRpar)"
      by (subst lexRparLoop.simps) (simp add: eof_def is_space_def)
    then have st: "lex_step E LexRparWithTokens (lx_at pre '')'' rest 1)
        = ([], lx_at pre '')'' rest 1, Some LexRpar)"
      using backup_at[of pre "[]" "CHR '')''" rest 1] by (simp add: Let_def checkKeyWord_def)
    have "lex_runs E LexRpar (lx_at pre '')'' rest 1) (it # js)"
      by (rule runs_step[OF _ assms(2)]) (simp_all add: 2)
    then have "lex_runs E LexRparWithTokens (lx_at pre '')'' rest 1) (it # js)"
      by (rule runs_step[OF st]) simp
    moreover have "lexCondition (lx_at pre [] (CHR '')'' # rest) w)
        = (lx_at pre '')'' rest 1, LexRparWithTokens)"
      by (subst lexCondition.simps) (simp add: eof_def token_rune_def)
    ultimately show ?thesis by (auto intro: runs_Condition simp: 2)
  next
    case 3
    have "lex_runs E LexOneOf (lx_at pre [] (''1 of'' @ rest) w) (it # js)"
      by (rule runs_step[OF _ assms(2)])
        (use advance_at[of pre "''1 of''" rest w] in \<open>simp_all add: 3\<close>)
    moreover have "lexCondition (lx_at pre [] (''1 of'' @ rest) w)
        = (lx_at pre [] (''1 of'' @ rest) w, LexOneOf)"
      by (subst lexCondition.simps) simp
    ultimately show ?thesis by (auto intro: runs_Condition simp: 3)
  next
    case 4
    have "lex_runs E LexAllOf (lx_at pre [] (''all of'' @ rest) w) (it # js)"
      by (rule runs_step[OF _ assms(2)])
        (use advance_at[of pre "''all of''" rest w] in \<open>simp_all add: 4\<close>)
    moreover have "lexCondition (lx_at pre [] (''all of'' @ rest) w)
        = (lx_at pre [] (''all of'' @ rest) w, LexAllOf)"
      by (subst lexCondition.simps) simp
    ultimately show ?thesis by (auto intro: runs_Condition simp: 4)
  qed
qed

lemma runs_word_end:
  assumes "word v"
  shows "lex_runs E LexCondition (lx_at pre [] v w) [mk_item (checkKeyWord E v) v, eof_item]"
proof -
  have "lexCondition (lx_at pre [] (v @ []) w) = (lx_at pre v [] 0, LexEOF)"
    using assms lexCondition_word[of v "[]" pre "[]" w]
    by (simp add: word_def boundary_def no_st_def lexCondition_end)
  then show ?thesis using assms runs_EOF[of E pre v 0]
    by (intro runs_Condition) (auto simp: word_def)
qed

lemma runs_word_space:
  assumes "word v" "no_st v ('' '' @ c # rest)" "ok_start c"
    and "lex_runs E LexCondition (lx_at (pre @ v @ '' '') [] (c # rest) 1) js"
  shows "lex_runs E LexCondition (lx_at pre [] (v @ '' '' @ c # rest) w)
    (mk_item (checkKeyWord E v) v # js)"
proof -
  have "lexCondition (lx_at pre [] (v @ '' '' @ c # rest) w)
      = (lx_at pre (v @ '' '') (c # rest) 1, LexAccumulateBeforeWhitespace)"
    using assms(1,2) lexCondition_word[of v "'' '' @ c # rest" pre "[]" w]
    by (simp add: word_def boundary_def lexCondition_space)
  moreover have "lex_runs E LexAccumulateBeforeWhitespace (lx_at pre (v @ '' '') (c # rest) 1)
      (mk_item (checkKeyWord E v) v # js)"
    using runs_skip_space[OF assms(4)] assms(1,3) by (simp add: word_def ok_start_def)
  ultimately show ?thesis by (rule runs_Condition)
qed

lemma plain_ok_start: "plain c \<Longrightarrow> ok_start c"
  by (auto simp: plain_def ok_start_def)

lemma ok_start_consts: "ok_start (CHR ''('')" "ok_start (CHR '')'')" "ok_start (CHR ''1'')" "ok_start (CHR ''a'')"
  by (simp_all add: ok_start_def is_space_def)

lemma wf_item_start: "wf_item E it \<Longrightarrow> \<exists>c t. item_Val it = c # t \<and> ok_start c"
  by (cases "item_Val it") (auto simp: wf_item_def word_def plain_ok_start ok_start_consts)

lemma word_lower: "word v \<Longrightarrow> to_lower E v = map ascii_lower v"
  by (auto simp: word_def to_lower_def is_ascii_def plain_def list_all_iff)

lemma suffix_lower:
  "has_suffix v ''1'' \<or> has_suffix v ''all'' \<Longrightarrow> last (map ascii_lower v) \<in> {CHR ''1'', CHR ''l''}"
  by (auto simp: has_suffix_iff ascii_lower_def)

lemma ascii_lower_space: "ascii_lower c = CHR '' '' \<Longrightarrow> c = CHR '' ''"
  by (auto simp: ascii_lower_def split: if_splits dest: arg_cong[where f = "of_char :: char \<Rightarrow> nat"])

lemma lower_of: "has_prefix (v @ x) ''of'' \<Longrightarrow> map ascii_lower v \<noteq> ''and'' \<and> map ascii_lower v \<noteq> ''or''"
  by (cases v; cases "tl v") (auto simp: ascii_lower_def)

lemma checkKeyWord_and_or:
  assumes "checkKeyWord E v \<in> {TokKeywordAnd, TokKeywordOr, TokSepRpar, TokLitEof, TokSepPipe}" "word v"
  shows "map ascii_lower v \<in> {''and'', ''or''}"
proof (rule ccontr)
  assume "map ascii_lower v \<notin> {''and'', ''or''}"
  then have "checkKeyWord E v \<in> {TokNil, TokKeywordNot, TokKeywordAgg, TokIdentifierAll, TokStOne,
      TokIdentifierWithWildcard, TokIdentifier}"
    using word_lower[OF assms(2), of E] by (simp add: checkKeyWord_def Let_def)
  then show False using assms(1) by auto
qed

text \<open>In an accepted token sequence, a word that ends in \<open>1\<close> or \<open>all\<close> is never followed by
  a token that starts with \<open>of\<close>.\<close>

lemma valid_no_st:
  assumes "word v" "validTokenSequence (checkKeyWord E v) (item_T it)" "wf_item E it"
  shows "no_st v ('' '' @ item_Val it @ x)"
proof (rule ccontr)
  assume "\<not> no_st v ('' '' @ item_Val it @ x)"
  then have of: "has_prefix (item_Val it @ x) ''of''"
    and "has_suffix v ''1'' \<or> has_suffix v ''all''"
    by (simp_all add: no_st_def)
  from suffix_lower[OF this(2)] have lst: "last (map ascii_lower v) \<in> {CHR ''1'', CHR ''l''}" .
  from lst have "map ascii_lower v \<notin> {''and'', ''or'', ''not'', ''sum'', ''min'', ''max'', ''count'', ''avg''}"
    by auto
  moreover have "map ascii_lower v \<noteq> ''1 of''"
  proof
    assume "map ascii_lower v = ''1 of''"
    then have "CHR '' '' \<in> set v" by (auto dest: ascii_lower_space)
    then show False using assms(1) by (auto simp: word_def list_all_iff dest: plain_not_space)
  qed
  moreover have "v \<noteq> []" using assms(1) by (simp add: word_def)
  ultimately have "checkKeyWord E v \<in> {TokIdentifierAll, TokIdentifierWithWildcard, TokIdentifier}"
    using word_lower[OF assms(1), of E] by (simp add: checkKeyWord_def Let_def)
  then have "item_T it \<in> {TokKeywordAnd, TokKeywordOr, TokSepRpar, TokLitEof, TokSepPipe}"
    using assms(2) by (cases "item_T it") (auto simp: validTokenSequence_def)
  then have "word (item_Val it) \<and> map ascii_lower (item_Val it) \<in> {''and'', ''or''}
      \<or> item_Val it = '')''"
    using assms(3) checkKeyWord_and_or[of E "item_Val it"] by (auto simp: wf_item_def)
  then show False using of lower_of[OF of] by auto
qed

fun valid_chain :: "item list \<Rightarrow> bool" where
  "valid_chain [] = True"
| "valid_chain [a] = True"
| "valid_chain (a # b # its) = (validTokenSequence (item_T a) (item_T b) \<and> valid_chain (b # its))"

lemma runs_render:
  "its \<noteq> [] \<Longrightarrow> valid_chain its \<Longrightarrow> \<forall>it \<in> set its. wf_item E it
    \<Longrightarrow> lex_runs E LexCondition (lx_at pre [] (render its) w) (its @ [eof_item])"
proof (induction its arbitrary: pre w rule: valid_chain.induct)
  case (3 a b its)
  obtain c t where c: "render (b # its) = c # t" "ok_start c"
    using wf_item_start[of E b] 3(4) by (cases its) (auto simp: render_def)
  have rest: "render (a # b # its) = item_Val a @ '' '' @ render (b # its)"
    by (simp add: render_def)
  have IH: "lex_runs E LexCondition (lx_at (pre @ item_Val a @ '' '') [] (render (b # its)) w')
      (b # its @ [eof_item])" for w'
    using 3 by simp
  from 3(4) have "wf_item E a" by simp
  then consider "word (item_Val a)" "item_T a = checkKeyWord E (item_Val a)"
    | "a \<in> {mk_item TokSepLpar ''('', mk_item TokSepRpar '')'', mk_item TokStOne ''1 of'',
              mk_item TokStAll ''all of''}" by (auto simp: wf_item_def)
  then show ?case
  proof cases
    case 1
    have "no_st (item_Val a) ('' '' @ render (b # its))"
    proof (cases its)
      case Nil
      then show ?thesis using valid_no_st[of "item_Val a" E b "[]"] 1 "3.prems" by (simp add: render_def)
    next
      case (Cons d ds)
      then show ?thesis
        using valid_no_st[of "item_Val a" E b "'' '' @ render its"] 1 "3.prems" by (simp add: render_def)
    qed
    moreover have "mk_item (checkKeyWord E (item_Val a)) (item_Val a) = a"
      using 1(2) item_collapse[of a] by simp
    ultimately show ?thesis
      using runs_word_space[OF 1(1), of c t E pre "b # its @ [eof_item]" w] IH c rest by simp
  next
    case 2
    have "lex_runs E LexCondition (lx_at (pre @ item_Val a) [] ('' '' @ c # t) w') (b # its @ [eof_item])" for w'
      by (rule runs_at_space) (use IH c in simp_all)
    then show ?thesis using runs_sep[OF 2] rest c by simp
  qed
next
  case (2 a)
  then consider "word (item_Val a)" "item_T a = checkKeyWord E (item_Val a)"
    | "a \<in> {mk_item TokSepLpar ''('', mk_item TokSepRpar '')'', mk_item TokStOne ''1 of'',
              mk_item TokStAll ''all of''}" by (auto simp: wf_item_def)
  then show ?case
  proof cases
    case 1
    then have "mk_item (checkKeyWord E (item_Val a)) (item_Val a) = a"
      using item_collapse[of a] by simp
    then show ?thesis using runs_word_end[OF 1(1), of E pre w]
      by (simp add: render_def)
  next
    case 2
    then show ?thesis using runs_sep[OF 2, of E pre "[]"] runs_at_end by (simp add: render_def)
  qed
qed simp

lemma lex_render:
  "its \<noteq> [] \<Longrightarrow> valid_chain its \<Longrightarrow> \<forall>it \<in> set its. wf_item E it
    \<Longrightarrow> lex E (render its) = Some (its @ [eof_item])"
  by (simp add: lex_iff_runs new_lexer_at runs_render)

end
