(* ===== verification/Sigma_Grammar.thy ===== *)
theory Sigma_Grammar
  imports Sigma_Lexer_Props Sigma_Tree
begin

text \<open>
  The condition language as a grammar, and the proof that the compiler implements it: a condition
  printed from its syntax tree is lexed, accepted by the first pass and compiled by the second into
  a tree whose verdict on an event is the verdict of the syntax tree, with \<open>not\<close> binding tighter
  than \<open>and\<close>, and \<open>and\<close> tighter than \<open>or\<close>.
\<close>

section \<open>Grammar\<close>

text \<open>The flag of \<open>them\<close> and of a wildcard identifier is true for \<open>all of\<close>.\<close>

datatype catom = AIdent string | AThem bool | AWild bool string | AGroup cdisj
  and clit = CLit bool catom
  and cconj = CLast clit | CAnd clit cconj
  and cdisj = DLast cconj | DOr cconj cdisj

definition st_item :: "bool \<Rightarrow> item" where
  "st_item q = (if q then mk_item TokStAll ''all of'' else mk_item TokStOne ''1 of'')"

primrec atom_toks :: "catom \<Rightarrow> item list"
  and lit_toks :: "clit \<Rightarrow> item list"
  and conj_toks :: "cconj \<Rightarrow> item list"
  and disj_toks :: "cdisj \<Rightarrow> item list" where
  "atom_toks (AIdent s) = [mk_item TokIdentifier s]"
| "atom_toks (AThem q) = [st_item q, mk_item TokIdentifierAll ''them'']"
| "atom_toks (AWild q s) = [st_item q, mk_item TokIdentifierWithWildcard s]"
| "atom_toks (AGroup c) = mk_item TokSepLpar ''('' # disj_toks c @ [mk_item TokSepRpar '')'']"
| "lit_toks (CLit n a) = (if n then [mk_item TokKeywordNot ''not''] else []) @ atom_toks a"
| "conj_toks (CLast l) = lit_toks l"
| "conj_toks (CAnd l c) = lit_toks l @ mk_item TokKeywordAnd ''and'' # conj_toks c"
| "disj_toks (DLast c) = conj_toks c"
| "disj_toks (DOr c d) = conj_toks c @ mk_item TokKeywordOr ''or'' # disj_toks d"

text \<open>The identifiers are words the lexer classifies as identifiers.\<close>

primrec atom_names :: "go_ext \<Rightarrow> catom \<Rightarrow> bool"
  and lit_names :: "go_ext \<Rightarrow> clit \<Rightarrow> bool"
  and conj_names :: "go_ext \<Rightarrow> cconj \<Rightarrow> bool"
  and disj_names :: "go_ext \<Rightarrow> cdisj \<Rightarrow> bool" where
  "atom_names E (AIdent s) = (word s \<and> checkKeyWord E s = TokIdentifier)"
| "atom_names E (AThem q) = True"
| "atom_names E (AWild q s) = (word s \<and> checkKeyWord E s = TokIdentifierWithWildcard)"
| "atom_names E (AGroup c) = disj_names E c"
| "lit_names E (CLit n a) = atom_names E a"
| "conj_names E (CLast l) = lit_names E l"
| "conj_names E (CAnd l c) = (lit_names E l \<and> conj_names E c)"
| "disj_names E (DLast c) = conj_names E c"
| "disj_names E (DOr c d) = (conj_names E c \<and> disj_names E d)"

section \<open>Compilation, structurally\<close>

definition st_token :: "bool \<Rightarrow> token" where
  "st_token q = (if q then TokStAll else TokStOne)"

primrec atom_build :: "go_ext \<Rightarrow> detection \<Rightarrow> bool \<Rightarrow> catom \<Rightarrow> leaf branch result"
  and lit_build :: "go_ext \<Rightarrow> detection \<Rightarrow> bool \<Rightarrow> clit \<Rightarrow> leaf branch result"
  and conj_build :: "go_ext \<Rightarrow> detection \<Rightarrow> bool \<Rightarrow> cconj \<Rightarrow> leaf branch list result"
  and disj_build :: "go_ext \<Rightarrow> detection \<Rightarrow> bool \<Rightarrow> cdisj \<Rightarrow> leaf branch list result" where
  "atom_build E d nc (AIdent s) = ident_branch E d nc (mk_item TokIdentifier s)"
| "atom_build E d nc (AThem q) = them_branch E d nc (st_token q)"
| "atom_build E d nc (AWild q s) =
     wildcard_branch E d nc (st_token q) (mk_item TokIdentifierWithWildcard s)"
| "atom_build E d nc (AGroup c) = bind_result (disj_build E d nc c) (\<lambda>bs. Inr (reduceOr bs))"
| "lit_build E d nc (CLit n a) =
     bind_result (atom_build E d nc a) (\<lambda>b. Inr (newNodeNotIfNegated b n))"
| "conj_build E d nc (CLast l) = bind_result (lit_build E d nc l) (\<lambda>b. Inr [b])"
| "conj_build E d nc (CAnd l c) =
     bind_result (lit_build E d nc l) (\<lambda>b. bind_result (conj_build E d nc c) (\<lambda>bs. Inr (b # bs)))"
| "disj_build E d nc (DLast c) = bind_result (conj_build E d nc c) (\<lambda>bs. Inr [reduceAnd bs])"
| "disj_build E d nc (DOr c e) =
     bind_result (conj_build E d nc c) (\<lambda>bs.
       bind_result (disj_build E d nc e) (\<lambda>os. Inr (reduceAnd bs # os)))"

definition cond_build :: "go_ext \<Rightarrow> detection \<Rightarrow> bool \<Rightarrow> cdisj \<Rightarrow> leaf branch result" where
  "cond_build E d nc c = bind_result (disj_build E d nc c) (\<lambda>os. Inr (reduceOr os))"

section \<open>Groups are extracted whole\<close>

definition neutral :: "item list \<Rightarrow> bool" where
  "neutral ts \<longleftrightarrow> (\<forall>n g rest. group_loop (Suc n) g (ts @ rest) = group_loop (Suc n) (g @ ts) rest)"

lemma neutral_Nil: "neutral []"
  by (simp add: neutral_def)

lemma neutral_append: "neutral xs \<Longrightarrow> neutral ys \<Longrightarrow> neutral (xs @ ys)"
  by (simp add: neutral_def)

lemma neutral_single: "item_T i \<noteq> TokSepLpar \<Longrightarrow> item_T i \<noteq> TokSepRpar \<Longrightarrow> neutral [i]"
  by (simp add: neutral_def)

lemma neutral_group:
  "neutral xs \<Longrightarrow> neutral (mk_item TokSepLpar v # xs @ [mk_item TokSepRpar w])"
  by (simp add: neutral_def)

lemma neutral_Cons: "item_T i \<noteq> TokSepLpar \<Longrightarrow> item_T i \<noteq> TokSepRpar \<Longrightarrow> neutral xs \<Longrightarrow> neutral (i # xs)"
  using neutral_append[OF neutral_single] by fastforce

lemmas neutral_intros = neutral_Nil neutral_append neutral_group neutral_Cons

lemma toks_neutral:
  "neutral (atom_toks a)" "neutral (lit_toks l)" "neutral (conj_toks cc)" "neutral (disj_toks d)"
  by (induction a and l and cc and d) (auto intro!: neutral_intros simp: st_item_def)

lemma extractGroup_neutral:
  "neutral xs \<Longrightarrow> extractGroup (xs @ mk_item TokSepRpar v # rest) = (xs, rest)"
  unfolding neutral_def extractGroup_def
  by (drule spec[of _ 0], drule spec[of _ "[]"]) simp

section \<open>The loop follows the grammar\<close>

primrec atom_after :: "token \<Rightarrow> catom \<Rightarrow> token" where
  "atom_after w (AIdent s) = w"
| "atom_after w (AThem q) = st_token q"
| "atom_after w (AWild q s) = TokBegin"
| "atom_after w (AGroup c) = w"

fun lit_after :: "token \<Rightarrow> clit \<Rightarrow> token" where
  "lit_after w (CLit n a) = atom_after w a"

fun conj_after :: "token \<Rightarrow> cconj \<Rightarrow> token" where
  "conj_after w (CLast l) = lit_after w l"
| "conj_after w (CAnd l c) = conj_after (lit_after w l) c"

lemma bind_assoc: "bind_result (bind_result r f) g = bind_result r (\<lambda>x. bind_result (f x) g)"
  by (cases r) simp_all

lemmas loop_simps = newBranch_loop.simps(2) bind_assoc

lemma loop_follows:
  "newBranch_loop E d nc (atom_toks a @ rest) ands ors neg w =
     bind_result (atom_build E d nc a) (\<lambda>b.
       newBranch_loop E d nc rest (ands @ [newNodeNotIfNegated b neg]) ors False (atom_after w a))"
  "newBranch_loop E d nc (lit_toks l @ rest) ands ors False w =
     bind_result (lit_build E d nc l) (\<lambda>b.
       newBranch_loop E d nc rest (ands @ [b]) ors False (lit_after w l))"
  "newBranch_loop E d nc (conj_toks cc @ rest) ands ors False w =
     bind_result (conj_build E d nc cc) (\<lambda>bs.
       newBranch_loop E d nc rest (ands @ bs) ors False (conj_after w cc))"
  "newBranch_loop E d nc (disj_toks dd) [] ors False w =
     bind_result (disj_build E d nc dd) (\<lambda>os. Inr (reduceOr (ors @ os)))"
proof (induction a and l and cc and dd arbitrary: rest ands ors neg w and rest ands ors w
    and rest ands ors w and ors w)
  case (AIdent s)
  then show ?case by (simp add: loop_simps)
next
  case (AThem q)
  then show ?case by (cases q) (simp_all add: loop_simps st_item_def st_token_def)
next
  case (AWild q s)
  then show ?case by (cases q) (simp_all add: loop_simps st_item_def st_token_def)
next
  case (AGroup c)
  then show ?case by (simp add: loop_simps extractGroup_neutral toks_neutral)
next
  case (CLit n a)
  then show ?case by (simp add: loop_simps)
next
  case (CLast l)
  then show ?case by (simp add: loop_simps)
next
  case (CAnd l c)
  then show ?case by (simp add: loop_simps)
next
  case (DLast c)
  from DLast[of "[]" "[]" ors w] show ?case
    by (simp add: loop_simps newNodeNotIfNegated_def)
next
  case (DOr c e)
  then show ?case by (simp add: loop_simps)
qed

lemma newBranch_grammar: "newBranch E d (disj_toks c) nc = cond_build E d nc c"
  using loop_follows(4)[of E d nc c "[]"] by (simp add: newBranch_def cond_build_def)

section \<open>The first pass accepts the grammar\<close>

definition first_ok :: "item \<Rightarrow> bool" where
  "first_ok i \<longleftrightarrow> item_T i \<in> {TokIdentifier, TokStAll, TokStOne, TokSepLpar, TokKeywordNot}"

definition operand_ok :: "item \<Rightarrow> bool" where
  "operand_ok i \<longleftrightarrow> item_T i \<in> {TokIdentifier, TokStAll, TokStOne, TokSepLpar}"

definition last_ok :: "item \<Rightarrow> bool" where
  "last_ok i \<longleftrightarrow> item_T i \<in> {TokIdentifier, TokIdentifierAll, TokIdentifierWithWildcard, TokSepRpar}"

definition phrase :: "item list \<Rightarrow> bool" where
  "phrase ts \<longleftrightarrow> ts \<noteq> [] \<and> first_ok (hd ts) \<and> last_ok (last ts) \<and> valid_chain ts"

lemma valid_chain_append:
  "xs \<noteq> [] \<Longrightarrow> ys \<noteq> [] \<Longrightarrow>
   valid_chain (xs @ ys) \<longleftrightarrow> valid_chain xs \<and> validTokenSequence (item_T (last xs)) (item_T (hd ys))
     \<and> valid_chain ys"
proof (induction xs rule: valid_chain.induct)
  case (2 v)
  then show ?case by (cases ys) simp_all
qed auto

lemma valid_chain_Cons:
  "xs \<noteq> [] \<Longrightarrow> valid_chain (i # xs) \<longleftrightarrow> validTokenSequence (item_T i) (item_T (hd xs)) \<and> valid_chain xs"
  by (cases xs) simp_all

lemma last_ok_links:
  "last_ok i \<Longrightarrow> t \<in> {TokKeywordAnd, TokKeywordOr, TokSepRpar, TokLitEof} \<Longrightarrow> validTokenSequence (item_T i) t"
  by (auto simp: last_ok_def validTokenSequence_def)

lemma first_ok_links:
  "first_ok i \<Longrightarrow> t \<in> {TokKeywordAnd, TokKeywordOr, TokSepLpar} \<Longrightarrow> validTokenSequence t (item_T i)"
  by (auto simp: first_ok_def validTokenSequence_def)

lemma operand_links: "operand_ok i \<Longrightarrow> validTokenSequence TokKeywordNot (item_T i)"
  by (auto simp: operand_ok_def validTokenSequence_def)

lemma operand_first: "operand_ok i \<Longrightarrow> first_ok i"
  by (auto simp: operand_ok_def first_ok_def)

lemma phrase_join:
  "phrase xs \<Longrightarrow> phrase ys \<Longrightarrow> item_T k \<in> {TokKeywordAnd, TokKeywordOr} \<Longrightarrow> phrase (xs @ k # ys)"
  by (auto simp: phrase_def valid_chain_append valid_chain_Cons last_ok_links first_ok_links)

lemma phrase_group:
  "phrase xs \<Longrightarrow> phrase (mk_item TokSepLpar v # xs @ [mk_item TokSepRpar w])"
  by (auto simp: phrase_def valid_chain_append valid_chain_Cons last_ok_links first_ok_links
      first_ok_def[of "mk_item _ _"] last_ok_def[of "mk_item _ _"])

lemmas phrase_start = phrase_def first_ok_def operand_ok_def last_ok_def

lemma toks_phrase:
  "phrase (atom_toks a) \<and> operand_ok (hd (atom_toks a))" "phrase (lit_toks l)"
  "phrase (conj_toks cc)" "phrase (disj_toks d)"
proof (induction a and l and cc and d)
  case (AGroup c)
  then show ?case by (auto intro!: phrase_group simp: operand_ok_def)
next
  case (CLit n a)
  then show ?case
    by (auto simp: phrase_def valid_chain_Cons operand_links first_ok_def[of "mk_item _ _"])
next
  case (AThem q)
  then show ?case by (cases q) (simp_all add: phrase_start st_item_def validTokenSequence_def)
next
  case (AWild q s)
  then show ?case by (cases q) (simp_all add: phrase_start st_item_def validTokenSequence_def)
next
  case (AIdent s)
  then show ?case by (simp add: phrase_start)
qed (simp_all add: phrase_join)

lemma collect_loop_valid:
  "item_T prev \<in> {TokBegin} \<or> validTokenSequence (item_T prev) (item_T (hd (its @ [eof_item]))) \<Longrightarrow>
   valid_chain (its @ [eof_item]) \<Longrightarrow> \<forall>i \<in> set its. item_T i \<notin> {TokUnsupp, TokLitEof, TokBegin} \<Longrightarrow>
   collect_loop c (its @ [eof_item]) ts prev = Inr (ts @ its)"
proof (induction its arbitrary: ts prev)
  case Nil
  then show ?case by (auto simp: eof_item_def)
next
  case (Cons i its)
  have "valid_chain (its @ [eof_item])"
    "validTokenSequence (item_T i) (item_T (hd (its @ [eof_item])))"
    using Cons.prems(2) valid_chain_Cons[of "its @ [eof_item]" i] by simp_all
  from Cons.IH[OF disjI2[OF this(2)] this(1)] Cons.prems(1,3) show ?case by auto
qed

lemma toks_kinds:
  "\<forall>i \<in> set (atom_toks a). item_T i \<notin> {TokUnsupp, TokLitEof, TokBegin}"
  "\<forall>i \<in> set (lit_toks l). item_T i \<notin> {TokUnsupp, TokLitEof, TokBegin}"
  "\<forall>i \<in> set (conj_toks cc). item_T i \<notin> {TokUnsupp, TokLitEof, TokBegin}"
  "\<forall>i \<in> set (disj_toks d). item_T i \<notin> {TokUnsupp, TokLitEof, TokBegin}"
  by (induction a and l and cc and d) (auto simp: st_item_def)

lemma collect_grammar: "collect s (disj_toks c @ [eof_item]) = Inr (disj_toks c)"
  using collect_loop_valid[of "mk_item TokBegin []" "disj_toks c" s "[]"] toks_kinds(4)[of c]
    toks_phrase(4)[of c]
  by (simp add: collect_def phrase_def valid_chain_append last_ok_links eof_item_def)

section \<open>From text to tree\<close>

lemma toks_wf:
  "atom_names E a \<Longrightarrow> \<forall>i \<in> set (atom_toks a). wf_item E i"
  "lit_names E l \<Longrightarrow> \<forall>i \<in> set (lit_toks l). wf_item E i"
  "conj_names E cc \<Longrightarrow> \<forall>i \<in> set (conj_toks cc). wf_item E i"
  "disj_names E d \<Longrightarrow> \<forall>i \<in> set (disj_toks d). wf_item E i"
proof -
  have kw: "wf_item E (mk_item TokKeywordAnd ''and'')" "wf_item E (mk_item TokKeywordOr ''or'')"
    "wf_item E (mk_item TokKeywordNot ''not'')" "wf_item E (mk_item TokIdentifierAll ''them'')"
    by (simp_all add: wf_item_def word_def plain_def is_space_def checkKeyWord_def to_lower_def
        is_ascii_def ascii_lower_def Let_def)
  have sep: "wf_item E (mk_item TokSepLpar ''('')" "wf_item E (mk_item TokSepRpar '')'')"
    "wf_item E (st_item q)" for q
    by (simp_all add: wf_item_def st_item_def)
  show "atom_names E a \<Longrightarrow> \<forall>i \<in> set (atom_toks a). wf_item E i"
    "lit_names E l \<Longrightarrow> \<forall>i \<in> set (lit_toks l). wf_item E i"
    "conj_names E cc \<Longrightarrow> \<forall>i \<in> set (conj_toks cc). wf_item E i"
    "disj_names E d \<Longrightarrow> \<forall>i \<in> set (disj_toks d). wf_item E i"
  proof (induction a and l and cc and d)
    case (AIdent s)
    then show ?case by (simp add: wf_item_def)
  next
    case (AWild q s)
    then show ?case using sep by (simp add: wf_item_def[of _ "mk_item _ s"])
  qed (use kw sep in auto)
qed

lemma parser_run_grammar:
  assumes "disj_names E c"
  shows "parser_run E \<lparr>p_condition = render (disj_toks c), p_sigma = d, p_noCollapseWS = nc\<rparr>
    = cond_build E d nc c"
proof -
  have "lex E (render (disj_toks c)) = Some (disj_toks c @ [eof_item])"
    using toks_wf(4)[OF assms] toks_phrase(4)[of c] by (intro lex_render) (auto simp: phrase_def)
  then show ?thesis by (simp add: parser_run_def collect_grammar newBranch_grammar)
qed

section \<open>The verdict of a condition\<close>

record cond_env =
  env_ident :: "string \<Rightarrow> verdict"
  env_them :: "bool \<Rightarrow> verdict"
  env_wild :: "bool \<Rightarrow> string \<Rightarrow> verdict"

primrec atom_verdict :: "cond_env \<Rightarrow> catom \<Rightarrow> verdict"
  and lit_verdict :: "cond_env \<Rightarrow> clit \<Rightarrow> verdict"
  and conj_verdicts :: "cond_env \<Rightarrow> cconj \<Rightarrow> verdict list"
  and disj_verdicts :: "cond_env \<Rightarrow> cdisj \<Rightarrow> verdict list" where
  "atom_verdict v (AIdent s) = env_ident v s"
| "atom_verdict v (AThem q) = env_them v q"
| "atom_verdict v (AWild q s) = env_wild v q s"
| "atom_verdict v (AGroup c) = vany (disj_verdicts v c)"
| "lit_verdict v (CLit n a) = (if n then vnot (atom_verdict v a) else atom_verdict v a)"
| "conj_verdicts v (CLast l) = [lit_verdict v l]"
| "conj_verdicts v (CAnd l c) = lit_verdict v l # conj_verdicts v c"
| "disj_verdicts v (DLast c) = [vall (conj_verdicts v c)]"
| "disj_verdicts v (DOr c d) = vall (conj_verdicts v c) # disj_verdicts v d"

definition cond_verdict :: "cond_env \<Rightarrow> cdisj \<Rightarrow> verdict" where
  "cond_verdict v c = vany (disj_verdicts v c)"

text \<open>The operands' verdicts on an event: those of the branches the compiler makes for them.\<close>

definition result_verdict :: "go_ext \<Rightarrow> event \<Rightarrow> leaf branch result \<Rightarrow> verdict" where
  "result_verdict E e r =
     (case r of Inr b \<Rightarrow> verdict_of (branch_match (leaf_match E) b e) | Inl _ \<Rightarrow> NotApplicable)"

definition event_env :: "go_ext \<Rightarrow> detection \<Rightarrow> bool \<Rightarrow> event \<Rightarrow> cond_env" where
  "event_env E d nc e =
     \<lparr>env_ident = (\<lambda>s. result_verdict E e (ident_branch E d nc (mk_item TokIdentifier s))),
      env_them = (\<lambda>q. result_verdict E e (them_branch E d nc (st_token q))),
      env_wild = (\<lambda>q s. result_verdict E e
        (wildcard_branch E d nc (st_token q) (mk_item TokIdentifierWithWildcard s)))\<rparr>"

lemma result_verdict_Inr:
  "result_verdict E e (Inr b) = branch_verdict (sigma_leaf.leaf_verdict E e) b"
  using sigma_leaf.match_refines[of E b e] by (simp add: result_verdict_def)

lemma event_env_simps [simp]:
  "env_ident (event_env E d nc e) s = result_verdict E e (ident_branch E d nc (mk_item TokIdentifier s))"
  "env_them (event_env E d nc e) q = result_verdict E e (them_branch E d nc (st_token q))"
  "env_wild (event_env E d nc e) q s = result_verdict E e
     (wildcard_branch E d nc (st_token q) (mk_item TokIdentifierWithWildcard s))"
  by (simp_all add: event_env_def)

lemma build_verdict:
  "atom_build E d nc a = Inr b \<Longrightarrow>
     branch_verdict (sigma_leaf.leaf_verdict E e) b = atom_verdict (event_env E d nc e) a"
  "lit_build E d nc l = Inr b \<Longrightarrow>
     branch_verdict (sigma_leaf.leaf_verdict E e) b = lit_verdict (event_env E d nc e) l"
  "conj_build E d nc cc = Inr bs \<Longrightarrow>
     map (branch_verdict (sigma_leaf.leaf_verdict E e)) bs = conj_verdicts (event_env E d nc e) cc"
  "disj_build E d nc dd = Inr bs \<Longrightarrow>
     map (branch_verdict (sigma_leaf.leaf_verdict E e)) bs = disj_verdicts (event_env E d nc e) dd"
  by (induction a and l and cc and dd arbitrary: b and b and bs and bs)
    (auto simp: bind_result_Inr result_verdict_Inr)

end
