(* ===== verification/Sigma_Theorems.thy ===== *)
theory Sigma_Theorems
  imports Sigma_Grammar Sigma_Rule
begin

text \<open>
  The properties of the rule compiler and of rule evaluation, each with a witness at a concrete
  input where it has hypotheses.
\<close>

section \<open>Concrete inputs\<close>

definition demo_detection :: detection where
  "demo_detection =
     [(''sel'', VMap [(''user'', VString ''bob'')]), (''flt'', VMap [(''host'', VString ''dc'')]),
      (''condition'', VString ''sel and not flt'')]"

definition demo_condition :: cdisj where
  "demo_condition = DLast (CAnd (CLit False (AIdent ''sel'')) (CLast (CLit True (AIdent ''flt''))))"

definition demo_rule :: rule where
  "demo_rule = \<lparr>r_Author = [], r_Description = [], r_Falsepositives = [], r_Fields = [''user''],
     r_UniqueFields = [], r_ID = ''7'', r_Level = ''medium'', r_RdxKey = [], r_Title = ''t'',
     r_Status = [], r_References = [],
     r_Logsource = \<lparr>ls_Product = [], ls_Category = VNil, ls_Service = VNil, ls_Definition = []\<rparr>,
     r_Detection = Some demo_detection, r_Tags = [''TA0006'']\<rparr>"

definition demo_handle :: ruleHandle where
  "demo_handle = \<lparr>rh_Rule = demo_rule, rh_Path = ''r.yml'', rh_Multipart = False, rh_NoCollapseWS = False\<rparr>"

definition demo_event :: event where
  "demo_event = \<lparr>ev_keywords = None,
     ev_select = map_of [(''user'', VString ''bob''), (''host'', VString ''ws1'')]\<rparr>"

lemma demo_render: "render (disj_toks demo_condition) = ''sel and not flt''"
  by (simp add: demo_condition_def render_def)

lemma word_simps: "word [] = False" "word (c # s) = (plain c \<and> list_all plain s)"
  by (simp_all add: word_def)

lemmas lexical = word_simps plain_def is_space_def checkKeyWord_def to_lower_def ascii_lower_def Let_def

lemma demo_names: "disj_names E demo_condition"
  by (simp add: demo_condition_def lexical)

lemmas demo_defs = demo_detection_def demo_condition_def demo_rule_def demo_handle_def demo_event_def
lemmas build_defs = cond_build_def ident_branch_def newRuleFromIdent_def checkIdentType_def Let_def
  newSelectionFromMap_def compile_entry_def parse_key_def string_item_def NewStringMatcher_def
  pattern_matcher_def handleWhitespace_def is_ws_def as_branch_def has_suffix_def
  newNodeNotIfNegated_def reduceAnd_def reduceOr_def

definition demo_leaf :: "string \<Rightarrow> string \<Rightarrow> leaf branch" where
  "demo_leaf k v = Leaf (Selection \<lparr>sel_N = [],
     sel_S = [\<lparr>str_Key = k, str_Pattern = ContentPattern v False False\<rparr>]\<rparr>)"

lemma demo_build: "cond_build E demo_detection False demo_condition
    = Inr (NodeAnd (demo_leaf ''user'' ''bob'') (NodeNot (demo_leaf ''host'' ''dc'')))"
  by (simp add: demo_condition_def demo_detection_def build_defs demo_leaf_def)

section \<open>The lexer\<close>

text \<open>C24: the lexer finishes on every condition text, and the last item it sends is the end of the
  input or an unsupported-feature item.\<close>

theorem lexer_terminates: "\<exists>items. lex E s = Some items \<and> ends_well items"
  by (rule lex_total)

text \<open>C23: lexing is the inverse of printing: a well-formed token sequence that obeys the sequence
  table, printed with single spaces, is read back token by token.\<close>

theorem lexer_reads_back:
  assumes "its \<noteq> []" "valid_chain its" "\<forall>it \<in> set its. wf_item E it"
  shows "lex E (render its) = Some (its @ [eof_item])"
  using assms by (rule lex_render)

theorem lexer_reads_back_witness:
  "lex sample_ext ''sel and not flt'' =
     Some [mk_item TokIdentifier ''sel'', mk_item TokKeywordAnd ''and'', mk_item TokKeywordNot ''not'',
       mk_item TokIdentifier ''flt'', eof_item]"
  using lexer_reads_back[of "disj_toks demo_condition" sample_ext] toks_wf(4)[OF demo_names]
    toks_phrase(4)[of demo_condition]
  by (simp add: phrase_def demo_condition_def render_def)

section \<open>The compiler\<close>

text \<open>C18: compiling a rule whose condition is printed from the grammar succeeds or fails exactly as
  compiling its operands from left to right does, and gives the tree of the syntax tree.\<close>

theorem compiler_follows_grammar:
  assumes "disj_names E c" "r_Detection (rh_Rule r) = Some d"
    and "map_get d ''condition'' = Some (VString (render (disj_toks c)))"
  shows "NewTree E r = bind_result (cond_build E d (rh_NoCollapseWS r) c) (\<lambda>b.
    Inr \<lparr>tree_Root = b, tree_Rule = Some r\<rparr>)"
  using assms by (simp add: NewTree_def parser_run_grammar)

theorem compiler_follows_grammar_witness:
  "NewTree sample_ext demo_handle =
     Inr \<lparr>tree_Root = NodeAnd (demo_leaf ''user'' ''bob'') (NodeNot (demo_leaf ''host'' ''dc'')),
       tree_Rule = Some demo_handle\<rparr>"
proof -
  have "map_get demo_detection ''condition'' = Some (VString (render (disj_toks demo_condition)))"
    by (simp add: demo_render demo_detection_def)
  from compiler_follows_grammar[OF demo_names[of sample_ext] _ this, of demo_handle] show ?thesis
    by (simp add: demo_handle_def demo_rule_def demo_build)
qed



lemma scan_numeral: "scan (numeral k) E f l =
     (case lex_step E f l of
        (is, l', None) \<Rightarrow> Some is
      | (is, l', Some f') \<Rightarrow> map_option (\<lambda>js. is @ js) (scan (pred_numeral k) E f' l'))"
  by (simp add: numeral_eq_Suc)

lemmas lexer_run = lex_def lex_fuel_def scan_numeral new_lexer_def lexCondition.simps
  lexRparLoop.simps lexWhitespace.simps todo_def next_rune_def eof_def token_rune_def is_space_def
  backup_def ignore_def emit_def collected_def checkKeyWord_def to_lower_def is_ascii_def ascii_lower_def

lemma lex_not_paren: "lex E ''not(sel)'' = Some [mk_item TokSepLpar ''not('', mk_item TokIdentifier ''sel'',
    mk_item TokSepRpar '')'', mk_item TokLitEof []]"
  by (simp add: lexer_run)

lemma lex_sel: "lex E ''sel'' = Some [mk_item TokIdentifier ''sel'', mk_item TokLitEof []]"
  by (simp add: lexer_run)

lemma lex_or_sel: "lex E ''or sel'' = Some [mk_item TokKeywordOr ''or'', mk_item TokIdentifier ''sel'',
    mk_item TokLitEof []]"
  by (simp add: lexer_run)

lemma lex_one_of: "lex E ''1 of s*'' = Some [mk_item TokStOne ''1 of'',
    mk_item TokIdentifierWithWildcard ''s*'', mk_item TokLitEof []]"
  by (simp add: lexer_run)

lemmas parse_defs = parser_run_def collect_def validTokenSequence_def newBranch_def
  newBranch_loop.simps(2) extractGroup_def newNodeNotIfNegated_def reduceAnd_def reduceOr_def

text \<open>A \<open>not\<close> that is written without a space before its parenthesis is lost: the lexer sends
  the whole segment as an opening parenthesis, so \<open>not(sel)\<close> compiles to the same tree as \<open>sel\<close>.\<close>

theorem negation_without_space_is_lost:
  "parser_run E \<lparr>p_condition = ''not(sel)'', p_sigma = d, p_noCollapseWS = nc\<rparr>
     = parser_run E \<lparr>p_condition = ''sel'', p_sigma = d, p_noCollapseWS = nc\<rparr>"
  by (simp add: parse_defs lex_not_paren lex_sel ident_branch_def bind_assoc)

text \<open>The first token of a condition is never checked, so a condition that starts with \<open>or\<close> is
  accepted and its empty first operand matches every event.\<close>

theorem leading_or_matches_everything:
  assumes "ident_branch E d nc (mk_item TokIdentifier ''sel'') = Inr b"
  shows "\<exists>t. parser_run E \<lparr>p_condition = ''or sel'', p_sigma = d, p_noCollapseWS = nc\<rparr> = Inr t
    \<and> branch_match (leaf_match E) t e = (True, True)"
  using assms by (simp add: parse_defs lex_or_sel nodeOr_match_def)

theorem leading_or_matches_everything_witness:
  "\<exists>t. parser_run sample_ext \<lparr>p_condition = ''or sel'', p_sigma = demo_detection, p_noCollapseWS = False\<rparr> = Inr t
    \<and> branch_match (leaf_match sample_ext) t (demo_event\<lparr>ev_select := \<lambda>_. None\<rparr>) = (True, True)"
proof (rule leading_or_matches_everything)
  show "ident_branch sample_ext demo_detection False (mk_item TokIdentifier ''sel'')
      = Inr (demo_leaf ''user'' ''bob'')"
    by (simp add: demo_detection_def build_defs demo_leaf_def)
qed

text \<open>A detection entry without a value makes the compiler panic when a wildcard identifier
  selects it: \<open>NewSelectionBranch\<close> calls a method of the nil type.\<close>

theorem empty_entry_panics:
  assumes "x_glob_compiles E ''s*''" "x_glob_match E ''s*'' ''sel''"
  shows "is_panic (parser_run E \<lparr>p_condition = ''1 of s*'', p_sigma = [(''sel'', VNil)], p_noCollapseWS = nc\<rparr>)"
proof -
  have "escape_fwd 0 ''s*'' = ''s*''" by (simp add: even_up_def isWild_def isBracket_def)
  then show ?thesis using assms
    by (simp add: parse_defs lex_one_of wildcard_branch_def wildcard_rules_def item_Glob_def
        extractAndBuildBranches_def extractWildcardIdents_def newRuleFromIdent_def is_panic_def)
qed

theorem empty_entry_panics_witness:
  "is_panic (parser_run sample_ext \<lparr>p_condition = ''1 of s*'', p_sigma = [(''sel'', VNil)], p_noCollapseWS = False\<rparr>)"
  by (rule empty_entry_panics)
    (simp_all add: sample_ext_def glob_read_Cons glob_tok_def isWild_def isBracket_def wild_tok_def)

section \<open>Nodes\<close>

text \<open>C17: on every tree and event the result of \<open>Match\<close> refines the three-valued verdict of the
  tree, and a match is always applicable.\<close>

theorem match_implements_verdict:
  "verdict_of (branch_match (leaf_match E) b e) = branch_verdict (\<lambda>l. verdict_of (leaf_match E l e)) b
   \<and> (fst (branch_match (leaf_match E) b e) \<longrightarrow> snd (branch_match (leaf_match E) b e))"
  using sigma_leaf.match_refines[of E b e]
  by (simp add: sound_result_def sigma_leaf.leaf_verdict_def[abs_def])

theorem match_implements_verdict_witness:
  "verdict_of (branch_match (leaf_match sample_ext) (NodeNot (demo_leaf ''host'' ''dc'')) demo_event) = Hit"
  using match_implements_verdict[of sample_ext "NodeNot (demo_leaf ''host'' ''dc'')" demo_event]
  by (simp add: demo_leaf_def demo_event_def selection_match_def lowerCaseIfNeeded_def handleWhitespace_def
      is_ws_def)

text \<open>\<open>Reduce\<close> and the binary builders do not change what a list of branches matches.\<close>

theorem reduce_preserves_match:
  "branch_match (leaf_match E) (reduceAnd n) e = branch_match (leaf_match E) (NodeSimpleAnd n) e \<and>
   branch_match (leaf_match E) (reduceOr n) e = branch_match (leaf_match E) (NodeSimpleOr n) e \<and>
   (n = [] \<or> (\<exists>b c. newConjunction n = Some b \<and> newDisjunction n = Some c \<and>
     branch_match (leaf_match E) b e = branch_match (leaf_match E) (NodeSimpleAnd n) e \<and>
     branch_match (leaf_match E) c e = branch_match (leaf_match E) (NodeSimpleOr n) e))"
proof (intro conjI)
  let ?v = "sigma_leaf.leaf_verdict E e"
  show "branch_match (leaf_match E) (reduceAnd n) e = branch_match (leaf_match E) (NodeSimpleAnd n) e"
    "branch_match (leaf_match E) (reduceOr n) e = branch_match (leaf_match E) (NodeSimpleOr n) e"
    by (rule sigma_leaf.match_eqI; simp)+
  show "n = [] \<or> (\<exists>b c. newConjunction n = Some b \<and> newDisjunction n = Some c \<and>
     branch_match (leaf_match E) b e = branch_match (leaf_match E) (NodeSimpleAnd n) e \<and>
     branch_match (leaf_match E) c e = branch_match (leaf_match E) (NodeSimpleOr n) e)"
  proof (cases "n = []")
    case False
    obtain b c where b: "newConjunction n = Some b" "branch_verdict ?v b = branch_verdict ?v (NodeSimpleAnd n)"
      and c: "newDisjunction n = Some c" "branch_verdict ?v c = branch_verdict ?v (NodeSimpleOr n)"
      using newConjunction_verdict[OF False, of ?v] newDisjunction_verdict[OF False, of ?v] by auto
    show ?thesis using b(1) c(1) sigma_leaf.match_eqI[OF b(2)] sigma_leaf.match_eqI[OF c(2)] by blast
  qed simp
qed

text \<open>Without negation the match flag is the Boolean formula of the tree, so the order in which
  a Go map yields its entries plays no part.\<close>

theorem negation_free_formula:
  assumes "negation_free b"
  shows "fst (branch_match (leaf_match E) b e) \<longleftrightarrow> branch_formula (\<lambda>l. fst (leaf_match E l e)) b"
  using sigma_leaf.match_refines[of E b e] verdict_formula[OF assms, of "sigma_leaf.leaf_verdict E e"]
    verdict_of_eq(1)[of "branch_match (leaf_match E) b e"]
  by (simp add: sigma_leaf.leaf_verdict_def)

theorem negation_free_formula_witness:
  "fst (branch_match (leaf_match sample_ext)
     (NodeSimpleAnd [demo_leaf ''user'' ''bob'', demo_leaf ''host'' ''ws1'', NodeSimpleAnd []]) demo_event)"
  using negation_free_formula[of "NodeSimpleAnd [demo_leaf ''user'' ''bob'', demo_leaf ''host'' ''ws1'', NodeSimpleAnd []]"
      sample_ext demo_event]
  by (simp add: demo_leaf_def demo_event_def selection_match_def lowerCaseIfNeeded_def handleWhitespace_def
      is_ws_def)

text \<open>Under a negation the order does matter: the same two-entry selection, with its entries
  visited in the two possible orders, is a miss in one order and a hit in the other.\<close>

theorem negated_selection_depends_on_order:
  "\<exists>sel sel' e.
     NewSelectionBranch E nc (VMap [(''a'', VInt 1), (''b'', VInt 2)]) = Inr sel \<and>
     NewSelectionBranch E nc (VMap [(''b'', VInt 2), (''a'', VInt 1)]) = Inr sel' \<and>
     branch_match (leaf_match E) (NodeNot sel) e = (False, False) \<and>
     branch_match (leaf_match E) (NodeNot sel') e = (True, True)"
  by (rule exI[of _ "Leaf (Selection \<lparr>sel_N = [\<lparr>num_Key = ''a'', num_Pattern = NumPattern 1\<rparr>,
        \<lparr>num_Key = ''a'', num_Pattern = NumPattern 1\<rparr>, \<lparr>num_Key = ''b'', num_Pattern = NumPattern 2\<rparr>],
        sel_S = []\<rparr>)"],
      rule exI[of _ "Leaf (Selection \<lparr>sel_N = [\<lparr>num_Key = ''b'', num_Pattern = NumPattern 2\<rparr>,
        \<lparr>num_Key = ''b'', num_Pattern = NumPattern 2\<rparr>, \<lparr>num_Key = ''a'', num_Pattern = NumPattern 1\<rparr>],
        sel_S = []\<rparr>)"],
      rule exI[of _ "\<lparr>ev_keywords = None, ev_select = [''b'' \<mapsto> VInt 3]\<rparr>"])
    (simp add: newSelectionFromMap_def compile_entry_def parse_key_def num_item_def NewNumMatcher_def
      as_branch_def Let_def selection_match_def nodeNot_match_def)

section \<open>Patterns\<close>

text \<open>C20: the translation of a Sigma value to a glob never writes outside its buffer of twice the
  length, and the glob library reads the result as the Sigma escaping rules read the value.\<close>

theorem escape_refines_sigma_rules:
  "\<exists>q. escapeSigmaForGlob s = Some q \<and> glob_read q = sigma_read 0 s \<and> length q \<le> 2 * length s"
proof -
  have len: "length (escape_fwd k s) \<le> k + k mod 2 + 2 * length s" for k
  proof (induction k s rule: escape_fwd.induct)
    case (2 k c s)
    then show ?case by (cases "c = bslash") (auto simp: even_up_def)
  qed (simp add: even_up_def)
  show ?thesis using glob_read_escape[of 0 s "[]"] len[of 0] by (simp add: escape_total)
qed

text \<open>With the glob library as documented, the \<open>contains\<close> modifier matches exactly the values
  that have a part matching the pattern, after white space was collapsed in both.\<close>

theorem contains_modifier_semantics:
  assumes "glob_documented E" "is_ascii p" "is_ascii msg"
  shows "\<exists>m. NewStringMatcher E TextPatternContains lower all nc [p] = Inr m \<and>
    (StringMatch E m msg \<longleftrightarrow> (\<exists>a b c. handleWhitespace msg nc = a @ b @ c \<and>
       gmatch (sigma_read 0 (handleWhitespace p nc)) b))"
  using contains_glob_matches[OF assms, of nc]
  by (simp add: NewStringMatcher_def pattern_matcher_def bind_assoc) (metis bind_result_simps(2))

theorem contains_modifier_semantics_witness:
  "\<exists>m. NewStringMatcher sample_ext TextPatternContains False False False [''mimi*katz''] = Inr m \<and>
     StringMatch sample_ext m ''run mimi-katz now''"
proof -
  have "gmatch (sigma_read 0 ''mimi*katz'') ''mimi-katz''"
    by (simp add: isWild_def wild_tok_def)
  moreover have "handleWhitespace ''run mimi-katz now'' False = ''run '' @ ''mimi-katz'' @ '' now''"
    "handleWhitespace ''mimi*katz'' False = ''mimi*katz''"
    by (simp_all add: handleWhitespace_def is_ws_def)
  moreover have ascii: "is_ascii ''mimi*katz''" "is_ascii ''run mimi-katz now''" by simp_all
  ultimately show ?thesis
    using contains_modifier_semantics[OF sample_documented, of "''mimi*katz''" "''run mimi-katz now''" False False False]
    by metis
qed

text \<open>A list of patterns matches when one of them does, with the \<open>all\<close> modifier when every one
  does; reordering by cost changes nothing.\<close>

theorem pattern_list_semantics:
  assumes "NewStringMatcher E m lower all nc ps = Inr x"
  shows "StringMatch E x msg \<longleftrightarrow>
    (if all then (\<forall>p \<in> set ps. one_matches E m lower nc msg p)
     else (\<exists>p \<in> set ps. one_matches E m lower nc msg p))"
  using NewStringMatcher_semantics[OF assms] by (auto simp: list_all_iff list_ex_iff)

theorem pattern_list_semantics_witness:
  "\<exists>x. NewStringMatcher sample_ext TextPatternPrefix False True False [''a'', ''ab''] = Inr x \<and>
     StringMatch sample_ext x ''abc''"
proof -
  let ?x = "StringMatchersConj [PrefixPattern ''a'' False False, PrefixPattern ''ab'' False False]"
  have "NewStringMatcher sample_ext TextPatternPrefix False True False [''a'', ''ab''] = Inr ?x"
    by (simp add: NewStringMatcher_def pattern_matcher_def handleWhitespace_def is_ws_def
        optimizeStringMatchers_def)
  moreover from pattern_list_semantics[OF this, of "''abc''"] have "StringMatch sample_ext ?x ''abc''"
    by (simp add: one_matches_def pattern_matcher_def handleWhitespace_def is_ws_def lowerCaseIfNeeded_def)
  ultimately show ?thesis by blast
qed

text \<open>A selection matches an event exactly when every entry of its map does, in whatever order
  the map is visited and although the first numeric entry is stored twice.\<close>

theorem selection_is_conjunction:
  assumes "newSelectionFromMap E expr nc = Inr l"
  shows "fst (leaf_match E l e) \<longleftrightarrow> (\<forall>kp \<in> set expr. entry_matches E nc e kp)"
proof -
  obtain sel where sel: "selection_loop E nc expr \<lparr>sel_N = [], sel_S = []\<rparr> = Inr sel" "l = Selection sel"
    using assms by (auto simp: newSelectionFromMap_def bind_result_Inr)
  show ?thesis using selection_loop_match[OF sel(1), of e] sel(2)
    by (simp add: selection_match_fst list_all_iff)
qed

theorem selection_is_conjunction_witness:
  "\<exists>l. newSelectionFromMap sample_ext [(''id'', VInt 4624), (''user'', VString ''bob'')] False = Inr l \<and>
     \<not> fst (leaf_match sample_ext l demo_event)"
proof -
  let ?l = "Selection \<lparr>sel_N = [\<lparr>num_Key = ''id'', num_Pattern = NumPattern 4624\<rparr>,
      \<lparr>num_Key = ''id'', num_Pattern = NumPattern 4624\<rparr>],
    sel_S = [\<lparr>str_Key = ''user'', str_Pattern = ContentPattern ''bob'' False False\<rparr>]\<rparr>"
  have l: "newSelectionFromMap sample_ext [(''id'', VInt 4624), (''user'', VString ''bob'')] False = Inr ?l"
    by (simp add: build_defs num_item_def NewNumMatcher_def)
  have "\<not> entry_matches sample_ext False demo_event (''id'', VInt 4624)"
    by (simp add: entry_matches_def build_defs num_item_def NewNumMatcher_def demo_event_def)
  then show ?thesis using selection_is_conjunction[OF l, of demo_event] l by auto
qed

text \<open>Every white-space flag in the matcher is the given one.\<close>

fun same_ws :: "bool \<Rightarrow> string_matcher \<Rightarrow> bool" where
  "same_ws b (ContentPattern _ _ nc) = (nc = b)"
| "same_ws b (PrefixPattern _ _ nc) = (nc = b)"
| "same_ws b (SuffixPattern _ _ nc) = (nc = b)"
| "same_ws b (RegexPattern _) = False"
| "same_ws b (GlobPattern _ nc) = (nc = b)"
| "same_ws b (SimplePattern _ nc) = (nc = b)"
| "same_ws b (StringMatchers ms) = list_all (same_ws b) ms"
| "same_ws b (StringMatchersConj ms) = list_all (same_ws b) ms"

lemma same_ws_match:
  "same_ws nc m \<Longrightarrow> handleWhitespace s nc = handleWhitespace s' nc \<Longrightarrow> StringMatch E m s = StringMatch E m s'"
  by (induction m) (auto simp: list_all_iff list_ex_iff)

lemma pattern_matcher_ws:
  "pattern_matcher E m lower nc p = Inr x \<Longrightarrow> m \<noteq> TextPatternRegex \<Longrightarrow>
   \<not> (has_prefix p ''/'' \<and> has_suffix p ''/'') \<Longrightarrow> same_ws nc x"
  by (auto simp: pattern_matcher_def compile_glob_def contains_glob_def
      split: textPatternModifier.splits if_splits)

text \<open>Padding a value with white space does not evade a rule: with collapsing on, two values
  that differ only in the length and kind of their white-space runs match the same non-regex
  patterns.\<close>

theorem padding_does_not_evade:
  assumes "NewStringMatcher E m lower all nc ps = Inr x" "m \<noteq> TextPatternRegex"
    and "\<forall>p \<in> set ps. \<not> (has_prefix p ''/'' \<and> has_suffix p ''/'')"
    and "handleWhitespace msg nc = handleWhitespace msg' nc"
  shows "StringMatch E x msg = StringMatch E x msg'"
proof -
  have "one_matches E m lower nc msg p = one_matches E m lower nc msg' p" if "p \<in> set ps" for p
    using that assms(2,3) same_ws_match[OF pattern_matcher_ws assms(4)]
    by (auto simp: one_matches_def split: sum.splits)
  then show ?thesis using NewStringMatcher_semantics[OF assms(1)]
    by (simp add: list_all_iff list_ex_iff)
qed

theorem padding_does_not_evade_witness:
  "\<exists>x. NewStringMatcher sample_ext TextPatternPrefix False False False [''net user''] = Inr x \<and>
     StringMatch sample_ext x ''net  user'' = StringMatch sample_ext x ''net user''"
proof -
  let ?x = "PrefixPattern ''net user'' False False"
  have x: "NewStringMatcher sample_ext TextPatternPrefix False False False [''net user''] = Inr ?x"
    by (simp add: NewStringMatcher_def pattern_matcher_def handleWhitespace_def is_ws_def)
  have "handleWhitespace ''net  user'' False = handleWhitespace ''net user'' False"
    by (simp add: handleWhitespace_def is_ws_def)
  from padding_does_not_evade[OF x _ _ this] x show ?thesis by auto
qed

section \<open>Rule sets\<close>

definition demo_fs :: fs where
  "demo_fs = \<lparr>fs_stat = (\<lambda>_. StatDir), fs_walk = (\<lambda>d. ([(''r.yml'', False)], None)),
     fs_read = (\<lambda>_. Some ''title: t''), fs_yaml = (\<lambda>_. Inr demo_rule)\<rparr>"

definition demo_config :: config where
  "demo_config = \<lparr>cfg_Directory = [''rules''], cfg_FailOnRuleParse = False, cfg_FailOnYamlParse = False,
     cfg_NoCollapseWS = False, cfg_ExtractFields = []\<rparr>"

definition demo_tree :: tree where
  "demo_tree = \<lparr>tree_Root = NodeAnd (demo_leaf ''user'' ''bob'') (NodeNot (demo_leaf ''host'' ''dc'')),
     tree_Rule = Some demo_handle\<rparr>"

definition demo_ruleset :: ruleset where
  "demo_ruleset = \<lparr>rs_Rules = [demo_tree], rs_root = [], rs_FieldsMap = [(''7'', [''user''])], rs_Total = 1,
     rs_Ok = 1, rs_Failed = 0, rs_Unsupported = 0\<rparr>"

lemma demo_NewTree: "NewTree E demo_handle = Inr demo_tree"
  using parser_run_grammar[OF demo_names, of E demo_detection False]
  by (simp add: NewTree_def demo_handle_def demo_rule_def demo_detection_def demo_render demo_tree_def)
    (simp add: demo_build[unfolded demo_detection_def] demo_handle_def[symmetric])

lemma demo_RulesetFromRuleList: "RulesetFromRuleList E [demo_handle] = Inr demo_ruleset"
  by (simp add: RulesetFromRuleList_def demo_NewTree empty_ruleset_def demo_ruleset_def)
    (simp add: demo_handle_def demo_rule_def)

lemma demo_rule_list:
  "NewRuleList E demo_fs [''r.yml''] True False [''TA0006''] [] = Inr ([demo_handle], None)"
proof -
  have "convertLevel demo_rule = Inr demo_rule" "normalizeDetection E demo_rule = demo_rule"
    by (simp_all add: demo_rule_def convertLevel_def validLevels_def parse_int_def parse_digits_def
        is_digit_def normalizeDetection_def demo_detection_def)
  moreover have "\<not> IsMultipart ''title: t''"
    by (simp add: IsMultipart_def split_def separator_line_def)
  moreover have "r_Tags demo_rule = [''TA0006'']" by (simp add: demo_rule_def)
  ultimately show ?thesis
    by (simp add: NewRuleList_def demo_fs_def RuleFromYAML_def HasTags_subset margeFields_def
        demo_handle_def)
qed

lemma demo_NewRuleset:
  "NewRuleset E demo_fs demo_config [''TA0006''] = Inr (demo_ruleset\<lparr>rs_root := [''rules'']\<rparr>)"
proof -
  have "NewRuleFileList demo_fs [''rules''] = Inr [''r.yml'']"
    by (simp add: NewRuleFileList_def demo_fs_def has_suffix_def)
  moreover have "validate_dirs demo_fs [''rules''] = Inr ()" by (simp add: demo_fs_def)
  ultimately show ?thesis
    by (simp add: NewRuleset_def config_validate_def demo_config_def demo_rule_list
        demo_RulesetFromRuleList del: validate_dirs.simps)
qed

text \<open>The counters of a loaded rule set add up: the rules that compiled, failed or are
  unsupported are all the rules read, broken files included, and the first number is the number of
  trees kept.\<close>

theorem ruleset_accounting:
  assumes "NewRuleset E F c tags = Inr s"
  shows "rs_Ok s = length (rs_Rules s) \<and> rs_Ok s + rs_Failed s + rs_Unsupported s = rs_Total s"
  using assms
  by (auto simp: NewRuleset_def bind_result_Inr Let_def dest!: RulesetFromRuleList_count)

theorem ruleset_accounting_witness:
  "\<exists>s. NewRuleset sample_ext demo_fs demo_config [''TA0006''] = Inr s \<and>
     rs_Ok s + rs_Failed s + rs_Unsupported s = rs_Total s"
  using ruleset_accounting[OF demo_NewRuleset[of sample_ext]] demo_NewRuleset[of sample_ext] by blast

text \<open>C25: every rule of a loaded rule set carries the required tags, has one of the five risk levels,
  and offers the fields the flow rules ask for, without duplicates and without internal fields.\<close>

theorem loaded_rules_are_valid:
  assumes "NewRuleset E F c tags = Inr s"
  shows "\<forall>t \<in> set (rs_Rules s). \<exists>h. tree_Rule t = Some h \<and> loaded_ok tags (cfg_ExtractFields c) h"
proof -
  obtain files rules err st where "NewRuleList E F files (\<not> cfg_FailOnYamlParse c) (cfg_NoCollapseWS c)
      tags (cfg_ExtractFields c) = Inr (rules, err)"
    and st: "RulesetFromRuleList E rules = Inr st" "rs_Rules s = rs_Rules st"
    using assms by (auto simp: NewRuleset_def bind_result_Inr Let_def)
  then have "list_all (loaded_ok tags (cfg_ExtractFields c)) rules"
    by (auto simp: NewRuleList_def bind_result_Inr split: if_splits dest!: rule_loop_invariant)
  then show ?thesis using ruleset_trees[OF st(1)] st(2) compiled_have_rule
    by (fastforce simp: list_all_iff)
qed

theorem loaded_rules_are_valid_witness:
  "\<exists>s. NewRuleset sample_ext demo_fs demo_config [''TA0006''] = Inr s \<and> rs_Rules s = [demo_tree] \<and>
     loaded_ok [''TA0006''] [] demo_handle"
  using loaded_rules_are_valid[OF demo_NewRuleset[of sample_ext]] demo_NewRuleset[of sample_ext]
  by (simp add: demo_ruleset_def demo_tree_def demo_config_def)

text \<open>C13: evaluating an event against a rule set reports exactly the rules that match it, in the
  order of the set, and reports nothing when none matches.\<close>

theorem eval_all_reports_matches:
  assumes "RulesetFromRuleList E rules = Inr s"
  shows "map res_ID (case EvalAll E clock s e of None \<Rightarrow> [] | Some rs \<Rightarrow> rs)
      = map tree_ID (filter (\<lambda>t. fst (tree_match E t e)) (compiled_rules E rules))
    \<and> (EvalAll E clock s e = None \<longleftrightarrow> \<not> (\<exists>t \<in> set (compiled_rules E rules). fst (tree_match E t e)))"
proof -
  have ids: "map res_ID (eval_loop E clock 0 (rs_Rules s) e)
      = map tree_ID (filter (\<lambda>t. fst (tree_match E t e)) (rs_Rules s))"
    by (rule eval_loop_IDs) (use ruleset_trees[OF assms] compiled_have_rule in fastforce)
  then have "eval_loop E clock 0 (rs_Rules s) e = [] \<longleftrightarrow> filter (\<lambda>t. fst (tree_match E t e)) (rs_Rules s) = []"
    by (metis Nil_is_map_conv)
  then show ?thesis using ids ruleset_trees[OF assms]
    by (auto simp: EvalAll_def Let_def filter_empty_conv)
qed

theorem eval_all_reports_matches_witness:
  "map res_ID (case EvalAll sample_ext (\<lambda>_. 0) demo_ruleset demo_event of None \<Rightarrow> [] | Some rs \<Rightarrow> rs) = [''7'']"
proof -
  have "tree_match sample_ext demo_tree demo_event = (True, True)"
    by (simp add: tree_match_def demo_tree_def demo_leaf_def demo_event_def selection_match_def
        lowerCaseIfNeeded_def handleWhitespace_def is_ws_def nodeNot_match_def nodeAnd_match_def)
  then show ?thesis
    using eval_all_reports_matches[OF demo_RulesetFromRuleList[of sample_ext], of "\<lambda>_. 0" demo_event]
    by (simp add: demo_NewTree tree_ID_def) (simp add: demo_tree_def demo_handle_def demo_rule_def)
qed

text \<open>\<open>GetRule\<close> never panics on a compiled rule set and returns the first compiled rule with the
  identifier, or none.\<close>

theorem get_rule_finds_first:
  assumes "RulesetFromRuleList E rules = Inr s"
  shows "GetRule s ID = Inr (map_option (rh_Rule \<circ> the \<circ> tree_Rule)
     (find (\<lambda>t. tree_ID t = ID) (compiled_rules E rules)))"
  unfolding GetRule_def ruleset_trees[OF assms]
  by (rule get_rule_loop_find) (use compiled_have_rule in fastforce)

theorem get_rule_finds_first_witness: "GetRule demo_ruleset ''7'' = Inr (Some demo_rule)"
  using get_rule_finds_first[OF demo_RulesetFromRuleList[of sample_ext], of "''7''"]
  by (simp add: demo_NewTree tree_ID_def)
    (simp add: demo_tree_def demo_handle_def demo_rule_def)

end
