(* ===== verification/Flow_Demo.thy ===== *)
theory Flow_Demo
  imports Flow_Engine Sigma_Pattern
begin

text \<open>
  Concrete inputs for the flow engine: services whose state is the list of stored events, a loaded
  sequence rule and a counting rule.
\<close>

section \<open>A concrete outside world\<close>

text \<open>Its state is the list of stored events. The clock stands at 5000 ms; one instance holds two
  activities.\<close>

definition demo_hash :: "string \<Rightarrow> (string \<times> string) list" where
  "demo_hash k =
     (if k = ''m1'' then [(''sid'', ''winlog-1''), (''mid'', ''m1''), (''field_User'', ''bob'')]
      else if k = ''m2'' then [(''sid'', ''winlog-2''), (''mid'', ''m2''), (''field_User'', ''bob'')]
      else [])"

definition demo_range :: "string \<Rightarrow> string \<Rightarrow> string \<Rightarrow> (string \<times> int) list" where
  "demo_range k lo hi =
     (if k = ''ada:engine:instance:flow-1_x'' \<and> lo = itoa 2000 \<and> hi = itoa 5000
      then [(''m1'', 3000), (''m2'', 4000)] else [])"

definition demo_services :: "alert_event list services" where
  "demo_services = \<lparr>
     rdx_del = (\<lambda>_. ret None), rdx_exists = (\<lambda>_. ret 0), rdx_expire = (\<lambda>_ _. ret None),
     rdx_set = (\<lambda>_ _ _. ret None), rdx_setnx = (\<lambda>_ _ _. ret (Inr True)), rdx_publish = (\<lambda>_ _. ret None),
     rdx_lpush = (\<lambda>_ _. ret None),
     rdx_smembers = (\<lambda>k. ret (Inr (if has_prefix k ''ada:engine:active:''
       then [''ada:engine:instance:flow-1_x''] else []))),
     rdx_sadd = (\<lambda>_ _. ret None), rdx_srem = (\<lambda>_ _. ret None), rdx_keys = (\<lambda>_. ret []),
     rdx_hget = (\<lambda>_ _. ret (Inl RdxNil)), rdx_hgetall = (\<lambda>k. ret (Inr (demo_hash k))),
     rdx_hset = (\<lambda>_ _ _. ret None), rdx_hmset = (\<lambda>_ _. ret None), rdx_zadd = (\<lambda>_ _ _. ret None),
     rdx_zrange = (\<lambda>_. ret (Inr [])), rdx_zrangebyscore = (\<lambda>k lo hi. ret (Inr (demo_range k lo hi))),
     rdx_zrem = (\<lambda>_ _. ret None), rdx_zremrangebyscore = (\<lambda>_ _ _. ret None),
     rdx_brpop = ret (Inr []), rdx_ping = ret None, es_index_exists = (\<lambda>_. ret (Inr 200)),
     es_index_create = (\<lambda>_. ret None),
     db_insert = (\<lambda>_ d. State (\<lambda>es. (None, es @ doc_events d))),
     sys_new_id = ret ''e1'', sys_now = ret (5000 * 1000000)\<rparr>"

lemma demo_events: "events_documented demo_services (\<lambda>es. es)"
  by (auto simp: events_documented_def demo_services_def quiet_def demo_range_def itoa_inject)

definition demo_sets :: "string \<Rightarrow> string list" where
  "demo_sets k = (if has_prefix k ''ada:engine:active:'' then [''ada:engine:instance:flow-1_x''] else [])"

lemma demo_sets_documented: "sets_documented demo_services (\<lambda>_. True) demo_sets"
  by (simp add: sets_documented_def demo_services_def demo_sets_def yields_def)

definition demo_cond :: condition where
  "demo_cond = \<lparr>fieldOneIdx = 0, fieldOneVal = ''User'', fieldTwoIdx = 1, fieldTwoVal = ''User'',
     fieldTwoTyp = ''str'', operation = ''=='', valid = True\<rparr>"

definition demo_flow_rule :: FlowRule where
  "demo_flow_rule = new_rule\<lparr>fr_ID := ''flow-1'', fr_Tags := [''attack.t1''], fr_Logsource := ''flow'', fr_Level := ''4'',
     fr_Detection := new_detection\<lparr>fd_EventType := ''multi_eve'', fd_WinSize := ''3s'', fd_Sorted := True,
       fd_SigmaRules := [''winlog-1'', ''winlog-2''], fd_MatchBy := ''$s1.User==$s2.User''\<rparr>\<rparr>"

definition demo_loaded :: FlowRule where
  "demo_loaded = demo_flow_rule\<lparr>fr_Level := ''high'',
     fr_Detection := (fr_Detection demo_flow_rule)\<lparr>fd_WinSizeTs := 3,
       fd_MatchExpr := Some (MatchExprCondition demo_cond), fd_Conditions := [demo_cond]\<rparr>,
     fr_ExtFields := [(''winlog-1'', [''User'']), (''winlog-2'', [''User''])]\<rparr>"

lemma demo_parse_condition: "parseCondition sample_ext ''$s1.User==$s2.User'' = demo_cond"
proof -
  have t: "trim_space ''$s1.User==$s2.User'' = ''$s1.User==$s2.User''"
    by (rule trim_space_id[where c = "CHR ''$''" and v = "''$s1.User==$s2.Use''" and d = "CHR ''r''"])
      (simp_all add: is_space_def)
  have "\<exists>e. parseCountExpression ''$s1.User==$s2.User'' = Inl e"
    by (simp add: parseCountExpression_def t count_specs_def count_re1_def count_re2_def count_re3_def
        count_re4_def count_re5_def scan_sel_field_def scan_sel_def expect_def field_char_def is_digit_def
        has_suffix_def Let_def)
  then show ?thesis
    by (auto simp: parseCondition_def Let_def remove_spaces_def compare_condition_def operators_def splitN2_def
        parseConditionKV_def trim_prefix_def parse_int_def parse_digits_def is_digit_def MaxFlowSelections_def
        no_condition_def demo_cond_def)
qed

lemma demo_parse:
  "parseMatchExpression sample_ext ''$s1.User==$s2.User'' = Some (Inr (MatchExprCondition demo_cond, [demo_cond]))"
proof -
  have "cond_word ''$s1.User==$s2.User''"
    by (simp add: cond_word_def cond_char_def is_space_def dquote_def squote_def equal_fold_def ascii_lower_def)
  then have "disj_words sample_ext (MSingle (MOne (MPos (MText ''$s1.User==$s2.User''))))"
    by (simp add: demo_parse_condition demo_cond_def)
  from parse_prints[OF this] show ?thesis by (simp add: foldl1_def demo_parse_condition)
qed

lemma demo_fields:
  "addCacheKeyFields E (collect_fields (extractFields [demo_cond] [''winlog-1'', ''winlog-2''])) []
     = [(''winlog-1'', [''User'']), (''winlog-2'', [''User''])]"
  by (simp add: addCacheKeyFields_def collect_fields_def collect_one_def extractFields_def extract_one_def
      map_append_def demo_cond_def filter_fields_def parse_int_def parse_digits_def is_digit_def Let_def)

lemma demo_accepted: "accept_rule sample_ext [] demo_flow_rule = Some demo_loaded"
proof -
  have "ConvertStrTime ''3s'' = Inr 3"
    by (simp add: ConvertStrTime_def is_digit_def has_suffix_def parse_seconds_def parse_int_def parse_digits_def)
  moreover have "convert_level ''4'' = ''high''"
    by (simp add: convert_level_def parse_int_def parse_digits_def is_digit_def ConvertRiskLevel_def)
  moreover have "validateFlowSources (demo_flow_rule\<lparr>fr_Level := ''high''\<rparr>)"
    by (simp add: validateFlowSources_def demo_flow_rule_def new_rule_def new_detection_def
        EventTypeMultiEve_def EventTypeMultiPkt_def EventTypeMultiEvePkt_def)
  moreover have "validateConditions [demo_cond] [''winlog-1'', ''winlog-2'']"
    by (simp add: validateConditions_def demo_cond_def)
  moreover have "validateCacheKeyConfig sample_ext (demo_flow_rule\<lparr>fr_Level := ''high''\<rparr>)"
    by (simp add: validateCacheKeyConfig_def demo_flow_rule_def new_rule_def new_detection_def)
  ultimately show ?thesis
    by (simp add: accept_rule_def match_rule_def demo_parse demo_fields demo_flow_rule_def demo_loaded_def
        new_rule_def new_detection_def eventTypes_def EventTypeCount_def EventTypeMultiEve_def flow_levels_def
        MaxFlowSelections_def MaxFlowWinSize_def Let_def)
qed

lemma demo_ok: "flow_rule_ok sample_ext demo_loaded"
  using accept_rule_ok[OF demo_accepted] by simp

definition demo_flowset :: flow_ruleset where
  "demo_flowset = \<lparr>FlowRules = [demo_loaded], FlowRuleByID = [(''flow-1'', demo_loaded)],
     sigmaRuleTTLs = [(''winlog-1'', 3), (''winlog-2'', 3)]\<rparr>"

lemma demo_window: "fd_WinSizeTs (fr_Detection demo_loaded) = 3"
  by (simp add: demo_loaded_def)

lemma demo_not_count: "fd_EventType (fr_Detection demo_loaded) \<noteq> EventTypeCount"
  by (simp add: demo_loaded_def demo_flow_rule_def new_rule_def new_detection_def EventTypeCount_def)

text \<open>A counting rule that fewer than five activities satisfy.\<close>

definition demo_below :: FlowRule where
  "demo_below = demo_loaded\<lparr>fr_ID := ''flow-2'', fr_Detection := (fr_Detection demo_loaded)\<lparr>
     fd_EventType := ''count'', fd_SigmaRules := [''winlog-1''], fd_MatchBy := print_count 1 ''<'' 5\<rparr>\<rparr>"

lemma demo_below_parse:
  "parseCountExpression (fd_MatchBy (fr_Detection demo_below)) =
     Inr \<lparr>ce_sigmaIdx = 0, ce_field = [], ce_distinct = False, ce_operation = ''<'', ce_threshold = 5\<rparr>"
  using parse_print_count[of 1 "''<''" 5] by (simp add: demo_below_def MaxFlowSelections_def operators_def)

end
