(* ===== verification/Flow_Theorems.thy ===== *)
theory Flow_Theorems
  imports Flow_Demo
begin

text \<open>
  The properties of the flow engine, each followed by an instance on the concrete inputs of
  \<open>Flow_Demo\<close> where it has hypotheses.
\<close>

section \<open>Match expressions\<close>

text \<open>Parsing a \<open>match_by\<close> text ends for every text, with an expression or an error; the fuel of the
  model, three calls per byte and three more, is never used up.\<close>

theorem match_expression_parser_total:
  "\<exists>r. parseMatchExpression E s = Some r"
  by (rule parse_total)

text \<open>C15: A printed match expression is read back with the usual precedence: \<open>NOT\<close> binds closest, then
  \<open>AND\<close>, then \<open>OR\<close>, both to the left, parentheses group, and the conditions are listed from left to
  right.\<close>

theorem match_expression_reads_back:
  assumes "disj_words E d"
  shows "parseMatchExpression E (disj_text d) =
    Some (Inr (foldl1 MatchExprOr (disj_nodes E d), collectConditions (foldl1 MatchExprOr (disj_nodes E d))))"
  using assms by (rule parse_prints)

abbreviation demo_unit :: munit where
  "demo_unit \<equiv> MPos (MText ''$s1.User==$s2.User'')"

abbreviation demo_disj :: mdisj where
  "demo_disj \<equiv> MDisj (MOne demo_unit) (MSingle (MConj (MNeg demo_unit) (MOne demo_unit)))"

lemma demo_disj_words: "disj_words sample_ext demo_disj"
  by (simp add: demo_parse_condition demo_cond_def cond_word_def cond_char_def is_space_def dquote_def squote_def
      equal_fold_def ascii_lower_def)

theorem match_expression_reads_back_witness:
  "parseMatchExpression sample_ext
     ''$s1.User==$s2.User OR NOT $s1.User==$s2.User AND $s1.User==$s2.User'' =
   Some (Inr (MatchExprOr (MatchExprCondition demo_cond)
     (MatchExprAnd (MatchExprNot (MatchExprCondition demo_cond)) (MatchExprCondition demo_cond)),
     [demo_cond, demo_cond, demo_cond]))"
  using match_expression_reads_back[OF demo_disj_words] by (simp add: foldl1_def demo_parse_condition)

section \<open>Loading\<close>

text \<open>C7: Every rule that \<open>NewRuleList\<close> returns is enabled, tagged, of a known type and level, has between
  1 and 16 sigma rules of the sources its type allows, a non-zero window of at most six hours, a
  parsed match expression whose conditions are valid and refer to its own sigma rules; the ids are
  distinct and no file gives two rules.\<close>

theorem loaded_flow_rules_ok:
  assumes "FlowRuleList E F files = Inr rs"
  shows "distinct (map fr_ID rs) \<and> (\<forall>r \<in> set rs. flow_rule_ok E r) \<and> length rs \<le> length files"
  using assms by (rule FlowRuleList_ok)

text \<open>Two files with the same rule.\<close>

definition demo_flow_fs :: flow_fs where
  "demo_flow_fs = \<lparr>ff_walk = (\<lambda>_. ([(''a.yml'', False), (''b.yml'', False)], None)),
     ff_read = (\<lambda>f. Inr f), ff_yaml = (\<lambda>_ _. Inr demo_flow_rule)\<rparr>"

lemma demo_repeated: "accept_rule E [''flow-1''] demo_flow_rule = None"
  by (simp add: accept_rule_def demo_flow_rule_def new_rule_def)

lemma demo_load: "FlowRuleList sample_ext demo_flow_fs [''a.yml'', ''b.yml''] = Inr [demo_loaded]"
proof -
  have "fr_ID demo_loaded = ''flow-1''" by (simp add: demo_loaded_def demo_flow_rule_def new_rule_def)
  then show ?thesis by (simp add: FlowRuleList_def demo_flow_fs_def demo_accepted demo_repeated)
qed

theorem loaded_flow_rules_ok_witness:
  "distinct (map fr_ID [demo_loaded]) \<and> flow_rule_ok sample_ext demo_loaded
   \<and> length [demo_loaded] \<le> length [''a.yml'', ''b.yml'']"
  using loaded_flow_rules_ok[OF demo_load] by simp

text \<open>C21: The fields a loaded rule asks of a sigma rule are exactly those its conditions refer to, without
  the internal \<open>_count\<close> and numbers, and those its instance key is built from.\<close>

theorem flow_rule_fields_exact:
  assumes "FlowRuleList E F files = Inr rs" "r \<in> set rs"
  shows "fields_of (fr_ExtFields r) sid =
    {f. \<exists>c \<in> set (fd_Conditions (fr_Detection r)). \<exists>i. (i, f) \<in> condition_refs c
       \<and> 0 \<le> i \<and> i < int (length (fd_SigmaRules (fr_Detection r)))
       \<and> fd_SigmaRules (fr_Detection r) ! nat i = sid \<and> \<not> internal_field f}
    \<union> cache_fields E (fd_CacheKey (fr_Detection r)) sid"
  using FlowRuleList_ok[OF assms(1)] assms(2) by (intro ext_fields_exact) blast

theorem flow_rule_fields_exact_witness:
  "fields_of (fr_ExtFields demo_loaded) ''winlog-2'' = {''User''}"
proof -
  have "fd_Conditions (fr_Detection demo_loaded) = [demo_cond]" "fd_CacheKey (fr_Detection demo_loaded) = []"
    "fd_SigmaRules (fr_Detection demo_loaded) = [''winlog-1'', ''winlog-2'']"
    by (simp_all add: demo_loaded_def demo_flow_rule_def new_rule_def new_detection_def)
  moreover have "condition_refs demo_cond = {(0, ''User''), (1, ''User'')}" "\<not> internal_field ''User''"
    by (auto simp: condition_refs_def demo_cond_def internal_field_def parse_int_def parse_digits_def is_digit_def)
  ultimately show ?thesis
    using flow_rule_fields_exact[OF demo_load, of demo_loaded "''winlog-2''"] by (auto simp: cache_fields_def)
qed

text \<open>The table in Redis gives, split at its commas, exactly the flow rules that name a sigma rule,
  once per occurrence and in their order; a sigma rule no flow rule names has no entry.\<close>

theorem flow_table_reads_back:
  assumes "\<forall>r \<in> set rules. CHR '','' \<notin> set (fr_ID r)"
  shows "(case map_of (sigmaIDMap rules) sid of None \<Rightarrow> [] | Some v \<Rightarrow> split v '','') = flows_of rules sid"
  using sigmaIDMap_split[OF _ assms] by (auto simp: sigmaIDMap_map joined_def)

theorem flow_table_reads_back_witness:
  "(case map_of (sigmaIDMap [demo_loaded, demo_below]) ''winlog-1'' of None \<Rightarrow> [] | Some v \<Rightarrow> split v '','')
     = [''flow-1'', ''flow-2'']"
  using flow_table_reads_back[of "[demo_loaded, demo_below]" "''winlog-1''"]
  by (simp add: flows_of_def demo_loaded_def demo_below_def demo_flow_rule_def new_rule_def new_detection_def)

text \<open>With a configured cache key and a digest without collisions, two activities share an instance of
  a flow exactly when all their normalised key values agree; the separator keeps neighbouring values
  apart.\<close>

theorem instance_keys_separate:
  assumes "map_of (FlowRuleByID rs) fid = Some fr" "map_of (fd_CacheKey (fr_Detection fr)) sid = Some specs"
    and "specs \<noteq> []" "inj (x_md5_hex E)"
    and "\<forall>spec \<in> set specs. \<exists>v. spec_value E f1 h1 spec = Some v \<and> CHR 0x1F \<notin> set v"
    and "\<forall>spec \<in> set specs. \<exists>v. spec_value E f2 h2 spec = Some v \<and> CHR 0x1F \<notin> set v"
  shows "BuildFlowInstanceKeys E (Some rs) fid sid f1 h1 u1 = BuildFlowInstanceKeys E (Some rs) fid sid f2 h2 u2
    \<longleftrightarrow> (\<forall>spec \<in> set specs. spec_value E f1 h1 spec = spec_value E f2 h2 spec)"
proof -
  have keys: "BuildFlowInstanceKeys E (Some rs) fid sid f h u =
      [hashCacheKeyParts E (map (the \<circ> spec_value E f h) specs)]"
    if "\<forall>spec \<in> set specs. \<exists>v. spec_value E f h spec = Some v \<and> CHR 0x1F \<notin> set v" for f h u
    using instance_keys_configured[OF assms(1-3), of E f h u] that by force
  have plain: "CHR 0x1F \<notin> set x"
    if "x \<in> set (map (the \<circ> spec_value E f1 h1) specs) \<union> set (map (the \<circ> spec_value E f2 h2) specs)" for x
    using that assms(5,6) by auto
  have "hashCacheKeyParts E (map (the \<circ> spec_value E f1 h1) specs)
      = hashCacheKeyParts E (map (the \<circ> spec_value E f2 h2) specs)
    \<longleftrightarrow> map (the \<circ> spec_value E f1 h1) specs = map (the \<circ> spec_value E f2 h2) specs"
    using assms(3,4) plain by (intro hash_parts_inj) auto
  then show ?thesis unfolding keys[OF assms(5)] keys[OF assms(6)] using assms(5,6) by fastforce
qed

definition demo_keyed :: flow_ruleset where
  "demo_keyed = demo_flowset\<lparr>FlowRuleByID := [(''flow-1'',
     demo_loaded\<lparr>fr_Detection := (fr_Detection demo_loaded)\<lparr>fd_CacheKey := [(''winlog-1'', [''User''])]\<rparr>\<rparr>)]\<rparr>"

lemma demo_spec: "spec_value sample_ext [(''User'', ''bob'')] h ''User'' = Some ''bob''"
  "spec_value sample_ext [(''User'', ''eve'')] h ''User'' = Some ''eve''"
  by (simp_all add: spec_value_def parseCacheKeyFieldSpec_def normalizeFlowCacheKeyValue_def go_defs Let_def)

theorem instance_keys_separate_witness:
  "BuildFlowInstanceKeys sample_ext (Some demo_keyed) ''flow-1'' ''winlog-1'' [(''User'', ''bob'')] ''dc1'' ''u1''
   \<noteq> BuildFlowInstanceKeys sample_ext (Some demo_keyed) ''flow-1'' ''winlog-1'' [(''User'', ''eve'')] ''dc2'' ''u1''"
proof -
  have "inj (x_md5_hex sample_ext)" by (simp add: sample_ext_def inj_def)
  then show ?thesis
    using instance_keys_separate[of demo_keyed "''flow-1''"
        "demo_loaded\<lparr>fr_Detection := (fr_Detection demo_loaded)\<lparr>fd_CacheKey := [(''winlog-1'', [''User''])]\<rparr>\<rparr>"
        "''winlog-1''" "[''User'']" sample_ext "[(''User'', ''bob'')]" "''dc1''" "[(''User'', ''eve'')]" "''dc2''" "''u1''" "''u1''"]
    by (simp add: demo_keyed_def demo_spec)
qed

section \<open>Matching\<close>

definition demo_act :: "int \<Rightarrow> string \<Rightarrow> flowActivity" where
  "demo_act t k = \<lparr>act_timestamp = t, act_id = k, act_cache = demo_hash k, act_nil = False\<rparr>"

abbreviation demo_acts :: "flowActivity list" where
  "demo_acts \<equiv> [demo_act 3000 ''m1'', demo_act 4000 ''m2'']"

text \<open>C12: On activities in the order of their times, the combinations the sequence matcher tries are
  exactly the choices of one activity per sigma rule whose times all lie within one window, taken in
  increasing order when the flow is sorted; nothing is missed and no index is out of range.\<close>

theorem combinations_exact:
  assumes "sids \<noteq> []" "by_time acts" "0 \<le> winSize" "winSize \<le> MaxFlowWinSize"
  shows "\<exists>vs. extractActivities acts sids winSize srt = Some vs \<and>
    set vs = {v. combination acts sids srt v \<and>
      (\<forall>i \<in> set v. \<forall>j \<in> set v. act_timestamp (acts ! i) - act_timestamp (acts ! j) \<le> winSize * 1000)}"
proof -
  have "v \<noteq> [] \<and> (\<forall>i \<in> set v. i < length acts)" if "combination acts sids srt v" for v
    using that assms(1) by (auto simp: combination_def list_all2_conv_all_nth in_set_conv_nth)
  then have "{v. combination acts sids srt v \<and> in_window acts winSize v} = {v. combination acts sids srt v \<and>
      (\<forall>i \<in> set v. \<forall>j \<in> set v. act_timestamp (acts ! i) - act_timestamp (acts ! j) \<le> winSize * 1000)}"
    using in_window_pairs[OF assms(2) _ _ assms(3,4)] by blast
  then show ?thesis using extractActivities_exact[OF assms(1), of acts winSize srt] by simp
qed

lemma demo_by_time: "by_time demo_acts"
  by (simp add: by_time_def demo_act_def)

lemma demo_combination: "combination demo_acts [''winlog-1'', ''winlog-2''] True v \<longleftrightarrow> v = [0, 1]"
  by (auto simp: combination_def list_all2_Cons2 has_sid_def demo_act_def demo_hash_def less_Suc_eq ascending_def)

theorem combinations_exact_witness:
  "\<exists>vs. extractActivities demo_acts [''winlog-1'', ''winlog-2''] 3 True = Some vs \<and> set vs = {[0, 1]}"
proof -
  obtain vs where vs: "extractActivities demo_acts [''winlog-1'', ''winlog-2''] 3 True = Some vs"
    "set vs = {v. combination demo_acts [''winlog-1'', ''winlog-2''] True v \<and>
      (\<forall>i \<in> set v. \<forall>j \<in> set v. act_timestamp (demo_acts ! i) - act_timestamp (demo_acts ! j) \<le> 3 * 1000)}"
    using combinations_exact[OF _ demo_by_time, of "[''winlog-1'', ''winlog-2'']" 3 True]
    by (auto simp: MaxFlowWinSize_def)
  have "set vs = {[0, 1]}"
    unfolding vs(2) demo_combination by (auto simp: demo_act_def)
  then show ?thesis using vs(1) by blast
qed

text \<open>C16: Evaluating a match expression computes the Boolean formula it denotes over the sets that Redis
  holds: the short-circuit evaluation, the lookups and the announcement of missing LDAP entries do
  not change the outcome.\<close>

theorem match_expression_boolean:
  assumes "sets_documented S I sets" "I s" "run_state (matchExpr S E e acts) s = (b, s')"
  shows "b = expr_holds E sets e acts \<and> I s'"
  using yieldsD[OF matchExpr_spec[OF assms(1)] assms(2,3)] by blast

theorem match_expression_boolean_witness:
  "run_state (matchExpr demo_services sample_ext
     (MatchExprOr (MatchExprNot (MatchExprCondition demo_cond)) (MatchExprCondition demo_cond)) demo_acts) []
   = (True, [])"
proof -
  obtain b s' where r: "run_state (matchExpr demo_services sample_ext
      (MatchExprOr (MatchExprNot (MatchExprCondition demo_cond)) (MatchExprCondition demo_cond)) demo_acts) [] = (b, s')"
    by fastforce
  have "b" using match_expression_boolean[OF demo_sets_documented TrueI r] by simp
  moreover have "s' = []" using r by (simp add: matchCondition_def demo_cond_def Let_def split: if_splits)
  ultimately show ?thesis using r by simp
qed

text \<open>C4: For a loaded sequence rule, matching reports a choice of activities when and only when some
  combination inside the window satisfies the rule's expression, and what it reports is such a
  combination.\<close>

theorem sequence_match_exact:
  assumes "sets_documented S I sets" "flow_rule_ok E fr" "I s"
    and "d = fr_Detection fr" "fd_MatchExpr d = Some e"
    and "extractActivities acts (fd_SigmaRules d) (fd_WinSizeTs d) (fd_Sorted d) = Some vs"
    and "run_state (matchByActivities S E acts vs (fd_MatchBy d)) s = (r, s')"
  shows "case r of
      Some ma \<Rightarrow> (\<exists>v. combination acts (fd_SigmaRules d) (fd_Sorted d) v \<and> in_window acts (fd_WinSizeTs d) v
        \<and> ma = map (\<lambda>i. acts ! i) v \<and> expr_holds E sets e ma)
    | None \<Rightarrow> \<not> (\<exists>v. combination acts (fd_SigmaRules d) (fd_Sorted d) v \<and> in_window acts (fd_WinSizeTs d) v
        \<and> expr_holds E sets e (map (\<lambda>i. acts ! i) v))"
  using assms by (rule sequence_match_spec)

lemma demo_flow_detection:
  "fd_SigmaRules (fr_Detection demo_loaded) = [''winlog-1'', ''winlog-2'']"
  "fd_Sorted (fr_Detection demo_loaded)" "fd_MatchBy (fr_Detection demo_loaded) = ''$s1.User==$s2.User''"
  "fd_MatchExpr (fr_Detection demo_loaded) = Some (MatchExprCondition demo_cond)"
  by (simp_all add: demo_loaded_def demo_flow_rule_def new_rule_def new_detection_def)

lemma demo_extract: "extractActivities demo_acts [''winlog-1'', ''winlog-2''] 3 True = Some [[0, 1]]"
  by (simp add: extractActivities_def group_activities_def group_step_def demo_act_def demo_hash_def wrap64_def
      enumerate_eq_zip)

lemma demo_match_run:
  "run_state (matchByActivities demo_services sample_ext demo_acts [[0, 1]] ''$s1.User==$s2.User'') [] = (Some demo_acts, [])"
  by (simp add: matchByActivities_def demo_parse act_list_def matchCondition_def demo_cond_def Let_def
      getFieldVal_def demo_act_def demo_hash_def compare_def)

theorem sequence_match_exact_witness:
  "\<exists>v. combination demo_acts [''winlog-1'', ''winlog-2''] True v \<and> in_window demo_acts 3 v
     \<and> demo_acts = map (\<lambda>i. demo_acts ! i) v \<and> expr_holds sample_ext demo_sets (MatchExprCondition demo_cond) demo_acts"
  using sequence_match_exact[OF demo_sets_documented demo_ok TrueI refl demo_flow_detection(4), of demo_acts "[[0, 1]]" "[]"
      "Some demo_acts" "[]"]
  by (simp only: demo_flow_detection demo_window demo_extract demo_match_run option.case simp_thms)

text \<open>A counting expression counts the activities of its sigma rule that have a value in its field, and
  with \<open>distinct\<close> the different values up to case and surrounding blanks; the result is between 0 and the
  number of activities.\<close>

theorem counting_exact:
  "count E e acts sids =
     (if ce_distinct e
      then (if ce_field e = [] then 0
            else int (card (counted_value E e ` set (filter (counted e (target_sid e sids)) acts))))
      else int (length (filter (counted e (target_sid e sids)) acts)))
   \<and> 0 \<le> count E e acts sids \<and> count E e acts sids \<le> int (length acts)"
proof -
  have "count E e acts sids = 0" if "ce_distinct e" "ce_field e = []"
    using that by (simp add: count_def count_loop_spec Let_def)
  then show ?thesis using count_bounds[of E e acts sids] by (simp add: count_plain count_distinct)
qed

section \<open>The matcher\<close>

text \<open>C19: A round of the matcher over loaded rules ends without a panic, whatever Redis and MongoDB answer,
  when no counting rule is satisfied by zero activities; of the client library it relies only on a
  missing hash being an empty map and not \<open>redis.Nil\<close>.\<close>

theorem flow_matcher_never_panics:
  assumes "hashes_documented S"
    and "\<And>fr. fr \<in> set (FlowRules r) \<Longrightarrow> flow_rule_ok E fr"
    and "\<And>fr. fr \<in> set (FlowRules r) \<Longrightarrow> fd_EventType (fr_Detection fr) = EventTypeCount \<Longrightarrow> zero_quiet fr"
  shows "\<exists>s'. run_state (FlowMatcher S E r) s = (Done (), s')"
proof -
  obtain out s' where run: "run_state (FlowMatcher S E r) s = (out, s')" by fastforce
  have "\<forall>msg. out \<noteq> Panic msg" using yieldsD[OF FlowMatcher_safe[OF assms] TrueI run] by blast
  then show ?thesis using run by (cases out) auto
qed

theorem flow_matcher_never_panics_witness:
  "\<exists>s'. run_state (FlowMatcher demo_services sample_ext demo_flowset) [] = (Done (), s')"
  by (rule flow_matcher_never_panics)
    (auto simp: demo_flowset_def demo_ok demo_not_count hashes_documented_def demo_services_def)

text \<open>A counting rule that zero activities satisfy, such as \<open>$s1._count < 5\<close>, makes the matcher panic
  on an instance whose window is empty; the rest of the round, with all later rules, is lost.\<close>

theorem empty_instance_panics:
  assumes "run_state (now_ms S) s = (stop, s1)"
    and "run_state (getFlowActivitiesByWinSize S insId (fd_WinSizeTs (fr_Detection fr)) stop) s1 = (Inr [], s2)"
    and "parseCountExpression (fd_MatchBy (fr_Detection fr)) = Inr ce"
    and "compareInt (ce_operation ce) 0 (ce_threshold ce)"
  shows "run_state (matchEventCount S E fr (insId # others)) s = (Panic ''index out of range'', s2)"
  unfolding matchEventCount_def by (rule foreach_panic_stops) (rule count_instance_panics[OF assms])

theorem empty_instance_panics_witness:
  "run_state (matchEventCount demo_services sample_ext demo_below [''ada:engine:instance:flow-2_y'', ''ada:engine:instance:flow-2_z'']) []
     = (Panic ''index out of range'', [])"
proof (rule empty_instance_panics[where stop = 5000 and ?s1.0 = "[]"])
  show "run_state (now_ms demo_services) [] = (5000, [])"
    by (simp add: now_ms_def demo_services_def)
  show "run_state (getFlowActivitiesByWinSize demo_services ''ada:engine:instance:flow-2_y''
      (fd_WinSizeTs (fr_Detection demo_below)) 5000) [] = (Inr [], [])"
    by (simp add: getFlowActivitiesByWinSize_def demo_services_def demo_range_def Let_def)
  show "parseCountExpression (fd_MatchBy (fr_Detection demo_below)) =
      Inr \<lparr>ce_sigmaIdx = 0, ce_field = [], ce_distinct = False, ce_operation = ''<'', ce_threshold = 5\<rparr>"
    by (rule demo_below_parse)
qed (simp add: compareInt_def)

text \<open>C3: Every event that a round of the matcher stores belongs to one of its rules, carries that rule's
  tags and a level between 1 and 5, names at least one activity, and spans no more than the rule's
  window.\<close>

theorem stored_events_in_window:
  assumes "events_documented S ev"
    and "\<And>fr. fr \<in> set (FlowRules r) \<Longrightarrow>
      0 \<le> fd_WinSizeTs (fr_Detection fr) \<and> fd_WinSizeTs (fr_Detection fr) \<le> MaxFlowWinSize"
    and "run_state (FlowMatcher S E r) s = (out, s')" "e \<in> set (ev s')" "e \<notin> set (ev s)"
  shows "\<exists>fr \<in> set (FlowRules r). event_ok fr e"
proof -
  have "events_ok (FlowRules r) (ev s) (ev s)" by (simp add: events_ok_def)
  from yieldsD[OF FlowMatcher_events[OF assms(1,2)] this assms(3)] assms(4,5)
  show ?thesis by (auto simp: events_ok_def)
qed

definition demo_alert :: alert_event where
  "demo_alert = alert_of demo_loaded ''x'' demo_acts ''e1'' ''attack.t1'' (5000 * 1000000)"

lemma demo_hashes:
  "run_state (rdx_hgetall demo_services k) s = (Inr (demo_hash k), s)"
  "run_state (sys_now demo_services) s = (5000 * 1000000, s)"
  "run_state (rdx_zrangebyscore demo_services k lo hi) s = (Inr (demo_range k lo hi), s)"
  by (simp_all add: demo_services_def)

lemma demo_read:
  "run_state (getFlowActivitiesByWinSize demo_services ''ada:engine:instance:flow-1_x'' 3 5000) s = (Inr demo_acts, s)"
  by (simp add: getFlowActivitiesByWinSize_def Let_def demo_hashes demo_range_def wrap64_def getActivityCache_def
      demo_act_def entries_def)

lemma demo_extract_loaded:
  "extractActivities demo_acts (fd_SigmaRules (fr_Detection demo_loaded)) 3 (fd_Sorted (fr_Detection demo_loaded))
     = Some [[0, 1]]"
  using demo_extract by (simp add: demo_flow_detection)

lemma demo_instances:
  "run_state (getFlowInstances demo_services ''flow-1'') s = ([''ada:engine:instance:flow-1_x''], s)"
  by (simp add: getFlowInstances_def demo_services_def active_key_def)

lemma demo_store:
  "run_state (storeEvent demo_services sample_ext ''ada:engine:instance:flow-1_x'' demo_loaded demo_acts) s
     = (Done None, s @ [demo_alert])"
proof -
  have "fr_Tags demo_loaded = [''attack.t1'']" by (simp add: demo_loaded_def demo_flow_rule_def new_rule_def)
  moreover have "splitN2 ''ada:engine:instance:flow-1_x'' ''_'' = [''ada:engine:instance:flow-1'', ''x'']"
    by (simp add: splitN2_def)
  moreover have "run_state (pushNotify demo_services sample_ext demo_loaded ps) s = (Done None, s)" for ps s
    using \<open>fr_Tags demo_loaded = _\<close> by (simp add: pushNotify_def now_s_def Let_def demo_services_def)
  moreover have "\<not> act_nil (demo_act t k)" for t k by (simp add: demo_act_def)
  ultimately show ?thesis
    by (simp add: storeEvent_def whitelistFilter_def demo_hashes demo_hash_def demo_alert_def Let_def)
      (simp add: demo_services_def doc_events_def)
qed

lemma demo_round: "run_state (FlowMatcher demo_services sample_ext demo_flowset) [] = (Done (), [demo_alert])"
proof -
  have now: "run_state (now_ms demo_services) s = (5000, s)" for s
    by (simp add: now_ms_def demo_hashes)
  have "fr_UniqueFilter demo_loaded = []" by (simp add: demo_loaded_def demo_flow_rule_def new_rule_def)
  then have report: "run_state (report_match demo_services sample_ext demo_loaded ''ada:engine:instance:flow-1_x'' demo_acts) s
      = (Done (), s @ [demo_alert])" for s
    by (simp add: report_match_def checkUniqueFilter_def addUniqueFilter_def demo_store)
      (simp add: demo_services_def)
  have "run_state (sequence_instance demo_services sample_ext demo_loaded ''ada:engine:instance:flow-1_x'') []
      = (Done (), [demo_alert])"
    by (simp add: sequence_instance_def Let_def now demo_window demo_read demo_extract_loaded demo_flow_detection(3)
        demo_match_run[unfolded One_nat_def] report)
  moreover have "fr_ID demo_loaded = ''flow-1''" "fd_EventType (fr_Detection demo_loaded) = EventTypeMultiEve"
    by (simp_all add: demo_loaded_def demo_flow_rule_def new_rule_def new_detection_def EventTypeMultiEve_def)
  moreover have "EventTypeMultiEve \<noteq> EventTypeCount" by (simp add: EventTypeMultiEve_def EventTypeCount_def)
  ultimately show ?thesis
    by (simp add: FlowMatcher_def demo_flowset_def match_rule_instances_def demo_instances Let_def
        matchEventMultiEve_def matchEventSequence_def)
qed

theorem stored_events_in_window_witness:
  "event_ok demo_loaded demo_alert \<and> run_state (FlowMatcher demo_services sample_ext demo_flowset) [] = (Done (), [demo_alert])"
  using stored_events_in_window[OF demo_events _ demo_round, of demo_alert] demo_round
  by (simp add: demo_flowset_def demo_window MaxFlowWinSize_def)

section \<open>White lists\<close>

lemma split_acc_chars: "x \<in> set (split_acc sep acc s) \<Longrightarrow> set x \<subseteq> set acc \<union> set s"
proof (induction sep acc s rule: split_acc.induct)
  case (1 sep acc)
  then show ?case by simp
next
  case (2 sep acc c s)
  have "set (drop (length sep - 1) s) \<subseteq> set s" by (rule set_drop_subset)
  then show ?case using 2 by (auto split: if_splits)
qed

lemma cut_none: "d \<notin> set s \<Longrightarrow> Go_Base.cut [d] s = None"
  by (induction s) auto

lemma cut_bars: "CHR ''|'' \<notin> set a \<Longrightarrow> Go_Base.cut ''||'' (a @ ''||'' @ b) = Some (a, b)"
  by (induction a) auto

lemma whitelist_no_condition:
  "(\<And>c. c \<in> set cs \<Longrightarrow> CHR '','' \<notin> set c) \<Longrightarrow> whitelist_conditions E cs acts"
  by (induction cs) (auto simp: splitN3_def cut_none)

text \<open>A white-list entry for the domain whose text holds no well-formed condition suppresses every event
  of the rule: malformed conditions are skipped, and no condition left means a match.\<close>

theorem malformed_whitelist_suppresses:
  assumes "CHR ''|'' \<notin> set domain" "CHR '','' \<notin> set body" "has_suffix (to_lower E dcHostname) domain"
  shows "whitelist_loop E ((wId, domain @ ''||'' @ body) # whitelists) activities dcHostname"
proof -
  have "splitN2 (domain @ ''||'' @ body) ''||'' = [domain, body]"
    using cut_bars[OF assms(1), of body] by (simp add: splitN2_def)
  moreover have "whitelist_conditions E (split body ''|[AND]|'') activities"
    using assms(2) split_acc_chars[of _ "''|[AND]|''" "[]" body]
    by (intro whitelist_no_condition) (auto simp: split_def)
  ultimately show ?thesis using assms(3) split_not_Nil[of body "''|[AND]|''"] by (simp add: Let_def)
qed

theorem malformed_whitelist_suppresses_witness:
  "whitelist_loop sample_ext [(''w1'', ''corp.com||User == bob'')] demo_acts ''dc1.corp.com''"
  using malformed_whitelist_suppresses[of "''corp.com''" "''User == bob''" sample_ext "''dc1.corp.com''" "''w1''" "[]" demo_acts]
  by (simp add: to_lower_def is_ascii_def ascii_lower_def has_suffix_def)

text \<open>The operator \<open>in\<close> of a white list is the operator \<open>>=\<close>: the value is not split into a list.\<close>

lemma whitelist_in_is_at_least:
  "whitelistCompare E ''in'' field value activities = whitelistCompare E ''>='' field value activities"
  by (simp add: whitelistCompare_def Let_def)

text \<open>So a listed value may fail and an unlisted one pass.\<close>

lemma whitelist_in_wrong:
  "\<not> whitelistCompare E ''in'' ''User'' ''carol,bob'' demo_acts"
  "whitelistCompare E ''in'' ''User'' ''alice,adam'' demo_acts"
  by (simp_all add: whitelistCompare_def Let_def demo_act_def demo_hash_def getFieldVal_def)

text \<open>The retention of a sigma rule is the window of the last rule that uses it, not the longest one.\<close>

lemma retention_not_longest:
  "map_of (rule_ttls [demo_loaded\<lparr>fr_Detection := (fr_Detection demo_loaded)\<lparr>fd_WinSize := ''1h''\<rparr>\<rparr>, demo_loaded]) ''winlog-1''
     = Some 3"
proof -
  have "win_size demo_loaded = 3" using win_size_ok[OF demo_ok] by (simp add: demo_window)
  then show ?thesis by (simp add: rule_ttls_last) (simp add: demo_loaded_def)
qed

text \<open>A counting condition inside a sequence rule compares a field of one activity, and \<open>_count\<close> is no
  field.\<close>

lemma count_in_sequence_fails:
  assumes "map_of (act_cache (acts ! nat (ce_sigmaIdx e))) ''field__count'' = None" "ce_field e = []"
    "ce_operation e \<noteq> ''in''" "itoa (ce_threshold e) \<noteq> []"
  shows "\<not> cond_holds E sets (toCondition e) acts"
  using assms by (auto simp: cond_holds_def toCondition_def getFieldVal_def Let_def)

end
