(* ===== verification/Engine_Theorems.thy ===== *)
theory Engine_Theorems
  imports Engine_Core_Props Sigma_Theorems Flow_Theorems
begin

text \<open>
  The properties of the worker, of the batching writer and of the nested maps, each with an instance
  on concrete inputs where it has hypotheses.
\<close>

section \<open>A worker on concrete files\<close>

lemma demo_sigma_loads:
  assumes "map_of ext ''7'' = None"
  shows "NewRuleset E demo_fs (sigma_config dir ext) [] = Inr (demo_ruleset\<lparr>rs_root := [dir]\<rparr>)"
proof -
  have files: "NewRuleFileList demo_fs [dir] = Inr [''r.yml'']"
    by (simp add: NewRuleFileList_def demo_fs_def has_suffix_def)
  have valid: "validate_dirs demo_fs [dir] = Inr ()" by (simp add: demo_fs_def)
  have "convertLevel demo_rule = Inr demo_rule" "normalizeDetection E demo_rule = demo_rule"
    by (simp_all add: demo_rule_def convertLevel_def validLevels_def parse_int_def parse_digits_def
        is_digit_def normalizeDetection_def demo_detection_def)
  moreover have "\<not> IsMultipart ''title: t''"
    by (simp add: IsMultipart_def split_def separator_line_def)
  moreover have "r_Tags demo_rule = [''TA0006'']" "r_ID demo_rule = ''7''" by (simp_all add: demo_rule_def)
  ultimately have "NewRuleList E demo_fs [''r.yml''] True False [] ext = Inr ([demo_handle], None)"
    using assms
    by (simp add: NewRuleList_def demo_fs_def RuleFromYAML_def HasTags_subset margeFields_def demo_handle_def)
  then show ?thesis
    using files valid
    by (simp add: NewRuleset_def config_validate_def sigma_config_def demo_RulesetFromRuleList
        del: validate_dirs.simps)
qed

definition demo_new_flowset :: flow_ruleset where
  "demo_new_flowset = \<lparr>FlowRules = [demo_loaded], FlowRuleByID = fold (\<lambda>r m. map_put m (fr_ID r) r) [demo_loaded] [],
     sigmaRuleTTLs = rule_ttls [demo_loaded]\<rparr>"

lemma demo_flow_loads: "FlowNewRuleset sample_ext demo_flow_fs flowRulePath = Inr demo_new_flowset"
proof -
  have "FlowRuleFileList demo_flow_fs [flowRulePath] = ([''a.yml'', ''b.yml''], None)"
    by (simp add: FlowRuleFileList_def demo_flow_fs_def has_suffix_def)
  then show ?thesis by (simp add: FlowNewRuleset_def demo_load demo_new_flowset_def)
qed

lemma demo_ext_fields: "map_of (sigmaExtFields (FlowRules demo_new_flowset)) ''7'' = None"
  by (simp add: demo_new_flowset_def sigmaExtFields_def merge_ext_def demo_loaded_def)

lemma demo_sigma_pair:
  "load_sigma E demo_fs demo_new_flowset = Inr
     [(RuleWinLog, demo_ruleset\<lparr>rs_root := [winLogRulePath]\<rparr>), (RulePktLog, demo_ruleset\<lparr>rs_root := [pktLogRulePath]\<rparr>)]"
  by (simp add: load_sigma_def demo_sigma_loads[OF demo_ext_fields])

text \<open>The rule files appear at the second try.\<close>

definition demo_empty_fs :: flow_fs where
  "demo_empty_fs = demo_flow_fs\<lparr>ff_walk := (\<lambda>_. ([], None))\<rparr>"

abbreviation demo_tries :: "nat \<Rightarrow> flow_fs" where
  "demo_tries n \<equiv> (if n = 0 then demo_empty_fs else demo_flow_fs)"

lemma demo_empty_loads: "FlowNewRuleset E demo_empty_fs flowRulePath = Inl ''missing flow rule file list''"
  by (simp add: FlowNewRuleset_def FlowRuleFileList_def demo_empty_fs_def FlowRuleList_def)

definition demo_worker :: engine_worker where
  "demo_worker = \<lparr>ew_ruleset = [(RuleWinLog, demo_ruleset\<lparr>rs_root := [winLogRulePath]\<rparr>),
       (RulePktLog, demo_ruleset\<lparr>rs_root := [pktLogRulePath]\<rparr>)],
     ew_Flowset = Some demo_new_flowset, ew_esIndexer = None, ew_es = False, ew_stopped = False\<rparr>"

lemma demo_wait: "wait_flowset 5 sample_ext demo_tries 0 = Some (Inr demo_new_flowset)"
  using wait_flowset_first[of 1 sample_ext demo_tries 0 5] by (simp add: demo_empty_loads demo_flow_loads)

lemma demo_new: "New 5 sample_ext demo_tries demo_fs False = Some (Inr demo_worker)"
  by (simp add: New_def demo_wait demo_sigma_pair demo_worker_def)

section \<open>The worker\<close>

text \<open>C2: In every run of the engine, from the start through any sequence of reloads, log entries and rounds
  of the flow matcher, a log entry from any queue with any payload is handled without a panic,
  whatever the services answer.\<close>

theorem log_entry_never_panics:
  assumes "engine_run S E ws" "run_state (sigmaRuleMatcher S E clock channel payload) ws = (r, ws')"
  shows "r = Done ()"
  using yieldsD[OF sigmaRuleMatcher_fine engine_run_ok[OF assms(1)] assms(2)] by (cases r) auto

theorem log_entry_never_panics_witness:
  "fst (run_state (sigmaRuleMatcher demo_services sample_ext (\<lambda>_. 0) EveLogQueueKey ''x'') (demo_worker, [])) = Done ()"
proof -
  have "engine_run demo_services sample_ext (demo_worker, [])" by (rule engine_run.started[OF demo_new])
  from log_entry_never_panics[OF this, of "\<lambda>_. 0" EveLogQueueKey "''x''"] show ?thesis
    by (metis prod.collapse)
qed



text \<open>C22: What the worker caches for an activity is what the flow engine reads: the sigma rule id groups it,
  every extracted field reads back with its value and every other field as empty; and the instance
  key splits back into the unique id when the flow id has no underscore.\<close>

theorem cached_activity_reads_back:
  assumes "distinct (map fst (res_Fields result))"
    and "act_cache a = stored_hash E (event_info eId mId dcHostname result rule)"
    and "CHR ''_'' \<notin> set flowId"
  shows "has_sid a (res_ID result) \<and> cache_get a ''mid'' = mId \<and> cache_get a ''dc_hostname'' = dcHostname
    \<and> getFieldVal f a = (case map_of (res_Fields result) f of Some v \<Rightarrow> v | None \<Rightarrow> [])
    \<and> splitN2 (instance_key flowId k) ''_'' = [''ada:engine:instance:'' @ flowId, k]"
  using cached_activity[OF assms(1,2)] instance_key_split[OF assms(3)] by simp

theorem cached_activity_reads_back_witness:
  "let a = \<lparr>act_timestamp = 5, act_id = ''m'', act_cache = stored_hash sample_ext
       (event_info ''e'' ''m'' ''dc1'' (empty_result\<lparr>res_ID := ''winlog-1'', res_Fields := [(''User'', ''bob'')]\<rparr>) demo_rule), act_nil = False\<rparr>
   in has_sid a ''winlog-1'' \<and> getFieldVal ''User'' a = ''bob'' \<and> getFieldVal ''Host'' a = []"
  using cached_activity_reads_back[of "empty_result\<lparr>res_ID := ''winlog-1'', res_Fields := [(''User'', ''bob'')]\<rparr>"
      "\<lparr>act_timestamp = 5, act_id = ''m'', act_cache = stored_hash sample_ext
         (event_info ''e'' ''m'' ''dc1'' (empty_result\<lparr>res_ID := ''winlog-1'', res_Fields := [(''User'', ''bob'')]\<rparr>) demo_rule), act_nil = False\<rparr>"
      sample_ext "''e''" "''m''" "''dc1''" demo_rule "''flow-1''" "''User''" "''x''"]
    cached_activity_reads_back[of "empty_result\<lparr>res_ID := ''winlog-1'', res_Fields := [(''User'', ''bob'')]\<rparr>"
      "\<lparr>act_timestamp = 5, act_id = ''m'', act_cache = stored_hash sample_ext
         (event_info ''e'' ''m'' ''dc1'' (empty_result\<lparr>res_ID := ''winlog-1'', res_Fields := [(''User'', ''bob'')]\<rparr>) demo_rule), act_nil = False\<rparr>"
      sample_ext "''e''" "''m''" "''dc1''" demo_rule "''flow-1''" "''Host''" "''x''"]
  by (simp add: Let_def)

text \<open>The engine starts as soon as rule files exist: when the first \<open>n\<close> tries find no rule file and the
  next one does, waiting ends with the outcome of that try.\<close>

theorem engine_start_ends:
  assumes "\<And>k. k < n \<Longrightarrow> FlowNewRuleset E (FF k) flowRulePath = Inl ''missing flow rule file list''"
    and "FlowNewRuleset E (FF n) flowRulePath \<noteq> Inl ''missing flow rule file list''"
    and "n < fuel"
  shows "wait_flowset fuel E FF 0 = Some (map_sum CoreFlow (\<lambda>fs. fs) (FlowNewRuleset E (FF n) flowRulePath))"
  using wait_flowset_first[of n E FF 0 fuel] assms by (simp add: id_def)

theorem engine_start_ends_witness:
  "wait_flowset 2 sample_ext demo_tries 0 = Some (Inr demo_new_flowset)"
  using engine_start_ends[of 1 sample_ext demo_tries 2] by (simp add: demo_empty_loads demo_flow_loads)

section \<open>The batching writer\<close>

text \<open>C8: However enqueueing interleaves with flushing, retrying and dropping, every document handed to the
  writer is in the buffer, in the batch being sent, counted as indexed or counted as dropped.\<close>

theorem no_document_unaccounted:
  assumes "idx_reach (NewESIndexer es_nil index flushMaxItems flushInterval, None) (i, f)"
  shows "st_EnqueuedItems (ix_stats i) = st_IndexedItems (ix_stats i) + st_DroppedItems (ix_stats i)
    + of_nat (length (ix_buf i)) + (case f of None \<Rightarrow> 0 | Some f \<Rightarrow> of_nat (length (fl_items f)))"
  using idx_reach_accounted[OF assms] by (simp add: NewESIndexer_def no_stats_def)

theorem no_document_unaccounted_witness:
  "\<exists>i. idx_reach (NewESIndexer False ''ada-activity'' 200 3, None) (i, None) \<and> ix_buf i = [\<lparr>item_id = ''a'', item_body = ''{}''\<rparr>]
     \<and> st_EnqueuedItems (ix_stats i) = st_IndexedItems (ix_stats i) + st_DroppedItems (ix_stats i) + 1"
proof -
  let ?i = "EnqueueBytes ''a'' ''{}'' (NewESIndexer False ''ada-activity'' 200 3)"
  have r: "idx_reach (NewESIndexer False ''ada-activity'' 200 3, None) (?i, None)"
    by (rule idx_reach.more[OF idx_reach.start idx_step.enqueue])
  have b: "ix_buf ?i = [\<lparr>item_id = ''a'', item_body = ''{}''\<rparr>]" by (simp add: EnqueueBytes_def NewESIndexer_def Let_def)
  from no_document_unaccounted[OF r] r b show ?thesis by (intro exI[of _ ?i]) simp
qed

section \<open>Nested maps\<close>

text \<open>What is set at a path of a log entry is read back there, and a path that parts from it reads as
  before, unless a scalar stood in the way.\<close>

theorem map_get_after_set:
  assumes "ks \<noteq> []" "k \<noteq> k'" "no_scalar d pre"
  shows "Map_Get (Map_Set d v ks) ks = Some v
    \<and> Map_Get (Map_Set d v (pre @ k # ps)) (pre @ k' # qs) = Map_Get d (pre @ k' # qs)"
  using Get_Set_same[OF assms(1)] Get_Set_other[OF assms(2,3)] by simp

theorem map_get_after_set_witness:
  "Map_Get (Map_Set [(''a'', VMap [(''c'', VInt 1)])] (VString ''x'') [''a'', ''b'']) [''a'', ''b''] = Some (VString ''x'')
   \<and> Map_Get (Map_Set [(''a'', VMap [(''c'', VInt 1)])] (VString ''x'') [''a'', ''b'']) [''a'', ''c''] = Some (VInt 1)"
  using map_get_after_set[of "[''a'', ''b'']" "''b''" "''c''" "[(''a'', VMap [(''c'', VInt 1)])]" "[''a'']" "VString ''x''" "[]" "[]"]
  by simp

text \<open>A text at a prefix of the path answers for the whole path.\<close>

lemma select_below_scalar: "Map_Select [(''a'', VString ''x'')] ''a.b.c'' = Some (VString ''x'')"
  by (simp add: Map_Select_def split_def)

end
