(* ===== verification/Sensor_Entry.thy ===== *)
theory Sensor_Entry
  imports Go_Base
begin

text \<open>
  The log entry of the sensor (\<open>src/agent/sensor/winevt/entry\<close>): the entry, the fields that
  point into its body and its attributes, the dot notation they are configured in, and the
  flattening that turns an entry into the JSON object the engine receives.

  A \<open>map[string]any\<close> is a \<^const>\<open>VMap\<close> with an association list; the source walks such maps by
  reference and writes into the innermost one, the model rebuilds the path to it, which is the
  same for an entry that holds each map once (nothing in the package stores one map twice).
  \<open>Attributes\<close> may be the nil map and is an option; maps inside the values are not nil. The
  values the type switches do not name, and the JSON round trip \<open>copyUnknown\<close> makes of them, are
  arguments of \<open>copyValue\<close>.
\<close>

section \<open>Maps of values\<close>

definition map_del :: "('k \<times> 'v) list \<Rightarrow> 'k \<Rightarrow> ('k \<times> 'v) list" where
  "map_del m k = filter (\<lambda>(k', _). k' \<noteq> k) m"

lemma map_of_map_del: "map_of (map_del m k) = (map_of m)(k := None)"
  by (induction m) (auto simp: map_del_def fun_eq_iff)

lemma keys_map_del: "fst ` set (map_del m k) = fst ` set m - {k}"
  by (force simp: map_del_def)

fun is_map :: "gval \<Rightarrow> bool" where
  "is_map (VMap _) = True"
| "is_map _ = False"

fun as_map :: "gval \<Rightarrow> (string \<times> gval) list option" where
  "as_map (VMap m) = Some m"
| "as_map _ = None"

lemma as_map_None [simp]: "as_map v = None \<longleftrightarrow> \<not> is_map v"
  by (cases v) simp_all

lemma as_map_Some [simp]: "as_map v = Some m \<longleftrightarrow> v = VMap m"
  by (cases v) simp_all

section \<open>Entries\<close>

record Entry =
  e_Timestamp :: int
  e_EventTime :: int
  e_Body :: gval
  e_Attributes :: "(string \<times> gval) list option"

definition newEntry :: "int \<Rightarrow> Entry" where
  "newEntry now = \<lparr>e_Timestamp = now, e_EventTime = 0, e_Body = VNil, e_Attributes = None\<rparr>"

definition AddAttribute :: "Entry \<Rightarrow> string \<Rightarrow> string \<Rightarrow> Entry" where
  "AddAttribute e k v =
     (let m = (case e_Attributes e of None \<Rightarrow> [] | Some m \<Rightarrow> m)
      in e\<lparr>e_Attributes := Some (map_put m k (VString v))\<rparr>)"

section \<open>Dot notation\<close>

datatype splitState = Begin | InBracket | InQuote | OutQuote | OutBracket | InUnbracketedToken

abbreviation sq :: char where "sq \<equiv> CHR 0x27"
abbreviation dq :: char where "dq \<equiv> CHR 0x22"

text \<open>The loop of \<open>fromJSONDot\<close> and the switch after it. The source compares each rune with
  ASCII characters only, and no byte of a longer UTF-8 sequence is an ASCII character, so the
  loop is given on bytes. \<open>tok\<close> is \<open>s[tokenStart:i]\<close>, \<open>q\<close> is \<open>quoteChar\<close>.\<close>

fun dot_loop :: "splitState \<Rightarrow> char \<Rightarrow> string \<Rightarrow> string list \<Rightarrow> string \<Rightarrow> string + string list" where
  "dot_loop st q tok fs [] = (case st of
     InBracket \<Rightarrow> Inl ''found unclosed left bracket''
   | OutQuote \<Rightarrow> Inl ''found unclosed left bracket''
   | InQuote \<Rightarrow> if q = dq then Inl ''found unclosed double quote'' else Inl ''found unclosed single quote''
   | InUnbracketedToken \<Rightarrow> Inr (fs @ [tok])
   | Begin \<Rightarrow> Inr fs
   | OutBracket \<Rightarrow> Inr fs)"
| "dot_loop st q tok fs (c # s) = (case st of
     Begin \<Rightarrow> if c = CHR ''['' then dot_loop InBracket q tok fs s
              else dot_loop InUnbracketedToken q [c] fs s
   | InBracket \<Rightarrow> if c \<noteq> sq \<and> c \<noteq> dq
                  then Inl ''strings in brackets must be surrounded by quotes''
                  else dot_loop InQuote c [] fs s
   | InQuote \<Rightarrow> if c = q then dot_loop OutQuote q tok (fs @ [tok]) s
                else dot_loop InQuote q (tok @ [c]) fs s
   | OutQuote \<Rightarrow> if c \<noteq> CHR '']''
                 then Inl ''found characters between closed quote and closing bracket''
                 else dot_loop OutBracket q tok fs s
   | OutBracket \<Rightarrow> if c = CHR ''.'' then dot_loop InUnbracketedToken q [] fs s
                   else if c = CHR ''['' then dot_loop InBracket q tok fs s
                   else Inl ''bracketed access must be followed by a dot or another bracketed access''
   | InUnbracketedToken \<Rightarrow>
       if c = CHR ''.'' then dot_loop InUnbracketedToken q [] (fs @ [tok]) s
       else if c = CHR ''['' then dot_loop InBracket q tok (fs @ [tok]) s
       else dot_loop InUnbracketedToken q (tok @ [c]) fs s)"

definition fromJSONDot :: "string \<Rightarrow> string + string list" where
  "fromJSONDot s = (case dot_loop Begin (CHR 0x00) [] [] s of
     Inl e \<Rightarrow> Inl e
   | Inr fs \<Rightarrow> if fs = [] then Inl ''fields size is 0'' else Inr fs)"

definition toJSONDot :: "string \<Rightarrow> string list \<Rightarrow> string" where
  "toJSONDot pre ks =
     (if ks = [] then pre
      else if \<exists>k\<in>set ks. contains k ''.''
      then pre @ concat (map (\<lambda>k. ''['' @ [sq] @ k @ [sq] @ '']'') ks)
      else pre @ ''.'' @ join ks ''.'')"

section \<open>Fields\<close>

datatype Field = BodyField "string list" | AttributeField "string list" | NilField

definition AttributesPrefix :: string where "AttributesPrefix = ''attributes''"
definition BodyPrefix :: string where "BodyPrefix = ''body''"

definition newField :: "string \<Rightarrow> bool \<Rightarrow> string + Field" where
  "newField s rootable = (case fromJSONDot s of
     Inl e \<Rightarrow> Inl (''splitting field: '' @ e)
   | Inr ks \<Rightarrow>
       if hd ks = AttributesPrefix then
         if \<not> rootable \<and> length ks = 1
         then Inl ''attributes cannot be referenced without subfield''
         else Inr (AttributeField (tl ks))
       else if hd ks = BodyPrefix then Inr (BodyField (tl ks))
       else Inl ''unrecognized prefix'')"

definition NewField :: "string \<Rightarrow> string + Field" where
  "NewField s = newField s False"

definition BodyField_UnmarshalText :: "string \<Rightarrow> string + Field" where
  "BodyField_UnmarshalText s = (case fromJSONDot s of
     Inl e \<Rightarrow> Inl e
   | Inr ks \<Rightarrow> if hd ks \<noteq> BodyPrefix
               then Inl (''must start with '' @ [sq] @ ''body'' @ [sq] @ '': '' @ s)
               else Inr (BodyField (tl ks)))"

definition AttributeField_UnmarshalText :: "string \<Rightarrow> string + Field" where
  "AttributeField_UnmarshalText s = (case fromJSONDot s of
     Inl e \<Rightarrow> Inl e
   | Inr ks \<Rightarrow> if hd ks \<noteq> AttributesPrefix
               then Inl (''must start with '' @ [sq] @ ''attributes'' @ [sq] @ '': '' @ s)
               else Inr (AttributeField (tl ks)))"

fun Field_String :: "Field \<Rightarrow> string" where
  "Field_String (BodyField ks) = toJSONDot BodyPrefix ks"
| "Field_String (AttributeField ks) = toJSONDot AttributesPrefix ks"
| "Field_String NilField = ''$nil''"

fun Parent :: "Field \<Rightarrow> Field" where
  "Parent (BodyField ks) = (if ks = [] then BodyField ks else BodyField (butlast ks))"
| "Parent (AttributeField ks) = (if ks = [] then AttributeField ks else AttributeField (butlast ks))"
| "Parent NilField = NilField"

fun Child :: "Field \<Rightarrow> string \<Rightarrow> Field" where
  "Child (BodyField ks) k = BodyField (ks @ [k])"
| "Child (AttributeField ks) k = AttributeField (ks @ [k])"
| "Child NilField k = NilField"

text \<open>\<open>getNestedMap\<close>: the map the key holds, an empty one when it holds none; it is written back
  by \<open>update_nested\<close>, which is the loop of \<open>Set\<close> and \<open>Merge\<close> over \<open>f.Keys\<close>.\<close>

definition getNestedMap :: "(string \<times> gval) list \<Rightarrow> string \<Rightarrow> (string \<times> gval) list" where
  "getNestedMap m k = (case map_get m k of Some (VMap m') \<Rightarrow> m' | _ \<Rightarrow> [])"

fun update_nested ::
  "((string \<times> gval) list \<Rightarrow> (string \<times> gval) list) \<Rightarrow> string list \<Rightarrow> (string \<times> gval) list
   \<Rightarrow> (string \<times> gval) list" where
  "update_nested f [] m = f m"
| "update_nested f (k # ks) m = map_put m k (VMap (update_nested f ks (getNestedMap m k)))"

definition merge_map ::
  "(string \<times> gval) list \<Rightarrow> (string \<times> gval) list \<Rightarrow> (string \<times> gval) list" where
  "merge_map mv m = foldl (\<lambda>m (k, v). map_put m k v) m mv"

definition set_keys :: "string list \<Rightarrow> gval \<Rightarrow> (string \<times> gval) list \<Rightarrow> (string \<times> gval) list" where
  "set_keys ks v m = update_nested (\<lambda>m. map_put m (last ks) v) (butlast ks) m"

fun get_path :: "string list \<Rightarrow> gval \<Rightarrow> gval option" where
  "get_path [] v = Some v"
| "get_path (k # ks) v = (case v of
     VMap m \<Rightarrow> (case map_get m k of None \<Rightarrow> None | Some v' \<Rightarrow> get_path ks v')
   | _ \<Rightarrow> None)"

fun del_path :: "string list \<Rightarrow> (string \<times> gval) list \<Rightarrow> ((string \<times> gval) list \<times> gval) option" where
  "del_path [] m = None"
| "del_path (k # ks) m = (case map_get m k of
     None \<Rightarrow> None
   | Some v \<Rightarrow> if ks = [] then Some (map_del m k, v)
               else (case v of
                       VMap m' \<Rightarrow> (case del_path ks m' of
                                    None \<Rightarrow> None
                                  | Some (m'', w) \<Rightarrow> Some (map_put m k (VMap m''), w))
                     | _ \<Rightarrow> None))"

fun Field_Get :: "Field \<Rightarrow> Entry \<Rightarrow> gval \<times> bool" where
  "Field_Get (BodyField ks) e = (case get_path ks (e_Body e) of
     None \<Rightarrow> (VNil, False) | Some v \<Rightarrow> (v, True))"
| "Field_Get (AttributeField ks) e = (case e_Attributes e of
     None \<Rightarrow> (VString '''', False)
   | Some m \<Rightarrow> (case get_path ks (VMap m) of None \<Rightarrow> (VNil, False) | Some v \<Rightarrow> (v, True)))"
| "Field_Get NilField e = (VNil, True)"

text \<open>The map the body holds, an empty one when it holds none.\<close>

definition body_map :: "Entry \<Rightarrow> (string \<times> gval) list" where
  "body_map e = (case as_map (e_Body e) of Some m \<Rightarrow> m | None \<Rightarrow> [])"

fun Merge :: "Field \<Rightarrow> Entry \<Rightarrow> (string \<times> gval) list \<Rightarrow> Entry" where
  "Merge (BodyField ks) e mv = e\<lparr>e_Body := VMap (update_nested (merge_map mv) ks (body_map e))\<rparr>"
| "Merge (AttributeField ks) e mv = e\<lparr>e_Attributes :=
     map_option (update_nested (merge_map mv) ks) (e_Attributes e)\<rparr>"
| "Merge NilField e mv = e"

fun Field_Set :: "Field \<Rightarrow> Entry \<Rightarrow> gval \<Rightarrow> Entry \<times> string option" where
  "Field_Set (BodyField ks) e v = (case as_map v of
     Some mv \<Rightarrow> (Merge (BodyField ks) e mv, None)
   | None \<Rightarrow> if ks = [] then (e\<lparr>e_Body := v\<rparr>, None)
             else (e\<lparr>e_Body := VMap (set_keys ks v (body_map e))\<rparr>, None))"
| "Field_Set (AttributeField ks) e v =
     (let m = (case e_Attributes e of None \<Rightarrow> [] | Some m \<Rightarrow> m); e = e\<lparr>e_Attributes := Some m\<rparr> in
      case as_map v of
        Some mv \<Rightarrow> (Merge (AttributeField ks) e mv, None)
      | None \<Rightarrow> if ks = [] then (e, Some ''cannot set attributes root'')
                else (e\<lparr>e_Attributes := Some (set_keys ks v m)\<rparr>, None))"
| "Field_Set NilField e v = (e, None)"

fun Field_Delete :: "Field \<Rightarrow> Entry \<Rightarrow> Entry \<times> gval \<times> bool" where
  "Field_Delete (BodyField ks) e =
     (if ks = [] then (e\<lparr>e_Body := VNil\<rparr>, e_Body e, True)
      else (case as_map (e_Body e) of
              None \<Rightarrow> (e, VNil, False)
            | Some m \<Rightarrow> (case del_path ks m of
                          None \<Rightarrow> (e, VNil, False)
                        | Some (m', v) \<Rightarrow> (e\<lparr>e_Body := VMap m'\<rparr>, v, True))))"
| "Field_Delete (AttributeField ks) e = (case e_Attributes e of
     None \<Rightarrow> (e, VString '''', False)
   | Some m \<Rightarrow>
       if ks = [] then (e\<lparr>e_Attributes := None\<rparr>, VMap m, True)
       else (case del_path ks m of
               None \<Rightarrow> (e, VNil, False)
             | Some (m', v) \<Rightarrow> (e\<lparr>e_Attributes := Some m'\<rparr>, v, True)))"
| "Field_Delete NilField e = (e, VNil, True)"

section \<open>Reading, copying and encoding entries\<close>

definition missing :: "Field \<Rightarrow> string \<Rightarrow> string" where
  "missing f ty = ''field '' @ [sq] @ Field_String f @ [sq]
     @ '' is missing and can not be read as a '' @ ty"

definition readToInterface :: "Entry \<Rightarrow> Field \<Rightarrow> string + gval" where
  "readToInterface e f = (case Field_Get f e of
     (v, ok) \<Rightarrow> if ok then Inr v else Inl (missing f ''any''))"

text \<open>\<open>bytes_of\<close> and \<open>type_of\<close> are the \<open>[]byte\<close> case and the verb \<open>%T\<close> on a value of a type the
  model does not name.\<close>

definition readToString ::
  "(gval \<Rightarrow> string option) \<Rightarrow> (gval \<Rightarrow> string) \<Rightarrow> Entry \<Rightarrow> Field \<Rightarrow> string + string" where
  "readToString bytes_of type_of e f = (case Field_Get f e of
     (v, ok) \<Rightarrow>
       if \<not> ok then Inl (missing f ''string'')
       else (case v of
               VString s \<Rightarrow> Inr s
             | _ \<Rightarrow> (case bytes_of v of
                      Some s \<Rightarrow> Inr s
                    | None \<Rightarrow> Inl (''field '' @ [sq] @ Field_String f @ [sq] @ '' of type '' @ [sq]
                                   @ type_of v @ [sq] @ '' can not be cast to a string''))))"

definition readToInterfaceMap ::
  "(gval \<Rightarrow> string) \<Rightarrow> Entry \<Rightarrow> Field \<Rightarrow> string + (string \<times> gval) list" where
  "readToInterfaceMap type_of e f = (case Field_Get f e of
     (v, ok) \<Rightarrow>
       if \<not> ok then Inl (missing f ''map[string]any'')
       else (case as_map v of
               Some m \<Rightarrow> Inr m
             | None \<Rightarrow> Inl (''field '' @ [sq] @ Field_String f @ [sq] @ '' of type '' @ [sq]
                           @ type_of v @ [sq] @ '' can not be cast to a map[string]any'')))"

text \<open>\<open>MarshalJSON\<close> up to its \<open>json.Marshal(m)\<close>; \<open>received\<close> is
  \<open>time.UnixMilli(entry.Timestamp).Format(time.RFC3339)\<close>.\<close>

definition put_absent ::
  "(string \<times> gval) list \<Rightarrow> (string \<times> gval) list \<Rightarrow> (string \<times> gval) list" where
  "put_absent m mv = foldl (\<lambda>m (k, v). if map_get m k = None then map_put m k v else m) m mv"

definition MarshalJSON :: "(int \<Rightarrow> string) \<Rightarrow> Entry \<Rightarrow> (string \<times> gval) list" where
  "MarshalJSON received e =
     (let m = map_put (map_put (map_put [] ''@timestamp'' (VInt64 (e_Timestamp e)))
                 ''EventReceivedTime'' (VString (received (e_Timestamp e))))
                 ''EventTime'' (VInt64 (e_EventTime e));
          m = put_absent m (case e_Attributes e of None \<Rightarrow> [] | Some a \<Rightarrow> a)
      in case as_map (e_Body e) of
           Some b \<Rightarrow> put_absent m b
         | None \<Rightarrow> m)"

text \<open>\<open>copyValue\<close>: \<open>C\<close> tells, of a value of a type the model does not name, that it is a
  \<open>byte\<close>, a \<open>map[string]string\<close>, a \<open>[]byte\<close> or a \<open>[]int\<close>, which the source copies element by
  element; \<open>U\<close> is \<open>copyUnknown\<close>, the trip through \<open>encoding/json\<close>.\<close>

fun copyValue :: "(gval \<Rightarrow> bool) \<Rightarrow> (gval \<Rightarrow> gval) \<Rightarrow> gval \<Rightarrow> gval" where
  "copyValue C U VNil = VNil"
| "copyValue C U (VString s) = VString s"
| "copyValue C U (VInt i) = VInt i"
| "copyValue C U (VBool b) = VBool b"
| "copyValue C U (VMap m) = VMap (map (\<lambda>(k, v). (k, copyValue C U v)) m)"
| "copyValue C U (VStrings ss) = VStrings ss"
| "copyValue C U (VSlice vs) = VSlice (map (copyValue C U) vs)"
| "copyValue C U v = (if C v then v else U v)"

definition Entry_Copy :: "(gval \<Rightarrow> bool) \<Rightarrow> (gval \<Rightarrow> gval) \<Rightarrow> Entry \<Rightarrow> Entry" where
  "Entry_Copy C U e = \<lparr>e_Timestamp = e_Timestamp e, e_EventTime = e_EventTime e,
     e_Body = copyValue C U (e_Body e),
     e_Attributes = Some (map (\<lambda>(k, v). (k, copyValue C U v))
                           (case e_Attributes e of None \<Rightarrow> [] | Some m \<Rightarrow> m))\<rparr>"

end
