(* ===== verification/Sensor_Winevt.thy ===== *)
theory Sensor_Winevt
  imports Sensor_Entry Engine_Store
begin

text \<open>
  The Windows event input of the sensor (\<open>src/agent/sensor/winevt/operator\<close>): the parser of the
  messages of the Security channel (\<open>security.go\<close>), the translation of an event to the body of a
  log entry (\<open>xml.go\<close>), the filter and the sending of an event (\<open>input.go\<close>), the fan-out to
  the output operators (\<open>helper/writer.go\<close>) and the batching emitter (\<open>helper/emitter.go\<close>).
  The event log itself, its handles and the rendering of an event to XML are Windows services; an
  event enters the model as the record the XML decoder fills. The look-up of an account by its
  SID is an argument.
\<close>

section \<open>Messages of the Security channel\<close>

datatype lineType = emptyType | keyType | valueType | pairType

record parsedLine =
  pl_t :: lineType
  pl_i :: nat
  pl_k :: string
  pl_v :: string

record messageProcessor =
  mp_lines :: "parsedLine list"
  mp_ptr :: nat

abbreviation tab :: char where "tab \<equiv> CHR 0x09"
abbreviation newline :: char where "newline \<equiv> CHR 0x0A"

lemma has_prefix_replicate: "has_prefix s (replicate n c) \<Longrightarrow> n \<le> length s"
  unfolding has_prefix_def by (metis length_replicate length_take min.cobounded1)

text \<open>The loop of \<open>countIndent\<close> at its counter \<open>i\<close>.\<close>

function indent_loop :: "string \<Rightarrow> nat \<Rightarrow> nat" where
  "indent_loop line i =
     (if has_prefix line (replicate i tab) then indent_loop line (i + 1) else i)"
  by pat_completeness auto
termination
  by (relation "measure (\<lambda>(line, i). Suc (length line) - i)") (auto dest: has_prefix_replicate)

declare indent_loop.simps [simp del]

definition countIndent :: "string \<Rightarrow> nat" where
  "countIndent line = indent_loop line 1 - 1"

definition parseKeyValue :: "string \<Rightarrow> string \<times> string" where
  "parseKeyValue line =
     (let kv = splitN2 line (CHR '':'' # [tab]) in (trim_space (kv ! 0), trim_space (kv ! 1)))"

definition parse_line :: "string \<Rightarrow> parsedLine" where
  "parse_line line =
     (let i = countIndent line; l = trim_space line in
      if l = [] then \<lparr>pl_t = emptyType, pl_i = i, pl_k = [], pl_v = []\<rparr>
      else if contains l (CHR '':'' # [tab])
      then (case parseKeyValue l of (k, v) \<Rightarrow> \<lparr>pl_t = pairType, pl_i = i, pl_k = k, pl_v = v\<rparr>)
      else if has_suffix l '':''
      then \<lparr>pl_t = keyType, pl_i = i, pl_k = take (length l - 1) l, pl_v = []\<rparr>
      else \<lparr>pl_t = valueType, pl_i = i, pl_k = [], pl_v = l\<rparr>)"

definition newMessageProcessor :: "string \<Rightarrow> messageProcessor" where
  "newMessageProcessor message =
     \<lparr>mp_lines = map parse_line (split (trim_space message) [newline]), mp_ptr = 0\<rparr>"

text \<open>\<open>next\<close>: its callers have checked \<open>hasNext\<close>, but for the first line, which exists because
  \<open>strings.Split\<close> never returns an empty slice.\<close>

definition mp_next :: "messageProcessor \<Rightarrow> parsedLine \<times> messageProcessor" where
  "mp_next mp = (mp_lines mp ! mp_ptr mp, mp\<lparr>mp_ptr := mp_ptr mp + 1\<rparr>)"

definition hasNext :: "messageProcessor \<Rightarrow> bool" where
  "hasNext mp \<longleftrightarrow> mp_ptr mp < length (mp_lines mp)"

definition hasNextIndented :: "messageProcessor \<Rightarrow> nat \<Rightarrow> bool" where
  "hasNextIndented mp minDepth \<longleftrightarrow>
     (if \<not> hasNext mp \<or> mp_ptr mp = 0 then False
      else let l = mp_lines mp ! mp_ptr mp in
           if pl_t l = emptyType then False else minDepth \<le> pl_i l)"

definition remaining :: "messageProcessor \<Rightarrow> nat" where
  "remaining mp = length (mp_lines mp) - mp_ptr mp"

lemma mp_next_remaining: "hasNext mp \<Longrightarrow> remaining (snd (mp_next mp)) < remaining mp"
  by (simp add: hasNext_def remaining_def mp_next_def)

function consumeSublist :: "nat \<Rightarrow> string list \<Rightarrow> messageProcessor \<Rightarrow> string list \<times> messageProcessor" where
  "consumeSublist depth sl mp =
     (if \<not> hasNext mp then (sl, mp)
      else if \<not> hasNextIndented mp depth then (sl, mp)
      else let l = fst (mp_next mp); mp' = snd (mp_next mp) in
           (case pl_t l of
              valueType \<Rightarrow> consumeSublist depth (sl @ [pl_v l]) mp'
            | keyType \<Rightarrow> consumeSublist depth (sl @ [pl_k l]) mp'
            | _ \<Rightarrow> consumeSublist depth sl mp'))"
  by pat_completeness auto
termination
  by (relation "measure (\<lambda>(_, _, mp). remaining mp)") (auto simp: mp_next_remaining)

declare consumeSublist.simps [simp del]

lemma consumeSublist_remaining: "remaining (snd (consumeSublist d sl mp)) \<le> remaining mp"
proof (induction d sl mp rule: consumeSublist.induct)
  case (1 d sl mp)
  show ?case
  proof (cases "hasNext mp \<and> hasNextIndented mp d")
    case True
    note IH = 1[OF _ _ refl refl]
    have "remaining (snd (mp_next mp)) < remaining mp" using True mp_next_remaining by blast
    then show ?thesis using True IH
      by (subst consumeSublist.simps)
        (cases "pl_t (fst (mp_next mp))"; fastforce simp: Let_def dest: order.trans)
  next
    case False
    then show ?thesis by (subst consumeSublist.simps) auto
  qed
qed

function consumeSubsection ::
  "nat \<Rightarrow> (string \<times> gval) list \<Rightarrow> messageProcessor \<Rightarrow> (string \<times> gval) list \<times> messageProcessor" where
  "consumeSubsection depth sub mp =
     (if \<not> hasNext mp then (sub, mp)
      else let l = fst (mp_next mp); mp' = snd (mp_next mp) in
           (case pl_t l of
              emptyType \<Rightarrow> (sub, mp')
            | pairType \<Rightarrow> consumeSubsection depth (map_put sub (pl_k l) (VString (pl_v l))) mp'
            | keyType \<Rightarrow>
                if \<not> hasNextIndented mp' (depth + 1)
                then consumeSubsection depth (map_put sub (pl_k l) (VString ''-'')) mp'
                else let r = consumeSublist (depth + 1) [] mp' in
                     consumeSubsection depth (map_put sub (pl_k l) (VStrings (fst r))) (snd r)
            | valueType \<Rightarrow> consumeSubsection depth sub mp'))"
  by pat_completeness auto
termination
  by (relation "measure (\<lambda>(_, _, mp). remaining mp)")
    (auto simp: mp_next_remaining intro: le_less_trans[OF consumeSublist_remaining])

declare consumeSubsection.simps [simp del]

lemma consumeSubsection_remaining: "remaining (snd (consumeSubsection d sub mp)) \<le> remaining mp"
proof (induction d sub mp rule: consumeSubsection.induct)
  case (1 d sub mp)
  show ?case
  proof (cases "hasNext mp")
    case True
    let ?l = "fst (mp_next mp)" and ?mp = "snd (mp_next mp)"
    note IH = 1[OF _ refl refl]
    have less: "remaining ?mp < remaining mp" using True mp_next_remaining by blast
    have sub: "remaining (snd (consumeSublist (d + 1) [] ?mp)) \<le> remaining ?mp"
      by (rule consumeSublist_remaining)
    show ?thesis
    proof (cases "pl_t ?l")
      case keyType
      show ?thesis
      proof (cases "hasNextIndented ?mp (d + 1)")
        case h: True
        show ?thesis using True keyType h less sub IH
          by (subst consumeSubsection.simps) (fastforce simp: Let_def)
      next
        case False
        then show ?thesis using True keyType less IH
          by (subst consumeSubsection.simps) (fastforce simp: Let_def)
      qed
    qed (use True less IH in \<open>subst consumeSubsection.simps, fastforce simp: Let_def\<close>)+
  next
    case False
    then show ?thesis by (subst consumeSubsection.simps) simp
  qed
qed

text \<open>The main loop of \<open>parseSecurity\<close>.\<close>

function security_loop ::
  "(string \<times> gval) list \<Rightarrow> string list \<Rightarrow> messageProcessor \<Rightarrow> (string \<times> gval) list \<times> string list" where
  "security_loop details moreInfo mp =
     (if \<not> hasNext mp then (details, moreInfo)
      else let l = fst (mp_next mp); mp' = snd (mp_next mp) in
           (case pl_t l of
              valueType \<Rightarrow> security_loop details (moreInfo @ [pl_v l]) mp'
            | keyType \<Rightarrow>
                if \<not> hasNextIndented mp' (pl_i l + 1)
                then security_loop (map_put details (pl_k l) (VString ''-'')) moreInfo mp'
                else let r = consumeSubsection (pl_i l + 1) [] mp' in
                     security_loop (map_put details (pl_k l) (VMap (fst r))) moreInfo (snd r)
            | pairType \<Rightarrow>
                if \<not> hasNextIndented mp' (pl_i l + 1)
                then security_loop (map_put details (pl_k l) (VString (pl_v l))) moreInfo mp'
                else let r = consumeSublist (pl_i l + 1) [] mp' in
                     security_loop (map_put details (pl_k l) (VStrings (pl_v l # fst r))) moreInfo (snd r)
            | emptyType \<Rightarrow> security_loop details moreInfo mp'))"
  by pat_completeness auto
termination
  by (relation "measure (\<lambda>(_, _, mp). remaining mp)")
    (auto simp: mp_next_remaining intro: le_less_trans[OF consumeSublist_remaining]
      le_less_trans[OF consumeSubsection_remaining])

declare security_loop.simps [simp del]

text \<open>\<open>parseSecurity\<close>: a nil map of details is \<^const>\<open>None\<close>.\<close>

definition parseSecurity :: "string \<Rightarrow> string \<times> (string \<times> gval) list option" where
  "parseSecurity message =
     (let mp = newMessageProcessor message; l = fst (mp_next mp); mp' = snd (mp_next mp) in
      if pl_t l = pairType \<or> pl_t l = emptyType then (message, None)
      else let subject = (if pl_t l = valueType then pl_v l else pl_k l);
               r = security_loop [] [] mp'
           in (subject, Some (if snd r \<noteq> []
                              then map_put (fst r) ''Additional Context'' (VStrings (snd r))
                              else fst r)))"

definition parseMessage :: "string \<Rightarrow> string \<Rightarrow> string \<times> (string \<times> gval) list option" where
  "parseMessage channel message =
     (if channel = ''Security'' then parseSecurity message else (message, None))"

section \<open>The event and its body\<close>

record Security =
  sec_UserID :: string
  sec_Name :: string
  sec_Domain :: string
  sec_Type :: string

record Execution =
  ex_ProcessID :: int
  ex_ThreadID :: int
  ex_ProcessorID :: "int option"
  ex_SessionID :: "int option"
  ex_KernelTime :: "int option"
  ex_UserTime :: "int option"
  ex_ProcessorTime :: "int option"

record EventXML =
  ev_Original :: string
  ev_EventID :: int
  ev_ProviderName :: string
  ev_ProviderGUID :: string
  ev_Computer :: string
  ev_Channel :: string
  ev_RecordID :: int
  ev_SystemTime :: string
  ev_Version :: int
  ev_Message :: string
  ev_Level :: int
  ev_Task :: int
  ev_Opcode :: "int option"
  ev_Keywords :: "string list"
  ev_RenderedLevel :: string
  ev_RenderedTask :: string
  ev_RenderedOpcode :: string
  ev_RenderedKeywords :: "string list option"
  ev_Security :: "Security option"
  ev_Execution :: "Execution option"
  ev_Correlation :: "(string \<times> string) option"
  ev_Data :: "(string \<times> string) list"

definition keywordAuditFailure :: nat where "keywordAuditFailure = 0x10000000000000"
definition keywordAuditSuccess :: nat where "keywordAuditSuccess = 0x20000000000000"

definition winMetaKeywords :: "(nat \<times> string) list" where
  "winMetaKeywords =
    [(0, ''AnyKeyword''),
     (0x1000000000000, ''ResponseTime''),
     (0x2000000000000, ''WDIContext''),
     (0x4000000000000, ''WDIDiag''),
     (0x8000000000000, ''SQM''),
     (0x10000000000000, ''AuditFailure''),
     (0x20000000000000, ''AuditSuccess''),
     (0x40000000000000, ''CorrelationHint''),
     (0x80000000000000, ''EventlogClassic''),
     (0x100000000000000, ''ReservedKeyword56''),
     (0x200000000000000, ''ReservedKeyword57''),
     (0x400000000000000, ''ReservedKeyword58''),
     (0x800000000000000, ''ReservedKeyword59''),
     (0x1000000000000000, ''ReservedKeyword60''),
     (0x2000000000000000, ''ReservedKeyword61''),
     (0x4000000000000000, ''ReservedKeyword62''),
     (0x8000000000000000, ''ReservedKeyword63'')]"

definition winMetaOpcodes :: "(int \<times> string) list" where
  "winMetaOpcodes = [(0, ''Info''), (1, ''Start''), (2, ''Stop''), (3, ''DCStart''), (4, ''DCStop''),
     (5, ''Extension''), (6, ''Reply''), (7, ''Resume''), (8, ''Suspend''), (9, ''Send'')]"

definition winMetaLevels :: "(int \<times> string) list" where
  "winMetaLevels = [(0, ''Information''), (1, ''Critical''), (2, ''Error''), (3, ''Warning''),
     (4, ''Information''), (5, ''Verbose'')]"

definition sidTypeToString :: "(int \<times> string) list" where
  "sidTypeToString = [(1, ''User''), (2, ''Group''), (3, ''Domain''), (4, ''Alias''),
     (5, ''Well Known Group''), (6, ''Deleted Account''), (7, ''Invalid''), (8, ''Unknown''),
     (9, ''Computer''), (10, ''Label''), (11, ''Logon Session'')]"

text \<open>\<open>strconv.ParseUint(s, 0, 64)\<close>: the base is given by the prefix, an underscore may separate
  digits; \<^const>\<open>None\<close> is an error (of syntax or of range).\<close>

definition lower_byte :: "char \<Rightarrow> nat" where
  "lower_byte c = (if 65 \<le> byte c \<and> byte c \<le> 90 then byte c + 32 else byte c)"

definition digit_of :: "char \<Rightarrow> nat option" where
  "digit_of c = (if 48 \<le> byte c \<and> byte c \<le> 57 then Some (byte c - 48)
     else if 97 \<le> lower_byte c \<and> lower_byte c \<le> 122 then Some (lower_byte c - 97 + 10) else None)"

fun uint_digits :: "nat \<Rightarrow> nat \<Rightarrow> string \<Rightarrow> nat option" where
  "uint_digits base n [] = (if n < 2 ^ 64 then Some n else None)"
| "uint_digits base n (c # s) =
     (if c = CHR ''_'' then uint_digits base n s
      else case digit_of c of
             None \<Rightarrow> None
           | Some d \<Rightarrow> if base \<le> d then None else uint_digits base (n * base + d) s)"

definition base_prefix :: "string \<Rightarrow> bool" where
  "base_prefix s \<longleftrightarrow> 2 \<le> length s \<and> s ! 0 = CHR ''0'' \<and>
     lower_byte (s ! 1) \<in> {byte CHR ''b'', byte CHR ''o'', byte CHR ''x''}"

fun underscore_loop :: "bool \<Rightarrow> char \<Rightarrow> string \<Rightarrow> bool" where
  "underscore_loop hex saw [] = (saw \<noteq> CHR ''_'')"
| "underscore_loop hex saw (c # s) =
     (if 48 \<le> byte c \<and> byte c \<le> 57 \<or> hex \<and> 97 \<le> lower_byte c \<and> lower_byte c \<le> 102
      then underscore_loop hex (CHR ''0'') s
      else if c = CHR ''_''
      then if saw \<noteq> CHR ''0'' then False else underscore_loop hex (CHR ''_'') s
      else if saw = CHR ''_'' then False else underscore_loop hex (CHR ''!'') s)"

definition underscoreOK :: "string \<Rightarrow> bool" where
  "underscoreOK s =
     (if base_prefix s
      then underscore_loop (lower_byte (s ! 1) = byte CHR ''x'') (CHR ''0'') (drop 2 s)
      else underscore_loop False (CHR ''^'') s)"

definition parse_uint0 :: "string \<Rightarrow> nat option" where
  "parse_uint0 s =
     (if s = [] then None
      else let r = (if s ! 0 = CHR ''0''
                    then if 3 \<le> length s \<and> lower_byte (s ! 1) = byte CHR ''b'' then (2, drop 2 s)
                         else if 3 \<le> length s \<and> lower_byte (s ! 1) = byte CHR ''o'' then (8, drop 2 s)
                         else if 3 \<le> length s \<and> lower_byte (s ! 1) = byte CHR ''x'' then (16, drop 2 s)
                         else (8, drop 1 s)
                    else (10, s))
           in case uint_digits (fst r) 0 (snd r) of
                None \<Rightarrow> None
              | Some n \<Rightarrow> if CHR ''_'' \<in> set (snd r) \<and> \<not> underscoreOK s then None else Some n)"

text \<open>One round of the loop over the keywords of \<open>parseWinMeta\<close>.\<close>

definition keyword_step :: "string \<times> string list \<Rightarrow> string \<Rightarrow> string \<times> string list" where
  "keyword_step st keyword = (case parse_uint0 keyword of
     None \<Rightarrow> st
   | Some raw \<Rightarrow>
       (if raw = keywordAuditFailure then ''AUDIT_FAILURE''
        else if raw = keywordAuditSuccess then ''AUDIT_SUCCESS''
        else fst st,
        case map_get winMetaKeywords raw of Some name \<Rightarrow> snd st @ [name] | None \<Rightarrow> snd st))"

text \<open>\<open>parseWinMeta\<close> returns the level, the opcode, the outcome and the keywords, and sets a
  missing \<open>Opcode\<close> of the event to zero when no rendered one is given.\<close>

definition parseWinMeta :: "EventXML \<Rightarrow> (string \<times> string \<times> string \<times> string list) \<times> EventXML" where
  "parseWinMeta e =
     (let finalLevel = (case map_get winMetaLevels (ev_Level e) of
                          Some l \<Rightarrow> l | None \<Rightarrow> ev_RenderedLevel e);
          opcode = (if ev_RenderedOpcode e = [] then
                      (case ev_Opcode e of
                         Some op \<Rightarrow> (case map_get winMetaOpcodes op of Some n \<Rightarrow> n | None \<Rightarrow> [])
                       | None \<Rightarrow> [])
                    else ev_RenderedOpcode e);
          e' = (if ev_RenderedOpcode e = [] \<and> ev_Opcode e = None then e\<lparr>ev_Opcode := Some 0\<rparr> else e);
          keywords = (case ev_RenderedKeywords e of Some ks \<Rightarrow> ks | None \<Rightarrow> ev_Keywords e);
          r = foldl keyword_step ([], []) keywords
      in ((finalLevel, opcode, fst r, snd r), e'))"

text \<open>\<open>parseSecurityAccount\<close>: \<open>look\<close> is \<open>StringToSid\<close> followed by \<open>LookupAccount\<close>, with account,
  domain and account type; \<^const>\<open>None\<close> is an error of either.\<close>

definition parseSecurityAccount ::
  "(string \<Rightarrow> (string \<times> string \<times> int) option) \<Rightarrow> Security \<Rightarrow> Security option" where
  "parseSecurityAccount look sid =
     (if sec_UserID sid = [] then Some sid
      else case look (sec_UserID sid) of
             None \<Rightarrow> None
           | Some (account, domain, accType) \<Rightarrow>
               Some (sid\<lparr>sec_Type := (case map_get sidTypeToString accType of
                                        Some typ \<Rightarrow> typ
                                      | None \<Rightarrow> if 0 < accType then itoa accType else sec_Type sid),
                         sec_Name := account, sec_Domain := domain\<rparr>))"

text \<open>The narrower integers and the pointer to the opcode are opaque to the rest of the model and
  carry their decimal rendering.\<close>

definition small_uint :: "int \<Rightarrow> gval" where
  "small_uint n = VOther KUint (itoa n)"

definition opcode_value :: "int option \<Rightarrow> gval" where
  "opcode_value op = (case op of Some n \<Rightarrow> small_uint n | None \<Rightarrow> VNil)"

definition put_uint :: "string \<Rightarrow> int option \<Rightarrow> (string \<times> gval) list \<Rightarrow> (string \<times> gval) list" where
  "put_uint k v m = (case v of Some n \<Rightarrow> map_put m k (VUint n) | None \<Rightarrow> m)"

definition nonzero :: "int \<Rightarrow> int option" where
  "nonzero n = (if n = 0 then None else Some n)"

definition data_skipped :: "string list" where
  "data_skipped = [''Version'', ''UserID'', ''AccountName'', ''Domain'', ''AccountType'']"

definition put_data :: "(string \<times> gval) list \<Rightarrow> string \<times> string \<Rightarrow> (string \<times> gval) list" where
  "put_data body d = (if fst d \<in> set data_skipped then body else map_put body (fst d) (VString (snd d)))"

definition system_fields ::
  "EventXML \<Rightarrow> string \<Rightarrow> string \<Rightarrow> string \<Rightarrow> string \<Rightarrow> string list \<Rightarrow> (string \<times> gval) list" where
  "system_fields e message level opcode outcome keywords =
    [(''EventID'', VUint32 (ev_EventID e)),
     (''SourceName'', VString (ev_ProviderName e)),
     (''ProviderGuid'', VString (ev_ProviderGUID e)),
     (''EventTime'', VString (ev_SystemTime e)),
     (''EventType'', VString outcome),
     (''Hostname'', VString (ev_Computer e)),
     (''Channel'', VString (ev_Channel e)),
     (''RecordID'', VUint64 (ev_RecordID e)),
     (''Level'', VString level),
     (''LevelValue'', small_uint (ev_Level e)),
     (''Message'', VString message),
     (''Task'', VString (ev_RenderedTask e)),
     (''TaskValue'', small_uint (ev_Task e)),
     (''Opcode'', VString opcode),
     (''OpcodeValue'', opcode_value (ev_Opcode e)),
     (''Keywords'', VStrings keywords),
     (''Version'', small_uint (ev_Version e))]"

definition put_account ::
  "(string \<Rightarrow> (string \<times> string \<times> int) option) \<Rightarrow> EventXML \<Rightarrow> (string \<times> gval) list \<Rightarrow> (string \<times> gval) list" where
  "put_account look e body = (case ev_Security e of
     None \<Rightarrow> body
   | Some sec \<Rightarrow>
       if sec_UserID sec = [] then body
       else let body = map_put body ''UserID'' (VString (sec_UserID sec)) in
            case parseSecurityAccount look sec of
              None \<Rightarrow> body
            | Some sec' \<Rightarrow> map_put (map_put (map_put body ''AccountName'' (VString (sec_Name sec')))
                             ''Domain'' (VString (sec_Domain sec'))) ''AccountType'' (VString (sec_Type sec')))"

definition put_execution :: "EventXML \<Rightarrow> (string \<times> gval) list \<Rightarrow> (string \<times> gval) list" where
  "put_execution e body = (case ev_Execution e of
     None \<Rightarrow> body
   | Some x \<Rightarrow>
       put_uint ''ProcessorTime'' (ex_ProcessorTime x)
        (put_uint ''UserTime'' (ex_UserTime x)
          (put_uint ''KernelTime'' (ex_KernelTime x)
            (put_uint ''SessionID'' (ex_SessionID x)
              (put_uint ''ProcessorID'' (ex_ProcessorID x)
                (put_uint ''ThreadID'' (nonzero (ex_ThreadID x))
                  (put_uint ''ProcessID'' (nonzero (ex_ProcessID x)) body)))))))"

definition formattedBody ::
  "(string \<Rightarrow> (string \<times> string \<times> int) option) \<Rightarrow> EventXML \<Rightarrow> (string \<times> gval) list" where
  "formattedBody look e0 =
     (let pm = parseMessage (ev_Channel e0) (ev_Message e0);
          pw = parseWinMeta e0; e = snd pw;
          meta = fst pw;
          body = system_fields e (fst pm) (fst meta) (fst (snd meta)) (fst (snd (snd meta)))
                   (snd (snd (snd meta)));
          body = put_account look e body;
          body = foldl put_data body (ev_Data e);
          body = (case snd pm of
                    Some details \<Rightarrow> if details \<noteq> [] then map_put body ''Details'' (VMap details) else body
                  | None \<Rightarrow> body);
          body = put_execution e body
      in case ev_Correlation e of
           Some (act, rel) \<Rightarrow> map_put (map_put body ''ActivityID'' (VString act))
                                ''RelatedActivityID'' (VString rel)
         | None \<Rightarrow> body)"

section \<open>Filtering and sending\<close>

record eventFilters =
  fl_EventID :: "int list"
  fl_Level :: "int list"
  fl_Custom :: "(string \<times> string) list list"

text \<open>\<open>executeEventFilter\<close>. The custom filters look a field up with \<open>reflect.ValueOf(eventXML)\<close>,
  where \<open>eventXML\<close> is a pointer; \<open>Value.FieldByName\<close> panics on a value whose kind is not
  \<open>Struct\<close>, so the first custom filter that is reached panics and none of its operators runs.\<close>

definition executeEventFilter :: "eventFilters option \<Rightarrow> EventXML \<Rightarrow> bool outcome" where
  "executeEventFilter fl e = (case fl of
     None \<Rightarrow> Done True
   | Some f \<Rightarrow>
       if ev_EventID e \<in> set (fl_EventID f) then Done False
       else if ev_Level e \<in> set (fl_Level f) then Done False
       else if fl_Custom f \<noteq> []
       then Panic ''reflect: call of reflect.Value.FieldByName on ptr Value''
       else Done True)"

text \<open>The configuration an input sends with: \<open>in_attributes\<close> are the configured attributes with
  their rendered values, \<open>in_remote\<close> the server a remote input reads.\<close>

record input_config =
  in_filters :: "eventFilters option"
  in_raw :: bool
  in_attributes :: "(string \<times> string) list"
  in_remote :: string

definition Attribute :: "(string \<times> string) list \<Rightarrow> Entry \<Rightarrow> Entry" where
  "Attribute attrs e = foldl (\<lambda>e (k, v). AddAttribute e k v) e attrs"

definition NewEntry :: "input_config \<Rightarrow> int \<Rightarrow> gval \<Rightarrow> Entry" where
  "NewEntry cfg now v = Attribute (in_attributes cfg) ((newEntry now)\<lparr>e_Body := v\<rparr>)"

text \<open>\<open>sendEvent\<close> up to its call of \<open>Write\<close>: the entry it hands over, \<^const>\<open>None\<close> when the filter
  drops the event. \<open>parse_time\<close> is \<open>parseTimestamp\<close>, the RFC 3339 parser of package \<open>time\<close>. The
  assignment to \<open>e.Attributes\<close> panics on a nil map.\<close>

definition sendEvent ::
  "(string \<Rightarrow> (string \<times> string \<times> int) option) \<Rightarrow> (string \<Rightarrow> int) \<Rightarrow> input_config \<Rightarrow> int \<Rightarrow> EventXML
   \<Rightarrow> Entry option outcome" where
  "sendEvent look parse_time cfg now x = (case executeEventFilter (in_filters cfg) x of
     Panic p \<Rightarrow> Panic p
   | Done False \<Rightarrow> Done None
   | Done True \<Rightarrow>
       (let body = (if in_raw cfg then VString (ev_Original x) else VMap (formattedBody look x));
            e = (NewEntry cfg now body)\<lparr>e_EventTime := parse_time (ev_SystemTime x)\<rparr>
        in if in_remote cfg \<noteq> [] then
             (case e_Attributes e of
                None \<Rightarrow> Panic ''assignment to entry in nil map''
              | Some m \<Rightarrow> Done (Some (e\<lparr>e_Attributes :=
                            Some (map_put m ''server.address'' (VString (in_remote cfg)))\<rparr>)))
           else Done (Some e)))"

text \<open>\<open>WriterOperator.Write\<close>: each output operator but the last receives a copy of the entry; the
  error of the last one is the result. An operator is its effect on a state \<open>'s\<close> and its error.\<close>

fun writer_Write ::
  "(Entry \<Rightarrow> Entry) \<Rightarrow> (Entry \<Rightarrow> 's \<Rightarrow> string option \<times> 's) list \<Rightarrow> Entry \<Rightarrow> 's \<Rightarrow> string option \<times> 's" where
  "writer_Write cp [] e s = (None, s)"
| "writer_Write cp [op] e s = op e s"
| "writer_Write cp (op # op' # ops) e s = writer_Write cp (op' # ops) e (snd (op (cp e) s))"

section \<open>The batching emitter\<close>

text \<open>The state two goroutines share under \<open>batchMux\<close>. A batch taken under the lock is handed to
  \<open>consumerFunc\<close> after the lock is released, so it is pending in between.\<close>

record 'e emitter =
  em_batch :: "'e list"
  em_max :: nat
  em_pending :: "'e list list"
  em_delivered :: "'e list list"

definition emitter_batch :: "'e emitter \<Rightarrow> 'e emitter" where
  "emitter_batch e = e\<lparr>em_batch := [], em_pending := em_pending e @ (if em_batch e = [] then [] else [em_batch e])\<rparr>"

definition appendEntries :: "'e list \<Rightarrow> 'e emitter \<Rightarrow> 'e emitter" where
  "appendEntries es e =
     (let e' = e\<lparr>em_batch := em_batch e @ es\<rparr> in
      if em_max e \<le> length (em_batch e') then emitter_batch e' else e')"

definition appendEntry :: "'e \<Rightarrow> 'e emitter \<Rightarrow> 'e emitter" where
  "appendEntry x e =
     (let e' = e\<lparr>em_batch := em_batch e @ [x]\<rparr> in
      if em_max e \<le> length (em_batch e') then emitter_batch e' else e')"

definition makeNewBatch :: "'e emitter \<Rightarrow> 'e emitter" where
  "makeNewBatch e = (if em_batch e = [] then e else emitter_batch e)"

text \<open>\<open>consumerFunc\<close> receives the \<open>i\<close>-th pending batch.\<close>

definition deliver :: "nat \<Rightarrow> 'e emitter \<Rightarrow> 'e emitter" where
  "deliver i e = e\<lparr>em_pending := take i (em_pending e) @ drop (Suc i) (em_pending e),
     em_delivered := em_delivered e @ [em_pending e ! i]\<rparr>"

text \<open>Runs of the emitter: calls of \<open>Process\<close> and \<open>ProcessBatch\<close>, ticks of the flusher and calls
  of the consumer in any order; the first argument lists the entries that were processed.\<close>

inductive emits :: "nat \<Rightarrow> 'e list \<Rightarrow> 'e emitter \<Rightarrow> bool" for mx where
  start: "emits mx [] \<lparr>em_batch = [], em_max = mx, em_pending = [], em_delivered = []\<rparr>"
| process: "emits mx xs e \<Longrightarrow> emits mx (xs @ [x]) (appendEntry x e)"
| process_batch: "emits mx xs e \<Longrightarrow> emits mx (xs @ ys) (appendEntries ys e)"
| flush: "emits mx xs e \<Longrightarrow> emits mx xs (makeNewBatch e)"
| consume: "\<lbrakk>emits mx xs e; i < length (em_pending e)\<rbrakk> \<Longrightarrow> emits mx xs (deliver i e)"

text \<open>\<open>Stop\<close> with no call in flight: the flusher takes what is batched and every pending batch
  reaches the consumer.\<close>

definition emitter_Stop :: "'e emitter \<Rightarrow> 'e emitter" where
  "emitter_Stop e = (let e' = makeNewBatch e in
     e'\<lparr>em_pending := [], em_delivered := em_delivered e' @ em_pending e'\<rparr>)"

end
