(* ===== verification/Sensor_Entry_Props.thy ===== *)
theory Sensor_Entry_Props
  imports Sensor_Entry
begin

text \<open>
  Properties of the sensor's log entry: the notation of a field is read back, the fields obey
  the laws of a store (locale \<open>entry_field\<close>, interpreted on body fields and on attribute
  fields), and the encoded object is the documented overlay of struct, attributes and body.
\<close>

section \<open>Dot notation is read back\<close>

lemma dot_loop_token:
  "\<lbrakk>CHR ''.'' \<notin> set w; CHR ''['' \<notin> set w\<rbrakk> \<Longrightarrow>
   dot_loop InUnbracketedToken q tok fs (w @ s) = dot_loop InUnbracketedToken q (tok @ w) fs s"
  by (induction w arbitrary: tok) auto

lemma dot_loop_quoted:
  "q \<notin> set w \<Longrightarrow>
   dot_loop InQuote q tok fs (w @ q # s) = dot_loop OutQuote q (tok @ w) (fs @ [tok @ w]) s"
  by (induction w arbitrary: tok) auto

lemma dot_loop_join:
  "\<lbrakk>ks \<noteq> []; \<And>k. k \<in> set ks \<Longrightarrow> CHR ''.'' \<notin> set k \<and> CHR ''['' \<notin> set k\<rbrakk> \<Longrightarrow>
   dot_loop InUnbracketedToken q [] fs (join ks ''.'') = Inr (fs @ ks)"
proof (induction ks arbitrary: fs rule: induct_list012)
  case (2 x)
  then show ?case using dot_loop_token[of x q "[]" fs "[]"] by simp
next
  case (3 x y ys)
  then show ?case using dot_loop_token[of x q "[]" fs "''.'' @ join (y # ys) ''.''"] by simp
qed simp

lemma dot_loop_brackets:
  "(\<And>k. k \<in> set ks \<Longrightarrow> sq \<notin> set k) \<Longrightarrow>
   dot_loop OutBracket q tok fs (concat (map (\<lambda>k. CHR ''['' # sq # k @ [sq, CHR '']'']) ks)) = Inr (fs @ ks)"
proof (induction ks arbitrary: q tok fs)
  case (Cons k ks)
  then show ?case by (simp add: dot_loop_quoted)
qed simp

lemma dot_loop_token_brackets:
  "\<lbrakk>ks \<noteq> []; \<And>k. k \<in> set ks \<Longrightarrow> sq \<notin> set k\<rbrakk> \<Longrightarrow>
   dot_loop InUnbracketedToken q tok fs (concat (map (\<lambda>k. CHR ''['' # sq # k @ [sq, CHR '']'']) ks))
     = Inr (fs @ tok # ks)"
  by (cases ks) (simp_all add: dot_loop_quoted dot_loop_brackets)

text \<open>The keys the notation can express: with a dot in some key the keys are quoted and may not
  hold a quote, otherwise they may not hold a bracket.\<close>

definition expressible :: "string list \<Rightarrow> bool" where
  "expressible ks \<longleftrightarrow>
     (if \<exists>k\<in>set ks. CHR ''.'' \<in> set k then \<forall>k\<in>set ks. sq \<notin> set k
      else \<forall>k\<in>set ks. CHR ''['' \<notin> set k)"

lemma fromJSONDot_toJSONDot:
  assumes "p \<noteq> []" "CHR ''.'' \<notin> set p" "CHR ''['' \<notin> set p" "expressible ks"
  shows "fromJSONDot (toJSONDot p ks) = Inr (p # ks)"
proof -
  obtain c w where p: "p = c # w" using assms(1) by (cases p) auto
  have start: "dot_loop Begin q [] [] (p @ s) = dot_loop InUnbracketedToken q p [] s" for q s
    using assms(2,3) dot_loop_token[of w q "[c]" "[]" s] by (auto simp: p)
  show ?thesis
  proof (cases "ks = []")
    case True
    then show ?thesis using start[of _ "[]"] by (simp add: fromJSONDot_def toJSONDot_def)
  next
    case False
    then show ?thesis using assms(4) dot_loop_join[of ks _ "[p]"]
      by (auto simp: fromJSONDot_def toJSONDot_def start contains_char_iff expressible_def
          dot_loop_token_brackets split: if_splits)
  qed
qed

section \<open>Paths\<close>

lemma getNestedMap_VMap [simp]: "map_get m k = Some (VMap m') \<Longrightarrow> getNestedMap m k = m'"
  by (simp add: getNestedMap_def)

lemma set_keys_simps [simp]:
  "set_keys [k] v m = map_put m k v"
  "set_keys (k # k' # ks) v m = map_put m k (VMap (set_keys (k' # ks) v (getNestedMap m k)))"
  by (simp_all add: set_keys_def)

lemma get_path_set_keys: "ks \<noteq> [] \<Longrightarrow> get_path ks (VMap (set_keys ks v m)) = Some v"
  by (induction ks arbitrary: m rule: induct_list012) (auto simp: map_of_map_put)

lemma set_keys_twice:
  "ks \<noteq> [] \<Longrightarrow> set_keys ks w (set_keys ks v m) = set_keys ks w m"
proof (induction ks arbitrary: m rule: induct_list012)
  case (2 k)
  show ?case by (induction m) auto
next
  case (3 k k' ks)
  have put_put: "map_put (map_put m k a) k b = map_put m k b" for a b :: gval
    by (induction m) auto
  show ?case using 3 by (simp add: map_of_map_put put_put)
qed simp

text \<open>Two paths that part ways: neither is a prefix of the other.\<close>

fun diverge :: "string list \<Rightarrow> string list \<Rightarrow> bool" where
  "diverge (k # ks) (k' # ks') = (if k = k' then diverge ks ks' else True)"
| "diverge _ _ = False"

lemma diverge_sym: "diverge ks ks' \<longleftrightarrow> diverge ks' ks"
  by (induction ks ks' rule: diverge.induct) (auto elim: diverge.elims)

lemma diverge_not_Nil: "diverge ks ks' \<Longrightarrow> ks \<noteq> [] \<and> ks' \<noteq> []"
  by (cases "(ks, ks')" rule: diverge.cases) auto

lemma get_path_empty: "ks \<noteq> [] \<Longrightarrow> get_path ks (VMap []) = None"
  by (cases ks) auto

lemma get_path_scalar: "\<lbrakk>ks \<noteq> []; \<not> is_map v\<rbrakk> \<Longrightarrow> get_path ks v = None"
  by (cases ks; cases v) auto

lemma get_path_getNestedMap:
  assumes "ks \<noteq> []"
  shows "get_path ks (VMap (getNestedMap m k)) =
         (case map_get m k of None \<Rightarrow> None | Some v \<Rightarrow> get_path ks v)"
proof (cases "map_get m k")
  case None
  then show ?thesis using assms by (simp add: getNestedMap_def get_path_empty)
next
  case (Some v)
  then show ?thesis using assms by (cases v) (simp_all add: getNestedMap_def get_path_empty get_path_scalar)
qed

lemma get_path_set_keys_other:
  "diverge ks ks' \<Longrightarrow> get_path ks' (VMap (set_keys ks v m)) = get_path ks' (VMap m)"
proof (induction ks ks' arbitrary: m rule: diverge.induct)
  case (1 k ks k' ks')
  show ?case
  proof (cases "k = k'")
    case True
    then have d: "diverge ks ks'" using 1(2) by simp
    then obtain x xs where ks: "ks = x # xs" and ne: "ks' \<noteq> []" using diverge_not_Nil by (cases ks) auto
    show ?thesis using 1(1)[OF True d] True ne
      by (simp add: ks map_of_map_put get_path_getNestedMap)
  next
    case False
    then show ?thesis by (cases ks) (simp_all add: map_of_map_put)
  qed
qed simp_all

lemma del_path_None: "ks \<noteq> [] \<Longrightarrow> del_path ks m = None \<longleftrightarrow> get_path ks (VMap m) = None"
  by (induction ks m rule: del_path.induct)
    (auto split: option.splits gval.splits simp: get_path_scalar)

lemma del_path_Some:
  "del_path ks m = Some (m', v) \<Longrightarrow> get_path ks (VMap m) = Some v \<and> get_path ks (VMap m') = None"
proof (induction ks m arbitrary: m' v rule: del_path.induct)
  case (2 k ks m)
  show ?case
  proof (cases "ks = []")
    case True
    then show ?thesis using 2(2) by (auto simp: map_of_map_del split: option.splits)
  next
    case False
    then obtain m1 m2 where *: "map_get m k = Some (VMap m1)" "del_path ks m1 = Some (m2, v)"
      "m' = map_put m k (VMap m2)"
      using 2(2) by (auto split: option.splits gval.splits)
    then show ?thesis using 2(1)[OF *(1) False refl *(2)] by (simp add: map_of_map_put)
  qed
qed simp

lemma del_path_other:
  "\<lbrakk>del_path ks m = Some (m', v); diverge ks ks'\<rbrakk> \<Longrightarrow>
   get_path ks' (VMap m') = get_path ks' (VMap m)"
proof (induction ks ks' arbitrary: m m' rule: diverge.induct)
  case (1 k ks k' ks')
  show ?case
  proof (cases "k = k'")
    case True
    then have d: "diverge ks ks'" using 1(3) by simp
    then have "ks \<noteq> []" using diverge_not_Nil by auto
    then obtain m1 m2 where *: "map_get m k = Some (VMap m1)" "del_path ks m1 = Some (m2, v)"
      "m' = map_put m k (VMap m2)"
      using 1(2) by (auto split: option.splits gval.splits)
    then show ?thesis using 1(1)[OF True *(2) d] True by (simp add: map_of_map_put)
  next
    case False
    then show ?thesis using 1(2)
      by (auto simp: map_of_map_put map_of_map_del split: option.splits if_splits gval.splits)
  qed
qed simp_all

section \<open>The contract of a field\<close>

text \<open>What \<open>FieldInterface\<close> promises to its callers, for the fields below the root.\<close>

locale entry_field =
  fixes Get :: "string list \<Rightarrow> Entry \<Rightarrow> gval \<times> bool"
    and Set :: "string list \<Rightarrow> Entry \<Rightarrow> gval \<Rightarrow> Entry \<times> string option"
    and Delete :: "string list \<Rightarrow> Entry \<Rightarrow> Entry \<times> gval \<times> bool"
  assumes set_ok: "\<lbrakk>ks \<noteq> []; \<not> is_map v\<rbrakk> \<Longrightarrow> snd (Set ks e v) = None"
    and get_set: "\<lbrakk>ks \<noteq> []; \<not> is_map v\<rbrakk> \<Longrightarrow> Get ks (fst (Set ks e v)) = (v, True)"
    and get_set_other: "\<lbrakk>diverge ks ks'; \<not> is_map v; Get ks' e = (w, True)\<rbrakk> \<Longrightarrow>
          Get ks' (fst (Set ks e v)) = (w, True)"
    and miss_set_other: "\<lbrakk>diverge ks ks'; \<not> is_map v; \<not> snd (Get ks' e)\<rbrakk> \<Longrightarrow>
          \<not> snd (Get ks' (fst (Set ks e v)))"
    and delete_found: "\<lbrakk>ks \<noteq> []; Get ks e = (w, True)\<rbrakk> \<Longrightarrow>
          snd (Delete ks e) = (w, True) \<and> \<not> snd (Get ks (fst (Delete ks e)))"
    and delete_missing: "\<lbrakk>ks \<noteq> []; \<not> snd (Get ks e)\<rbrakk> \<Longrightarrow>
          fst (Delete ks e) = e \<and> \<not> snd (snd (Delete ks e))"
    and get_delete_other: "\<lbrakk>diverge ks ks'; snd (snd (Delete ks e))\<rbrakk> \<Longrightarrow>
          Get ks' (fst (Delete ks e)) = Get ks' e"
begin

definition view :: "string list \<Rightarrow> Entry \<Rightarrow> gval option" where
  "view ks e = (case Get ks e of (v, ok) \<Rightarrow> if ok then Some v else None)"

lemma view_set: "\<lbrakk>ks \<noteq> []; \<not> is_map v\<rbrakk> \<Longrightarrow> view ks (fst (Set ks e v)) = Some v"
  by (simp add: view_def get_set)

lemma view_set_other:
  assumes "diverge ks ks'" "\<not> is_map v"
  shows "view ks' (fst (Set ks e v)) = view ks' e"
proof (cases "Get ks' e")
  case (Pair w ok)
  then show ?thesis
    using get_set_other[OF assms, of e w] miss_set_other[OF assms, of e]
    by (cases ok) (auto simp: view_def split: prod.splits)
qed

lemma view_delete:
  assumes "ks \<noteq> []"
  shows "view ks (fst (Delete ks e)) = None"
    and "view ks e = (let (v, ok) = snd (Delete ks e) in if ok then Some v else None)"
proof -
  obtain w ok where g: "Get ks e = (w, ok)" by (cases "Get ks e")
  show "view ks (fst (Delete ks e)) = None"
    using assms g delete_found[of ks e w] delete_missing[of ks e]
    by (cases ok) (auto simp: view_def split: prod.splits)
  show "view ks e = (let (v, ok) = snd (Delete ks e) in if ok then Some v else None)"
    using assms g delete_found[of ks e w] delete_missing[of ks e]
    by (cases ok) (auto simp: view_def split: prod.splits)
qed

lemma view_delete_other:
  assumes "diverge ks ks'"
  shows "view ks' (fst (Delete ks e)) = view ks' e"
proof (cases "snd (snd (Delete ks e))")
  case True
  then show ?thesis by (simp add: view_def get_delete_other[OF assms])
next
  case False
  have "ks \<noteq> []" using assms diverge_not_Nil by blast
  moreover obtain w ok where g: "Get ks e = (w, ok)" by (cases "Get ks e")
  ultimately show ?thesis
    using False delete_found[of ks e w] delete_missing[of ks e] by (cases ok) auto
qed

text \<open>Moving a value: what is deleted at one path and set at another is found there, and no
  third path notices.\<close>

lemma move:
  assumes "diverge a b" "view a e = Some v" "\<not> is_map v"
  defines "e' \<equiv> fst (Set b (fst (Delete a e)) v)"
  shows "view b e' = Some v" "view a e' = None"
    and "\<lbrakk>diverge a c; diverge b c\<rbrakk> \<Longrightarrow> view c e' = view c e"
  using assms diverge_not_Nil[of a b] diverge_sym[of a b]
  by (simp_all add: view_set view_set_other view_delete(1) view_delete_other)

end

abbreviation body_get :: "string list \<Rightarrow> Entry \<Rightarrow> gval \<times> bool" where
  "body_get ks e \<equiv> Field_Get (BodyField ks) e"
abbreviation body_set :: "string list \<Rightarrow> Entry \<Rightarrow> gval \<Rightarrow> Entry \<times> string option" where
  "body_set ks e v \<equiv> Field_Set (BodyField ks) e v"
abbreviation body_delete :: "string list \<Rightarrow> Entry \<Rightarrow> Entry \<times> gval \<times> bool" where
  "body_delete ks e \<equiv> Field_Delete (BodyField ks) e"
abbreviation attr_get :: "string list \<Rightarrow> Entry \<Rightarrow> gval \<times> bool" where
  "attr_get ks e \<equiv> Field_Get (AttributeField ks) e"
abbreviation attr_set :: "string list \<Rightarrow> Entry \<Rightarrow> gval \<Rightarrow> Entry \<times> string option" where
  "attr_set ks e v \<equiv> Field_Set (AttributeField ks) e v"
abbreviation attr_delete :: "string list \<Rightarrow> Entry \<Rightarrow> Entry \<times> gval \<times> bool" where
  "attr_delete ks e \<equiv> Field_Delete (AttributeField ks) e"

lemma not_map_as_map: "\<not> is_map v \<Longrightarrow> as_map v = None"
  by simp

lemma get_path_body_map: "ks \<noteq> [] \<Longrightarrow> get_path ks (VMap (body_map e)) = get_path ks (e_Body e)"
  by (cases "e_Body e") (simp_all add: body_map_def get_path_empty get_path_scalar)

lemma body_set_eq:
  "\<lbrakk>ks \<noteq> []; \<not> is_map v\<rbrakk> \<Longrightarrow>
   body_set ks e v = (e\<lparr>e_Body := VMap (set_keys ks v (body_map e))\<rparr>, None)"
  by (simp add: not_map_as_map)

lemma body_delete_eq:
  "ks \<noteq> [] \<Longrightarrow> body_delete ks e = (case get_path ks (e_Body e) of
     None \<Rightarrow> (e, VNil, False)
   | Some v \<Rightarrow> (e\<lparr>e_Body := VMap (fst (the (del_path ks (body_map e))))\<rparr>, v, True))"
  using del_path_None[of ks] del_path_Some[of ks]
  by (cases "e_Body e") (auto simp: body_map_def get_path_scalar split: option.splits)

interpretation body: entry_field body_get body_set body_delete
proof
  fix ks ks' :: "string list" and v w :: gval and e :: Entry
  show "\<lbrakk>ks \<noteq> []; \<not> is_map v\<rbrakk> \<Longrightarrow> snd (body_set ks e v) = None"
    by (simp add: body_set_eq del: Field_Set.simps)
  show "\<lbrakk>ks \<noteq> []; \<not> is_map v\<rbrakk> \<Longrightarrow> body_get ks (fst (body_set ks e v)) = (v, True)"
    by (simp add: body_set_eq get_path_set_keys del: Field_Set.simps)
  show "\<lbrakk>diverge ks ks'; \<not> is_map v; body_get ks' e = (w, True)\<rbrakk> \<Longrightarrow>
        body_get ks' (fst (body_set ks e v)) = (w, True)"
    using diverge_not_Nil[of ks ks']
    by (simp add: body_set_eq get_path_set_keys_other get_path_body_map del: Field_Set.simps)
  show "\<lbrakk>diverge ks ks'; \<not> is_map v; \<not> snd (body_get ks' e)\<rbrakk> \<Longrightarrow>
        \<not> snd (body_get ks' (fst (body_set ks e v)))"
    using diverge_not_Nil[of ks ks']
    by (simp add: body_set_eq get_path_set_keys_other get_path_body_map del: Field_Set.simps)
  show "\<lbrakk>ks \<noteq> []; body_get ks e = (w, True)\<rbrakk> \<Longrightarrow>
        snd (body_delete ks e) = (w, True) \<and> \<not> snd (body_get ks (fst (body_delete ks e)))"
    using del_path_None[of ks "body_map e"] del_path_Some[of ks "body_map e"] get_path_body_map[of ks e]
    by (auto simp: body_delete_eq simp del: Field_Delete.simps split: option.splits)
  show "\<lbrakk>ks \<noteq> []; \<not> snd (body_get ks e)\<rbrakk> \<Longrightarrow>
        fst (body_delete ks e) = e \<and> \<not> snd (snd (body_delete ks e))"
    by (auto simp: body_delete_eq simp del: Field_Delete.simps split: option.splits)
  show "\<lbrakk>diverge ks ks'; snd (snd (body_delete ks e))\<rbrakk> \<Longrightarrow>
        body_get ks' (fst (body_delete ks e)) = body_get ks' e"
    using diverge_not_Nil[of ks ks'] del_path_other[of ks "body_map e" _ _ ks']
      del_path_None[of ks "body_map e"] get_path_body_map[of ks e] get_path_body_map[of ks' e]
    by (auto simp: body_delete_eq simp del: Field_Delete.simps split: option.splits)
qed

definition attr_map :: "Entry \<Rightarrow> (string \<times> gval) list" where
  "attr_map e = (case e_Attributes e of None \<Rightarrow> [] | Some m \<Rightarrow> m)"

lemma attr_get_path:
  "ks \<noteq> [] \<Longrightarrow> snd (attr_get ks e) = (get_path ks (VMap (attr_map e)) \<noteq> None)"
  "\<lbrakk>ks \<noteq> []; get_path ks (VMap (attr_map e)) = Some v\<rbrakk> \<Longrightarrow> attr_get ks e = (v, True)"
  "\<lbrakk>ks \<noteq> []; attr_get ks e = (v, True)\<rbrakk> \<Longrightarrow> get_path ks (VMap (attr_map e)) = Some v"
  by (auto simp: attr_map_def get_path_empty split: option.splits)

lemma attr_set_eq:
  "\<lbrakk>ks \<noteq> []; \<not> is_map v\<rbrakk> \<Longrightarrow>
   attr_set ks e v = (e\<lparr>e_Attributes := Some (set_keys ks v (attr_map e))\<rparr>, None)"
  by (simp add: not_map_as_map attr_map_def)

lemma attr_delete_eq:
  "\<lbrakk>ks \<noteq> []; get_path ks (VMap (attr_map e)) = Some v\<rbrakk> \<Longrightarrow> attr_delete ks e =
     (e\<lparr>e_Attributes := Some (fst (the (del_path ks (attr_map e))))\<rparr>, v, True)"
  "\<lbrakk>ks \<noteq> []; get_path ks (VMap (attr_map e)) = None\<rbrakk> \<Longrightarrow>
     fst (attr_delete ks e) = e \<and> \<not> snd (snd (attr_delete ks e))"
  using del_path_None[of ks "attr_map e"] del_path_Some[of ks "attr_map e"]
  by (auto simp: attr_map_def get_path_empty split: option.splits)

lemma attr_map_update [simp]: "attr_map (e\<lparr>e_Attributes := Some m\<rparr>) = m"
  by (simp add: attr_map_def)

lemma attr_delete_found:
  assumes ne: "ks \<noteq> []" and g: "attr_get ks e = (w, True)"
  shows "snd (attr_delete ks e) = (w, True) \<and> \<not> snd (attr_get ks (fst (attr_delete ks e)))"
proof -
  have p: "get_path ks (VMap (attr_map e)) = Some w" by (rule attr_get_path(3)[OF ne g])
  then obtain m' y where m': "del_path ks (attr_map e) = Some (m', y)"
    using del_path_None[OF ne, of "attr_map e"] by fastforce
  show ?thesis
    using attr_delete_eq(1)[OF ne p] m' del_path_Some[OF m'] attr_get_path(1)[OF ne]
    by (simp del: Field_Get.simps Field_Delete.simps)
qed

interpretation attr: entry_field attr_get attr_set attr_delete
proof
  fix ks ks' :: "string list" and v w :: gval and e :: Entry
  note no_simps = Field_Get.simps Field_Set.simps Field_Delete.simps
  show "\<lbrakk>ks \<noteq> []; \<not> is_map v\<rbrakk> \<Longrightarrow> snd (attr_set ks e v) = None"
    by (simp add: attr_set_eq del: Field_Set.simps)
  show "\<lbrakk>ks \<noteq> []; \<not> is_map v\<rbrakk> \<Longrightarrow> attr_get ks (fst (attr_set ks e v)) = (v, True)"
    by (intro attr_get_path(2)) (auto simp: attr_set_eq get_path_set_keys simp del: no_simps)
  show "\<lbrakk>diverge ks ks'; \<not> is_map v; attr_get ks' e = (w, True)\<rbrakk> \<Longrightarrow>
        attr_get ks' (fst (attr_set ks e v)) = (w, True)"
    using diverge_not_Nil[of ks ks'] attr_get_path(3)[of ks' e w]
    by (intro attr_get_path(2)) (auto simp: attr_set_eq get_path_set_keys_other simp del: no_simps)
  show "\<lbrakk>diverge ks ks'; \<not> is_map v; \<not> snd (attr_get ks' e)\<rbrakk> \<Longrightarrow>
        \<not> snd (attr_get ks' (fst (attr_set ks e v)))"
    using diverge_not_Nil[of ks ks']
    by (simp add: attr_set_eq attr_get_path(1) get_path_set_keys_other del: no_simps)
  show "\<lbrakk>ks \<noteq> []; attr_get ks e = (w, True)\<rbrakk> \<Longrightarrow>
        snd (attr_delete ks e) = (w, True) \<and> \<not> snd (attr_get ks (fst (attr_delete ks e)))"
    by (rule attr_delete_found)
  show "\<lbrakk>ks \<noteq> []; \<not> snd (attr_get ks e)\<rbrakk> \<Longrightarrow>
        fst (attr_delete ks e) = e \<and> \<not> snd (snd (attr_delete ks e))"
    using attr_get_path(1)[of ks e] attr_delete_eq(2)[of ks e] by blast
  assume d: "diverge ks ks'" and found: "snd (snd (attr_delete ks e))"
  have ne: "ks \<noteq> []" "ks' \<noteq> []" using d diverge_not_Nil by auto
  obtain x where x: "get_path ks (VMap (attr_map e)) = Some x"
    using found attr_delete_eq(2)[OF ne(1), of e] by (cases "get_path ks (VMap (attr_map e))") auto
  then obtain m' y where m': "del_path ks (attr_map e) = Some (m', y)"
    using del_path_None[OF ne(1), of "attr_map e"] by fastforce
  have some: "e_Attributes e = Some (attr_map e)"
    using x ne(1) by (auto simp: attr_map_def get_path_empty split: option.splits)
  show "attr_get ks' (fst (attr_delete ks e)) = attr_get ks' e"
    using attr_delete_eq(1)[OF ne(1) x] m' some del_path_other[OF m' d] by simp
qed

section \<open>Encoding and copying\<close>

lemma map_of_put_absent: "map_of (put_absent m mv) = map_of mv ++ map_of m"
proof (induction mv arbitrary: m)
  case (Cons kv mv)
  obtain k v where kv: "kv = (k, v)" by (cases kv)
  have step: "put_absent m ((k, v) # mv) =
    put_absent (if map_of m k = None then map_put m k v else m) mv"
    by (simp add: put_absent_def)
  show ?case
    by (auto simp: kv step Cons.IH map_of_map_put map_add_def fun_eq_iff split: option.splits)
qed (simp add: put_absent_def)

fun plain_value :: "gval \<Rightarrow> bool" where
  "plain_value VNil = True"
| "plain_value (VString _) = True"
| "plain_value (VInt _) = True"
| "plain_value (VBool _) = True"
| "plain_value (VStrings _) = True"
| "plain_value (VMap m) = list_all (\<lambda>(_, v). plain_value v) m"
| "plain_value (VSlice vs) = list_all plain_value vs"
| "plain_value _ = False"

lemma copyValue_plain: "plain_value v \<Longrightarrow> copyValue C U v = v"
proof (induction v rule: plain_value.induct)
  case (6 m)
  then have "(k, copyValue C U v) = (k, v)" if "(k, v) \<in> set m" for k v
    using that by (fastforce simp: list_all_iff)
  then show ?case by (auto intro: map_idI)
next
  case (7 vs)
  then show ?case by (auto simp: list_all_iff intro: map_idI)
qed auto

end
