(* ===== verification/Sensor_Winevt_Props.thy ===== *)
theory Sensor_Winevt_Props
  imports Sensor_Winevt Sensor_Entry_Props "HOL-Library.Multiset"
begin

text \<open>
  Lemmas on the Windows event input: the audit messages of the Security channel are read back from
  their printed form, what the body of an event holds under each name, and the invariant of the
  batching emitter.
\<close>

section \<open>Lines of a message\<close>

lemma indent_loop_eq:
  "i \<le> Suc (length (takeWhile (\<lambda>c. c = tab) s)) \<Longrightarrow>
   indent_loop s i = Suc (length (takeWhile (\<lambda>c. c = tab) s))"
proof (induction "Suc (length (takeWhile (\<lambda>c. c = tab) s)) - i" arbitrary: i)
  case 0
  have "\<not> has_prefix s (replicate (Suc (length (takeWhile (\<lambda>c. c = tab) s))) tab)"
  proof
    assume "has_prefix s (replicate (Suc (length (takeWhile (\<lambda>c. c = tab) s))) tab)"
    then have "take (Suc (length (takeWhile (\<lambda>c. c = tab) s))) s =
      replicate (Suc (length (takeWhile (\<lambda>c. c = tab) s))) tab"
      by (simp add: has_prefix_def)
    then show False by (induction s) (auto split: if_splits)
  qed
  moreover have "i = Suc (length (takeWhile (\<lambda>c. c = tab) s))" using 0 by simp
  ultimately show ?case by (subst indent_loop.simps) (simp del: replicate_Suc)
next
  case (Suc x)
  have "i \<le> length (takeWhile (\<lambda>c. c = tab) s)" using Suc(2) by simp
  then have "has_prefix s (replicate i tab)"
  proof (induction s arbitrary: i)
    case (Cons a s)
    then show ?case by (cases i) (auto simp: has_prefix_def split: if_splits)
  qed (simp add: has_prefix_def)
  then show ?case using Suc by (subst indent_loop.simps) simp
qed

lemma countIndent_eq: "countIndent s = length (takeWhile (\<lambda>c. c = tab) s)"
  by (simp add: countIndent_def indent_loop_eq)

definition text_char :: "char \<Rightarrow> bool" where
  "text_char c \<longleftrightarrow> 32 \<le> byte c \<and> byte c < 127"

text \<open>A word of a message: printable ASCII that neither begins nor ends with a blank.\<close>

definition text_word :: "string \<Rightarrow> bool" where
  "text_word w \<longleftrightarrow> w \<noteq> [] \<and> list_all text_char w \<and> hd w \<noteq> CHR '' '' \<and> last w \<noteq> CHR '' ''"

lemma text_char_tab: "list_all text_char w \<Longrightarrow> tab \<notin> set w \<and> newline \<notin> set w"
  by (auto simp: list_all_iff text_char_def)

lemma text_char_no_space: "\<lbrakk>text_char c; c \<noteq> CHR '' ''\<rbrakk> \<Longrightarrow> \<not> is_space (byte c)"
proof
  assume c: "text_char c" "c \<noteq> CHR '' ''" "is_space (byte c)"
  then have "byte c = byte CHR '' ''" by (auto simp: text_char_def is_space_ascii)
  then show False using c(2) by (metis char_of_char)
qed

definition ascii :: "string \<Rightarrow> bool" where
  "ascii s \<longleftrightarrow> list_all (\<lambda>c. byte c < 128) s"

lemma ascii_simps [simp]:
  "ascii []" "ascii (c # s) \<longleftrightarrow> byte c < 128 \<and> ascii s" "ascii (s @ t) \<longleftrightarrow> ascii s \<and> ascii t"
  by (simp_all add: ascii_def)

lemma ascii_text: "list_all text_char w \<Longrightarrow> ascii w"
  by (induction w) (auto simp: text_char_def)

lemma trim_ends:
  assumes "s \<noteq> []" "ascii s" "\<not> is_space (byte (hd s))" "\<not> is_space (byte (last s))"
  shows "trim_space s = s"
proof (rule trim_space_id[of s "hd s" "tl s" "butlast s" "last s"])
  have "c \<in> set s \<Longrightarrow> byte c < 128" for c using assms(2) by (simp add: ascii_def list_all_iff)
  then show "byte (hd s) < 128" "byte (last s) < 128" using assms(1) by auto
qed (use assms in \<open>simp_all add: ascii_def\<close>)

lemma text_wordD:
  assumes "text_word w"
  shows "w \<noteq> []" "ascii w" "\<not> is_space (byte (hd w))" "\<not> is_space (byte (last w))" "tab \<notin> set w"
    "newline \<notin> set w"
proof -
  have "list_all text_char w" "w \<noteq> []" using assms by (simp_all add: text_word_def)
  then have "text_char (hd w)" "text_char (last w)" by (auto simp: list_all_iff)
  then show "w \<noteq> []" "ascii w" "\<not> is_space (byte (hd w))" "\<not> is_space (byte (last w))" "tab \<notin> set w"
    "newline \<notin> set w"
    using assms text_char_no_space ascii_text text_char_tab by (auto simp: text_word_def)
qed

lemma trim_word_id: "text_word w \<Longrightarrow> trim_space w = w"
  by (rule trim_ends) (auto dest: text_wordD)

lemma trim_words: "\<lbrakk>text_word v; text_word w; ascii m\<rbrakk> \<Longrightarrow> trim_space (v @ m @ w) = v @ m @ w"
  by (rule trim_ends) (use text_wordD[of v] text_wordD[of w] in \<open>auto simp: hd_append last_append\<close>)

lemma trim_tab: "trim_space (tab # s) = trim_space s"
  by (simp add: trim_space_def is_space_def)

lemma has_suffix_last: "has_suffix s [c] \<longleftrightarrow> s \<noteq> [] \<and> last s = c"
  by (cases s rule: rev_exhaust) (auto simp: has_suffix_def)

lemma parse_empty_line: "parse_line [] = \<lparr>pl_t = emptyType, pl_i = 0, pl_k = [], pl_v = []\<rparr>"
  by (simp add: parse_line_def countIndent_eq trim_space_def)

lemma contains_tab: "tab \<notin> set s \<Longrightarrow> \<not> contains s (CHR '':'' # [tab])"
  by (auto simp: contains_iff)

lemma no_indent: "\<lbrakk>s \<noteq> []; tab \<notin> set s\<rbrakk> \<Longrightarrow> countIndent s = 0"
  by (cases s) (auto simp: countIndent_eq)

lemma parse_value_line:
  "\<lbrakk>text_word w; last w \<noteq> CHR '':''\<rbrakk> \<Longrightarrow>
   parse_line w = \<lparr>pl_t = valueType, pl_i = 0, pl_k = [], pl_v = w\<rparr>"
  using text_wordD[of w]
  by (simp add: parse_line_def trim_word_id contains_tab no_indent has_suffix_last)

lemma parse_key_line:
  assumes "text_word w"
  shows "parse_line (w @ '':'') = \<lparr>pl_t = keyType, pl_i = 0, pl_k = w, pl_v = []\<rparr>"
proof -
  have "trim_space (w @ '':'') = w @ '':''"
    by (rule trim_ends) (use text_wordD[OF assms] in \<open>auto simp: is_space_def\<close>)
  then show ?thesis using text_wordD[OF assms]
    by (simp add: parse_line_def contains_tab no_indent has_suffix_last)
qed

definition pair_line :: "string \<times> string \<Rightarrow> string" where
  "pair_line kv = tab # fst kv @ CHR '':'' # tab # snd kv"

lemma cut_first: "tab \<notin> set k \<Longrightarrow> cut (CHR '':'' # [tab]) (k @ CHR '':'' # tab # v) = Some (k, v)"
proof (induction k)
  case (Cons a k)
  then show ?case by (cases k) (auto simp: has_prefix_def)
qed (simp add: has_prefix_def)

lemma parse_pair_line:
  assumes "text_word k" "text_word v"
  shows "parse_line (pair_line (k, v)) = \<lparr>pl_t = pairType, pl_i = 1, pl_k = k, pl_v = v\<rparr>"
proof -
  have t: "trim_space (pair_line (k, v)) = k @ CHR '':'' # tab # v"
    using trim_words[OF assms, of "CHR '':'' # [tab]"] by (simp add: pair_line_def trim_tab)
  have i: "countIndent (pair_line (k, v)) = 1"
    using text_wordD[OF assms(1)] by (cases k) (auto simp: countIndent_eq pair_line_def)
  have c: "contains (k @ CHR '':'' # tab # v) (CHR '':'' # [tab])" by (auto simp: contains_iff)
  have "parseKeyValue (k @ CHR '':'' # tab # v) = (k, v)"
    using text_wordD[OF assms(1)] assms
    by (simp add: parseKeyValue_def splitN2_def cut_first trim_word_id)
  then show ?thesis using t i c by (simp add: parse_line_def)
qed

section \<open>Reading an audit message\<close>

text \<open>The processor stands before the lines \<open>ls\<close> and has read at least one.\<close>

definition stands :: "messageProcessor \<Rightarrow> parsedLine list \<Rightarrow> bool" where
  "stands mp ls \<longleftrightarrow> drop (mp_ptr mp) (mp_lines mp) = ls \<and> 0 < mp_ptr mp"

lemma stands_Nil: "stands mp [] \<Longrightarrow> \<not> hasNext mp"
  by (simp add: stands_def hasNext_def)

lemma stands_Cons:
  assumes "stands mp (l # ls)"
  shows "hasNext mp" "fst (mp_next mp) = l" "stands (snd (mp_next mp)) ls"
    "hasNextIndented mp d \<longleftrightarrow> pl_t l \<noteq> emptyType \<and> d \<le> pl_i l"
proof -
  have lt: "mp_ptr mp < length (mp_lines mp)" using assms unfolding stands_def by (metis drop_all leI list.distinct(1))
  have "mp_lines mp ! mp_ptr mp = l \<and> drop (Suc (mp_ptr mp)) (mp_lines mp) = ls"
    using assms Cons_nth_drop_Suc[OF lt] by (simp add: stands_def)
  then show "hasNext mp" "fst (mp_next mp) = l" "stands (snd (mp_next mp)) ls"
    "hasNextIndented mp d \<longleftrightarrow> pl_t l \<noteq> emptyType \<and> d \<le> pl_i l"
    using lt assms by (auto simp: hasNext_def mp_next_def stands_def hasNextIndented_def Let_def)
qed

lemma stands_indented: "stands mp ls \<Longrightarrow>
  hasNextIndented mp d \<longleftrightarrow> (case ls of [] \<Rightarrow> False | l # _ \<Rightarrow> pl_t l \<noteq> emptyType \<and> d \<le> pl_i l)"
  by (cases ls) (simp add: hasNextIndented_def stands_Nil, simp add: stands_Cons(4))

abbreviation empty_line :: parsedLine where
  "empty_line \<equiv> \<lparr>pl_t = emptyType, pl_i = 0, pl_k = [], pl_v = []\<rparr>"
abbreviation key_line :: "string \<Rightarrow> parsedLine" where
  "key_line k \<equiv> \<lparr>pl_t = keyType, pl_i = 0, pl_k = k, pl_v = []\<rparr>"
abbreviation kv_line :: "string \<times> string \<Rightarrow> parsedLine" where
  "kv_line kv \<equiv> \<lparr>pl_t = pairType, pl_i = 1, pl_k = fst kv, pl_v = snd kv\<rparr>"

definition put_pair :: "(string \<times> gval) list \<Rightarrow> string \<times> string \<Rightarrow> (string \<times> gval) list" where
  "put_pair m kv = map_put m (fst kv) (VString (snd kv))"

lemma consumeSubsection_pairs:
  "\<lbrakk>stands mp (map kv_line ps @ rest); rest = [] \<or> hd rest = empty_line\<rbrakk> \<Longrightarrow>
   fst (consumeSubsection d sub mp) = foldl put_pair sub ps \<and>
   stands (snd (consumeSubsection d sub mp)) (tl rest)"
proof (induction ps arbitrary: sub mp)
  case Nil
  show ?case
  proof (cases rest)
    case Nil
    then show ?thesis using \<open>stands mp _\<close> by (subst (1 2) consumeSubsection.simps) (auto dest: stands_Nil)
  next
    case (Cons l ls)
    then show ?thesis using Nil.prems stands_Cons[of mp l ls]
      by (subst (1 2) consumeSubsection.simps) (simp add: Let_def)
  qed
next
  case (Cons p ps)
  have s: "stands mp (kv_line p # map kv_line ps @ rest)" using Cons.prems(1) by simp
  show ?case using Cons.IH[OF stands_Cons(3)[OF s] Cons.prems(2)] stands_Cons(1,2)[OF s]
    by (subst (1 2) consumeSubsection.simps) (simp add: Let_def put_pair_def[symmetric])
qed

type_synonym audit_section = "string \<times> (string \<times> string) list"

definition section_lines :: "audit_section \<Rightarrow> parsedLine list" where
  "section_lines s = empty_line # key_line (fst s) # map kv_line (snd s)"

definition section_value :: "audit_section \<Rightarrow> gval" where
  "section_value s = (if snd s = [] then VString ''-'' else VMap (foldl put_pair [] (snd s)))"

definition put_section :: "(string \<times> gval) list \<Rightarrow> audit_section \<Rightarrow> (string \<times> gval) list" where
  "put_section m s = map_put m (fst s) (section_value s)"

abbreviation audit_lines :: "audit_section list \<Rightarrow> parsedLine list" where
  "audit_lines ss \<equiv> concat (map section_lines ss)"

lemma audit_lines_Cons:
  "audit_lines ((k, ps) # ss) = empty_line # key_line k # map kv_line ps @ audit_lines ss"
  by (simp add: section_lines_def[of "(k, ps)"])

lemma audit_lines_hd: "audit_lines ss = [] \<or> hd (audit_lines ss) = empty_line"
  by (cases ss) (simp_all add: section_lines_def)

lemma security_loop_key:
  assumes IH: "\<And>mp m. stands mp (audit_lines ss) \<or> ss \<noteq> [] \<and> stands mp (tl (audit_lines ss)) \<Longrightarrow>
          security_loop m info mp = (foldl put_section m ss, info)"
    and "stands mp (key_line k # map kv_line ps @ audit_lines ss)"
  shows "security_loop m info mp = (foldl put_section m ((k, ps) # ss), info)"
proof -
  let ?mp = "snd (mp_next mp)"
  note n = stands_Cons[OF assms(2)]
  show ?thesis
  proof (cases ps)
    case Nil
    then have "\<not> hasNextIndented ?mp 1" 
      by (cases ss) (auto simp: stands_indented[OF n(3)] section_lines_def)
    moreover have "stands ?mp (audit_lines ss)" using n(3) Nil by simp
    ultimately show ?thesis using n(1,2) IH Nil
      by (subst security_loop.simps) (simp add: Let_def put_section_def section_value_def)
  next
    case (Cons p ps')
    then have ind: "hasNextIndented ?mp 1" by (simp add: stands_indented[OF n(3)])
    note c = consumeSubsection_pairs[OF n(3) audit_lines_hd, of 1 "[]"]
    have "security_loop m' info (snd (consumeSubsection 1 [] ?mp)) = (foldl put_section m' ss, info)" for m'
      using c by (intro IH) (cases ss, auto)
    then show ?thesis using n(1,2) ind c Cons
      by (subst security_loop.simps) (simp add: Let_def put_section_def section_value_def)
  qed
qed

lemma security_loop_sections:
  "stands mp (audit_lines ss) \<or> ss \<noteq> [] \<and> stands mp (tl (audit_lines ss)) \<Longrightarrow>
   security_loop m info mp = (foldl put_section m ss, info)"
proof (induction ss arbitrary: m mp)
  case Nil
  then show ?case by (subst security_loop.simps) (simp add: stands_Nil)
next
  case (Cons s ss)
  obtain k ps where s: "s = (k, ps)" by (cases s)
  have key: "security_loop m info mp' = (foldl put_section m ((k, ps) # ss), info)"
    if "stands mp' (key_line k # map kv_line ps @ audit_lines ss)" for mp'
    using Cons.IH that by (rule security_loop_key)
  show ?case
  proof (cases "stands mp (audit_lines (s # ss))")
    case True
    then have st: "stands mp (empty_line # key_line k # map kv_line ps @ audit_lines ss)"
      by (simp only: s audit_lines_Cons)
    note n = stands_Cons[OF st]
    show ?thesis using n(1,2) key[OF n(3)] by (subst security_loop.simps) (simp add: Let_def s)
  next
    case False
    then have "stands mp (key_line k # map kv_line ps @ audit_lines ss)"
      using Cons.prems by (simp only: s audit_lines_Cons list.sel simp_thms)
    then show ?thesis using key by (simp add: s)
  qed
qed

text \<open>The printed form of an audit message: a subject and sections of a title line and indented
  pairs, an empty line before each.\<close>

definition section_text :: "audit_section \<Rightarrow> string list" where
  "section_text s = [] # (fst s @ '':'') # map pair_line (snd s)"

definition audit_text :: "string \<Rightarrow> audit_section list \<Rightarrow> string" where
  "audit_text subject ss = join (subject # concat (map section_text ss)) [newline]"

definition audit_ok :: "string \<Rightarrow> audit_section list \<Rightarrow> bool" where
  "audit_ok subject ss \<longleftrightarrow> text_word subject \<and> last subject \<noteq> CHR '':'' \<and>
     list_all (\<lambda>(k, ps). text_word k \<and> list_all (\<lambda>(a, b). text_word a \<and> text_word b) ps) ss"

lemma parse_section:
  "\<lbrakk>text_word k; list_all (\<lambda>(a, b). text_word a \<and> text_word b) ps\<rbrakk> \<Longrightarrow>
   map parse_line (section_text (k, ps)) = section_lines (k, ps)"
  by (auto simp: section_text_def section_lines_def parse_empty_line parse_key_line list_all_iff
      parse_pair_line[unfolded prod.collapse])

lemma join_last:
  "\<lbrakk>xs \<noteq> []; last xs \<noteq> []\<rbrakk> \<Longrightarrow> last (join xs [c]) = last (last xs) \<and> join xs [c] \<noteq> []"
  by (induction xs rule: induct_list012) auto

lemma hd_join: "x \<noteq> [] \<Longrightarrow> hd (join (x # xs) sep) = hd x"
  by (cases xs) simp_all

lemma ascii_join: "\<lbrakk>\<And>x. x \<in> set xs \<Longrightarrow> ascii x; byte c < 128\<rbrakk> \<Longrightarrow> ascii (join xs [c])"
  by (induction xs rule: induct_list012) auto

lemma section_text_ok:
  assumes "text_word k" "list_all (\<lambda>(a, b). text_word a \<and> text_word b) ps" "l \<in> set (section_text (k, ps))"
  shows "ascii l" "newline \<notin> set l"
proof -
  have "ascii l \<and> newline \<notin> set l"
  proof (cases "l \<in> pair_line ` set ps")
    case True
    then obtain a b where ab: "(a, b) \<in> set ps" "l = pair_line (a, b)" by auto
    then have "text_word a" "text_word b" using assms(2) by (auto simp: list_all_iff)
    then show ?thesis using text_wordD[of a] text_wordD[of b] by (simp add: ab pair_line_def)
  next
    case False
    then show ?thesis using assms(3) text_wordD[OF assms(1)] by (auto simp: section_text_def)
  qed
  then show "ascii l" "newline \<notin> set l" by simp_all
qed

lemma section_text_last:
  assumes "text_word k" "list_all (\<lambda>(a, b). text_word a \<and> text_word b) ps"
  shows "last (section_text (k, ps)) \<noteq> [] \<and> \<not> is_space (byte (last (last (section_text (k, ps)))))"
proof (cases ps rule: rev_exhaust)
  case Nil
  then show ?thesis using assms text_wordD[of k] by (simp add: section_text_def is_space_def)
next
  case (snoc ps' p)
  then have "text_word (snd p)" using assms(2) by (auto simp: list_all_iff)
  then show ?thesis using text_wordD[of "snd p"] snoc by (simp add: section_text_def pair_line_def)
qed

lemma audit_lines_read:
  assumes "audit_ok subject ss"
  shows "split (trim_space (audit_text subject ss)) [newline] = subject # concat (map section_text ss)"
proof -
  let ?ls = "subject # concat (map section_text ss)"
  have sub: "text_word subject" and secs: "\<And>k ps. (k, ps) \<in> set ss \<Longrightarrow>
      text_word k \<and> list_all (\<lambda>(a, b). text_word a \<and> text_word b) ps"
    using assms by (auto simp: audit_ok_def list_all_iff)
  have lines: "ascii l \<and> newline \<notin> set l" if l: "l \<in> set ?ls" for l
  proof (cases "l = subject")
    case False
    then obtain k ps where "(k, ps) \<in> set ss" "l \<in> set (section_text (k, ps))" using l by auto
    then show ?thesis using secs[of k ps] section_text_ok[of k ps l] by simp
  qed (use text_wordD[OF sub] in simp)
  have "last ?ls \<noteq> [] \<and> \<not> is_space (byte (last (last ?ls)))"
  proof (cases ss rule: rev_exhaust)
    case Nil
    then show ?thesis using text_wordD[OF sub] by simp
  next
    case (snoc ss' s)
    then show ?thesis using section_text_last[of "fst s" "snd s"] secs[of "fst s" "snd s"]
      by (simp add: section_text_def last_append)
  qed
  moreover have "hd (join ?ls [newline]) = hd subject"
    using text_wordD[OF sub] by (simp add: hd_join)
  ultimately have "trim_space (join ?ls [newline]) = join ?ls [newline]"
    using join_last[of ?ls newline] ascii_join[of ?ls newline] lines text_wordD[OF sub]
    by (intro trim_ends) auto
  moreover have "split (join ?ls [newline]) [newline] = ?ls"
    using lines by (intro split_join) auto
  ultimately show ?thesis by (simp add: audit_text_def)
qed

lemma parseSecurity_audit:
  assumes "audit_ok subject ss"
  shows "parseSecurity (audit_text subject ss) = (subject, Some (foldl put_section [] ss))"
proof -
  have "map parse_line (concat (map section_text ss)) = audit_lines ss"
  proof -
    have "map parse_line (section_text s) = section_lines s" if "s \<in> set ss" for s
      using that assms parse_section[of "fst s" "snd s"] by (auto simp: audit_ok_def list_all_iff)
    then show ?thesis by (simp add: map_concat comp_def cong: map_cong)
  qed
  moreover have subj: "parse_line subject = \<lparr>pl_t = valueType, pl_i = 0, pl_k = [], pl_v = subject\<rparr>"
    using assms by (intro parse_value_line) (simp_all add: audit_ok_def)
  ultimately have mp: "newMessageProcessor (audit_text subject ss) =
      \<lparr>mp_lines = parse_line subject # audit_lines ss, mp_ptr = 0\<rparr>"
    by (simp add: newMessageProcessor_def audit_lines_read[OF assms])
  then have "stands (snd (mp_next (newMessageProcessor (audit_text subject ss)))) (audit_lines ss)"
    by (simp add: stands_def mp_next_def)
  note loop = security_loop_sections[OF disjI1[OF this]]
  have "fst (mp_next (newMessageProcessor (audit_text subject ss))) = parse_line subject"
    by (simp add: mp mp_next_def)
  then show ?thesis by (simp add: parseSecurity_def Let_def loop subj)
qed

lemma map_put_fresh: "k \<notin> fst ` set m \<Longrightarrow> map_put m k v = m @ [(k, v)]"
  by (induction m k v rule: map_put.induct) auto

lemma foldl_map_put_fresh:
  assumes "distinct (map f xs)" "fst ` set m \<inter> f ` set xs = {}"
  shows "foldl (\<lambda>m x. map_put m (f x) (g x)) m xs = m @ map (\<lambda>x. (f x, g x)) xs"
  using assms by (induction xs arbitrary: m) (auto simp: map_put_fresh)

section \<open>What a body holds\<close>

definition kept_data :: "EventXML \<Rightarrow> (string \<times> string) list" where
  "kept_data e = filter (\<lambda>d. fst d \<notin> set data_skipped) (ev_Data e)"

text \<open>The names written after the event data.\<close>

definition later_names :: "string list" where
  "later_names = [''Details'', ''ProcessID'', ''ThreadID'', ''ProcessorID'', ''SessionID'',
     ''KernelTime'', ''UserTime'', ''ProcessorTime'', ''ActivityID'', ''RelatedActivityID'']"

lemma map_of_put_data:
  "map_of (foldl put_data body ds) k =
     (case map_of (rev (filter (\<lambda>d. fst d \<notin> set data_skipped) ds)) k of
        Some v \<Rightarrow> Some (VString v)
      | None \<Rightarrow> map_of body k)"
  by (induction ds arbitrary: body)
    (auto simp: put_data_def map_of_map_put map_of_append map_add_def split: option.splits if_splits)

lemma map_of_put_uint: "k \<noteq> k' \<Longrightarrow> map_of (put_uint k' v m) k = map_of m k"
  by (simp add: put_uint_def map_of_map_put split: option.splits)

lemma map_of_put_execution:
  "k \<notin> set later_names \<Longrightarrow> map_of (put_execution e m) k = map_of m k"
  by (simp add: put_execution_def later_names_def map_of_put_uint split: option.splits)

lemma ev_Data_parseWinMeta [simp]: "ev_Data (snd (parseWinMeta e)) = ev_Data e"
  by (simp add: parseWinMeta_def Let_def)

definition first_fields ::
  "(string \<Rightarrow> (string \<times> string \<times> int) option) \<Rightarrow> EventXML \<Rightarrow> (string \<times> gval) list" where
  "first_fields look e0 =
     (let m = fst (parseWinMeta e0); e = snd (parseWinMeta e0) in
      put_account look e (system_fields e (fst (parseMessage (ev_Channel e0) (ev_Message e0)))
        (fst m) (fst (snd m)) (fst (snd (snd m))) (snd (snd (snd m)))))"

lemma formattedBody_lookup:
  assumes "k \<notin> set later_names"
  shows "map_of (formattedBody look e) k =
    (case map_of (rev (kept_data e)) k of
       Some v \<Rightarrow> Some (VString v)
     | None \<Rightarrow> map_of (first_fields look e) k)"
proof -
  have k: "k \<noteq> ''Details''" "k \<noteq> ''ActivityID''" "k \<noteq> ''RelatedActivityID''"
    using assms by (auto simp: later_names_def)
  show ?thesis
    by (simp add: formattedBody_def Let_def first_fields_def kept_data_def map_of_map_put k
        map_of_put_execution[OF assms] map_of_put_data split: option.splits)
qed

lemma attr_map_AddAttribute:
  "map_of (attr_map (AddAttribute e k v)) = (map_of (attr_map e))(k \<mapsto> VString v)"
  by (simp add: AddAttribute_def attr_map_def map_of_map_put)

lemma Attribute_keeps [simp]:
  "e_Body (Attribute as e) = e_Body e" "e_Timestamp (Attribute as e) = e_Timestamp e"
  "e_EventTime (Attribute as e) = e_EventTime e"
  by (induction as arbitrary: e) (auto simp: Attribute_def AddAttribute_def)

lemma attr_map_Attribute:
  "map_of (attr_map (Attribute as e)) k =
     (case map_of (rev as) k of Some v \<Rightarrow> Some (VString v) | None \<Rightarrow> map_of (attr_map e) k)"
  by (induction as arbitrary: e)
    (auto simp: Attribute_def attr_map_AddAttribute map_of_append map_add_def split: option.splits)

lemma Attribute_None: "e_Attributes (Attribute as e) = None \<longleftrightarrow> as = [] \<and> e_Attributes e = None"
proof -
  have "e_Attributes e \<noteq> None \<Longrightarrow> e_Attributes (Attribute as e) \<noteq> None" for as e
    by (induction as arbitrary: e) (auto simp: Attribute_def AddAttribute_def)
  then show ?thesis by (cases as) (auto simp: Attribute_def AddAttribute_def)
qed

lemma MarshalJSON_lookup:
  "map_of (MarshalJSON received e) k =
     (if k = ''@timestamp'' then Some (VInt64 (e_Timestamp e))
      else if k = ''EventReceivedTime'' then Some (VString (received (e_Timestamp e)))
      else if k = ''EventTime'' then Some (VInt64 (e_EventTime e))
      else case map_of (attr_map e) k of
             Some v \<Rightarrow> Some v
           | None \<Rightarrow> (case as_map (e_Body e) of Some b \<Rightarrow> map_of b k | None \<Rightarrow> None))"
  by (auto simp: MarshalJSON_def Let_def map_of_put_absent map_of_map_put map_add_def attr_map_def
      split: option.splits)

lemma sendEvent_sent:
  assumes "sendEvent look parse_time cfg now x = Done (Some e)"
  shows "e_Body e = (if in_raw cfg then VString (ev_Original x) else VMap (formattedBody look x))"
    and "k \<notin> fst ` set (in_attributes cfg) \<Longrightarrow> k \<noteq> ''server.address'' \<Longrightarrow> map_of (attr_map e) k = None"
proof -
  let ?b = "if in_raw cfg then VString (ev_Original x) else VMap (formattedBody look x)"
  let ?e = "(NewEntry cfg now ?b)\<lparr>e_EventTime := parse_time (ev_SystemTime x)\<rparr>"
  have "e = ?e \<or> (\<exists>m. e_Attributes ?e = Some m \<and>
      e = ?e\<lparr>e_Attributes := Some (map_put m ''server.address'' (VString (in_remote cfg)))\<rparr>)"
    using assms by (auto simp: sendEvent_def Let_def split: outcome.splits bool.splits if_splits option.splits)
  moreover have "attr_map ?e = attr_map (NewEntry cfg now ?b)" by (simp add: attr_map_def)
  moreover have "map_of (attr_map (NewEntry cfg now ?b)) k = None" if "k \<notin> fst ` set (in_attributes cfg)"
  proof -
    have "map_of (rev (in_attributes cfg)) k = None"
      using that by (auto simp: map_of_eq_None_iff)
    then show ?thesis by (simp add: NewEntry_def attr_map_Attribute newEntry_def) (simp add: attr_map_def)
  qed
  ultimately show "e_Body e = ?b"
    and "k \<notin> fst ` set (in_attributes cfg) \<Longrightarrow> k \<noteq> ''server.address'' \<Longrightarrow> map_of (attr_map e) k = None"
    by (auto simp: NewEntry_def newEntry_def attr_map_def map_of_map_put)
qed

section \<open>The emitter\<close>

lemma concat_remove:
  assumes "i < length ps"
  shows "mset (concat (take i ps @ drop (Suc i) ps)) + mset (ps ! i) = mset (concat ps)"
proof -
  have "ps = take i ps @ ps ! i # drop (Suc i) ps" using assms by (rule id_take_nth_drop)
  then have "mset (concat ps) = mset (concat (take i ps @ ps ! i # drop (Suc i) ps))" by simp
  then show ?thesis by simp
qed

definition emitter_content :: "'e emitter \<Rightarrow> 'e multiset" where
  "emitter_content e = mset (concat (em_delivered e)) + mset (concat (em_pending e)) + mset (em_batch e)"

lemma content_take_batch: "emitter_content (emitter_batch e) = emitter_content e"
  by (simp add: emitter_content_def emitter_batch_def)

lemma content_append:
  "emitter_content (appendEntries es e) = emitter_content e + mset es"
  "emitter_content (appendEntry x e) = emitter_content e + {#x#}"
  by (simp_all add: appendEntries_def appendEntry_def Let_def content_take_batch)
    (simp_all add: emitter_content_def)

lemma content_makeNewBatch: "emitter_content (makeNewBatch e) = emitter_content e"
  by (simp add: makeNewBatch_def content_take_batch)

lemma content_deliver: "i < length (em_pending e) \<Longrightarrow> emitter_content (deliver i e) = emitter_content e"
  using concat_remove[of i "em_pending e"] by (simp add: emitter_content_def deliver_def ac_simps)

lemma emits_content: "emits mx xs e \<Longrightarrow> emitter_content e = mset xs"
proof (induction rule: emits.induct)
  case start
  show ?case by (simp add: emitter_content_def)
qed (simp_all add: content_append content_makeNewBatch content_deliver)

lemma emits_bound: "emits mx xs e \<Longrightarrow> em_max e = mx \<and> (0 < mx \<longrightarrow> length (em_batch e) < mx)"
  by (induction rule: emits.induct)
    (auto simp: appendEntry_def appendEntries_def makeNewBatch_def emitter_batch_def deliver_def Let_def)

lemma emits_pending: "emits mx xs e \<Longrightarrow> [] \<notin> set (em_pending e) \<and> [] \<notin> set (em_delivered e)"
proof (induction rule: emits.induct)
  case (consume xs e i)
  then have "em_pending e ! i \<noteq> []" using nth_mem[of i "em_pending e"] by metis
  then show ?case using consume in_set_takeD[of "[]" i "em_pending e"]
      in_set_dropD[of "[]" "Suc i" "em_pending e"]
    by (auto simp: deliver_def)
qed (auto simp: appendEntry_def appendEntries_def makeNewBatch_def emitter_batch_def Let_def)

end
