(* ===== verification/Sensor_Theorems.thy ===== *)
theory Sensor_Theorems
  imports Sensor_Winevt_Props
begin

text \<open>
  The properties of the sensor's side: the notation and the laws of entry fields, the audit
  messages, what the engine is sent of an event, when sending panics, and the emitter.
\<close>

section \<open>Entry fields\<close>

lemma newField_toJSONDot:
  "\<lbrakk>expressible ks; p = BodyPrefix \<or> p = AttributesPrefix\<rbrakk> \<Longrightarrow>
   fromJSONDot (toJSONDot p ks) = Inr (p # ks)"
  by (rule fromJSONDot_toJSONDot) (auto simp: BodyPrefix_def AttributesPrefix_def)

text \<open>The notation of a field is read back as the field: for keys the notation can express,
  \<open>NewField\<close> of \<open>String\<close> is the field itself (an attribute field needs a key).\<close>

theorem field_notation_roundtrip:
  assumes "expressible ks"
  shows "NewField (Field_String (BodyField ks)) = Inr (BodyField ks) \<and>
    newField (Field_String (AttributeField ks)) True = Inr (AttributeField ks) \<and>
    NewField (Field_String (AttributeField ks)) =
      (if ks = [] then Inl ''attributes cannot be referenced without subfield''
       else Inr (AttributeField ks))"
  using newField_toJSONDot[OF assms, of BodyPrefix] newField_toJSONDot[OF assms, of AttributesPrefix]
  by (simp add: NewField_def newField_def AttributesPrefix_def BodyPrefix_def)

theorem field_notation_roundtrip_witness:
  "NewField (Field_String (BodyField [''host.name'', ''a[0]''])) = Inr (BodyField [''host.name'', ''a[0]''])"
proof -
  have "expressible [''host.name'', ''a[0]'']" by (simp add: expressible_def)
  from field_notation_roundtrip[OF this] show ?thesis by blast
qed

lemma view_iff:
  "body.view ks e = Some v \<longleftrightarrow> body_get ks e = (v, True)"
  "attr.view ks e = Some v \<longleftrightarrow> attr_get ks e = (v, True)"
  "body.view ks e = None \<longleftrightarrow> \<not> snd (body_get ks e)"
  "attr.view ks e = None \<longleftrightarrow> \<not> snd (attr_get ks e)"
  by (simp_all add: body.view_def attr.view_def del: Field_Get.simps split: prod.splits)

lemmas move_body = body.move[unfolded view_iff]
lemmas move_attr = attr.move[unfolded view_iff]

text \<open>Body fields and attribute fields are stores: when a value that is no map is moved from one
  field to another by \<open>Delete\<close> and \<open>Set\<close>, the target holds it, the origin is gone, and every
  field on a third path holds what it held.\<close>

theorem moved_value_is_found:
  assumes "F = BodyField \<or> F = AttributeField" "diverge a b" "diverge a c" "diverge b c"
    and "Field_Get (F a) e = (v, True)" "\<not> is_map v"
  shows "let e' = fst (Field_Set (F b) (fst (Field_Delete (F a) e)) v) in
    snd (Field_Delete (F a) e) = (v, True) \<and>
    snd (Field_Set (F b) (fst (Field_Delete (F a) e)) v) = None \<and>
    Field_Get (F b) e' = (v, True) \<and> \<not> snd (Field_Get (F a) e') \<and>
    (\<forall>w. Field_Get (F c) e' = (w, True) \<longleftrightarrow> Field_Get (F c) e = (w, True))"
proof -
  have ne: "a \<noteq> []" "b \<noteq> []" using assms(2) diverge_not_Nil by auto
  let ?B = "fst (body_set b (fst (body_delete a e)) v)" and ?A = "fst (attr_set b (fst (attr_delete a e)) v)"
  show ?thesis
  proof (cases "F = BodyField")
    case True
    have g: "body_get a e = (v, True)" using assms(5) True by simp
    then have "body.view c ?B = body.view c e"
      using assms by (intro body.move(3)) (simp_all add: view_iff del: Field_Get.simps)
    then have "body_get c ?B = (w, True) \<longleftrightarrow> body_get c e = (w, True)" for w
      by (simp only: view_iff(1)[symmetric])
    then show ?thesis using ne g assms(6) move_body[OF assms(2) g assms(6)] body.delete_found[OF ne(1) g]
        body.set_ok[OF ne(2) assms(6)] unfolding Let_def True by blast
  next
    case False
    then have F: "F = AttributeField" using assms(1) by simp
    have g: "attr_get a e = (v, True)" using assms(5) F by simp
    then have "attr.view c ?A = attr.view c e"
      using assms by (intro attr.move(3)) (simp_all add: view_iff del: Field_Get.simps)
    then have "attr_get c ?A = (w, True) \<longleftrightarrow> attr_get c e = (w, True)" for w
      by (simp only: view_iff(2)[symmetric])
    then show ?thesis using ne g assms(6) move_attr[OF assms(2) g assms(6)] attr.delete_found[OF ne(1) g]
        attr.set_ok[OF ne(2) assms(6)] unfolding Let_def F by blast
  qed
qed

definition demo_entry :: Entry where
  "demo_entry = \<lparr>e_Timestamp = 1000, e_EventTime = 900,
     e_Body = VMap [(''user'', VMap [(''name'', VString ''bob'')]), (''n'', VInt 3)],
     e_Attributes = Some [(''host'', VString ''dc1'')]\<rparr>"

theorem moved_value_is_found_witness:
  "Field_Get (BodyField [''account'', ''name''])
     (fst (Field_Set (BodyField [''account'', ''name''])
        (fst (Field_Delete (BodyField [''user'', ''name'']) demo_entry)) (VString ''bob''))) = (VString ''bob'', True)"
proof -
  have "Field_Get (BodyField [''user'', ''name'']) demo_entry = (VString ''bob'', True)"
    by (simp add: demo_entry_def)
  from moved_value_is_found[of BodyField "[''user'', ''name'']" "[''account'', ''name'']" "[''n'']", OF _ _ _ _ this]
  show ?thesis by (simp add: Let_def del: Field_Get.simps Field_Set.simps Field_Delete.simps)
qed

section \<open>Audit messages\<close>

text \<open>C27: an audit message of the Security channel is read back: from its printed form \<open>parseSecurity\<close>
  recovers the subject and the sections with all their pairs, a section without pairs as a dash.\<close>

theorem audit_message_roundtrip:
  assumes "audit_ok subject ss" "distinct (map fst ss)"
    and "list_all (\<lambda>(k, ps). distinct (map fst ps)) ss"
  shows "parseSecurity (audit_text subject ss) =
    (subject, Some (map (\<lambda>(k, ps). (k, if ps = [] then VString ''-''
                                         else VMap (map (\<lambda>(a, b). (a, VString b)) ps))) ss))"
proof -
  have pairs: "foldl put_pair [] ps = map (\<lambda>(a, b). (a, VString b)) ps" if "distinct (map fst ps)" for ps
    using foldl_map_put_fresh[of fst ps "[]" "\<lambda>p. VString (snd p)"] that
    by (simp add: put_pair_def[abs_def] split_beta)
  have "foldl put_section [] ss = map (\<lambda>s. (fst s, section_value s)) ss"
    using foldl_map_put_fresh[of fst ss "[]" section_value] assms(2) by (simp add: put_section_def[abs_def])
  also have "\<dots> = map (\<lambda>(k, ps). (k, if ps = [] then VString ''-''
      else VMap (map (\<lambda>(a, b). (a, VString b)) ps))) ss"
    using assms(3) pairs by (auto simp: section_value_def list_all_iff)
  finally show ?thesis by (simp add: parseSecurity_audit[OF assms(1)])
qed

definition demo_sections :: "audit_section list" where
  "demo_sections = [(''Subject'', [(''Account Name'', ''bob''), (''Logon ID'', ''0x3E7'')]), (''Process'', [])]"

theorem audit_message_roundtrip_witness:
  "parseSecurity (audit_text ''An account was logged on.'' demo_sections) =
    (''An account was logged on.'',
     Some [(''Subject'', VMap [(''Account Name'', VString ''bob''), (''Logon ID'', VString ''0x3E7'')]),
           (''Process'', VString ''-'')])"
proof -
  have "audit_ok ''An account was logged on.'' demo_sections"
    by (simp add: audit_ok_def demo_sections_def text_word_def text_char_def)
  from audit_message_roundtrip[OF this] show ?thesis by (simp add: demo_sections_def)
qed

section \<open>Sent events\<close>





text \<open>Sending an event panics exactly when the filter of the input has a custom condition and
  neither the event's id nor its level is filtered, or when the event is kept and the input reads a
  remote server without configured attributes.\<close>

theorem sendEvent_panics:
  "(\<exists>p. sendEvent look parse_time cfg now x = Panic p) \<longleftrightarrow>
     (case in_filters cfg of
        None \<Rightarrow> in_remote cfg \<noteq> [] \<and> in_attributes cfg = []
      | Some f \<Rightarrow> ev_EventID x \<notin> set (fl_EventID f) \<and> ev_Level x \<notin> set (fl_Level f) \<and>
                  (fl_Custom f \<noteq> [] \<or> in_remote cfg \<noteq> [] \<and> in_attributes cfg = []))"
proof -
  have attrs: "e_Attributes (NewEntry cfg now b) = None \<longleftrightarrow> in_attributes cfg = []" for b
    by (simp add: NewEntry_def Attribute_None newEntry_def)
  show ?thesis
    by (cases "in_filters cfg")
      (simp_all add: sendEvent_def executeEventFilter_def Let_def attrs option.case_eq_if)
qed

section \<open>The emitter\<close>



end
