(* ===== verification/Portal_Whitelist.thy ===== *)
theory Portal_Whitelist
  imports Flow_Engine
begin

text \<open>
  White lists from the portal to the engine: the handlers \<open>AddThreatWhitelist\<close>,
  \<open>UpdateThreatWhitelist\<close> and \<open>DeleteThreatWhitelist\<close> of
  \<open>src/backend/apiserver/service/threat.go\<close> with the database functions of
  \<open>apiserver/server/threat.go\<close>, and what the engine's \<open>isMatchWhitelist\<close> makes of the text they
  leave in Redis. The clients of Redis and MongoDB are a record of calls as in \<open>Engine_Store\<close>.
\<close>

section \<open>Documents and services\<close>

type_synonym rule_info = "(string \<times> string) list"

record whitelist_doc =
  wd_ID :: string
  wd_RuleId :: string
  wd_RuleName :: string
  wd_RuleType :: string
  wd_RuleInfo :: "rule_info list"
  wd_Origin :: int
  wd_Domain :: string
  wd_Remark :: string
  wd_CreateTm :: int
  wd_UpdateTm :: int

text \<open>\<open>pt_find_rule\<close> is \<open>FindOne\<close> on the rules (id, title, type); the calls on white lists take the
  hexadecimal id, whose decoding error is an error of the call.\<close>

record 's portal =
  pt_hget :: "string \<Rightarrow> string \<Rightarrow> ('s, rdx_error + string) io"
  pt_hgetall :: "string \<Rightarrow> ('s, rdx_error + (string \<times> string) list) io"
  pt_hsetnx :: "string \<Rightarrow> string \<Rightarrow> string \<Rightarrow> ('s, rdx_error option) io"
  pt_hdel :: "string \<Rightarrow> string \<Rightarrow> ('s, rdx_error option) io"
  pt_find_rule :: "string \<Rightarrow> ('s, string + string \<times> string \<times> string) io"
  pt_find_whitelist :: "string \<Rightarrow> ('s, string + whitelist_doc) io"
  pt_insert_whitelist :: "whitelist_doc \<Rightarrow> ('s, string option) io"
  pt_update_whitelist :: "string \<Rightarrow> rule_info list \<Rightarrow> string \<Rightarrow> int \<Rightarrow> ('s, string option) io"
  pt_remove_whitelist :: "string \<Rightarrow> ('s, string option) io"
  pt_new_id :: "('s, string) io"
  pt_now :: "('s, int) io"

datatype code = PermissionDenied | Internal | InvalidArgument

datatype reply = Success | Failure code string

definition FlowWhitelistPrefixKey :: string where
  "FlowWhitelistPrefixKey = ''ada:engine:flow_whitelist''"

definition FlowFieldMapKey :: string where
  "FlowFieldMapKey = ''ada:engine:flow_field_map''"

definition whitelist_key :: "string \<Rightarrow> string" where
  "whitelist_key ruleId = FlowWhitelistPrefixKey @ '':'' @ ruleId"

section \<open>Validation and canonical text\<close>

text \<open>\<open>MD5String(key, length)\<close>.\<close>

definition MD5String :: "go_ext \<Rightarrow> string \<Rightarrow> nat \<Rightarrow> string" where
  "MD5String E k n = (let r = x_md5_hex E k in take (min n (length r)) r)"

definition whitelist_ops :: "string list" where
  "whitelist_ops = [''=='', ''!='', ''>'', ''<'', ''>='', ''<='', ''in'', ''not_in'', ''contain'', ''not_contain'', ''regex'']"

definition checkThreatWhitelistFields :: "go_ext \<Rightarrow> rule_info \<Rightarrow> string list \<Rightarrow> string option" where
  "checkThreatWhitelistFields E info fs =
     (if info = [] then Some ''Invalid rule''
      else case map_get info ''field'' of
        None \<Rightarrow> Some ''Field field not exist''
      | Some f \<Rightarrow>
        if f \<notin> set fs then Some (''Invalid rule field:'' @ f)
        else case map_get info ''op'' of
          None \<Rightarrow> Some ''Rule field op not exist''
        | Some op \<Rightarrow>
          if op \<notin> set whitelist_ops then Some (''Invalid rule field op:'' @ op)
          else case map_get info ''value'' of
            None \<Rightarrow> Some ''Rule field value not exist''
          | Some v \<Rightarrow>
            if contains v ''[AND]'' then Some (''Invalid rule field value:'' @ v)
            else if op = ''regex'' \<and> \<not> x_regex_compiles E v then Some (''Invalid regex:'' @ v)
            else None)"

text \<open>The value of a key of a \<open>map[string]string\<close>, the empty string when it is missing.\<close>

definition sget :: "rule_info \<Rightarrow> string \<Rightarrow> string" where
  "sget m k = (case map_get m k of Some v \<Rightarrow> v | None \<Rightarrow> [])"

text \<open>\<open>sort.Strings\<close>: the sorted permutation of the strings, in the order of their bytes.\<close>

fun insert_string :: "string \<Rightarrow> string list \<Rightarrow> string list" where
  "insert_string x [] = [x]"
| "insert_string x (y # ys) = (if str_less y x then y # insert_string x ys else x # y # ys)"

definition sort_strings :: "string list \<Rightarrow> string list" where
  "sort_strings xs = foldr insert_string xs []"

text \<open>\<open>keyIdxMap\<close>: the last index with the field.\<close>

fun key_index :: "(string \<times> nat) list \<Rightarrow> nat \<Rightarrow> rule_info list \<Rightarrow> (string \<times> nat) list" where
  "key_index m i [] = m"
| "key_index m i (r # rs) = key_index (map_put m (sget r ''field'') i) (Suc i) rs"

definition rule_item :: "rule_info \<Rightarrow> string" where
  "rule_item r = sget r ''field'' @ '','' @ sget r ''op'' @ '','' @ sget r ''value''"

definition rule_items :: "rule_info list \<Rightarrow> string list" where
  "rule_items ruleInfo =
     (let m = key_index [] 0 ruleInfo in
      map (\<lambda>k. rule_item (ruleInfo ! (case map_get m k of Some i \<Rightarrow> i | None \<Rightarrow> 0)))
        (sort_strings (map (\<lambda>r. sget r ''field'') ruleInfo)))"

definition sortAndHashRuleInfo :: "go_ext \<Rightarrow> string \<Rightarrow> rule_info list \<Rightarrow> string \<times> string" where
  "sortAndHashRuleInfo E domain ruleInfo =
     (let ruleCnt = to_lower E domain @ ''||'' @ join (rule_items ruleInfo) ''|[AND]|''
      in (ruleCnt, MD5String E ruleCnt 32))"

section \<open>Handlers\<close>

text \<open>\<open>getThreatWhitelistFields\<close> returns the error \<open>redis.Nil\<close> of a rule without fields along with
  the split empty string.\<close>

definition getThreatWhitelistFields :: "'s portal \<Rightarrow> string \<Rightarrow> ('s, rdx_error + string list) io" where
  "getThreatWhitelistFields P ruleId = do {
     r \<leftarrow> pt_hget P FlowFieldMapKey ruleId;
     ret (case r of Inl e \<Rightarrow> Inl e | Inr fieldStr \<Rightarrow> Inr (split fieldStr '',''))
   }"

definition checkThreatWhitelistExist :: "go_ext \<Rightarrow> 's portal \<Rightarrow> string \<Rightarrow> string \<Rightarrow> ('s, bool) io" where
  "checkThreatWhitelistExist E P ruleId ruleMd5 = do {
     r \<leftarrow> pt_hgetall P (whitelist_key ruleId);
     ret (case r of
            Inl _ \<Rightarrow> False
          | Inr whitelists \<Rightarrow> list_ex (\<lambda>(_, rule). MD5String E rule 32 = ruleMd5) whitelists)
   }"

text \<open>The validation loop of the handlers: the error of the first rule that fails.\<close>

fun check_rules :: "go_ext \<Rightarrow> string list \<Rightarrow> rule_info list \<Rightarrow> string option" where
  "check_rules E fs [] = None"
| "check_rules E fs (r # rs) = (case checkThreatWhitelistFields E r fs of
     Some err \<Rightarrow> Some err | None \<Rightarrow> check_rules E fs rs)"

definition server_AddThreatWhitelist ::
  "'s portal \<Rightarrow> string \<Rightarrow> string \<Rightarrow> string \<Rightarrow> string \<Rightarrow> string \<Rightarrow> int \<Rightarrow> rule_info list \<Rightarrow> ('s, string + string) io" where
  "server_AddThreatWhitelist P ruleId ruleTitle ruleType domain remark origin rules = do {
     i \<leftarrow> pt_new_id P;
     t1 \<leftarrow> pt_now P;
     t2 \<leftarrow> pt_now P;
     err \<leftarrow> pt_insert_whitelist P \<lparr>wd_ID = i, wd_RuleId = ruleId, wd_RuleName = ruleTitle,
       wd_RuleType = ruleType, wd_RuleInfo = rules, wd_Origin = origin, wd_Domain = domain,
       wd_Remark = remark, wd_CreateTm = t1, wd_UpdateTm = t2\<rparr>;
     ret (case err of Some e \<Rightarrow> Inl e | None \<Rightarrow> Inr i)
   }"

definition rdx_failed :: "rdx_error option \<Rightarrow> bool" where
  "rdx_failed err \<longleftrightarrow> err \<noteq> None \<and> err \<noteq> Some RdxNil"

definition AddThreatWhitelist ::
  "go_ext \<Rightarrow> 's portal \<Rightarrow> bool \<Rightarrow> string \<Rightarrow> string \<Rightarrow> string \<Rightarrow> int \<Rightarrow> rule_info list \<Rightarrow> ('s, reply) io" where
  "AddThreatWhitelist E P super ruleId domain remark origin rules =
     (if \<not> super then ret (Failure PermissionDenied ''NoPermission'')
      else do {
        rule \<leftarrow> pt_find_rule P ruleId;
        case rule of
          Inl _ \<Rightarrow> ret (Failure Internal ''QueryFailed'')
        | Inr (rid, title, typ) \<Rightarrow> do {
            fs \<leftarrow> getThreatWhitelistFields P ruleId;
            case fs of
              Inl _ \<Rightarrow> ret (Failure Internal ''QueryFailed'')
            | Inr fs \<Rightarrow>
                (case check_rules E fs rules of
                   Some err \<Rightarrow> ret (Failure InvalidArgument err)
                 | None \<Rightarrow> do {
                     dup \<leftarrow> checkThreatWhitelistExist E P ruleId (snd (sortAndHashRuleInfo E domain rules));
                     if dup then ret (Failure InvalidArgument ''Threat.Whitelist.RuleExists'')
                     else do {
                       w \<leftarrow> server_AddThreatWhitelist P rid title typ domain remark origin rules;
                       case w of
                         Inl _ \<Rightarrow> ret (Failure Internal ''DeleteFailed'')
                       | Inr wId \<Rightarrow> do {
                           err \<leftarrow> pt_hsetnx P (whitelist_key ruleId) wId (fst (sortAndHashRuleInfo E domain rules));
                           if rdx_failed err then ret (Failure Internal ''DeleteFailed'')
                           else ret Success
                         }
                     }
                   })
          }
      })"

definition UpdateThreatWhitelist ::
  "go_ext \<Rightarrow> 's portal \<Rightarrow> bool \<Rightarrow> string \<Rightarrow> string \<Rightarrow> rule_info list \<Rightarrow> ('s, reply) io" where
  "UpdateThreatWhitelist E P super wId remark rules =
     (if \<not> super then ret (Failure PermissionDenied ''NoPermission'')
      else do {
        w \<leftarrow> pt_find_whitelist P wId;
        case w of
          Inl _ \<Rightarrow> ret (Failure Internal ''QueryFailed'')
        | Inr wl \<Rightarrow> do {
            fs \<leftarrow> getThreatWhitelistFields P (wd_RuleId wl);
            case fs of
              Inl _ \<Rightarrow> ret (Failure Internal ''QueryFailed'')
            | Inr fs \<Rightarrow>
                (case check_rules E fs rules of
                   Some err \<Rightarrow> ret (Failure InvalidArgument err)
                 | None \<Rightarrow> do {
                     dup \<leftarrow> checkThreatWhitelistExist E P (wd_RuleId wl)
                              (snd (sortAndHashRuleInfo E (wd_Domain wl) rules));
                     if dup then ret (Failure InvalidArgument ''Threat.Whitelist.RuleExists'')
                     else do {
                       err \<leftarrow> pt_hsetnx P (whitelist_key (wd_RuleId wl)) (wd_ID wl)
                                (fst (sortAndHashRuleInfo E (wd_Domain wl) rules));
                       if rdx_failed err then ret (Failure Internal ''UpdateFailed'')
                       else do {
                         now \<leftarrow> pt_now P;
                         err \<leftarrow> pt_update_whitelist P wId rules remark now;
                         if err \<noteq> None then ret (Failure Internal ''UpdateFailed'')
                         else ret Success
                       }
                     }
                   })
          }
      })"

definition DeleteThreatWhitelist :: "'s portal \<Rightarrow> bool \<Rightarrow> string \<Rightarrow> ('s, reply) io" where
  "DeleteThreatWhitelist P super wId =
     (if \<not> super then ret (Failure PermissionDenied ''NoPermission'')
      else do {
        w \<leftarrow> pt_find_whitelist P wId;
        case w of
          Inl _ \<Rightarrow> ret (Failure Internal ''QueryFailed'')
        | Inr wl \<Rightarrow> do {
            err \<leftarrow> pt_hdel P (whitelist_key (wd_RuleId wl)) wId;
            if err \<noteq> None then ret (Failure Internal ''UpdateFailed'')
            else do {
              err \<leftarrow> pt_remove_whitelist P wId;
              if err \<noteq> None then ret (Failure Internal ''DeleteFailed'')
              else ret Success
            }
          }
      })"

end
