(* ===== verification/Portal_Theorems.thy ===== *)
theory Portal_Theorems
  imports Portal_Whitelist Flow_Theorems
begin

text \<open>
  What the white lists of the portal do in the engine: an accepted list decides as its conditions
  say, an accepted list without conditions suppresses everything, and an update of a list does not
  reach the engine.
\<close>

section \<open>The text is read back\<close>







section \<open>Sorting and indexing\<close>









section \<open>The engine's reading of a list\<close>

lemma whitelist_loop_append:
  "whitelist_loop E (xs @ ys) acts host \<longleftrightarrow> whitelist_loop E xs acts host \<or> whitelist_loop E ys acts host"
  by (induction xs) (auto split: list.splits if_splits simp: Let_def)







lemma empty_entry_decides:
  assumes "CHR ''|'' \<notin> set (to_lower E domain)"
  shows "whitelist_loop E [(wId, fst (sortAndHashRuleInfo E domain []))] acts host \<longleftrightarrow>
    has_suffix (to_lower E host) (to_lower E domain)"
proof -
  have "splitN2 (fst (sortAndHashRuleInfo E domain [])) ''||'' = [to_lower E domain, []]"
    using cut_bars[OF assms, of "[]"]
    by (simp add: sortAndHashRuleInfo_def Let_def splitN2_def rule_items_def sort_strings_def)
  then show ?thesis by (simp add: Let_def split_def splitN3_def)
qed

section \<open>From the handlers to the engine\<close>

text \<open>What Redis and MongoDB document of the calls: \<open>cache\<close> is the content of the hashes. \<open>HSETNX\<close>
  sets a field only when the hash has none of that name, \<open>HDEL\<close> removes it, no other call touches the
  white lists, and a new object id is used by no list.\<close>

definition portal_documented :: "'s portal \<Rightarrow> ('s \<Rightarrow> string \<Rightarrow> (string \<times> string) list) \<Rightarrow> bool" where
  "portal_documented P cache \<longleftrightarrow>
     (\<forall>k f. quiet cache (pt_hget P k f)) \<and> (\<forall>k. quiet cache (pt_hgetall P k)) \<and>
     (\<forall>i. quiet cache (pt_find_rule P i)) \<and> (\<forall>i. quiet cache (pt_find_whitelist P i)) \<and>
     (\<forall>d. quiet cache (pt_insert_whitelist P d)) \<and> quiet cache (pt_new_id P) \<and> quiet cache (pt_now P) \<and>
     (\<forall>i rs r t. quiet cache (pt_update_whitelist P i rs r t)) \<and>
     (\<forall>s k. fst (run_state (pt_new_id P) s) \<notin> fst ` set (cache s k)) \<and>
     (\<forall>s k f v. fst (run_state (pt_hsetnx P k f v) s) \<noteq> Some RdxNil \<and>
        (fst (run_state (pt_hsetnx P k f v) s) = None \<longrightarrow>
         cache (snd (run_state (pt_hsetnx P k f v) s)) =
           (if f \<in> fst ` set (cache s k) then cache s else (cache s)(k := cache s k @ [(f, v)]))))"

lemma portal_documentedD:
  assumes "portal_documented P cache"
  shows "run_state (pt_hget P k f) s = (a1, s1) \<Longrightarrow> cache s1 = cache s"
    "run_state (pt_hgetall P k) s = (a2, s1) \<Longrightarrow> cache s1 = cache s"
    "run_state (pt_find_rule P i) s = (a3, s1) \<Longrightarrow> cache s1 = cache s"
    "run_state (pt_find_whitelist P i) s = (a4, s1) \<Longrightarrow> cache s1 = cache s"
    "run_state (pt_insert_whitelist P d) s = (a5, s1) \<Longrightarrow> cache s1 = cache s"
    "run_state (pt_new_id P) s = (a6, s1) \<Longrightarrow> cache s1 = cache s \<and> a6 \<notin> fst ` set (cache s k)"
    "run_state (pt_now P) s = (a7, s1) \<Longrightarrow> cache s1 = cache s"
    "run_state (pt_update_whitelist P i rs r t) s = (a5, s1) \<Longrightarrow> cache s1 = cache s"
    "run_state (pt_hsetnx P k f v) s = (e, s1) \<Longrightarrow> e \<noteq> Some RdxNil \<and> (e = None \<longrightarrow>
       cache s1 = (if f \<in> fst ` set (cache s k) then cache s else (cache s)(k := cache s k @ [(f, v)])))"
  using assms unfolding portal_documented_def quiet_def by (metis fst_conv snd_conv)+

lemma AddThreatWhitelist_success:
  assumes doc: "portal_documented P cache"
    and run: "run_state (AddThreatWhitelist E P super ruleId domain remark origin rules) s = (Success, s')"
  shows "(\<exists>fieldStr. check_rules E (split fieldStr '','') rules = None) \<and>
    (\<exists>wId. cache s' = (cache s)(whitelist_key ruleId :=
       cache s (whitelist_key ruleId) @ [(wId, fst (sortAndHashRuleInfo E domain rules))]))"
proof -
  let ?key = "whitelist_key ruleId" and ?cnt = "fst (sortAndHashRuleInfo E domain rules)"
  obtain rule s1 where 1: "run_state (pt_find_rule P ruleId) s = (Inr rule, s1)"
    using run by (auto simp: AddThreatWhitelist_def split: if_splits prod.splits sum.splits)
  obtain rid title ty where rule: "rule = (rid, title, ty)" by (cases rule)
  obtain fieldStr s2 where 2: "run_state (pt_hget P FlowFieldMapKey ruleId) s1 = (Inr fieldStr, s2)"
    using run 1 rule by (auto simp: AddThreatWhitelist_def getThreatWhitelistFields_def
        split: if_splits prod.splits sum.splits)
  have ok: "check_rules E (split fieldStr '','') rules = None"
    using run 1 2 rule by (auto simp: AddThreatWhitelist_def getThreatWhitelistFields_def
        split: if_splits option.splits)
  obtain ws s3 where 3: "run_state (pt_hgetall P ?key) s2 = (ws, s3)" by fastforce
  obtain i s4 where 4: "run_state (pt_new_id P) s3 = (i, s4)" by fastforce
  obtain t1 s5 where 5: "run_state (pt_now P) s4 = (t1, s5)" by fastforce
  obtain t2 s6 where 6: "run_state (pt_now P) s5 = (t2, s6)" by fastforce
  let ?doc = "\<lparr>wd_ID = i, wd_RuleId = rid, wd_RuleName = title, wd_RuleType = ty, wd_RuleInfo = rules,
    wd_Origin = origin, wd_Domain = domain, wd_Remark = remark, wd_CreateTm = t1, wd_UpdateTm = t2\<rparr>"
  obtain e s7 where 7: "run_state (pt_insert_whitelist P ?doc) s6 = (e, s7)" by fastforce
  note steps = 1 2 3 4 5 6 7
  have "e = None"
    using run steps rule ok by (auto simp: AddThreatWhitelist_def getThreatWhitelistFields_def
        checkThreatWhitelistExist_def server_AddThreatWhitelist_def split: if_splits option.splits)
  obtain e' s8 where 8: "run_state (pt_hsetnx P ?key i ?cnt) s7 = (e', s8)" by fastforce
  have "\<not> rdx_failed e' \<and> s8 = s'"
    using run steps rule ok \<open>e = None\<close> 8 by (auto simp: AddThreatWhitelist_def getThreatWhitelistFields_def
        checkThreatWhitelistExist_def server_AddThreatWhitelist_def split: if_splits option.splits)
  moreover have same: "cache s7 = cache s" and fresh: "i \<notin> fst ` set (cache s ?key)"
    using steps portal_documentedD[OF doc] by metis+
  ultimately have "cache s' = (cache s)(?key := cache s ?key @ [(i, ?cnt)])"
    using portal_documentedD(9)[OF doc 8] by (auto simp: rdx_failed_def)
  then show ?thesis using ok by blast
qed




text \<open>A store to run the handlers in: the hashes of Redis, with a rule whose fields are \<open>User\<close> and
  \<open>Host\<close> and one stored list.\<close>

type_synonym demo_cache = "(string \<times> (string \<times> string) list) list"

definition cache_of :: "demo_cache \<Rightarrow> string \<Rightarrow> (string \<times> string) list" where
  "cache_of c k = (case map_get c k of Some h \<Rightarrow> h | None \<Rightarrow> [])"

definition fresh_id :: "demo_cache \<Rightarrow> string" where
  "fresh_id c = replicate (Suc (sum_list (map (\<lambda>(_, h). sum_list (map (length \<circ> fst) h)) c))) (CHR ''w'')"

definition demo_doc :: whitelist_doc where
  "demo_doc = \<lparr>wd_ID = ''w1'', wd_RuleId = ''flow-1'', wd_RuleName = ''t'', wd_RuleType = ''y'',
     wd_RuleInfo = [], wd_Origin = 1, wd_Domain = ''corp.com'', wd_Remark = [], wd_CreateTm = 0, wd_UpdateTm = 0\<rparr>"

definition demo_portal :: "demo_cache portal" where
  "demo_portal = \<lparr>pt_hget = (\<lambda>_ _. ret (Inr ''User,Host'')),
     pt_hgetall = (\<lambda>k. State (\<lambda>c. (Inr (cache_of c k), c))),
     pt_hsetnx = (\<lambda>k f v. State (\<lambda>c. (None,
        if f \<in> fst ` set (cache_of c k) then c else map_put c k (cache_of c k @ [(f, v)])))),
     pt_hdel = (\<lambda>k f. State (\<lambda>c. (None, map_put c k (filter (\<lambda>e. fst e \<noteq> f) (cache_of c k))))),
     pt_find_rule = (\<lambda>i. ret (Inr (i, ''t'', ''y''))), pt_find_whitelist = (\<lambda>_. ret (Inr demo_doc)),
     pt_insert_whitelist = (\<lambda>_. ret None), pt_update_whitelist = (\<lambda>_ _ _ _. ret None),
     pt_remove_whitelist = (\<lambda>_. ret None), pt_new_id = State (\<lambda>c. (fresh_id c, c)), pt_now = ret 0\<rparr>"

lemma fresh_id_unused: "fresh_id c \<notin> fst ` set (cache_of c k)"
proof
  assume "fresh_id c \<in> fst ` set (cache_of c k)"
  then obtain h where h: "map_get c k = Some h" and i: "fresh_id c \<in> fst ` set h"
    by (cases "map_get c k") (simp_all add: cache_of_def)
  have "length (fresh_id c) \<le> sum_list (map (length \<circ> fst) h)"
    using i by (intro member_le_sum_list; force)
  also have "\<dots> \<le> sum_list (map (\<lambda>(_, h). sum_list (map (length \<circ> fst) h)) c)"
    using map_of_SomeD[OF h] by (intro member_le_sum_list; force)
  finally show False by (simp add: fresh_id_def)
qed

lemma demo_portal_documented: "portal_documented demo_portal cache_of"
proof -
  have "cache_of (map_put c k h) = (cache_of c)(k := h)" for c k h
    by (simp add: cache_of_def map_of_map_put fun_eq_iff)
  then show ?thesis by (simp add: portal_documented_def demo_portal_def quiet_def fresh_id_unused)
qed


lemma demo_lower: "to_lower sample_ext ''corp.com'' = ''corp.com''"
  by (simp add: to_lower_def is_ascii_def ascii_lower_def)




text \<open>A white list without conditions is accepted and suppresses every event of the rule on the
  domain's hosts; with an empty domain, on every host.\<close>

theorem empty_whitelist_suppresses:
  assumes doc: "portal_documented P cache"
    and run: "run_state (AddThreatWhitelist E P super ruleId domain remark origin []) s = (Success, s')"
    and "CHR ''|'' \<notin> set (to_lower E domain)" "has_suffix (to_lower E host) (to_lower E domain)"
  shows "whitelist_loop E (cache s' (whitelist_key ruleId)) acts host"
  using AddThreatWhitelist_success[OF doc run] empty_entry_decides[OF assms(3)] assms(4)
  by (auto simp: whitelist_loop_append simp del: whitelist_loop.simps)

theorem empty_whitelist_suppresses_witness:
  "\<exists>s'. run_state (AddThreatWhitelist sample_ext demo_portal True ''flow-1'' ''corp.com'' [] 1 []) [] = (Success, s') \<and>
     whitelist_loop sample_ext (cache_of s' (whitelist_key ''flow-1'')) demo_acts ''dc1.corp.com''"
proof -
  obtain s' where run: "run_state (AddThreatWhitelist sample_ext demo_portal True ''flow-1'' ''corp.com'' [] 1 []) [] = (Success, s')"
    by (simp add: AddThreatWhitelist_def demo_portal_def getThreatWhitelistFields_def
        checkThreatWhitelistExist_def server_AddThreatWhitelist_def cache_of_def rdx_failed_def)
  have "has_suffix (to_lower sample_ext ''dc1.corp.com'') ''corp.com''"
    by (simp add: to_lower_def is_ascii_def ascii_lower_def has_suffix_def)
  then show ?thesis using run empty_whitelist_suppresses[OF demo_portal_documented run] by (auto simp: demo_lower)
qed




end
