(* ===== verification/Portal_Acl.thy ===== *)
theory Portal_Acl
  imports Go_Base
begin

text \<open>
  The access control list of the portal (\<open>src/backend/apiserver/api/v2/acl.go\<close>) and the check of a
  call against it (\<open>authentication\<close> in \<open>service/service.go\<close>).
\<close>

section \<open>Roles and modules\<close>

definition serviceName :: string where "serviceName = ''ada.ADA''"
definition RoleOps :: string where "RoleOps = ''ops''"
definition RoleSec :: string where "RoleSec = ''sec''"
definition RoleMgr :: string where "RoleMgr = ''mgr''"

definition moduleMap :: "(string \<times> string list) list" where
  "moduleMap =
    [(''User'', [''Login'', ''Logout'', ''ListUser'', ''AddUser'', ''UpdateUser'', ''UpdateUserPassword'',
        ''DeleteUser'', ''UserExists'', ''CheckMfa'', ''EnableMfa'', ''DisableMfa'', ''UpdateAvatar'',
        ''ResetPassword'']),
     (''AccessKey'', [''ListAccessKey'', ''GenerateAccessKey'', ''DeleteAccessKey'']),
     (''Domain'', [''ListDomain'', ''AddDomain'', ''TestDomain'', ''UpdateDomain'', ''DeleteDomain'',
        ''UpdateDomainData'', ''DeploySensor'']),
     (''Sensor'', [''ListSensor'', ''UpdateSensor'', ''DownloadSensor'', ''CmdSensor'',
        ''UpdateSensorVersion'']),
     (''System'', [''GetSystemInfo'', ''GetSystemIcon'', ''UpdateSystemLanguage'', ''UpdateSystemCfg'',
        ''GetSystemProxy'', ''UpdateSystemProxy'', ''GetSystemStats'', ''SetSystemStatsCfg'',
        ''GetLicense'', ''UpdateLicense'', ''NetworkDebug'']),
     (''SystemLogs'', [''ListSystemLogs'']),
     (''NotifyConf'', [''ListNotifyConf'', ''AddNotifyConf'', ''UpdateNotifyConf'', ''DeleteNotifyConf'',
        ''EnableNotifyConf'', ''TestNotifyConf'']),
     (''ExportTask'', [''ListExportTask'', ''AddExportTask'', ''DeleteExportTask'']),
     (''Notify'', [''ListNotify'', ''UpdateNotify'', ''StatsNotify'']),
     (''AuditLog'', [''ListAuditLog'']),
     (''Threat'', [''ListThreat'', ''GetThreatNames'', ''GetThreat'', ''ActionThreat'', ''ListActivity'',
        ''GetActivityNames'', ''GetActivity'', ''ListSensitiveEntry'', ''AddSensitiveEntry'',
        ''ListDomainEntry'', ''DeleteSensitiveEntry'', ''ListThreatWhitelist'',
        ''GetThreatWhitelistField'', ''AddThreatWhitelist'', ''UpdateThreatWhitelist'',
        ''DeleteThreatWhitelist'', ''ListThreatBlock'', ''AddThreatBlock'', ''UpdateThreatBlock'',
        ''DeleteThreatBlock'']),
     (''AlertRule'', [''ListAlertRule'', ''AddAlertRule'', ''UpdateAlertRule'', ''DeleteAlertRule'',
        ''GetAlertRuleNames'', ''GetAlertTypes'', ''GetAlertRuleTags'']),
     (''ActivityRule'', [''ListActivityRule'', ''GetActivityRule'', ''AddActivityRule'',
        ''UpdateActivityRule'', ''DeleteActivityRule'', ''GetActivityRuleNames'',
        ''GetActivityRuleUniqueFields'']),
     (''ThreatDashboard'', [''ThreatTops'', ''ThreatTrends'']),
     (''ScanRisk'', [''ListBaseline'', ''GetBaseline'', ''ListLeak'', ''ListWeakPwd'']),
     (''ScanRiskDashboard'', [''ScanRiskStats'']),
     (''ScanTask'', [''ListScanTask'', ''GetScanTask'', ''AddScanTask'', ''RecheckScanTask'',
        ''DeleteScanTask'']),
     (''ScanConf'', [''ListScanConf'', ''SetScanConf'', ''GetScanConf'', ''GetScanTmplNames'',
        ''UpdateScanConf'']),
     (''ScanTmpl'', [''ListScanTmpl'', ''GetScanTmpl'', ''UpdateScanTmpl'', ''DeleteScanTmpl'',
        ''AddScanTmpl'', ''ListScanPlugin'']),
     (''Dashboard'', [''DashboardStats'', ''DashboardTrends'', ''DashboardLogStats''])]"

text \<open>A module that does not exist is logged and skipped.\<close>

definition moduleMapJoin :: "string list \<Rightarrow> string" where
  "moduleMapJoin modules =
     join (concat (map (\<lambda>m. case map_get moduleMap m of Some ms \<Rightarrow> ms | None \<Rightarrow> []) modules)) '',''"

definition mgr_modules :: "string list" where
  "mgr_modules =
       [''User'', ''AccessKey'', ''Domain'', ''Sensor'', ''System'', ''SystemLogs'',
        ''NotifyConf'', ''ExportTask'', ''Notify'', ''AuditLog'', ''Threat'', ''AlertRule'',
        ''ActivityRule'', ''ThreatDashboard'', ''ScanRisk'', ''ScanRiskDashboard'', ''ScanTask'',
        ''ScanConf'', ''ScanTmpl'', ''Dashboard'']"

definition sec_modules :: "string list" where
  "sec_modules =
       [''User'', ''AccessKey'', ''Threat'', ''AlertRule'', ''ActivityRule'',
        ''ThreatDashboard'', ''ScanRisk'', ''ScanRiskDashboard'', ''ScanTask'', ''ScanConf'',
        ''ScanTmpl'', ''Dashboard'', ''ExportTask'', ''Notify'', ''AuditLog'', ''System'', ''SystemLogs'',
        ''Sensor'', ''Domain'']"

definition ops_modules :: "string list" where
  "ops_modules =
       [''User'', ''AccessKey'', ''Domain'', ''Sensor'', ''System'', ''SystemLogs'',
        ''NotifyConf'', ''ExportTask'', ''Notify'', ''AuditLog'', ''Threat'', ''AlertRule'',
        ''ActivityRule'', ''ThreatDashboard'', ''ScanRisk'', ''ScanRiskDashboard'', ''ScanTask'',
        ''ScanConf'', ''ScanTmpl'', ''Dashboard'']"

definition UserACL :: "(string \<times> string) list" where
  "UserACL = [(RoleMgr, moduleMapJoin mgr_modules), (RoleSec, moduleMapJoin sec_modules),
     (RoleOps, moduleMapJoin ops_modules)]"

definition CheckUserAccess :: "string \<Rightarrow> string \<Rightarrow> bool" where
  "CheckUserAccess role fullMethod = (case splitN3 fullMethod ''/'' of
     [p0, p1, p2] \<Rightarrow>
       if p1 \<noteq> serviceName then False
       else (case map_get UserACL role of
               None \<Rightarrow> False
             | Some acl \<Rightarrow> list_ex (\<lambda>method. method = p2) (split acl '',''))
   | _ \<Rightarrow> False)"

text \<open>\<open>authentication\<close>: \<open>super\<close> tells that the user's privilege is \<open>PrivSuper\<close>.\<close>

definition authentication :: "bool \<Rightarrow> string \<Rightarrow> string \<Rightarrow> bool" where
  "authentication super role fullMethod = (if super then True else CheckUserAccess role fullMethod)"

section \<open>What the check decides\<close>

definition methods_of :: "string list \<Rightarrow> string list" where
  "methods_of modules = concat (map (\<lambda>m. case map_get moduleMap m of Some ms \<Rightarrow> ms | None \<Rightarrow> []) modules)"

definition role_modules :: "string \<Rightarrow> string list option" where
  "role_modules role = map_get [(RoleMgr, mgr_modules), (RoleSec, sec_modules), (RoleOps, ops_modules)] role"

lemma module_methods: "map_get moduleMap k = Some ms \<Longrightarrow> ms \<noteq> [] \<and> list_all (\<lambda>m. CHR '','' \<notin> set m) ms"
proof -
  have "list_all (\<lambda>(_, ms). ms \<noteq> [] \<and> list_all (\<lambda>m. CHR '','' \<notin> set m) ms) moduleMap"
    by (simp add: moduleMap_def)
  then show "map_get moduleMap k = Some ms \<Longrightarrow> ms \<noteq> [] \<and> list_all (\<lambda>m. CHR '','' \<notin> set m) ms"
    by (auto simp: list_all_iff dest!: map_of_SomeD)
qed

lemma acl_split:
  assumes "methods_of modules \<noteq> []"
  shows "split (moduleMapJoin modules) '','' = methods_of modules"
proof -
  have "CHR '','' \<notin> set m" if m: "m \<in> set (methods_of modules)" for m
  proof -
    obtain k where "m \<in> set (case map_get moduleMap k of Some ms \<Rightarrow> ms | None \<Rightarrow> [])"
      using m by (auto simp: methods_of_def)
    then obtain ms where "map_get moduleMap k = Some ms" "m \<in> set ms" by (cases "map_get moduleMap k") auto
    then show ?thesis using module_methods[of k ms] by (simp add: list_all_iff)
  qed
  then show ?thesis using split_join[OF assms, of "CHR '',''"]
    by (simp add: moduleMapJoin_def methods_of_def)
qed

lemma user_module: "map_get moduleMap ''User'' \<noteq> None"
  by (simp add: moduleMap_def)

lemma role_methods_not_Nil:
  assumes "role_modules role = Some ms"
  shows "methods_of ms \<noteq> []"
proof -
  have "''User'' \<in> set ms"
    using assms by (auto simp: role_modules_def mgr_modules_def sec_modules_def ops_modules_def split: if_splits)
  moreover obtain us where "map_get moduleMap ''User'' = Some us" using user_module by auto
  ultimately show ?thesis using module_methods[of "''User''" us] by (force simp: methods_of_def)
qed

lemma UserACL_role: "map_get UserACL role = map_option moduleMapJoin (role_modules role)"
  by (simp add: UserACL_def role_modules_def)

lemma cut_slash: "CHR ''/'' \<notin> set a \<Longrightarrow> Go_Base.cut ''/'' (a @ ''/'' @ b) = Some (a, b)"
  by (induction a) (auto simp: has_prefix_def)

lemma cut_slash_Some: "Go_Base.cut ''/'' s = Some (a, b) \<Longrightarrow> s = a @ ''/'' @ b \<and> CHR ''/'' \<notin> set a"
  by (induction s arbitrary: a) (auto simp: has_prefix_def split: if_splits option.splits)

lemma service_no_slash: "CHR ''/'' \<notin> set serviceName"
  by (simp add: serviceName_def)

lemma splitN3_service:
  "splitN3 fm ''/'' = [p0, serviceName, p2] \<longleftrightarrow> fm = p0 @ ''/'' @ serviceName @ ''/'' @ p2 \<and> CHR ''/'' \<notin> set p0"
proof
  assume "splitN3 fm ''/'' = [p0, serviceName, p2]"
  then obtain r where "Go_Base.cut ''/'' fm = Some (p0, r)" "Go_Base.cut ''/'' r = Some (serviceName, p2)"
    by (auto simp: splitN3_def splitN2_def split: option.splits prod.splits)
  then show "fm = p0 @ ''/'' @ serviceName @ ''/'' @ p2 \<and> CHR ''/'' \<notin> set p0"
    using cut_slash_Some by blast
next
  assume "fm = p0 @ ''/'' @ serviceName @ ''/'' @ p2 \<and> CHR ''/'' \<notin> set p0"
  then show "splitN3 fm ''/'' = [p0, serviceName, p2]"
    using cut_slash[of p0 "serviceName @ ''/'' @ p2"] cut_slash[OF service_no_slash, of p2]
    by (simp add: splitN3_def splitN2_def)
qed

text \<open>The check of a call is membership: a role may call a method exactly when the path is that of
  the service and the method belongs to one of the role's modules, which the comma-separated list of
  the code does not blur.\<close>

theorem access_is_membership:
  "CheckUserAccess role fullMethod \<longleftrightarrow>
     (\<exists>p0 m ms. fullMethod = p0 @ ''/'' @ serviceName @ ''/'' @ m \<and> CHR ''/'' \<notin> set p0
        \<and> role_modules role = Some ms \<and> m \<in> set (methods_of ms))"
proof -
  have "CheckUserAccess role fullMethod \<longleftrightarrow>
     (\<exists>p0 m ms. splitN3 fullMethod ''/'' = [p0, serviceName, m] \<and> role_modules role = Some ms \<and> m \<in> set (methods_of ms))"
    using acl_split[OF role_methods_not_Nil[of role]]
    by (auto simp: CheckUserAccess_def UserACL_role list_ex_iff split: list.splits option.splits)
  then show ?thesis by (simp only: splitN3_service conj_assoc)
qed

text \<open>The operations role is the manager role: it may call every method of every module, though its
  comment grants it system, sensor and domain management only; the security role lacks nothing but the
  notification settings.\<close>

theorem operations_role_is_manager:
  "CheckUserAccess RoleOps fullMethod = CheckUserAccess RoleMgr fullMethod \<and>
   set (methods_of mgr_modules) = set (methods_of sec_modules) \<union> set (methods_of [''NotifyConf''])"
proof
  have "ops_modules = mgr_modules" by (simp add: ops_modules_def mgr_modules_def)
  then have "map_get UserACL RoleOps = map_get UserACL RoleMgr"
    by (simp add: UserACL_def RoleOps_def RoleMgr_def RoleSec_def)
  then show "CheckUserAccess RoleOps fullMethod = CheckUserAccess RoleMgr fullMethod"
    by (simp add: CheckUserAccess_def split: list.splits)
  have "set mgr_modules = set sec_modules \<union> {''NotifyConf''}"
    by (auto simp: mgr_modules_def sec_modules_def)
  then show "set (methods_of mgr_modules) = set (methods_of sec_modules) \<union> set (methods_of [''NotifyConf''])"
    by (simp add: methods_of_def Un_commute)
qed

end
