(* ===== verification/Tasker_Events.thy ===== *)
theory Tasker_Events
  imports Flow_Engine
begin

text \<open>
  The two consumers of what the engine writes: the LDAP look-up event
  (\<open>src/backend/tasker/event/ldap_event.go\<close>), which answers the misses the flow engine publishes, and
  the notification task (\<open>tasker/worker/threat_notify.go\<close>), which forwards stored events. Redis,
  MongoDB, the LDAP directory, the JSON decoder and the channels a notification goes out on are a record
  of calls.
\<close>

section \<open>Shared helper\<close>

text \<open>\<open>base.InArray(needle, haystack)\<close>: \<open>reflect.DeepEqual\<close> with an element of a slice or a value of
  a map; a haystack of any other kind holds nothing.\<close>

fun InArray :: "gval \<Rightarrow> gval \<Rightarrow> bool" where
  "InArray needle (VSlice xs) = list_ex (\<lambda>x. needle = x) xs"
| "InArray needle (VStrings ss) = list_ex (\<lambda>s. needle = VString s) ss"
| "InArray needle (VMap m) = list_ex (\<lambda>(_, v). needle = v) m"
| "InArray needle (VDetection m) = list_ex (\<lambda>(_, v). needle = v) m"
| "InArray needle (VDataMap m) = list_ex (\<lambda>(_, v). needle = v) m"
| "InArray needle (VMapAny m) = list_ex (\<lambda>(_, v). needle = v) m"
| "InArray needle _ = False"

section \<open>LDAP look-ups\<close>

definition LDAPAccountKey :: "go_ext \<Rightarrow> string \<Rightarrow> string" where
  "LDAPAccountKey E domain = ''ada:server:ldap:'' @ to_lower E domain"

definition SensitiveEntryKey :: "go_ext \<Rightarrow> string \<Rightarrow> string \<Rightarrow> string" where
  "SensitiveEntryKey E domain entryType =
     (let key = (\<lambda>kind. ''ada:engine:'' @ to_lower E domain @ '':'' @ kind) in
      if entryType = ''user'' then key ''sensitive_users''
      else if entryType = ''group'' then key ''sensitive_groups''
      else if entryType = ''computer'' then key ''sensitive_computers''
      else if entryType = ''honeyuser'' then key ''honeypot_accounts''
      else [])"

record ldapLookupRequest =
  lr_CacheKey :: string
  lr_Template :: string
  lr_CacheTTLSeconds :: int
  lr_RequestedAt :: int

datatype rdx_cmd = CmdDel string | CmdSAdd string "string list" | CmdExpire string int

text \<open>\<open>tk_search\<close> is \<open>BasicSearch\<close> on an open connection: for each entry the values of the attribute.
  \<open>tk_exec\<close> runs a transaction.\<close>

record 's tasker =
  tk_decode :: "string \<Rightarrow> ldapLookupRequest option"
  tk_account :: "string \<Rightarrow> ('s, string + string) io"
  tk_open :: "string \<Rightarrow> ('s, string option) io"
  tk_search :: "string \<Rightarrow> string \<Rightarrow> string \<Rightarrow> ('s, string + string list list) io"
  tk_exec :: "rdx_cmd list \<Rightarrow> ('s, rdx_error option) io"

definition parseLDAPLookupCacheKey :: "go_ext \<Rightarrow> string \<Rightarrow> (string \<times> string) option" where
  "parseLDAPLookupCacheKey E cacheKey =
     (if \<not> has_prefix cacheKey ''ada:engine:'' then None
      else case split (trim_prefix cacheKey ''ada:engine:'') '':'' of
        [p0, p1] \<Rightarrow>
          (let domain = to_lower E (trim_space p0);
               entry = (if p1 = ''sensitive_users'' then Some ''user''
                        else if p1 = ''sensitive_groups'' then Some ''group''
                        else if p1 = ''sensitive_computers'' then Some ''computer''
                        else if p1 = ''honeypot_accounts'' then Some []
                        else None)
           in case entry of
                None \<Rightarrow> None
              | Some entryType \<Rightarrow> if domain = [] then None else Some (domain, entryType))
      | _ \<Rightarrow> None)"

text \<open>The inner loops of \<open>ldapAttributeValues\<close> and \<open>ldapSensitiveGroupValues\<close> over attribute values:
  \<open>seen\<close> holds the lower-case keys met, \<open>values\<close> the values kept.\<close>

definition dedup_step :: "go_ext \<Rightarrow> string list \<times> string list \<Rightarrow> string \<Rightarrow> string list \<times> string list" where
  "dedup_step E st v =
     (let v = trim_space v in
      if v = [] then st
      else if to_lower E v \<in> set (fst st) then st
      else (fst st @ [to_lower E v], snd st @ [v]))"

definition dedup_values :: "go_ext \<Rightarrow> string list \<times> string list \<Rightarrow> string list \<Rightarrow> string list \<times> string list" where
  "dedup_values E st vs = foldl (dedup_step E) st vs"

definition ldapAttributeValues ::
  "go_ext \<Rightarrow> 's tasker \<Rightarrow> string \<Rightarrow> string \<Rightarrow> string \<Rightarrow> ('s, string + string list) io" where
  "ldapAttributeValues E T acc flt attr = do {
     r \<leftarrow> tk_search T acc flt attr;
     ret (case r of
            Inl e \<Rightarrow> Inl e
          | Inr found \<Rightarrow> Inr (snd (dedup_values E ([], []) (concat found))))
   }"

definition sensitiveGroups :: "string list" where
  "sensitiveGroups =
    [''Domain Admins'', ''Enterprise Admins'', ''Schema Admins'', ''Domain Controllers'',
     ''Account Operators'', ''Server Operators'', ''Enterprise Read-only Domain Controllers'',
     ''Key Admins'', ''Enterprise Key Admins'', ''DnsAdmins'', ''Organization Management'',
     ''Terminal Server License Servers'', ''Backup Operators'', ''Print Operators'', ''Administrators'',
     ''Remote Desktop Users'', ''Cert Publishers'']"

text \<open>The loop over the groups: a group whose search fails is skipped.\<close>

fun sensitive_loop ::
  "go_ext \<Rightarrow> 's tasker \<Rightarrow> string \<Rightarrow> string list \<Rightarrow> string list \<times> string list \<Rightarrow> ('s, string list \<times> string list) io" where
  "sensitive_loop E T acc [] st = ret st"
| "sensitive_loop E T acc (g # gs) st = do {
     r \<leftarrow> tk_search T acc (''(&(objectClass=group)(CN='' @ g @ ''))'') ''sAMAccountName'';
     case r of
       Inl _ \<Rightarrow> sensitive_loop E T acc gs st
     | Inr found \<Rightarrow> sensitive_loop E T acc gs (dedup_values E st (concat found))
   }"

definition ldapSensitiveGroupValues ::
  "go_ext \<Rightarrow> 's tasker \<Rightarrow> string \<Rightarrow> ('s, string + string list) io" where
  "ldapSensitiveGroupValues E T acc = do {
     st \<leftarrow> sensitive_loop E T acc sensitiveGroups ([], []);
     ret (Inr (snd st))
   }"

definition queryLDAPEntryValues ::
  "go_ext \<Rightarrow> 's tasker \<Rightarrow> string \<Rightarrow> string \<Rightarrow> ('s, string + string list) io" where
  "queryLDAPEntryValues E T acc entryType =
     (if entryType = ''user'' then
        ldapAttributeValues E T acc ''(&(objectCategory=person)(objectClass=user)(adminCount=1))'' ''sAMAccountName''
      else if entryType = ''computer'' then
        ldapAttributeValues E T acc ''(|(primarygroupid=516)(primarygroupid=521)(primarygroupid=512))'' ''sAMAccountName''
      else if entryType = ''group'' then ldapSensitiveGroupValues E T acc
      else ret (Inl (''unsupported ldap entry type:'' @ entryType)))"

definition searchLDAPValues ::
  "go_ext \<Rightarrow> 's tasker \<Rightarrow> string \<Rightarrow> string \<Rightarrow> ('s, string + string list) io" where
  "searchLDAPValues E T domain entryType = do {
     a \<leftarrow> tk_account T (LDAPAccountKey E domain);
     case a of
       Inl e \<Rightarrow> ret (Inl e)
     | Inr acc \<Rightarrow> do {
         err \<leftarrow> tk_open T acc;
         case err of
           Some e \<Rightarrow> ret (Inl e)
         | None \<Rightarrow> queryLDAPEntryValues E T acc entryType
       }
   }"

text \<open>\<open>Process\<close>. The time to live is a \<open>time.Duration\<close> in nanoseconds, whose product wraps.\<close>

definition cache_ttl :: "int \<Rightarrow> int" where
  "cache_ttl secs = (let ttl = wrap64 (secs * 1000000000) in if ttl \<le> 0 then 60 * 1000000000 else ttl)"

definition LdapEvent_Process :: "go_ext \<Rightarrow> 's tasker \<Rightarrow> string \<Rightarrow> ('s, unit) io" where
  "LdapEvent_Process E T msgData = (case tk_decode T msgData of
     None \<Rightarrow> ret ()
   | Some req \<Rightarrow>
       if lr_CacheKey req = [] then ret ()
       else case parseLDAPLookupCacheKey E (lr_CacheKey req) of
         None \<Rightarrow> ret ()
       | Some (domain, entryType) \<Rightarrow>
           if entryType = [] then ret ()
           else do {
             r \<leftarrow> searchLDAPValues E T domain entryType;
             case r of
               Inl _ \<Rightarrow> ret ()
             | Inr values \<Rightarrow>
                 if values = [] then ret ()
                 else do {
                   tk_exec T [CmdDel (lr_CacheKey req), CmdSAdd (lr_CacheKey req) values,
                     CmdExpire (lr_CacheKey req) (cache_ttl (lr_CacheTTLSeconds req))];
                   ret ()
                 }
           })"

section \<open>Notifications\<close>

record notifyInfo =
  ni_Title :: string
  ni_MsgType :: string
  ni_EventType :: string
  ni_Desc :: string
  ni_Params :: "(string \<times> string) list"
  ni_Timestamp :: int

record Notify =
  nf_ID :: string
  nf_Title :: string
  nf_MsgType :: string
  nf_EventType :: string
  nf_Desc :: string
  nf_Params :: "(string \<times> string) list"
  nf_Status :: int
  nf_CreateTm :: int

record NotifyConf =
  nc_ModuleName :: string
  nc_NotifyType :: string
  nc_Endpoint :: string
  nc_MetaData :: "(string \<times> string) list"
  nc_Enable :: string
  nc_NotifyLevel :: "int list"
  nc_NotifyRules :: "string list"

text \<open>\<open>nt_brpop\<close> waits on the notification queue; \<open>nt_confs\<close> is \<open>FindAll\<close> on the configurations with a
  module name; \<open>nt_sysinfo\<close> finds the system settings (language and proxy); the last three send.\<close>

record 's notifier =
  nt_brpop :: "('s, rdx_error + string list) io"
  nt_decode :: "string \<Rightarrow> notifyInfo option"
  nt_new_id :: "('s, string) io"
  nt_insert :: "Notify \<Rightarrow> ('s, string option) io"
  nt_confs :: "string \<Rightarrow> ('s, string + NotifyConf list) io"
  nt_sysinfo :: "('s, (string \<times> (string \<times> string) list) option) io"
  nt_email :: "notifyInfo \<Rightarrow> NotifyConf \<Rightarrow> string \<Rightarrow> ('s, string option) io"
  nt_syslog :: "string \<Rightarrow> NotifyConf \<Rightarrow> ('s, string option) io"
  nt_webhook :: "string \<Rightarrow> NotifyConf \<Rightarrow> bool \<Rightarrow> string \<Rightarrow> ('s, string option) io"

definition LangZh :: string where "LangZh = ''ZH''"
definition LangEn :: string where "LangEn = ''EN''"

text \<open>The Chinese descriptions are given by their UTF-8 bytes.\<close>

definition notifyMsgTypeDescMap :: "(string \<times> (string \<times> string) list) list" where
  "notifyMsgTypeDescMap =
    [(''system'', [(LangZh, [CHR 0xE7, CHR 0xB3, CHR 0xBB, CHR 0xE7, CHR 0xBB, CHR 0x9F, CHR 0xE6, CHR 0xB6,
        CHR 0x88, CHR 0xE6, CHR 0x81, CHR 0xAF]), (LangEn, ''System'')]),
     (''baseline'', [(LangZh, [CHR 0xE5, CHR 0x9F, CHR 0xBA, CHR 0xE7, CHR 0xBA, CHR 0xBF, CHR 0xE4, CHR 0xBA,
        CHR 0x8B, CHR 0xE4, CHR 0xBB, CHR 0xB6]), (LangEn, ''Baseline'')]),
     (''leak'', [(LangZh, [CHR 0xE6, CHR 0xBC, CHR 0x8F, CHR 0xE6, CHR 0xB4, CHR 0x9E, CHR 0xE4, CHR 0xBA,
        CHR 0x8B, CHR 0xE4, CHR 0xBB, CHR 0xB6]), (LangEn, ''Vulnerability'')]),
     (''alert'', [(LangZh, [CHR 0xE5, CHR 0x91, CHR 0x8A, CHR 0xE8, CHR 0xAD, CHR 0xA6, CHR 0xE4, CHR 0xBA,
        CHR 0x8B, CHR 0xE4, CHR 0xBB, CHR 0xB6]), (LangEn, ''Alert'')])]"

definition getNotifyMsgTypeDesc :: "string \<Rightarrow> string \<Rightarrow> string" where
  "getNotifyMsgTypeDesc msgType lang = (case map_get notifyMsgTypeDescMap msgType of
     Some m \<Rightarrow> (case map_get m lang of
                 Some desc \<Rightarrow> desc
               | None \<Rightarrow> (case map_get m LangZh of Some desc \<Rightarrow> desc | None \<Rightarrow> []))
   | None \<Rightarrow> msgType)"

definition GetLanguage :: "'s notifier \<Rightarrow> ('s, string) io" where
  "GetLanguage N = do { r \<leftarrow> nt_sysinfo N; ret (case r of Some (lang, _) \<Rightarrow> lang | None \<Rightarrow> LangEn) }"

definition param :: "(string \<times> string) list \<Rightarrow> string \<Rightarrow> string" where
  "param m k = (case map_get m k of Some v \<Rightarrow> v | None \<Rightarrow> [])"

text \<open>\<open>strconv.Atoi\<close> with its error ignored: 0 for a syntax error, the nearest bound for a number out of
  range; then the conversion to \<open>int32\<close>.\<close>

definition atoi_ignored :: "string \<Rightarrow> int" where
  "atoi_ignored s = (case parse_int s of
     Some i \<Rightarrow> i
   | None \<Rightarrow> (let ds = (case s of c # r \<Rightarrow> if c = CHR ''+'' \<or> c = CHR ''-'' then r else s | [] \<Rightarrow> []) in
              case parse_digits ds of
                None \<Rightarrow> 0
              | Some _ \<Rightarrow> if hd s = CHR ''-'' then - (2 ^ 63) else 2 ^ 63 - 1))"

definition int32_of :: "int \<Rightarrow> int" where
  "int32_of i = (i + 2 ^ 31) mod 2 ^ 32 - 2 ^ 31"

text \<open>The guards of the loop over the configurations. The second call of \<open>InArray\<close> passes the list of
  rules as the needle and the rule id, a string, as the haystack.\<close>

definition notify_selected :: "(string \<times> string) list \<Rightarrow> NotifyConf \<Rightarrow> bool" where
  "notify_selected params conf =
     (if nc_Enable conf = ''disable'' then False
      else if nc_Endpoint conf = [] then False
      else if \<not> InArray (VInt32 (int32_of (atoi_ignored (param params ''level''))))
                  (VSlice (map VInt32 (nc_NotifyLevel conf))) then False
      else if nc_NotifyRules conf = [] then False
      else if \<not> InArray (VStrings (nc_NotifyRules conf)) (VString (param params ''rule_id'')) then False
      else True)"

fun notify_loop ::
  "'s notifier \<Rightarrow> string \<Rightarrow> notifyInfo \<Rightarrow> string \<Rightarrow> bool \<Rightarrow> string \<Rightarrow> string option \<Rightarrow> NotifyConf list
   \<Rightarrow> ('s, string option) io" where
  "notify_loop N raw m lang proxy http err [] = ret err"
| "notify_loop N raw m lang proxy http err (conf # confs) =
     (if \<not> notify_selected (ni_Params m) conf then notify_loop N raw m lang proxy http err confs
      else if nc_NotifyType conf = ''email'' then do {
        e \<leftarrow> nt_email N m conf lang; notify_loop N raw m lang proxy http e confs }
      else if nc_NotifyType conf = ''syslog'' then do {
        e \<leftarrow> nt_syslog N raw conf; notify_loop N raw m lang proxy http e confs }
      else if nc_NotifyType conf = ''webhook'' then do {
        e \<leftarrow> nt_webhook N raw conf proxy http; notify_loop N raw m lang proxy http e confs }
      else ret (Some (''invalid notify_type('' @ nc_NotifyType conf @ ''), will igore this nofity'')))"

definition ThreatNotifyTask :: "'s notifier \<Rightarrow> ('s, string option) io" where
  "ThreatNotifyTask N = do {
     msg \<leftarrow> nt_brpop N;
     case msg of
       Inl RdxNil \<Rightarrow> ret None
     | Inl (RdxErr e) \<Rightarrow> ret (Some e)
     | Inr [_, raw] \<Rightarrow>
         (case nt_decode N raw of
            None \<Rightarrow> ret (Some ''json: cannot unmarshal'')
          | Some m \<Rightarrow> do {
              lang \<leftarrow> GetLanguage N;
              let notifyModule = getNotifyMsgTypeDesc (ni_MsgType m) lang;
              i \<leftarrow> nt_new_id N;
              err \<leftarrow> nt_insert N \<lparr>nf_ID = i, nf_Title = notifyModule @ '':'' @ ni_Title m,
                nf_MsgType = ni_MsgType m, nf_EventType = ni_EventType m, nf_Desc = ni_Desc m,
                nf_Params = ni_Params m, nf_Status = 0, nf_CreateTm = ni_Timestamp m\<rparr>;
              case err of
                Some e \<Rightarrow> ret (Some e)
              | None \<Rightarrow> do {
                  r \<leftarrow> nt_confs N notifyModule;
                  case r of
                    Inl e \<Rightarrow> ret (Some e)
                  | Inr confs \<Rightarrow> do {
                      sys \<leftarrow> nt_sysinfo N;
                      let proxy = (case sys of Some (_, p) \<Rightarrow> param p ''notify_proxy'' = ''true'' | None \<Rightarrow> False);
                      let http = (case sys of Some (_, p) \<Rightarrow> param p ''http_proxy'' | None \<Rightarrow> []);
                      notify_loop N raw m lang proxy http None confs
                    }
                }
            })
     | Inr _ \<Rightarrow> ret None
   }"

end
