(* ===== verification/Tasker_Theorems.thy ===== *)
theory Tasker_Theorems
  imports Tasker_Events Flow_Theorems
begin

text \<open>
  What the consumers of the tasker do with the engine's messages: a look-up miss is answered under the key
  the engine asked for, and no notification leaves the notification task.
\<close>

section \<open>Deduplication\<close>

text \<open>The invariant of the loop: \<open>seen\<close> lists the lower-case forms of the kept values.\<close>

definition dedup_inv :: "go_ext \<Rightarrow> string list \<times> string list \<Rightarrow> bool" where
  "dedup_inv E st \<longleftrightarrow> fst st = map (to_lower E) (snd st) \<and> distinct (fst st) \<and> [] \<notin> set (snd st)"


lemma dedup_step_inv: "dedup_inv E st \<Longrightarrow> dedup_inv E (dedup_step E st v)"
  by (auto simp: dedup_inv_def dedup_step_def Let_def)


text \<open>What is kept: trimmed values only, and one for each that is not blank, up to case.\<close>

lemma dedup_step_values:
  "dedup_inv E st \<Longrightarrow> set (map (to_lower E) (snd (dedup_step E st v))) =
     set (map (to_lower E) (snd st)) \<union> (if trim_space v = [] then {} else {to_lower E (trim_space v)})"
  by (auto simp: dedup_inv_def dedup_step_def Let_def)

lemma dedup_values_values:
  "dedup_inv E st \<Longrightarrow> set (map (to_lower E) (snd (dedup_values E st vs))) =
     set (map (to_lower E) (snd st)) \<union> to_lower E ` (trim_space ` set vs - {[]})"
  unfolding dedup_values_def
proof (induction vs arbitrary: st)
  case (Cons v vs)
  have "trim_space ` set (v # vs) - {[]} =
      (if trim_space v = [] then {} else {trim_space v}) \<union> (trim_space ` set vs - {[]})" by auto
  then show ?case using Cons.IH[OF dedup_step_inv[OF Cons.prems]] dedup_step_values[OF Cons.prems]
    by (simp add: image_Un Un_assoc)
qed simp


section \<open>Answers to look-up misses\<close>


lemma quiet_bind: "\<lbrakk>quiet ev m; \<And>a. quiet ev (f a)\<rbrakk> \<Longrightarrow> quiet ev (State_Monad.bind m f)"
  by (simp add: quiet_def split: prod.splits) (metis snd_conv)


lemma quiet_ret: "quiet ev (ret a)"
  by (simp add: quiet_def)












text \<open>The key of a sensitive entry is read back as its domain and its type, for a domain of the
  form the keys are built from; the honeypot accounts are kept elsewhere and have no type.\<close>

theorem sensitive_key_roundtrip:
  assumes "to_lower E domain \<noteq> []" "CHR '':'' \<notin> set (to_lower E domain)"
    and "trim_space (to_lower E domain) = to_lower E domain" "to_lower E (to_lower E domain) = to_lower E domain"
    and "ty \<in> {''user'', ''group'', ''computer'', ''honeyuser''}"
  shows "parseLDAPLookupCacheKey E (SensitiveEntryKey E domain ty) =
    Some (to_lower E domain, if ty = ''honeyuser'' then [] else ty)"
proof -
  have split2: "split (to_lower E domain @ '':'' @ k) '':'' = [to_lower E domain, k]" if "CHR '':'' \<notin> set k" for k
    using split_join[of "[to_lower E domain, k]" "CHR '':''"] assms(2) that by auto
  have parse: "parseLDAPLookupCacheKey E (''ada:engine:'' @ to_lower E domain @ '':'' @ k) =
    (case (if k = ''sensitive_users'' then Some ''user'' else if k = ''sensitive_groups'' then Some ''group''
           else if k = ''sensitive_computers'' then Some ''computer''
           else if k = ''honeypot_accounts'' then Some [] else None) of
       None \<Rightarrow> None | Some x \<Rightarrow> Some (to_lower E domain, x))" if "CHR '':'' \<notin> set k" for k
    using split2[OF that] assms
    by (simp add: parseLDAPLookupCacheKey_def has_prefix_def trim_prefix_def Let_def)
  show ?thesis using assms(5) parse
    by (auto simp: SensitiveEntryKey_def Let_def)
qed

theorem sensitive_key_roundtrip_witness:
  "parseLDAPLookupCacheKey sample_ext (SensitiveEntryKey sample_ext ''corp.com'' ''group'') = Some (''corp.com'', ''group'')"
proof -
  have l: "to_lower sample_ext ''corp.com'' = ''corp.com''"
    by (simp add: to_lower_def is_ascii_def ascii_lower_def)
  have t: "trim_space ''corp.com'' = ''corp.com''"
    by (rule trim_space_id[where c = "CHR ''c''" and v = "''corp.co''" and d = "CHR ''m''"]) (simp_all add: is_space_def)
  from sensitive_key_roundtrip[of sample_ext "''corp.com''" "''group''"] show ?thesis by (simp add: l t)
qed

section \<open>Notifications\<close>

lemma InArray_string: "\<not> InArray x (VString s)"
  by simp

lemma nothing_selected: "\<not> notify_selected params conf"
  by (simp add: notify_selected_def)

lemma notify_loop_quiet: "notify_loop N raw m lang proxy http err confs = ret err"
  by (induction confs) (simp_all add: nothing_selected)

text \<open>The messages sent; reading the queue, the settings and the configurations and storing the
  notification send none.\<close>

definition notifier_documented :: "'s notifier \<Rightarrow> ('s \<Rightarrow> 'm list) \<Rightarrow> bool" where
  "notifier_documented N sent \<longleftrightarrow> quiet sent (nt_brpop N) \<and> quiet sent (nt_new_id N) \<and>
     (\<forall>n. quiet sent (nt_insert N n)) \<and> (\<forall>m. quiet sent (nt_confs N m)) \<and> quiet sent (nt_sysinfo N)"

text \<open>C31: no notification is ever sent: whatever the queue holds and however the notifications are
  configured, \<open>ThreatNotifyTask\<close> sends nothing, because the rule check looks the list of rules up in the
  rule id.\<close>

theorem no_notification_is_sent:
  assumes "notifier_documented N sent"
  shows "sent (snd (run_state (ThreatNotifyTask N) s)) = sent s"
proof -
  have "quiet sent (ThreatNotifyTask N)"
    using assms unfolding ThreatNotifyTask_def GetLanguage_def notifier_documented_def Let_def notify_loop_quiet
    by (auto intro!: quiet_bind quiet_ret split: sum.splits rdx_error.splits list.splits option.splits)
  then show ?thesis by (simp add: quiet_def)
qed

text \<open>An alert queued by the engine and a configuration that names its level and its rule.\<close>

definition demo_conf :: NotifyConf where
  "demo_conf = \<lparr>nc_ModuleName = ''Alert'', nc_NotifyType = ''syslog'', nc_Endpoint = ''udp://h:514'',
     nc_MetaData = [], nc_Enable = ''enable'', nc_NotifyLevel = [4], nc_NotifyRules = [''flow-1'']\<rparr>"

definition demo_notifier :: "string list notifier" where
  "demo_notifier = \<lparr>nt_brpop = ret (Inr [''ada:server:notify_queue'', ''{}'']),
     nt_decode = (\<lambda>_. Some \<lparr>ni_Title = ''t'', ni_MsgType = ''alert'', ni_EventType = ''e'', ni_Desc = [],
        ni_Params = [(''level'', ''4''), (''rule_id'', ''flow-1'')], ni_Timestamp = 1\<rparr>),
     nt_new_id = ret ''i'', nt_insert = (\<lambda>_. ret None), nt_confs = (\<lambda>_. ret (Inr [demo_conf])),
     nt_sysinfo = ret None, nt_email = (\<lambda>_ _ _. State (\<lambda>l. (None, l @ [''mail'']))),
     nt_syslog = (\<lambda>m _. State (\<lambda>l. (None, l @ [m]))), nt_webhook = (\<lambda>m _ _ _. State (\<lambda>l. (None, l @ [m])))\<rparr>"

theorem no_notification_is_sent_witness:
  "notifier_documented demo_notifier (\<lambda>l. l) \<and> snd (run_state (ThreatNotifyTask demo_notifier) []) = []"
proof -
  have d: "notifier_documented demo_notifier (\<lambda>l. l)"
    by (simp add: notifier_documented_def demo_notifier_def quiet_def)
  from no_notification_is_sent[OF d, of "[]"] d show ?thesis by simp
qed

end
