(* ===== verification/Tasker_Syslog.thy ===== *)
theory Tasker_Syslog
  imports Engine_Store
begin

text \<open>
  The syslog server of the tasker (\<open>src/backend/tasker/server/syslog_svc.go\<close>): it takes the logs the
  sensors send, puts them on the queues the engine pops, counts them per minute for the dashboard and
  keeps the name of the day's index. Redis and Elasticsearch are a record of calls; the counters and the
  index names are the state of the server. The workers that share the server run \<open>syslogSync\<close> one event
  at a time each; the model is one worker.
\<close>

section \<open>State and services\<close>

record syslog_server =
  sv_logStats :: "(string \<times> int) list"
  sv_eveIndex :: string
  sv_pktIndex :: string

text \<open>\<open>sl_ltrim key start\<close> is \<open>LTRIM key start -1\<close>; \<open>sl_zremscore key ts\<close> removes the members with
  score \<open>ts\<close>, \<open>sl_zremrank key n\<close> those of rank 0 to \<open>n - 1\<close>; \<open>sl_pipe\<close> is the pipeline of
  \<open>ZREMRANGEBYSCORE\<close> and \<open>ZADD\<close>. \<open>sl_now\<close> is the Unix time, \<open>sl_date\<close> the formatted day.\<close>

record 's syslog_io =
  sl_exists :: "string \<Rightarrow> ('s, rdx_error + int) io"
  sl_hset :: "string \<Rightarrow> string \<Rightarrow> int \<Rightarrow> ('s, rdx_error option) io"
  sl_llen :: "string \<Rightarrow> ('s, rdx_error + int) io"
  sl_ltrim :: "string \<Rightarrow> int \<Rightarrow> ('s, rdx_error option) io"
  sl_lpush :: "string \<Rightarrow> string \<Rightarrow> ('s, rdx_error option) io"
  sl_zadd :: "string \<Rightarrow> int \<Rightarrow> string \<Rightarrow> ('s, rdx_error option) io"
  sl_zcard :: "string \<Rightarrow> ('s, rdx_error + int) io"
  sl_zremrank :: "string \<Rightarrow> int \<Rightarrow> ('s, rdx_error option) io"
  sl_pipe :: "string \<Rightarrow> int \<Rightarrow> string \<Rightarrow> ('s, unit) io"
  sl_index_exists :: "string \<Rightarrow> ('s, string + int) io"
  sl_index_create :: "string \<Rightarrow> ('s, string option) io"
  sl_bulk_add :: "string \<Rightarrow> string \<Rightarrow> ('s, string option) io"
  sl_now :: "('s, int) io"
  sl_date :: "('s, string) io"

definition maxLogQueueLen :: int where "maxLogQueueLen = 1024 * 512"
definition eveLogQueueKey :: string where "eveLogQueueKey = ''ada:evelog_queue''"
definition pktLogQueueKey :: string where "pktLogQueueKey = ''ada:pktlog_queue''"
definition eveLogIndexPrefix :: string where "eveLogIndexPrefix = ''ada-eventlog''"
definition pktLogIndexPrefix :: string where "pktLogIndexPrefix = ''ada-packetlog''"
definition statsListMaxLen :: int where "statsListMaxLen = 60 * 24"
definition SensorCollectStatusKey :: string where "SensorCollectStatusKey = ''ada:sensor:collect_stats''"

definition DomainIPRelateDCKey :: "go_ext \<Rightarrow> string \<Rightarrow> string" where
  "DomainIPRelateDCKey E domain = ''ada:server:'' @ to_lower E domain @ '':ip_relate_dc''"

definition stats_key :: "go_ext \<Rightarrow> string \<Rightarrow> string \<Rightarrow> string" where
  "stats_key E logType hostname =
     ''ada:server:stats:'' @ logType @ '':'' @ to_lower E (GetDomainFromHostname hostname)"

section \<open>Counting per minute\<close>

text \<open>\<open>collectLogStats\<close> for the two log types; \<open>now\<close> is the Unix time. The counters are \<open>int64\<close> only,
  so the branches for another dynamic type are not reached.\<close>

definition minute_of :: "int \<Rightarrow> int" where
  "minute_of now = now div 60 * 60"

definition stats_cache_key :: "string \<Rightarrow> int \<Rightarrow> string" where
  "stats_cache_key statsKey ts = statsKey @ '':'' @ itoa ts"

definition collectLogStats ::
  "'s syslog_io \<Rightarrow> string \<Rightarrow> int \<Rightarrow> syslog_server \<Rightarrow> ('s, syslog_server) io" where
  "collectLogStats S statsKey now sv =
     (let minuteTs = minute_of now; cacheKey = stats_cache_key statsKey minuteTs in
      case map_get (sv_logStats sv) cacheKey of
        Some cur \<Rightarrow> do {
          let n = wrap64 (cur + 1);
          sl_pipe S statsKey minuteTs (itoa n);
          ret (sv\<lparr>sv_logStats := map_put (sv_logStats sv) cacheKey n\<rparr>)
        }
      | None \<Rightarrow> do {
          let sv1 = sv\<lparr>sv_logStats := map_put (sv_logStats sv) cacheKey 1\<rparr>;
          let oldKey = stats_cache_key statsKey (minuteTs - 60);
          sv2 \<leftarrow> (case map_get (sv_logStats sv1) oldKey of
             None \<Rightarrow> ret sv1
           | Some oldCounts \<Rightarrow> do {
               sl_zadd S statsKey (minuteTs - 60) (itoa oldCounts);
               c \<leftarrow> sl_zcard S statsKey;
               (case c of
                  Inr n \<Rightarrow> if statsListMaxLen < n
                    then do { sl_zremrank S statsKey (n - statsListMaxLen); ret () }
                    else ret ()
                | Inl _ \<Rightarrow> ret ());
               ret (sv1\<lparr>sv_logStats := filter (\<lambda>kv. fst kv \<noteq> oldKey) (sv_logStats sv1)\<rparr>)
             });
          sl_pipe S statsKey minuteTs (itoa 1);
          ret sv2
        })"

section \<open>Indices\<close>

text \<open>\<open>checkIndex\<close> for the event log (\<open>eve\<close>) or the packet log.\<close>

definition checkIndex :: "'s syslog_io \<Rightarrow> bool \<Rightarrow> syslog_server \<Rightarrow> ('s, syslog_server) io" where
  "checkIndex S eve sv = do {
     d \<leftarrow> sl_date S;
     let current = (if eve then eveLogIndexPrefix else pktLogIndexPrefix) @ ''-'' @ d;
     if current = (if eve then sv_eveIndex sv else sv_pktIndex sv) then ret sv
     else do {
       r \<leftarrow> sl_index_exists S current;
       let renamed = (if eve then sv\<lparr>sv_eveIndex := current\<rparr> else sv\<lparr>sv_pktIndex := current\<rparr>);
       case r of
         Inl _ \<Rightarrow> ret sv
       | Inr status \<Rightarrow>
           if status = 404 then do {
             err \<leftarrow> sl_index_create S current;
             case err of Some _ \<Rightarrow> ret sv | None \<Rightarrow> ret renamed
           }
           else ret renamed
     }
   }"

section \<open>Receiving logs\<close>

text \<open>The housekeeping in every fourth second: note the time of the last log and trim a queue that is too
  long.\<close>

definition housekeeping ::
  "'s syslog_io \<Rightarrow> string \<Rightarrow> string \<Rightarrow> int \<Rightarrow> ('s, unit) io" where
  "housekeeping S statusField queueKey now =
     (if now mod 4 = 0 then do {
        sl_hset S SensorCollectStatusKey statusField now;
        r \<leftarrow> sl_llen S queueKey;
        case r of
          Inl _ \<Rightarrow> ret ()
        | Inr queueLen \<Rightarrow>
            if maxLogQueueLen < queueLen then do { sl_ltrim S queueKey (1024 * 10); ret () } else ret ()
      }
      else ret ())"

text \<open>Sending a log to the index of the day when Elasticsearch is enabled.\<close>

definition index_log :: "'s syslog_io \<Rightarrow> bool \<Rightarrow> bool \<Rightarrow> string \<Rightarrow> syslog_server \<Rightarrow> ('s, syslog_server) io" where
  "index_log S es eve content sv =
     (if \<not> es then ret sv
      else do {
        sv \<leftarrow> checkIndex S eve sv;
        sl_bulk_add S (if eve then sv_eveIndex sv else sv_pktIndex sv) content;
        ret sv
      })"

definition syncPktlogContent ::
  "go_ext \<Rightarrow> 's syslog_io \<Rightarrow> bool \<Rightarrow> string \<Rightarrow> string \<Rightarrow> int \<Rightarrow> bool \<Rightarrow> syslog_server \<Rightarrow> ('s, syslog_server) io" where
  "syncPktlogContent E S es hostname content now pushQueue sv = do {
     housekeeping S (''pktlog_'' @ hostname) pktLogQueueKey now;
     (if pushQueue then do { sl_lpush S pktLogQueueKey content; ret () } else ret ());
     sv \<leftarrow> collectLogStats S (stats_key E ''pktlog'' hostname) now sv;
     index_log S es False content sv
   }"

text \<open>\<open>strings.EqualFold\<close> with an ASCII word: the Kelvin sign folds to \<open>k\<close> and the long s to \<open>s\<close>.\<close>

fun fold_special :: "string \<Rightarrow> string" where
  "fold_special (a # b # c # r) =
     (if [a, b, c] = [CHR 0xE2, CHR 0x84, CHR 0xAA] then CHR ''k'' # fold_special r
      else if [a, b] = [CHR 0xC5, CHR 0xBF] then CHR ''s'' # fold_special (c # r)
      else a # fold_special (b # c # r))"
| "fold_special [a, b] = (if [a, b] = [CHR 0xC5, CHR 0xBF] then ''s'' else [a, b])"
| "fold_special s = s"

definition isPktlogSyslog :: "go_ext \<Rightarrow> string \<Rightarrow> bool" where
  "isPktlogSyslog E content = (case x_json_object E content of
     None \<Rightarrow> False
   | Some obj \<Rightarrow>
       (let str = (\<lambda>k. case map_get obj k of Some (VString v) \<Rightarrow> v | _ \<Rightarrow> []) in
        equal_fold (fold_special (str ''LogType'')) ''pktlog'' \<or> equal_fold (fold_special (str ''Source'')) ''tshark''))"

definition pktlogSync ::
  "go_ext \<Rightarrow> 's syslog_io \<Rightarrow> bool \<Rightarrow> string \<Rightarrow> syslog_server \<Rightarrow> ('s, syslog_server) io" where
  "pktlogSync E S es event sv = (case splitN2 event ''::{'' of
     [host, body] \<Rightarrow> do { now \<leftarrow> sl_now S; syncPktlogContent E S es host (''{'' @ body) now False sv }
   | _ \<Rightarrow> ret sv)"

text \<open>\<open>syslogSync\<close>. A field of the event that is missing or no string makes the type assertion panic.\<close>

definition as_string :: "(string \<times> gval) list \<Rightarrow> string \<Rightarrow> string option" where
  "as_string m k = (case map_get m k of Some (VString s) \<Rightarrow> Some s | _ \<Rightarrow> None)"

definition syslogSync ::
  "go_ext \<Rightarrow> 's syslog_io \<Rightarrow> bool \<Rightarrow> (string \<times> gval) list \<Rightarrow> syslog_server \<Rightarrow> ('s, syslog_server outcome) io" where
  "syslogSync E S es event sv =
     (case (as_string event ''hostname'', as_string event ''client'', as_string event ''tag'') of
        (Some hostname, Some client, Some tag) \<Rightarrow>
          if tag \<noteq> ''ADASensor'' then ret (Done sv)
          else if length (splitN2 client '':'') \<noteq> 2 then ret (Done sv)
          else if length (splitN2 hostname ''.'') \<noteq> 2 then ret (Done sv)
          else do {
            r \<leftarrow> sl_exists S (DomainIPRelateDCKey E (splitN2 hostname ''.'' ! 1));
            case r of
              Inl _ \<Rightarrow> ret (Done sv)
            | Inr n \<Rightarrow>
                if n = 0 then ret (Done sv)
                else do {
                  now \<leftarrow> sl_now S;
                  (case as_string event ''content'' of
                     None \<Rightarrow> ret (Panic ''interface conversion'')
                   | Some content \<Rightarrow>
                       if isPktlogSyslog E content then do {
                         sv \<leftarrow> syncPktlogContent E S es hostname content now True sv;
                         ret (Done sv)
                       }
                       else do {
                         housekeeping S (''winlog_'' @ hostname) eveLogQueueKey now;
                         sl_lpush S eveLogQueueKey content;
                         sv \<leftarrow> collectLogStats S (stats_key E ''winlog'' hostname) now sv;
                         sv \<leftarrow> index_log S es True content sv;
                         ret (Done sv)
                       })
                }
          }
      | _ \<Rightarrow> ret (Panic ''interface conversion''))"

end
