(* ===== verification/Syslog_Theorems.thy ===== *)
theory Syslog_Theorems
  imports Tasker_Syslog Sigma_Pattern
begin

text \<open>
  What the syslog server leaves for the engine and for the dashboard: every accepted log reaches the
  queue the engine pops, a full queue loses its newest logs, and the per-minute statistics lose every
  earlier minute whose count a later minute reaches.
\<close>

section \<open>Queues\<close>

text \<open>\<open>q s k\<close> is the list under \<open>k\<close> from left to right; \<open>LPUSH\<close> adds on the left, \<open>LTRIM k i -1\<close> drops
  the first \<open>i\<close>, and no other call touches the lists. The engine pops on the right.\<close>

definition lists_documented :: "'s syslog_io \<Rightarrow> ('s \<Rightarrow> string \<Rightarrow> string list) \<Rightarrow> bool" where
  "lists_documented S q \<longleftrightarrow>
     (\<forall>k s. q (snd (run_state (sl_exists S k) s)) = q s) \<and>
     (\<forall>k f v s. q (snd (run_state (sl_hset S k f v) s)) = q s) \<and>
     (\<forall>k s. run_state (sl_llen S k) s = (Inr (int (length (q s k))), s)) \<and>
     (\<forall>k i s. q (snd (run_state (sl_ltrim S k i) s)) = (q s)(k := drop (nat i) (q s k))) \<and>
     (\<forall>k v s. q (snd (run_state (sl_lpush S k v) s)) = (q s)(k := v # q s k)) \<and>
     (\<forall>k i v s. q (snd (run_state (sl_zadd S k i v) s)) = q s) \<and>
     (\<forall>k s. q (snd (run_state (sl_zcard S k) s)) = q s) \<and>
     (\<forall>k i s. q (snd (run_state (sl_zremrank S k i) s)) = q s) \<and>
     (\<forall>k i v s. q (snd (run_state (sl_pipe S k i v) s)) = q s) \<and>
     (\<forall>k s. q (snd (run_state (sl_index_exists S k) s)) = q s) \<and>
     (\<forall>k s. q (snd (run_state (sl_index_create S k) s)) = q s) \<and>
     (\<forall>k v s. q (snd (run_state (sl_bulk_add S k v) s)) = q s) \<and>
     (\<forall>s. q (snd (run_state (sl_now S) s)) = q s) \<and> (\<forall>s. q (snd (run_state (sl_date S) s)) = q s)"

text \<open>Calls that leave the lists alone, and their composition.\<close>

definition steady :: "('s \<Rightarrow> 'q) \<Rightarrow> ('s, 'a) io \<Rightarrow> bool" where
  "steady q m \<longleftrightarrow> (\<forall>s. q (snd (run_state m s)) = q s)"

named_theorems steady_rules \<open>calls that leave a view of the state alone\<close>

lemma steady_bind [steady_rules]: "\<lbrakk>steady q m; \<And>a. steady q (f a)\<rbrakk> \<Longrightarrow> steady q (State_Monad.bind m f)"
  by (simp add: steady_def split: prod.splits) (metis snd_conv)

lemma steady_ret [steady_rules]: "steady q (ret a)"
  by (simp add: steady_def)

lemma steadyD: "\<lbrakk>steady q m; run_state m s = (a, s1)\<rbrakk> \<Longrightarrow> q s1 = q s"
  unfolding steady_def by (metis snd_conv)

lemma steady_lists [steady_rules]:
  assumes "lists_documented S q"
  shows "steady q (sl_exists S k)" "steady q (sl_hset S k f t)" "steady q (sl_zadd S k i v)"
    "steady q (sl_zcard S k)" "steady q (sl_zremrank S k i)" "steady q (sl_pipe S k i v)"
    "steady q (sl_index_exists S k)" "steady q (sl_index_create S k)" "steady q (sl_bulk_add S k v)"
    "steady q (sl_now S)" "steady q (sl_date S)"
  using assms by (simp_all add: lists_documented_def steady_def)

lemma steady_stats: "lists_documented S q \<Longrightarrow> steady q (collectLogStats S k now sv)"
  unfolding collectLogStats_def Let_def
  by (auto intro!: steady_rules split: option.splits sum.splits)

lemma steady_index: "lists_documented S q \<Longrightarrow> steady q (index_log S es eve content sv)"
  unfolding index_log_def checkIndex_def Let_def
  by (auto intro!: steady_rules split: option.splits sum.splits)

text \<open>What is left of a queue by the housekeeping.\<close>

definition trimmed :: "int \<Rightarrow> string list \<Rightarrow> string list" where
  "trimmed now xs = (if now mod 4 = 0 \<and> maxLogQueueLen < int (length xs) then drop 10240 xs else xs)"

lemma housekeeping_queue:
  assumes "lists_documented S q"
  shows "q (snd (run_state (housekeeping S f k now) s)) = (q s)(k := trimmed now (q s k))"
proof (cases "now mod 4 = 0")
  case True
  obtain a s1 where 1: "run_state (sl_hset S SensorCollectStatusKey f now) s = (a, s1)" by fastforce
  have q1: "q s1 = q s" by (rule steadyD[OF steady_lists(2)[OF assms] 1])
  have len: "run_state (sl_llen S k) s1 = (Inr (int (length (q s k))), s1)"
    using assms q1 by (simp add: lists_documented_def)
  obtain b s2 where 2: "run_state (sl_ltrim S k (1024 * 10)) s1 = (b, s2)" by fastforce
  have "q s2 = (q s)(k := drop 10240 (q s k))"
  proof -
    have "q (snd (run_state (sl_ltrim S k i) s1)) = (q s1)(k := drop (nat i) (q s1 k))" for i
      using assms by (simp add: lists_documented_def)
    from this[of "1024 * 10"] show ?thesis using 2 q1 by simp
  qed
  then show ?thesis using True 1 len 2 q1
    by (simp add: housekeeping_def trimmed_def)
next
  case False
  then show ?thesis by (simp add: housekeeping_def trimmed_def)
qed

definition queue_of :: "go_ext \<Rightarrow> string \<Rightarrow> string" where
  "queue_of E content = (if isPktlogSyslog E content then pktLogQueueKey else eveLogQueueKey)"

lemma syslogSync_queues:
  assumes doc: "lists_documented S q"
    and "as_string event ''hostname'' = Some hostname" "as_string event ''client'' = Some client"
    and "as_string event ''tag'' = Some ''ADASensor''" "as_string event ''content'' = Some content"
    and "length (splitN2 client '':'') = 2" "length (splitN2 hostname ''.'') = 2"
    and ex: "run_state (sl_exists S (DomainIPRelateDCKey E (splitN2 hostname ''.'' ! 1))) s = (Inr n, s1)" "n \<noteq> 0"
    and now: "run_state (sl_now S) s1 = (now, s2)"
  shows "q (snd (run_state (syslogSync E S es event sv) s)) (queue_of E content) =
      content # trimmed now (q s (queue_of E content)) \<and>
    (\<exists>sv'. fst (run_state (syslogSync E S es event sv) s) = Done sv')"
proof -
  let ?k = "queue_of E content" and ?ty = "if isPktlogSyslog E content then ''pktlog'' else ''winlog''"
  have q2: "q s2 = q s"
    using steadyD[OF steady_lists(1)[OF doc] ex(1)] steadyD[OF steady_lists(10)[OF doc] now] by simp
  obtain a s3 where 3: "run_state (housekeeping S (?ty @ ''_'' @ hostname) ?k now) s2 = (a, s3)" by (metis surj_pair)
  have q3: "q s3 = (q s)(?k := trimmed now (q s ?k))"
    using housekeeping_queue[OF doc, of "?ty @ ''_'' @ hostname" ?k now s2] 3 q2 by simp
  obtain b s4 where 4: "run_state (sl_lpush S ?k content) s3 = (b, s4)" by (metis surj_pair)
  have q4: "q s4 ?k = content # trimmed now (q s ?k)"
  proof -
    have "q (snd (run_state (sl_lpush S ?k content) s3)) = (q s3)(?k := content # q s3 ?k)"
      using doc by (simp add: lists_documented_def)
    then show ?thesis by (simp add: 4 q3)
  qed
  obtain sv1 s5 where 5: "run_state (collectLogStats S (stats_key E ?ty hostname) now sv) s4 = (sv1, s5)" by (metis surj_pair)
  obtain sv2 s6 where 6: "run_state (index_log S es (\<not> isPktlogSyslog E content) content sv1) s5 = (sv2, s6)" by (metis surj_pair)
  have "q s6 ?k = content # trimmed now (q s ?k)"
    using q4 steadyD[OF steady_stats[OF doc] 5] steadyD[OF steady_index[OF doc] 6] by simp
  moreover have "run_state (syslogSync E S es event sv) s = (Done sv2, s6)"
    using assms 3 4 5 6
    by (cases "isPktlogSyslog E content") (simp_all add: syslogSync_def syncPktlogContent_def queue_of_def)
  ultimately show ?thesis by simp
qed

text \<open>C32: every accepted log reaches the queue the engine pops, in front of what the queue held; but a queue
  that is longer than its limit first loses its 10240 newest logs, those pushed last, although the
  housekeeping means to remove old ones.\<close>

theorem accepted_log_is_queued:
  assumes doc: "lists_documented S q"
    and "as_string event ''hostname'' = Some hostname" "as_string event ''client'' = Some client"
    and "as_string event ''tag'' = Some ''ADASensor''" "as_string event ''content'' = Some content"
    and "length (splitN2 client '':'') = 2" "length (splitN2 hostname ''.'') = 2"
    and ex: "run_state (sl_exists S (DomainIPRelateDCKey E (splitN2 hostname ''.'' ! 1))) s = (Inr n, s1)" "n \<noteq> 0"
    and now: "run_state (sl_now S) s1 = (now, s2)"
  shows "q (snd (run_state (syslogSync E S es event sv) s)) (queue_of E content) =
      content # trimmed now (q s (queue_of E content)) \<and>
    (\<exists>sv'. fst (run_state (syslogSync E S es event sv) s) = Done sv')"
  using assms by (rule syslogSync_queues)

section \<open>Statistics\<close>

text \<open>\<open>z s k\<close> maps the members of the sorted set under \<open>k\<close> to their scores: a member occurs once,
  \<open>ZADD\<close> of a member the set has moves it, \<open>ZREMRANGEBYRANK\<close> only removes.\<close>

definition zsets_documented :: "'s syslog_io \<Rightarrow> ('s \<Rightarrow> string \<Rightarrow> string \<Rightarrow> int option) \<Rightarrow> bool" where
  "zsets_documented S z \<longleftrightarrow>
     (\<forall>k t m s. z (snd (run_state (sl_zadd S k t m) s)) = (z s)(k := (z s k)(m \<mapsto> t))) \<and>
     (\<forall>k s. z (snd (run_state (sl_zcard S k) s)) = z s) \<and>
     (\<forall>k i s. z (snd (run_state (sl_zremrank S k i) s)) k \<subseteq>\<^sub>m z s k) \<and>
     (\<forall>k t m s. z (snd (run_state (sl_pipe S k t m) s)) =
        (z s)(k := (\<lambda>x. if z s k x = Some t then None else z s k x)(m \<mapsto> t)))"

text \<open>Counting \<open>n\<close> logs of one minute.\<close>

fun count_logs :: "'s syslog_io \<Rightarrow> string \<Rightarrow> int \<Rightarrow> nat \<Rightarrow> syslog_server \<Rightarrow> ('s, syslog_server) io" where
  "count_logs S k now 0 sv = ret sv"
| "count_logs S k now (Suc n) sv = do { sv' \<leftarrow> count_logs S k now n sv; collectLogStats S k now sv' }"

lemma pipe_view:
  assumes "zsets_documented S z" "run_state (sl_pipe S k t m) s = (a, s1)"
  shows "z s1 k = (\<lambda>x. if z s k x = Some t then None else z s k x)(m \<mapsto> t)"
proof -
  have "z (snd (run_state (sl_pipe S k t m) s)) =
      (z s)(k := (\<lambda>x. if z s k x = Some t then None else z s k x)(m \<mapsto> t))"
    using assms(1) by (simp add: zsets_documented_def)
  then show ?thesis by (simp add: assms(2))
qed

lemma first_count:
  assumes "zsets_documented S z" "map_get (sv_logStats sv) (stats_cache_key k (minute_of now)) = None"
    and "run_state (collectLogStats S k now sv) s = (sv', s')"
  shows "map_get (sv_logStats sv') (stats_cache_key k (minute_of now)) = Some 1 \<and>
    z s' k (itoa 1) = Some (minute_of now)"
proof -
  let ?t = "minute_of now"
  have ne: "stats_cache_key k (?t - 60) \<noteq> stats_cache_key k ?t"
    by (simp add: stats_cache_key_def itoa_inject)
  have del: "map_of (filter (\<lambda>kv. fst kv \<noteq> a) m) b = map_of m b" if "a \<noteq> b" for m :: "(string \<times> int) list" and a b
    using that by (induction m) auto
  from assms(3) obtain s1 x sv2 where "run_state (sl_pipe S k ?t (itoa 1)) s1 = (x, s')" "sv' = sv2"
    and "map_get (sv_logStats sv2) (stats_cache_key k ?t) = Some 1"
    using assms(2) ne del
    by (auto simp: collectLogStats_def Let_def map_of_map_put split: option.splits prod.splits sum.splits if_splits)
  then show ?thesis using pipe_view[OF assms(1)] by fastforce
qed

lemma next_count:
  assumes "zsets_documented S z" "map_get (sv_logStats sv) (stats_cache_key k (minute_of now)) = Some c"
    and "run_state (collectLogStats S k now sv) s = (sv', s')" "0 \<le> c" "c + 1 < 2 ^ 63"
  shows "map_get (sv_logStats sv') (stats_cache_key k (minute_of now)) = Some (c + 1) \<and>
    z s' k = (\<lambda>x. if z s k x = Some (minute_of now) then None else z s k x)(itoa (c + 1) \<mapsto> minute_of now)"
proof -
  have w: "wrap64 (c + 1) = c + 1" using assms(4,5) by (intro wrap64_id) auto
  obtain x where "run_state (sl_pipe S k (minute_of now) (itoa (c + 1))) s = (x, s')"
    and "sv' = sv\<lparr>sv_logStats := map_put (sv_logStats sv) (stats_cache_key k (minute_of now)) (c + 1)\<rparr>"
    using assms(2,3) w by (auto simp: collectLogStats_def Let_def split: prod.splits)
  then show ?thesis using pipe_view[OF assms(1)] by (simp add: map_of_map_put)
qed

lemma count_logs_invariant:
  assumes "zsets_documented S z" "map_get (sv_logStats sv) (stats_cache_key k (minute_of now)) = None"
    and "int (Suc n) < 2 ^ 63" "run_state (count_logs S k now (Suc n) sv) s = (sv', s')"
  shows "map_get (sv_logStats sv') (stats_cache_key k (minute_of now)) = Some (int (Suc n)) \<and>
    z s' k (itoa (int (Suc n))) = Some (minute_of now) \<and>
    (\<forall>i. 1 \<le> i \<and> i < int (Suc n) \<longrightarrow> z s' k (itoa i) = None)"
  using assms(3,4)
proof (induction n arbitrary: sv' s')
  case 0
  then show ?case using first_count[OF assms(1,2)] by auto
next
  case (Suc n)
  obtain sv1 s1 where 1: "run_state (count_logs S k now (Suc n) sv) s = (sv1, s1)" by (metis surj_pair)
  have 2: "run_state (collectLogStats S k now sv1) s1 = (sv', s')"
    using Suc.prems(2) 1 by (simp only: count_logs.simps(2)[of _ _ _ "Suc n"] run_state_bind prod.case)
  have IH: "map_get (sv_logStats sv1) (stats_cache_key k (minute_of now)) = Some (int (Suc n))"
    "z s1 k (itoa (int (Suc n))) = Some (minute_of now)"
    "\<And>i. \<lbrakk>1 \<le> i; i < int (Suc n)\<rbrakk> \<Longrightarrow> z s1 k (itoa i) = None"
    using Suc.IH[OF _ 1] Suc.prems(1) by auto
  have up: "map_get (sv_logStats sv') (stats_cache_key k (minute_of now)) = Some (int (Suc n) + 1)"
    "z s' k = (\<lambda>x. if z s1 k x = Some (minute_of now) then None else z s1 k x)(itoa (int (Suc n) + 1) \<mapsto> minute_of now)"
    using next_count[OF assms(1) IH(1) 2] Suc.prems(1) by auto
  have "z s' k (itoa i) = None" if "1 \<le> i" "i < int (Suc n) + 1" for i
  proof (cases "i = int (Suc n)")
    case True
    then show ?thesis using IH(2) by (simp add: up(2) itoa_inject)
  next
    case False
    then show ?thesis using IH(3)[of i] that by (simp add: up(2) itoa_inject)
  qed
  then show ?case using up by (simp add: add.commute)
qed

text \<open>The statistics forget: once a minute has counted \<open>n\<close> logs, the sorted set of the dashboard holds
  \<open>n\<close> for that minute and no count from 1 to \<open>n - 1\<close> for any minute, since the counts are the members and
  a member has one score; every earlier minute with at most \<open>n\<close> logs is gone.\<close>

theorem statistics_forget_smaller_minutes:
  assumes "zsets_documented S z" "map_get (sv_logStats sv) (stats_cache_key k (minute_of now)) = None"
    and "0 < n" "int n < 2 ^ 63" "run_state (count_logs S k now n sv) s = (sv', s')"
    and "1 \<le> i" "i \<le> int n" "z s' k (itoa i) = Some t"
  shows "t = minute_of now \<and> i = int n"
proof -
  obtain n' where n: "n = Suc n'" using assms(3) by (cases n) auto
  have "z s' k (itoa (int n)) = Some (minute_of now)" "\<And>i. \<lbrakk>1 \<le> i; i < int n\<rbrakk> \<Longrightarrow> z s' k (itoa i) = None"
    using count_logs_invariant[OF assms(1,2)] assms(4,5) unfolding n by blast+
  then show ?thesis using assms(6-8) by (cases "i = int n") auto
qed

section \<open>Witnesses\<close>

text \<open>Redis as its lists and sorted sets; the clock stands at 125 seconds.\<close>

type_synonym demo_redis = "(string \<Rightarrow> string list) \<times> (string \<Rightarrow> string \<Rightarrow> int option)"

definition demo_syslog :: "demo_redis syslog_io" where
  "demo_syslog = \<lparr>sl_exists = (\<lambda>_. ret (Inr 1)), sl_hset = (\<lambda>_ _ _. ret None),
     sl_llen = (\<lambda>k. State (\<lambda>s. (Inr (int (length (fst s k))), s))),
     sl_ltrim = (\<lambda>k i. State (\<lambda>s. (None, ((fst s)(k := drop (nat i) (fst s k)), snd s)))),
     sl_lpush = (\<lambda>k v. State (\<lambda>s. (None, ((fst s)(k := v # fst s k), snd s)))),
     sl_zadd = (\<lambda>k t m. State (\<lambda>s. (None, (fst s, (snd s)(k := (snd s k)(m \<mapsto> t)))))),
     sl_zcard = (\<lambda>_. ret (Inr 1)), sl_zremrank = (\<lambda>_ _. ret None),
     sl_pipe = (\<lambda>k t m. State (\<lambda>s. ((), (fst s, (snd s)(k :=
        (\<lambda>x. if snd s k x = Some t then None else snd s k x)(m \<mapsto> t)))))),
     sl_index_exists = (\<lambda>_. ret (Inr 200)), sl_index_create = (\<lambda>_. ret None), sl_bulk_add = (\<lambda>_ _. ret None),
     sl_now = ret 125, sl_date = ret ''2026.01.02''\<rparr>"

lemma demo_lists: "lists_documented demo_syslog fst"
  by (simp add: lists_documented_def demo_syslog_def)

lemma demo_zsets: "zsets_documented demo_syslog snd"
  by (simp add: zsets_documented_def demo_syslog_def)

definition demo_server :: syslog_server where
  "demo_server = \<lparr>sv_logStats = [], sv_eveIndex = [], sv_pktIndex = []\<rparr>"

theorem statistics_forget_smaller_minutes_witness:
  "\<exists>sv' s'. run_state (count_logs demo_syslog ''k'' 125 1 demo_server) (\<lambda>_. [], \<lambda>_. [''1'' \<mapsto> 60]) = (sv', s') \<and>
     snd s' ''k'' ''1'' \<noteq> Some 60"
proof -
  obtain sv' s' where run: "run_state (count_logs demo_syslog ''k'' 125 1 demo_server) (\<lambda>_. [], \<lambda>_. [''1'' \<mapsto> 60]) = (sv', s')"
    by (metis surj_pair)
  have one: "itoa 1 = ''1''" by (simp add: itoa_def nat_digits.simps char_of_def bit_0)
  have "t = minute_of 125" if "snd s' ''k'' (itoa 1) = Some t" for t
    using statistics_forget_smaller_minutes[OF demo_zsets _ _ _ run, of 1 t] that by (simp add: demo_server_def)
  then have "snd s' ''k'' ''1'' \<noteq> Some 60" unfolding one by (force simp: minute_of_def)
  then show ?thesis using run by blast
qed

definition demo_syslog_event :: "(string \<times> gval) list" where
  "demo_syslog_event = [(''hostname'', VString ''dc1.corp.com''), (''client'', VString ''10.0.0.1:514''),
     (''tag'', VString ''ADASensor''), (''content'', VString ''{}'')]"

theorem accepted_log_is_queued_witness:
  "fst (snd (run_state (syslogSync sample_ext demo_syslog False demo_syslog_event demo_server) (\<lambda>_. [''a''], \<lambda>_. Map.empty)))
     (queue_of sample_ext ''{}'') = [''{}'', ''a'']"
proof -
  have split: "splitN2 ''10.0.0.1:514'' '':'' = [''10.0.0.1'', ''514'']" "splitN2 ''dc1.corp.com'' ''.'' = [''dc1'', ''corp.com'']"
    by (simp_all add: splitN2_def has_prefix_def)
  have at: "as_string demo_syslog_event ''hostname'' = Some ''dc1.corp.com''"
    "as_string demo_syslog_event ''client'' = Some ''10.0.0.1:514''"
    "as_string demo_syslog_event ''tag'' = Some ''ADASensor''" "as_string demo_syslog_event ''content'' = Some ''{}''"
    by (simp_all add: as_string_def demo_syslog_event_def)
  have run: "run_state (sl_exists demo_syslog k) s = (Inr 1, s)" "run_state (sl_now demo_syslog) s = (125, s)" for k s
    by (simp_all add: demo_syslog_def)
  from accepted_log_is_queued[OF demo_lists at _ _ run(1) _ run(2), where E = sample_ext and
      s = "(\<lambda>_. [''a''], \<lambda>_. Map.empty)" and es = False and sv = demo_server]
  show ?thesis by (simp add: split trimmed_def)
qed

end
