(* ===== verification/Sensor_Tshark.thy ===== *)
theory Sensor_Tshark
  imports Sensor_Entry Engine_Store "HOL-Library.Word"
begin

text \<open>
  The packet capture of the sensor (\<open>src/agent/sensor/plugin/plugin_tshark.go\<close>): from a record that
  \<open>tshark -T ek\<close> prints, or a line of fields, to the packet event the engine matches; the configuration
  of the capture; the queue between the readers and the two senders; and the life cycle of the plugin
  with the goroutines its wait group counts. Values are what the JSON decoder produces, strings and
  integers; the narrower integers of the type switches do not occur.
\<close>

type_synonym layers = "(string \<times> gval) list"

definition containsAny :: "string \<Rightarrow> string list \<Rightarrow> bool" where
  "containsAny s needles = list_ex (contains s) needles"

section \<open>Reading layers\<close>

definition normalizeTsharkFieldKey :: "string \<Rightarrow> string" where
  "normalizeTsharkFieldKey key = map (\<lambda>c. if c = CHR ''.'' \<or> c = CHR ''-'' then CHR ''_'' else c) key"

definition layerNameFromFieldKey :: "string \<Rightarrow> string" where
  "layerNameFromFieldKey key =
     (if key = [] \<or> has_prefix key ''_'' then []
      else case cut ''_'' key of None \<Rightarrow> key | Some (a, _) \<Rightarrow> if a = [] then key else a)"

text \<open>The two loops of \<open>lookupLayerValue\<close>: the layer a key names, and all layers in the order of the
  map.\<close>

definition named_layer :: "layers \<Rightarrow> string \<Rightarrow> gval option" where
  "named_layer ls candidate =
     (let layerName = layerNameFromFieldKey candidate in
      if layerName = [] then None
      else case map_get ls layerName of Some (VMap layer) \<Rightarrow> map_get layer candidate | _ \<Rightarrow> None)"

fun any_layer :: "string \<Rightarrow> string \<Rightarrow> layers \<Rightarrow> gval option" where
  "any_layer key normalized [] = None"
| "any_layer key normalized ((_, raw) # ls) = (case raw of
     VMap layer \<Rightarrow>
       (case map_get layer key of
          Some v \<Rightarrow> Some v
        | None \<Rightarrow> (case (if normalized \<noteq> key then map_get layer normalized else None) of
                     Some v \<Rightarrow> Some v
                   | None \<Rightarrow> any_layer key normalized ls))
   | _ \<Rightarrow> any_layer key normalized ls)"

definition lookupLayerValue :: "layers \<Rightarrow> string \<Rightarrow> gval option" where
  "lookupLayerValue ls key =
     (let normalized = normalizeTsharkFieldKey key in
      case map_get ls key of
        Some v \<Rightarrow> Some v
      | None \<Rightarrow> (case (if normalized \<noteq> key then map_get ls normalized else None) of
          Some v \<Rightarrow> Some v
        | None \<Rightarrow> (case named_layer ls key of
            Some v \<Rightarrow> Some v
          | None \<Rightarrow> (case named_layer ls normalized of
              Some v \<Rightarrow> Some v
            | None \<Rightarrow> any_layer key normalized ls))))"

fun first_nonempty :: "string list \<Rightarrow> string" where
  "first_nonempty [] = []"
| "first_nonempty (s # ss) = (if s \<noteq> [] then s else first_nonempty ss)"

definition found_texts :: "(string \<times> 'a) list \<Rightarrow> string list \<Rightarrow> 'a list" where
  "found_texts m keys = concat (map (\<lambda>k. case map_get m k of Some s \<Rightarrow> [s] | None \<Rightarrow> []) keys)"

fun tsharkValueToString :: "go_ext \<Rightarrow> gval \<Rightarrow> string" where
  "tsharkValueToString E (VString s) = trim_space s"
| "tsharkValueToString E (VInt i) = itoa i"
| "tsharkValueToString E (VInt32 i) = itoa i"
| "tsharkValueToString E (VInt64 i) = itoa i"
| "tsharkValueToString E (VUint i) = itoa i"
| "tsharkValueToString E (VUint32 i) = itoa i"
| "tsharkValueToString E (VUint64 i) = itoa i"
| "tsharkValueToString E (VFloat m e) = x_format_float E m e"
| "tsharkValueToString E (VBool b) = (if b then ''true'' else ''false'')"
| "tsharkValueToString E (VSlice vs) = first_nonempty (map (tsharkValueToString E) vs)"
| "tsharkValueToString E (VMap m) =
     first_nonempty (found_texts (map (\<lambda>(k, v). (k, tsharkValueToString E v)) m)
       [''show'', ''value'', ''_ws.expert.message''])"
| "tsharkValueToString E _ = []"

definition firstLayerString :: "go_ext \<Rightarrow> layers \<Rightarrow> string list \<Rightarrow> string" where
  "firstLayerString E ls keys =
     first_nonempty (map (\<lambda>k. case lookupLayerValue ls k of Some v \<Rightarrow> tsharkValueToString E v | None \<Rightarrow> []) keys)"

definition setFirstLayerValue ::
  "go_ext \<Rightarrow> layers \<Rightarrow> string \<times> string list \<Rightarrow> (string \<times> gval) list \<Rightarrow> (string \<times> gval) list" where
  "setFirstLayerValue E ls kk event =
     (let val = firstLayerString E ls (snd kk) in
      if val \<noteq> [] then map_put event (fst kk) (VString val) else event)"

definition stringFromEvent :: "go_ext \<Rightarrow> (string \<times> gval) list \<Rightarrow> string \<Rightarrow> string" where
  "stringFromEvent E event key = (case map_get event key of None \<Rightarrow> [] | Some v \<Rightarrow> tsharkValueToString E v)"

text \<open>\<open>val == float64(int(val))\<close> for a finite \<open>float64\<close>.\<close>

definition float_equals :: "int \<Rightarrow> int \<Rightarrow> int \<Rightarrow> bool" where
  "float_equals m e n = (if 0 \<le> e then m * 2 ^ nat e = n else m = n * 2 ^ nat (- e))"

fun tsharkValueToInt :: "gval \<Rightarrow> int option" where
  "tsharkValueToInt (VInt i) = Some i"
| "tsharkValueToInt (VInt32 i) = Some i"
| "tsharkValueToInt (VInt64 i) = Some i"
| "tsharkValueToInt (VUint i) = Some (wrap64 i)"
| "tsharkValueToInt (VUint32 i) = Some i"
| "tsharkValueToInt (VUint64 i) = Some (wrap64 i)"
| "tsharkValueToInt (VFloat m e) =
     (let n = float_to_int m e in if float_equals m e n then Some n else None)"
| "tsharkValueToInt (VString s) = (let val = trim_space s in if val = [] then None else atoi val)"
| "tsharkValueToInt _ = None"

definition coerce_number :: "(string \<times> gval) list \<Rightarrow> string \<Rightarrow> (string \<times> gval) list" where
  "coerce_number event key = (case map_get event key of
     None \<Rightarrow> event
   | Some v \<Rightarrow> (case tsharkValueToInt v of Some port \<Rightarrow> map_put event key (VInt port) | None \<Rightarrow> event))"

definition coerceTsharkEventNumbers :: "(string \<times> gval) list \<Rightarrow> (string \<times> gval) list" where
  "coerceTsharkEventNumbers event = foldl coerce_number event [''SrcPort'', ''DstPort'']"

section \<open>Classification\<close>

definition protocolNamesFromLayers :: "go_ext \<Rightarrow> layers \<Rightarrow> string" where
  "protocolNamesFromLayers E ls = join (map (\<lambda>(key, _). to_lower E key) ls) '':''"

definition layer_protocols :: "string list" where
  "layer_protocols = [''dcerpc'', ''epm'', ''ldap'', ''cldap'', ''smb2_transform'', ''smb2'', ''smb'',
     ''kerberos'', ''krb5'', ''ntlmssp'', ''dns'', ''rdp'', ''tpkt'', ''cotp'', ''http'', ''tls'', ''ssl'',
     ''nbns'', ''nbss'', ''nbdgm'']"

definition protocolFromLayers :: "go_ext \<Rightarrow> layers \<Rightarrow> string \<Rightarrow> string" where
  "protocolFromLayers E ls frameProtocols =
     (let layerNames = protocolNamesFromLayers E ls in
      case find (\<lambda>p. containsAny layerNames [p]) layer_protocols of
        Some p \<Rightarrow> p
      | None \<Rightarrow> trim_space (last (split frameProtocols '':'')))"

definition port_types :: "(string \<times> string) list" where
  "port_types =
     [(''636'', ''ldaps''), (''3269'', ''ldaps''), (''5985'', ''winrm''), (''5986'', ''winrm''),
      (''9389'', ''adws''), (''53'', ''dns''), (''88'', ''kerberos''), (''135'', ''dcerpc''),
      (''593'', ''dcerpc''), (''137'', ''netbios''), (''138'', ''netbios''), (''139'', ''smb''),
      (''389'', ''ldap''), (''3268'', ''ldap''), (''445'', ''smb2''), (''464'', ''kerberos''),
      (''3389'', ''rdp'')]"

definition ad_port_types :: "(string \<times> string) list" where
  "ad_port_types =
     [(''636'', ''ldaps''), (''3269'', ''ldaps''), (''5985'', ''winrm''), (''5986'', ''winrm''),
      (''9389'', ''adws'')]"

fun first_port_type :: "(string \<times> string) list \<Rightarrow> string list \<Rightarrow> string" where
  "first_port_type table [] = []"
| "first_port_type table (port # ports) =
     (case map_get table (trim_space port) of Some typ \<Rightarrow> typ | None \<Rightarrow> first_port_type table ports)"

definition eventTypeFromPorts :: "string list \<Rightarrow> string" where
  "eventTypeFromPorts = first_port_type port_types"

definition adServiceEventTypeFromPorts :: "string list \<Rightarrow> string" where
  "adServiceEventTypeFromPorts = first_port_type ad_port_types"

fun truthyTsharkValue :: "go_ext \<Rightarrow> gval \<Rightarrow> bool" where
  "truthyTsharkValue E (VBool b) = b"
| "truthyTsharkValue E (VFloat m e) = (m \<noteq> 0)"
| "truthyTsharkValue E (VString s) =
     (to_lower E (trim_space s) \<in> {''1'', ''true'', ''yes'', ''set''})"
| "truthyTsharkValue E (VMap m) =
     list_ex id (found_texts (map (\<lambda>(k, v). (k, truthyTsharkValue E v)) m) [''show'', ''value''])"
| "truthyTsharkValue E _ = False"

definition smb_key :: "go_ext \<Rightarrow> string \<Rightarrow> string" where
  "smb_key E key =
     to_lower E (map (\<lambda>c. if c = CHR ''.'' \<or> c = CHR ''-'' \<or> c = CHR '' '' then CHR ''_'' else c) key)"

fun containsEncryptedSMBValue :: "go_ext \<Rightarrow> gval \<Rightarrow> bool" where
  "containsEncryptedSMBValue E (VMap m) =
     list_ex (\<lambda>(key, item).
       containsAny (smb_key E key) [''smb2_transform'', ''smb3_transform''] \<or>
       containsAny (smb_key E key) [''smb2_flags_encrypted'', ''smb3_flags_encrypted''] \<and> truthyTsharkValue E item \<or>
       containsEncryptedSMBValue E item) m"
| "containsEncryptedSMBValue E (VSlice vs) = list_ex (containsEncryptedSMBValue E) vs"
| "containsEncryptedSMBValue E _ = False"

definition containsEncryptedSMB :: "go_ext \<Rightarrow> string \<Rightarrow> gval \<Rightarrow> bool" where
  "containsEncryptedSMB E protocol raw \<longleftrightarrow>
     containsAny (to_lower E protocol) [''smb2_transform'', ''smb3_transform'', ''smb2 transform'', ''smb3 transform'']
     \<or> containsEncryptedSMBValue E raw"

text \<open>The \<open>switch\<close> over protocol names, in its order. Two empty ports have no type, so the test for them is
  part of \<open>eventTypeFromPorts\<close>.\<close>

definition protocol_cases :: "(string list \<times> string) list" where
  "protocol_cases =
     [([''dcerpc'', ''dce/rpc'', ''epm''], ''dcerpc''), ([''ldap'', ''cldap''], ''ldap''),
      ([''smb2'', ''smb3''], ''smb2''), ([''smb''], ''smb''), ([''kerberos'', ''krb5''], ''kerberos''),
      ([''ntlmssp''], ''ntlm''), ([''dns''], ''dns''), ([''http'', ''xml''], ''http''),
      ([''rdp'', ''tpkt'', ''cotp''], ''rdp''), ([''nbns'', ''nbss'', ''nbdgm'', ''netbios''], ''netbios'')]"

definition rpc_keys :: "string list" where
  "rpc_keys = [''RpcInterfaceUuid'', ''RpcOpnum'', ''RpcPacketType'', ''RpcEndpoint'']"

definition field_value :: "(string \<times> gval) list \<Rightarrow> string \<Rightarrow> gval" where
  "field_value event key = (case map_get event key of Some v \<Rightarrow> v | None \<Rightarrow> VNil)"

definition protocol_text :: "go_ext \<Rightarrow> (string \<times> gval) list \<Rightarrow> string" where
  "protocol_text E event =
     to_lower E (stringFromEvent E event ''Protocol'' @ '':'' @ stringFromEvent E event ''FrameProtocols'') @
     (case field_value event ''ProtocolFields'' of
        VMap ls \<Rightarrow> '':'' @ protocolNamesFromLayers E ls
      | _ \<Rightarrow> [])"

definition eventTypeFromTsharkEvent :: "go_ext \<Rightarrow> (string \<times> gval) list \<Rightarrow> string" where
  "eventTypeFromTsharkEvent E event =
     (let protocol = protocol_text E event;
          ports = [stringFromEvent E event ''SrcPort'', stringFromEvent E event ''DstPort''];
          typ = adServiceEventTypeFromPorts ports in
      if typ \<noteq> [] then typ
      else if containsEncryptedSMB E protocol (field_value event ''ProtocolFields'') then ''smb_encrypted''
      else case find (\<lambda>(needles, _). containsAny protocol needles) protocol_cases of
             Some (_, t) \<Rightarrow> t
           | None \<Rightarrow>
               if list_ex (\<lambda>key. case map_get event key of Some (VString v) \<Rightarrow> v \<noteq> [] | _ \<Rightarrow> False) rpc_keys
               then ''dcerpc''
               else eventTypeFromPorts ports)"

section \<open>Protocol fields\<close>

definition isTsharkTransportLayer :: "go_ext \<Rightarrow> string \<Rightarrow> bool" where
  "isTsharkTransportLayer E name \<longleftrightarrow>
     to_lower E (trim_space name) \<in> {''frame'', ''eth'', ''ethertype'', ''ip'', ''ipv6'', ''icmp'', ''icmpv6'',
       ''tcp'', ''udp'', ''sctp'', ''data''}"

definition type_layers :: "(string \<times> string list) list" where
  "type_layers =
     [(''dcerpc'', [''dcerpc'', ''epm'']), (''ldap'', [''ldap'', ''cldap'']),
      (''ldaps'', [''tls'', ''ssl'', ''ldap'']), (''winrm'', [''http'', ''tls'', ''ssl'', ''xml'']),
      (''adws'', [''tls'', ''ssl'', ''nettcp'', ''net.tcp'', ''ms_nmf'']),
      (''smb_encrypted'', [''smb2'', ''smb3'', ''smb2_transform'', ''smb2_transform_header'']),
      (''smb2'', [''smb2'']), (''smb'', [''smb'', ''smb2'']), (''kerberos'', [''kerberos'', ''krb5'']),
      (''ntlm'', [''ntlmssp'']), (''dns'', [''dns'']), (''rdp'', [''rdp'', ''tpkt'', ''cotp'']),
      (''netbios'', [''nbns'', ''nbss'', ''nbdgm'', ''netbios''])]"

text \<open>The names of the set \<open>allowed\<close>.\<close>

definition tsharkProtocolLayerSet :: "go_ext \<Rightarrow> string \<Rightarrow> string \<Rightarrow> string list" where
  "tsharkProtocolLayerSet E eventType protocol =
     filter (\<lambda>n. n \<noteq> [] \<and> \<not> isTsharkTransportLayer E n)
       (map (\<lambda>n. to_lower E (trim_space n))
         ([eventType, protocol] @ (case map_get type_layers eventType of Some ns \<Rightarrow> ns | None \<Rightarrow> [])))"

fun strip_prefixes :: "string \<Rightarrow> string \<Rightarrow> string list \<Rightarrow> string" where
  "strip_prefixes lowerKey key [] = key"
| "strip_prefixes lowerKey key (p # ps) =
     (if has_prefix lowerKey p \<and> length p < length key then drop (length p) key
      else strip_prefixes lowerKey key ps)"

definition simplifyTsharkProtocolFieldKey :: "go_ext \<Rightarrow> string \<Rightarrow> string \<Rightarrow> string" where
  "simplifyTsharkProtocolFieldKey E layerName key =
     (let layer = to_lower E (trim_space layerName) in
      if layer = [] \<or> key = [] then key
      else let n = normalizeTsharkFieldKey layer in
           strip_prefixes (to_lower E key) key
             [n @ ''_'' @ n @ ''_'', layer @ ''.'' @ layer @ ''.'', n @ ''_'', layer @ ''.''])"

text \<open>One round of the loop over a map: the second of two keys that become the same keeps its name, but a
  key that is its own simplification replaces what is there.\<close>

definition put_simplified ::
  "go_ext \<Rightarrow> string \<Rightarrow> (string \<times> gval) list \<Rightarrow> string \<times> gval \<Rightarrow> (string \<times> gval) list" where
  "put_simplified E layerName out kv =
     (let simplified = simplifyTsharkProtocolFieldKey E layerName (fst kv) in
      map_put out (if map_get out simplified \<noteq> None \<and> simplified \<noteq> fst kv then fst kv else simplified) (snd kv))"

fun simplifyTsharkProtocolFieldValue :: "go_ext \<Rightarrow> string \<Rightarrow> gval \<Rightarrow> gval" where
  "simplifyTsharkProtocolFieldValue E l (VMap m) =
     VMap (foldl (put_simplified E l) [] (map (\<lambda>(k, v). (k, simplifyTsharkProtocolFieldValue E l v)) m))"
| "simplifyTsharkProtocolFieldValue E l (VSlice vs) = VSlice (map (simplifyTsharkProtocolFieldValue E l) vs)"
| "simplifyTsharkProtocolFieldValue E l v = v"

definition protocolFieldsFromTsharkLayers :: "go_ext \<Rightarrow> layers \<Rightarrow> string \<Rightarrow> string \<Rightarrow> (string \<times> gval) list" where
  "protocolFieldsFromTsharkLayers E ls eventType protocol =
     (let allowed = tsharkProtocolLayerSet E eventType protocol in
      foldl (\<lambda>filtered (key, val).
               let layerName = to_lower E (trim_space key) in
               if layerName \<in> set allowed \<and> \<not> isTsharkTransportLayer E layerName
               then map_put filtered key (simplifyTsharkProtocolFieldValue E layerName val) else filtered)
        [] ls)"

section \<open>Security summary\<close>

definition hasAnyLayer :: "go_ext \<Rightarrow> layers \<Rightarrow> string list \<Rightarrow> bool" where
  "hasAnyLayer E ls names =
     (let available = to_lower E (protocolNamesFromLayers E ls) in
      list_ex (\<lambda>n. containsAny available [to_lower E n]) names)"

definition hasAnyPort :: "go_ext \<Rightarrow> (string \<times> gval) list \<Rightarrow> string list \<Rightarrow> bool" where
  "hasAnyPort E event ports \<longleftrightarrow>
     list_ex (\<lambda>p. stringFromEvent E event ''SrcPort'' = p \<or> stringFromEvent E event ''DstPort'' = p) ports"

definition security_layer :: "go_ext \<Rightarrow> (string \<times> gval) list \<Rightarrow> layers \<Rightarrow> string \<Rightarrow> string" where
  "security_layer E event ls eventType =
     (if containsEncryptedSMB E [] (field_value event ''ProtocolFields'') then ''smb-encryption''
      else if hasAnyLayer E ls [''tls'', ''ssl''] \<or> hasAnyPort E event [''636'', ''3269'', ''5986''] then ''tls''
      else if eventType = ''rdp'' then ''rdp-security''
      else if eventType = ''winrm'' \<and> hasAnyPort E event [''5985''] then ''http''
      else [])"

definition setTsharkSecuritySummary ::
  "go_ext \<Rightarrow> layers \<Rightarrow> string \<Rightarrow> (string \<times> gval) list \<Rightarrow> (string \<times> gval) list" where
  "setTsharkSecuritySummary E ls eventType event =
     (let sl = security_layer E event ls eventType in
      if sl = [] then event
      else map_put (map_put event ''SecurityLayer'' (VString sl)) ''Encrypted'' (VBool (sl \<noteq> ''http'')))"

section \<open>From a record to an event\<close>

definition frame_keys :: "(string \<times> string list) list" where
  "frame_keys =
     [(''FrameTimeEpoch'', [''frame_frame_time_epoch'', ''frame.time_epoch'', ''frame_frame_time_epoch_raw'']),
      (''FrameProtocols'', [''frame_frame_protocols'', ''frame.protocols'']),
      (''SrcIp'', [''ip_ip_src'', ''ip.src'', ''ipv6_ipv6_src'', ''ipv6.src'']),
      (''DstIp'', [''ip_ip_dst'', ''ip.dst'', ''ipv6_ipv6_dst'', ''ipv6.dst'']),
      (''SrcPort'', [''tcp_tcp_srcport'', ''tcp.srcport'', ''udp_udp_srcport'', ''udp.srcport'']),
      (''DstPort'', [''tcp_tcp_dstport'', ''tcp.dstport'', ''udp_udp_dstport'', ''udp.dstport'']),
      (''Protocol'', [''_ws_col_Protocol'', ''_ws.col.Protocol'', ''_ws_col_protocol'', ''_ws.col.protocol'']),
      (''Info'', [''_ws_col_Info'', ''_ws.col.Info'', ''_ws_col_info'', ''_ws.col.info'']),
      (''RpcInterfaceUuid'', [''dcerpc_dcerpc_cn_bind_to_uuid'', ''dcerpc.cn_bind_to_uuid'',
         ''dcerpc_dcerpc_dg_if_id'', ''dcerpc.dg_if_id'', ''epm_epm_if_id'', ''epm.if_id'', ''epm_epm_uuid'',
         ''epm.uuid'']),
      (''RpcInterfaceVersion'', [''dcerpc_dcerpc_cn_bind_if_ver'', ''dcerpc.cn_bind_if_ver'',
         ''dcerpc_dcerpc_dg_if_ver'', ''dcerpc.dg_if_ver'']),
      (''RpcOpnum'', [''dcerpc_dcerpc_opnum'', ''dcerpc.opnum'', ''epm_epm_opnum'', ''epm.opnum'']),
      (''RpcPacketType'', [''dcerpc_dcerpc_pkt_type'', ''dcerpc.pkt_type'']),
      (''RpcEndpoint'', [''dcerpc_dcerpc_cn_sec_addr'', ''dcerpc.cn_sec_addr'', ''epm_epm_proto_tcp_port'',
         ''epm.proto.tcp_port'']),
      (''RpcEndpointIp'', [''epm_epm_proto_ip'', ''epm.proto.ip'']),
      (''RpcNamedPipe'', [''epm_epm_proto_named_pipe'', ''epm.proto.named_pipe''])]"

definition security_keys :: "(string \<times> string list) list" where
  "security_keys =
     [(''TlsServerName'', [''tls_tls_handshake_extensions_server_name'', ''tls.handshake.extensions_server_name'',
         ''ssl_ssl_handshake_extensions_server_name'', ''ssl.handshake.extensions_server_name'']),
      (''TlsHandshakeVersion'', [''tls_tls_handshake_version'', ''tls.handshake.version'',
         ''ssl_ssl_handshake_version'', ''ssl.handshake.version'']),
      (''TlsRecordVersion'', [''tls_tls_record_version'', ''tls.record.version'', ''ssl_ssl_record_version'',
         ''ssl.record.version'']),
      (''TlsCipherSuite'', [''tls_tls_handshake_ciphersuite'', ''tls.handshake.ciphersuite'',
         ''tls_tls_handshake_ciphersuite_str'', ''tls.handshake.ciphersuite_str'',
         ''ssl_ssl_handshake_ciphersuite'', ''ssl.handshake.ciphersuite'']),
      (''TlsHandshakeType'', [''tls_tls_handshake_type'', ''tls.handshake.type'', ''ssl_ssl_handshake_type'',
         ''ssl.handshake.type'']),
      (''TlsRecordContentType'', [''tls_tls_record_content_type'', ''tls.record.content_type'',
         ''ssl_ssl_record_content_type'', ''ssl.record.content_type'']),
      (''TlsAlertMessage'', [''tls_tls_alert_message_desc'', ''tls.alert_message.desc'',
         ''ssl_ssl_alert_message_desc'', ''ssl.alert_message.desc''])]"

definition http_keys :: "(string \<times> string list) list" where
  "http_keys =
     [(''HttpHost'', [''http_http_host'', ''http.host'']),
      (''HttpMethod'', [''http_http_request_method'', ''http.request.method'']),
      (''HttpRequestUri'', [''http_http_request_uri'', ''http.request.uri'', ''http_http_request_full_uri'',
         ''http.request.full_uri'']),
      (''HttpUserAgent'', [''http_http_user_agent'', ''http.user_agent'']),
      (''HttpStatus'', [''http_http_response_code'', ''http.response.code''])]"

definition set_layer_values ::
  "go_ext \<Rightarrow> layers \<Rightarrow> (string \<times> string list) list \<Rightarrow> (string \<times> gval) list \<Rightarrow> (string \<times> gval) list" where
  "set_layer_values E ls table event = foldl (\<lambda>ev kk. setFirstLayerValue E ls kk ev) event table"

text \<open>\<open>te_rfc3339\<close> is \<open>time.Parse\<close> with \<open>UnixMilli\<close>; \<open>te_epoch\<close> is \<open>strconv.ParseFloat\<close> with the split into
  seconds and nanoseconds, \<^const>\<open>None\<close> for an error or a number that is not positive. A time \<open>now\<close> is
  in nanoseconds.\<close>

record time_ext =
  te_rfc3339 :: "string \<Rightarrow> int option"
  te_epoch :: "string \<Rightarrow> (int \<times> int) option"

definition normalizeTsharkTimestamp :: "time_ext \<Rightarrow> string \<Rightarrow> int \<Rightarrow> int" where
  "normalizeTsharkTimestamp T frameTimeEpoch now =
     (let f = trim_space frameTimeEpoch in
      case te_rfc3339 T f of
        Some ms \<Rightarrow> ms
      | None \<Rightarrow> (case te_epoch T f of
          None \<Rightarrow> now div 1000000
        | Some (sec, nsec) \<Rightarrow> sec * 1000 + (if nsec < 0 then 0 else nsec) div 1000000))"

text \<open>What both readers write into an event of a known type.\<close>

definition put_common :: "string \<Rightarrow> string \<Rightarrow> int \<Rightarrow> (string \<times> gval) list \<Rightarrow> (string \<times> gval) list" where
  "put_common hostname eventType now event =
     map_put (map_put (map_put (map_put (map_put event ''LogType'' (VString ''pktlog''))
       ''Source'' (VString ''tshark'')) ''EventType'' (VString eventType)) ''Hostname'' (VString hostname))
       ''SensorTime'' (VInt64 (now div 1000000000))"

definition put_timestamp :: "go_ext \<Rightarrow> time_ext \<Rightarrow> int \<Rightarrow> (string \<times> gval) list \<Rightarrow> (string \<times> gval) list" where
  "put_timestamp E T now event =
     map_put event ''@timestamp'' (VInt64 (normalizeTsharkTimestamp T (stringFromEvent E event ''FrameTimeEpoch'') now))"

definition layer_event :: "go_ext \<Rightarrow> layers \<Rightarrow> (string \<times> gval) list" where
  "layer_event E ls =
     (let event = set_layer_values E ls (frame_keys @ security_keys @ http_keys) [(''ProtocolFields'', VMap ls)] in
      if stringFromEvent E event ''Protocol'' = []
      then map_put event ''Protocol'' (VString (protocolFromLayers E ls (stringFromEvent E event ''FrameProtocols'')))
      else event)"

definition eventFromTsharkEKRecord ::
  "go_ext \<Rightarrow> time_ext \<Rightarrow> string \<Rightarrow> (string \<times> gval) list \<Rightarrow> int \<Rightarrow> (string \<times> gval) list option" where
  "eventFromTsharkEKRecord E T hostname rec now = (case map_get rec ''layers'' of
     Some (VMap ls) \<Rightarrow>
       if ls = [] then None
       else
         (let event = layer_event E ls; eventType = eventTypeFromTsharkEvent E event in
          if eventType = [] then None
          else
            let protocolFields = protocolFieldsFromTsharkLayers E ls eventType (stringFromEvent E event ''Protocol'');
                event = coerceTsharkEventNumbers event;
                event = put_timestamp E T now (put_common hostname eventType now event);
                event = setTsharkSecuritySummary E ls eventType event;
                event = (if protocolFields \<noteq> [] then map_put event ''ProtocolFields'' (VMap protocolFields)
                         else map_del event ''ProtocolFields'')
            in Some (map_del (map_del event ''FrameTimeEpoch'') ''FrameProtocols''))
   | _ \<Rightarrow> None)"

text \<open>\<open>readTsharkEKStream\<close> on the records its decoder returns, each with the time it is handled at: what is
  emitted.\<close>

definition readTsharkEKStream ::
  "go_ext \<Rightarrow> time_ext \<Rightarrow> string \<Rightarrow> ((string \<times> gval) list \<times> int) list \<Rightarrow> (string \<times> gval) list list" where
  "readTsharkEKStream E T hostname recs =
     concat (map (\<lambda>(rec, now). case eventFromTsharkEKRecord E T hostname rec now of
                    Some event \<Rightarrow> if event = [] then [] else [event] | None \<Rightarrow> []) recs)"

end
