(* ===== verification/Sensor_Capture.thy ===== *)
theory Sensor_Capture
  imports Sensor_Tshark
begin

text \<open>
  The rest of \<open>src/agent/sensor/plugin/plugin_tshark.go\<close>: lines of fields, the configuration of the
  capture, the queue between readers and senders, and the life cycle of the plugin. The last two are step
  relations, since readers, senders, the commands and the caller run concurrently.
\<close>

section \<open>Lines of fields\<close>

definition field_names :: "(string \<times> string) list" where
  "field_names =
     [(''frame.time_epoch'', ''FrameTimeEpoch''), (''frame.protocols'', ''FrameProtocols''),
      (''ip.src'', ''SrcIp''), (''ipv6.src'', ''SrcIpV6''), (''ip.dst'', ''DstIp''), (''ipv6.dst'', ''DstIpV6''),
      (''tcp.srcport'', ''SrcPort''), (''tcp.dstport'', ''DstPort''), (''udp.srcport'', ''SrcPort''),
      (''udp.dstport'', ''DstPort''), (''_ws.col.protocol'', ''Protocol''), (''_ws.col.info'', ''Info''),
      (''dcerpc.cn_call_id'', ''RpcCallId''), (''dcerpc.cn_ctx_id'', ''RpcContextId''),
      (''dcerpc.cn_bind_to_uuid'', ''RpcInterfaceUuid''), (''dcerpc.dg_if_id'', ''RpcInterfaceUuid''),
      (''epm.if_id'', ''RpcInterfaceUuid''), (''epm.uuid'', ''RpcInterfaceUuid''),
      (''dcerpc.cn_bind_if_ver'', ''RpcInterfaceVersion''), (''dcerpc.dg_if_ver'', ''RpcInterfaceVersion''),
      (''dcerpc.opnum'', ''RpcOpnum''), (''epm.opnum'', ''RpcOpnum''), (''dcerpc.pkt_type'', ''RpcPacketType''),
      (''dcerpc.cn_sec_addr'', ''RpcEndpoint''), (''epm.proto.tcp_port'', ''RpcEndpoint''),
      (''epm.proto.ip'', ''RpcEndpointIp''), (''epm.proto.named_pipe'', ''RpcNamedPipe''),
      (''tls.handshake.extensions_server_name'', ''TlsServerName''),
      (''tls.handshake.version'', ''TlsHandshakeVersion''), (''tls.record.version'', ''TlsRecordVersion''),
      (''tls.handshake.ciphersuite'', ''TlsCipherSuite''), (''tls.handshake.type'', ''TlsHandshakeType''),
      (''tls.record.content_type'', ''TlsRecordContentType''), (''tls.alert_message.desc'', ''TlsAlertMessage''),
      (''http.host'', ''HttpHost''), (''http.request.method'', ''HttpMethod''),
      (''http.request.uri'', ''HttpRequestUri''), (''http.user_agent'', ''HttpUserAgent''),
      (''http.response.code'', ''HttpStatus'')]"

definition normalizeTsharkField :: "string \<Rightarrow> string" where
  "normalizeTsharkField field = (case map_get field_names field of
     Some name \<Rightarrow> name | None \<Rightarrow> normalizeTsharkFieldKey field)"

text \<open>The loop over the configured fields; a missing or blank column is skipped.\<close>

fun field_columns :: "string list \<Rightarrow> string list \<Rightarrow> (string \<times> gval) list \<Rightarrow> (string \<times> gval) list" where
  "field_columns [] values event = event"
| "field_columns (field # fds) values event =
     (let val = (case values of [] \<Rightarrow> [] | v # _ \<Rightarrow> trim_space v) in
      field_columns fds (tl values)
        (if val = [] then event else map_put event (normalizeTsharkField field) (VString val)))"

definition fill_from :: "string \<Rightarrow> string \<Rightarrow> (string \<times> gval) list \<Rightarrow> (string \<times> gval) list" where
  "fill_from key other event =
     (if map_get event key = None then
        (case map_get event other of Some v \<Rightarrow> map_put event key v | None \<Rightarrow> event)
      else event)"

definition eventFromTsharkFieldsLine ::
  "go_ext \<Rightarrow> time_ext \<Rightarrow> string list \<Rightarrow> string \<Rightarrow> string \<Rightarrow> int \<Rightarrow> (string \<times> gval) list option" where
  "eventFromTsharkFieldsLine E T fds hostname line now =
     (let event = field_columns fds (split line [CHR 0x09]) [];
          protocol = (case map_get event ''Protocol'' of Some (VString p) \<Rightarrow> p | _ \<Rightarrow> []);
          event = (if protocol = [] then map_put event ''Protocol'' (VString (eventTypeFromTsharkEvent E event)) else event);
          eventType = eventTypeFromTsharkEvent E event in
      if eventType = [] then None
      else
        let event = put_common hostname eventType now (coerceTsharkEventNumbers event);
            event = fill_from ''DstIp'' ''DstIpV6'' (fill_from ''SrcIp'' ''SrcIpV6'' event)
        in Some (map_del (map_del (put_timestamp E T now event) ''FrameTimeEpoch'') ''FrameProtocols''))"

text \<open>\<open>eventFromTsharkLine\<close>: \<^const>\<open>Inl\<close> is an error of the JSON decoder.\<close>

definition eventFromTsharkLine ::
  "go_ext \<Rightarrow> time_ext \<Rightarrow> string list \<Rightarrow> string \<Rightarrow> string \<Rightarrow> int \<Rightarrow> unit + (string \<times> gval) list option" where
  "eventFromTsharkLine E T fds hostname line now =
     (if has_prefix (trim_space line) ''{'' then
        (case x_json_object E line of
           None \<Rightarrow> Inl ()
         | Some rec \<Rightarrow> Inr (eventFromTsharkEKRecord E T hostname rec now))
      else Inr (eventFromTsharkFieldsLine E T fds hostname line now))"

text \<open>The datagram of \<open>sendSyslog\<close>; \<open>ts\<close> is the formatted time.\<close>

definition syslog_datagram :: "string \<Rightarrow> string \<Rightarrow> string \<Rightarrow> string" where
  "syslog_datagram ts hostname content = ''<14>'' @ ts @ '' '' @ hostname @ '' ADASensor: '' @ content"

section \<open>Configuration\<close>

record tshark_config =
  tc_remoteHost :: string
  tc_path :: string
  tc_captureFilter :: string
  tc_displayFilter :: string
  tc_fields :: "string list"

definition defaultTsharkCaptureFilter :: string where
  "defaultTsharkCaptureFilter = ''(((tcp or udp) and (port 53 or port 88 or port 135 or port 137 or port 138 or port 139 or port 389 or port 445 or port 464 or port 593 or port 636 or port 3268 or port 3269 or port 3389 or port 5985 or port 5986 or port 9389)) or (tcp and portrange 49152-65535)) and (not (host %s))''"

definition defaultTsharkFields :: "string list" where
  "defaultTsharkFields = [''frame.time_epoch'', ''frame.protocols'', ''ip.src'', ''ipv6.src'', ''ip.dst'', ''ipv6.dst'',
     ''tcp.srcport'', ''tcp.dstport'', ''udp.srcport'', ''udp.dstport'', ''_ws.col.protocol'', ''_ws.col.info'',
     ''dcerpc.cn_call_id'', ''dcerpc.cn_ctx_id'', ''dcerpc.cn_bind_to_uuid'', ''dcerpc.cn_bind_if_ver'',
     ''dcerpc.dg_if_id'', ''dcerpc.dg_if_ver'', ''dcerpc.opnum'', ''dcerpc.pkt_type'', ''dcerpc.cn_sec_addr'',
     ''epm.if_id'', ''epm.uuid'', ''epm.opnum'', ''epm.proto.ip'', ''epm.proto.tcp_port'', ''epm.proto.named_pipe'',
     ''tls.handshake.extensions_server_name'', ''tls.handshake.version'', ''tls.record.version'',
     ''tls.handshake.ciphersuite'', ''tls.handshake.type'', ''tls.record.content_type'', ''tls.alert_message.desc'',
     ''http.host'', ''http.request.method'', ''http.request.uri'', ''http.user_agent'', ''http.response.code'']"

definition defaultTsharkDecodeAs :: "string list" where
  "defaultTsharkDecodeAs = [''tcp.port==88,kerberos'', ''udp.port==88,kerberos'', ''tcp.port==464,kerberos'',
     ''udp.port==464,kerberos'', ''tcp.port==135,dcerpc'', ''tcp.port==593,dcerpc'', ''tcp.port==3389,tpkt'',
     ''tcp.port==389,ldap'', ''tcp.port==5985,http'', ''tcp.port==5986,tls'', ''tcp.port==636,tls'',
     ''tcp.port==3269,tls'', ''tcp.port==9389,tls'', ''udp.port==389,cldap'', ''udp.port==137,nbns'',
     ''udp.port==138,nbdgm'', ''tcp.port==139,nbss'']"

definition NewTsharkPlugin :: "go_ext \<Rightarrow> string \<Rightarrow> tshark_config" where
  "NewTsharkPlugin E adaHost = \<lparr>tc_remoteHost = adaHost, tc_path = [],
     tc_captureFilter = sprintf E defaultTsharkCaptureFilter [adaHost], tc_displayFilter = [],
     tc_fields = defaultTsharkFields\<rparr>"

definition splitCSV :: "string \<Rightarrow> string list" where
  "splitCSV v = filter (\<lambda>p. p \<noteq> []) (map trim_space (split v '',''))"

text \<open>\<open>strings.Fields\<close>.\<close>

function words_acc :: "string \<Rightarrow> string \<Rightarrow> string list" where
  "words_acc cur [] = (if cur = [] then [] else [rev cur])"
| "words_acc cur (c # s) =
     (let r = decode_rune (c # s) in
      if is_space (fst r) then (if cur = [] then [] else [rev cur]) @ words_acc [] (drop (snd r - 1) s)
      else words_acc (rev (take (snd r) (c # s)) @ cur) (drop (snd r - 1) s))"
  by pat_completeness auto
termination
  by (relation "measure (length \<circ> snd)") auto

definition isLegacyDefaultTsharkCaptureFilter :: "string \<Rightarrow> bool" where
  "isLegacyDefaultTsharkCaptureFilter f =
     (let g = join (words_acc [] f) '' '' in
      \<not> containsAny g [''port 5985'', ''port 5986'', ''port 9389''] \<and>
      contains g ''port 636 or port 3268 or port 3269 or port 3389)) or (tcp and portrange 49152-65535)'')"

definition capture_filter :: "go_ext \<Rightarrow> string \<Rightarrow> string \<Rightarrow> string" where
  "capture_filter E remoteHost captureFilter =
     (let f = trim_space captureFilter in
      if isLegacyDefaultTsharkCaptureFilter f then sprintf E defaultTsharkCaptureFilter [remoteHost]
      else if contains f ''%s'' then sprintf E f [remoteHost]
      else if \<not> contains f remoteHost then f @ '' and (not (host '' @ remoteHost @ ''))''
      else f)"

text \<open>\<open>SetConfig\<close> returns whether the configuration changed.\<close>

definition SetConfig ::
  "go_ext \<Rightarrow> string \<Rightarrow> string \<Rightarrow> string \<Rightarrow> string \<Rightarrow> tshark_config \<Rightarrow> bool \<times> tshark_config" where
  "SetConfig E path captureFilter displayFilter fieldsCSV c =
     (let newPath = path \<noteq> [] \<and> path \<noteq> tc_path c;
          c1 = (if newPath then c\<lparr>tc_path := path\<rparr> else c);
          f = capture_filter E (tc_remoteHost c1) captureFilter;
          newCapture = captureFilter \<noteq> [] \<and> f \<noteq> tc_captureFilter c1;
          c2 = (if newCapture then c1\<lparr>tc_captureFilter := f\<rparr> else c1);
          newDisplay = displayFilter \<noteq> [] \<and> displayFilter \<noteq> tc_displayFilter c2;
          c3 = (if newDisplay then c2\<lparr>tc_displayFilter := displayFilter\<rparr> else c2);
          fs = splitCSV fieldsCSV;
          newFields = fieldsCSV \<noteq> [] \<and> fs \<noteq> [] \<and> join fs '','' \<noteq> join (tc_fields c3) '','';
          c4 = (if newFields then c3\<lparr>tc_fields := fs\<rparr> else c3)
      in (newPath \<or> newCapture \<or> newDisplay \<or> newFields, c4))"

definition tsharkArgsForInterface :: "tshark_config \<Rightarrow> string \<Rightarrow> string list" where
  "tsharkArgsForInterface c iface =
     [''-l'', ''-n'', ''-i'', iface] @
     (if tc_captureFilter c \<noteq> [] then [''-f'', tc_captureFilter c] else []) @
     (if tc_displayFilter c \<noteq> [] then [''-Y'', tc_displayFilter c] else []) @
     concat (map (\<lambda>d. [''-d'', d]) defaultTsharkDecodeAs) @ [''-T'', ''ek'']"

section \<open>The queue between readers and senders\<close>

definition tsharkEventQueueSize :: nat where "tsharkEventQueueSize = 4096"
definition tsharkSenderWorkerCount :: nat where "tsharkSenderWorkerCount = 2"

text \<open>The channel, the events the sender goroutines hold, how many senders run, whether the context is
  done, and the counters.\<close>

record 'e pipeline =
  pl_queue :: "'e list option"
  pl_flight :: "'e list"
  pl_senders :: nat
  pl_done :: bool
  pl_decoded :: "64 word"
  pl_sent :: "64 word"
  pl_dropped :: "64 word"
  pl_decodeErrors :: "64 word"
  pl_sendErrors :: "64 word"

definition new_pipeline :: "'e pipeline" where
  "new_pipeline = \<lparr>pl_queue = Some [], pl_flight = [], pl_senders = tsharkSenderWorkerCount, pl_done = False,
     pl_decoded = 0, pl_sent = 0, pl_dropped = 0, pl_decodeErrors = 0, pl_sendErrors = 0\<rparr>"

definition count_dropped :: "'e pipeline \<Rightarrow> 'e pipeline" where
  "count_dropped p = p\<lparr>pl_dropped := pl_dropped p + 1\<rparr>"

text \<open>\<open>enqueueTsharkEvent\<close>: a \<open>select\<close> with several ready cases takes any of them, so after the context is
  done an event may still enter a queue that has room.\<close>

inductive enqueueTsharkEvent :: "'e \<Rightarrow> 'e pipeline \<Rightarrow> 'e pipeline \<Rightarrow> bool" for x p where
  no_queue: "pl_queue p = None \<Longrightarrow> enqueueTsharkEvent x p (count_dropped p)"
| queued: "\<lbrakk>pl_queue p = Some q; length q < tsharkEventQueueSize\<rbrakk>
    \<Longrightarrow> enqueueTsharkEvent x p (p\<lparr>pl_queue := Some (q @ [x])\<rparr>)"
| stopping: "\<lbrakk>pl_queue p = Some q; pl_done p\<rbrakk> \<Longrightarrow> enqueueTsharkEvent x p (count_dropped p)"
| full: "\<lbrakk>pl_queue p = Some q; tsharkEventQueueSize \<le> length q; \<not> pl_done p\<rbrakk>
    \<Longrightarrow> enqueueTsharkEvent x p (count_dropped p)"

text \<open>A reader decodes a record (\<open>readTsharkEKStream\<close>), a sender takes an event and sends it
  (\<open>tsharkSenderWorker\<close>, \<open>drainTsharkQueue\<close>, \<open>sendTsharkEvent\<close>), the context is cancelled, and a sender
  ends when the context is done and it finds the queue empty.\<close>

inductive pipe_step :: "'e pipeline \<Rightarrow> 'e pipeline \<Rightarrow> bool" where
  decode_error: "pipe_step p (p\<lparr>pl_decodeErrors := pl_decodeErrors p + 1\<rparr>)"
| decoded: "enqueueTsharkEvent x (p\<lparr>pl_decoded := pl_decoded p + 1\<rparr>) p' \<Longrightarrow> pipe_step p p'"
| taken: "\<lbrakk>pl_queue p = Some (x # q); length (pl_flight p) < pl_senders p\<rbrakk>
    \<Longrightarrow> pipe_step p (p\<lparr>pl_queue := Some q, pl_flight := pl_flight p @ [x]\<rparr>)"
| send_ok: "pl_flight p = a @ x # b \<Longrightarrow> pipe_step p (p\<lparr>pl_flight := a @ b, pl_sent := pl_sent p + 1\<rparr>)"
| send_error: "pl_flight p = a @ x # b
    \<Longrightarrow> pipe_step p (p\<lparr>pl_flight := a @ b, pl_sendErrors := pl_sendErrors p + 1\<rparr>)"
| cancelled: "pipe_step p (p\<lparr>pl_done := True\<rparr>)"
| sender_ends: "\<lbrakk>pl_done p; pl_queue p = Some []; length (pl_flight p) < pl_senders p\<rbrakk>
    \<Longrightarrow> pipe_step p (p\<lparr>pl_senders := pl_senders p - 1\<rparr>)"

inductive_cases enqueue_cases: "enqueueTsharkEvent x p p'"

abbreviation pipe_run :: "'e pipeline \<Rightarrow> 'e pipeline \<Rightarrow> bool" where
  "pipe_run \<equiv> pipe_step\<^sup>*\<^sup>*"

section \<open>Life cycle\<close>

text \<open>Contexts are numbered in the order \<open>Start\<close> makes them. \<open>lc_cmds\<close> are the interfaces with a running
  command, \<open>lc_cancel\<close> the context of \<open>p.cancel\<close>, and \<open>lc_waiting\<close> the context of every goroutine the wait
  group counts that ends only with its context: the senders and the reporter of statistics.\<close>

record lifecycle =
  lc_ifaces :: "string list"
  lc_cmds :: "string list"
  lc_next :: nat
  lc_cancel :: "nat option"
  lc_cancelled :: "nat list"
  lc_waiting :: "nat list"

definition IsRunning :: "lifecycle \<Rightarrow> bool" where
  "IsRunning l \<longleftrightarrow> lc_cmds l \<noteq> []"

text \<open>\<open>Start\<close>: \<open>path\<close> tells that \<open>resolveTsharkPath\<close> finds the program, \<open>starts\<close> on which interfaces its
  command starts. When none does, the context is cancelled and the goroutines are waited for.\<close>

definition capture_start :: "bool \<Rightarrow> (string \<Rightarrow> bool) \<Rightarrow> lifecycle \<Rightarrow> string option \<times> lifecycle" where
  "capture_start path starts l =
     (if lc_cmds l \<noteq> [] then (Some ''tshark plugin already running'', l)
      else if lc_ifaces l = [] then (Some ''no interfaces specified for tshark'', l)
      else if \<not> path then (Some ''tshark executable not found'', l)
      else let c = lc_next l;
               l1 = l\<lparr>lc_next := Suc c, lc_cancel := Some c,
                      lc_waiting := lc_waiting l @ replicate (Suc tsharkSenderWorkerCount) c,
                      lc_cmds := remdups (filter (\<lambda>i. i \<noteq> [] \<and> starts i) (map trim_space (lc_ifaces l)))\<rparr>
           in if lc_cmds l1 = []
              then (Some ''failed to start tshark on any interface'', l1\<lparr>lc_cancel := None, lc_cancelled := c # lc_cancelled l1\<rparr>)
              else (None, l1))"

text \<open>What happens beside the caller: a command ends (\<open>waitCmd\<close>), always when its context is done, and a
  goroutine whose context is cancelled ends.\<close>

inductive lc_step :: "lifecycle \<Rightarrow> lifecycle \<Rightarrow> bool" where
  exits: "i \<in> set (lc_cmds l) \<Longrightarrow> lc_step l (l\<lparr>lc_cmds := removeAll i (lc_cmds l)\<rparr>)"
| ends: "\<lbrakk>lc_waiting l = a @ c # b; c \<in> set (lc_cancelled l)\<rbrakk> \<Longrightarrow> lc_step l (l\<lparr>lc_waiting := a @ b\<rparr>)"

text \<open>\<open>Stop\<close>: with no cancel function it returns at once; otherwise it cancels and returns when the wait
  group is empty, after steps of the goroutines.\<close>

definition cancel_capture :: "lifecycle \<Rightarrow> lifecycle" where
  "cancel_capture l = (case lc_cancel l of None \<Rightarrow> l | Some c \<Rightarrow> l\<lparr>lc_cancelled := c # lc_cancelled l\<rparr>)"

inductive capture_stop :: "lifecycle \<Rightarrow> lifecycle \<Rightarrow> bool" for l where
  nothing: "lc_cancel l = None \<Longrightarrow> capture_stop l l"
| stopped: "\<lbrakk>lc_cancel l \<noteq> None; lc_step\<^sup>*\<^sup>* (cancel_capture l) l'; lc_waiting l' = []; lc_cmds l' = []\<rbrakk>
    \<Longrightarrow> capture_stop l (l'\<lparr>lc_cancel := None, lc_cmds := []\<rparr>)"

end
