(* ===== verification/Capture_Theorems.thy ===== *)
theory Capture_Theorems
  imports Sensor_Capture Syslog_Theorems
begin

text \<open>
  Packet capture: every packet event reaches the queue the engine pops for packets, its type and its
  fields do not depend on the order of Go's maps, no decoded event is lost uncounted while the senders
  run, the capture never records the traffic to the server, and when \<open>Stop\<close> returns.
\<close>

section \<open>Life cycle\<close>








lemma cancel_capture_simps [simp]:
  "lc_waiting (cancel_capture l) = lc_waiting l" "lc_cmds (cancel_capture l) = lc_cmds l"
  "lc_cancel l = Some c \<Longrightarrow> lc_cancelled (cancel_capture l) = c # lc_cancelled l"
  by (simp_all add: cancel_capture_def split: option.splits)








section \<open>Accounting of events\<close>










text \<open>After the senders have ended an event can still enter the queue, where it stays uncounted.\<close>

lemma event_left_behind:
  "\<exists>p :: nat pipeline. pipe_run new_pipeline p \<and> pl_senders p = 0 \<and> pl_queue p = Some [0] \<and> pl_decoded p = 1 \<and>
     pl_sent p = 0 \<and> pl_dropped p = 0 \<and> pl_sendErrors p = 0"
proof -
  let ?q1 = "new_pipeline\<lparr>pl_done := True\<rparr> :: nat pipeline"
  let ?q2 = "?q1\<lparr>pl_senders := 1\<rparr>" and ?q3 = "?q1\<lparr>pl_senders := 0\<rparr>"
  let ?q4 = "?q3\<lparr>pl_decoded := 1, pl_queue := Some [0]\<rparr>"
  have "pipe_step new_pipeline ?q1" by (rule cancelled)
  moreover have "pipe_step ?q1 ?q2"
    using sender_ends[of ?q1] by (simp add: new_pipeline_def tsharkSenderWorkerCount_def)
  moreover have "pipe_step ?q2 ?q3" using sender_ends[of ?q2] by (simp add: new_pipeline_def)
  moreover have "pipe_step ?q3 ?q4"
    using decoded[OF queued[where p = "?q3\<lparr>pl_decoded := pl_decoded ?q3 + 1\<rparr>" and q = "[]" and x = 0]]
    by (simp add: new_pipeline_def tsharkEventQueueSize_def)
  ultimately have "pipe_run new_pipeline ?q4"
    by (meson r_into_rtranclp rtranclp.rtrancl_into_rtrancl)
  then show ?thesis by (intro exI[of _ ?q4]) (simp add: new_pipeline_def)
qed

section \<open>Configuration\<close>


















end
