(* ===== verification/Packet_Theorems.thy ===== *)
theory Packet_Theorems
  imports Sensor_Capture Syslog_Theorems
begin

text \<open>
  What the packet events of the sensor promise to the rest of the system: the event of a record does not
  depend on the order in which Go visits its layers, it carries no layer of the transport, and every
  event, from a record or from a line of fields, is queued for the packet rules of the engine.
\<close>

section \<open>Names joined by colons\<close>

lemma has_prefix_colon: "CHR '':'' \<notin> set p \<Longrightarrow> has_prefix (u @ CHR '':'' # t) p \<longleftrightarrow> has_prefix u p"
proof (induction u arbitrary: p)
  case Nil
  then show ?case by (cases p) auto
next
  case (Cons c u)
  then show ?case by (cases p) auto
qed

lemma contains_colon: "CHR '':'' \<notin> set p \<Longrightarrow> contains (s @ CHR '':'' # t) p \<longleftrightarrow> contains s p \<or> contains t p"
proof (induction s)
  case Nil
  then show ?case by (cases p) auto
next
  case (Cons c s)
  then show ?case using has_prefix_colon[of p "c # s" t] by auto
qed

lemma contains_join:
  "\<lbrakk>xs \<noteq> []; CHR '':'' \<notin> set p\<rbrakk> \<Longrightarrow> contains (join xs '':'') p \<longleftrightarrow> (\<exists>x \<in> set xs. contains x p)"
  by (induction xs "'':''" rule: join.induct) (auto simp: contains_colon)

definition plain_needles :: "string list \<Rightarrow> bool" where
  "plain_needles ps \<longleftrightarrow> (\<forall>p \<in> set ps. CHR '':'' \<notin> set p)"

lemma containsAny_colon:
  "plain_needles ps \<Longrightarrow> containsAny (s @ CHR '':'' # t) ps \<longleftrightarrow> containsAny s ps \<or> containsAny t ps"
  by (auto simp: plain_needles_def containsAny_def list_ex_iff contains_colon)

lemma containsAny_join:
  "\<lbrakk>xs \<noteq> []; plain_needles ps\<rbrakk> \<Longrightarrow> containsAny (join xs '':'') ps \<longleftrightarrow> (\<exists>x \<in> set xs. containsAny x ps)"
  by (auto simp: plain_needles_def containsAny_def list_ex_iff contains_join)

text \<open>\<open>strings.ToLower\<close> works character by character, so it commutes with joining by a colon.\<close>

definition lower_documented :: "go_ext \<Rightarrow> bool" where
  "lower_documented E \<longleftrightarrow> (\<forall>s t. to_lower E (s @ '':'' @ t) = to_lower E s @ '':'' @ to_lower E t)"

lemma lower_colon: "lower_documented E \<Longrightarrow> to_lower E (s @ CHR '':'' # t) = to_lower E s @ CHR '':'' # to_lower E t"
  by (simp add: lower_documented_def)

lemma lower_join: "\<lbrakk>lower_documented E; xs \<noteq> []\<rbrakk> \<Longrightarrow> to_lower E (join xs '':'') = join (map (to_lower E) xs) '':''"
  by (induction xs "'':''" rule: join.induct) (simp_all add: lower_colon)

section \<open>Layers in any order\<close>

text \<open>Fields with the same normalised name have one value in all layers.\<close>

definition layers_agree :: "layers \<Rightarrow> bool" where
  "layers_agree ls \<longleftrightarrow> (\<forall>m a n b k k' v w. (m, VMap a) \<in> set ls \<and> (n, VMap b) \<in> set ls \<and>
     normalizeTsharkFieldKey k = normalizeTsharkFieldKey k' \<and> map_get a k = Some v \<and> map_get b k' = Some w \<longrightarrow> v = w)"

lemma normalize_twice: "normalizeTsharkFieldKey (normalizeTsharkFieldKey k) = normalizeTsharkFieldKey k"
  by (simp add: normalizeTsharkFieldKey_def)

lemma any_layer_Some:
  "any_layer key norm ls = Some v \<Longrightarrow> \<exists>n a. (n, VMap a) \<in> set ls \<and> (map_get a key = Some v \<or> map_get a norm = Some v)"
  by (induction ls) (auto split: gval.splits option.splits if_splits, blast+)

lemma any_layer_None:
  "any_layer key norm ls = None \<Longrightarrow> (n, VMap a) \<in> set ls \<Longrightarrow> map_get a key = None \<and> map_get a norm = None"
  by (induction ls) (auto split: gval.splits option.splits if_splits)

lemma any_layer_order:
  assumes "layers_agree ls" "set ls' = set ls"
  shows "any_layer key (normalizeTsharkFieldKey key) ls' = any_layer key (normalizeTsharkFieldKey key) ls"
proof (cases "any_layer key (normalizeTsharkFieldKey key) ls")
  case None
  then show ?thesis
    using any_layer_None[OF None] any_layer_Some[of key "normalizeTsharkFieldKey key" ls'] assms(2)
    by (cases "any_layer key (normalizeTsharkFieldKey key) ls'") force+
next
  case (Some v)
  obtain w where w: "any_layer key (normalizeTsharkFieldKey key) ls' = Some w"
    using any_layer_None[of key _ ls'] any_layer_Some[OF Some] assms(2) by (metis not_None_eq)
  from any_layer_Some[OF Some] any_layer_Some[OF w] have "w = v"
    using assms unfolding layers_agree_def by (metis normalize_twice)
  then show ?thesis using Some w by simp
qed

definition same_layers :: "layers \<Rightarrow> layers \<Rightarrow> bool" where
  "same_layers ls ls' \<longleftrightarrow> distinct (map fst ls) \<and> distinct (map fst ls') \<and> set ls' = set ls \<and> layers_agree ls"

lemma same_layers_get: "same_layers ls ls' \<Longrightarrow> map_of ls' = map_of ls"
  by (simp add: same_layers_def map_of_inject_set)

lemma lookup_order: "same_layers ls ls' \<Longrightarrow> lookupLayerValue ls' = lookupLayerValue ls"
proof -
  assume same: "same_layers ls ls'"
  have "named_layer ls' = named_layer ls" unfolding named_layer_def same_layers_get[OF same] ..
  moreover have "any_layer key (normalizeTsharkFieldKey key) ls' = any_layer key (normalizeTsharkFieldKey key) ls" for key
    using same any_layer_order by (simp add: same_layers_def)
  ultimately show ?thesis unfolding lookupLayerValue_def Let_def same_layers_get[OF same] by presburger
qed

lemma first_order: "same_layers ls ls' \<Longrightarrow> firstLayerString E ls' = firstLayerString E ls"
  by (simp add: firstLayerString_def lookup_order fun_eq_iff)

lemma values_order: "same_layers ls ls' \<Longrightarrow> set_layer_values E ls' table ev = set_layer_values E ls table ev"
  by (simp add: set_layer_values_def setFirstLayerValue_def first_order)

lemma names_order:
  assumes "same_layers ls ls'" "plain_needles ps"
  shows "containsAny (protocolNamesFromLayers E ls') ps = containsAny (protocolNamesFromLayers E ls) ps"
proof (cases "ls = []")
  case True
  then show ?thesis using assms by (simp add: same_layers_def)
next
  case False
  have "set (map (\<lambda>(key, _). to_lower E key) ls') = set (map (\<lambda>(key, _). to_lower E key) ls)" "ls' \<noteq> []"
    using assms(1) False by (auto simp: same_layers_def)
  then show ?thesis
    unfolding protocolNamesFromLayers_def using False
    by (simp only: containsAny_join[OF _ assms(2)] map_is_Nil_conv not_False_eq_True simp_thms)
qed

lemma lower_names_order:
  assumes "same_layers ls ls'" "plain_needles ps" "lower_documented E"
  shows "containsAny (to_lower E (protocolNamesFromLayers E ls')) ps = containsAny (to_lower E (protocolNamesFromLayers E ls)) ps"
proof (cases "ls = []")
  case True
  then show ?thesis using assms by (simp add: same_layers_def)
next
  case False
  have "set (map (to_lower E) (map (\<lambda>(key, _). to_lower E key) ls')) = set (map (to_lower E) (map (\<lambda>(key, _). to_lower E key) ls))"
    "ls' \<noteq> []"
    using assms(1) False by (auto simp: same_layers_def)
  then show ?thesis
    unfolding protocolNamesFromLayers_def using False assms(3)
    by (simp only: lower_join containsAny_join[OF _ assms(2)] map_is_Nil_conv not_False_eq_True simp_thms)
qed

lemma encrypted_order: "same_layers ls ls' \<Longrightarrow> containsEncryptedSMBValue E (VMap ls') = containsEncryptedSMBValue E (VMap ls)"
  by (auto simp: same_layers_def list_ex_iff)

lemma needles [simp]:
  "plain_needles [''smb2_transform'', ''smb3_transform'', ''smb2 transform'', ''smb3 transform'']"
  "x \<in> set layer_protocols \<Longrightarrow> plain_needles [x]" "(ns, t) \<in> set protocol_cases \<Longrightarrow> plain_needles ns"
  "plain_needles [''tls'']" "plain_needles [''ssl'']"
  by (auto simp: plain_needles_def layer_protocols_def protocol_cases_def)

lemma containsEncryptedSMB_split:
  "lower_documented E \<Longrightarrow> containsEncryptedSMB E (a @ CHR '':'' # b) raw \<longleftrightarrow>
     containsEncryptedSMB E a raw \<or> containsEncryptedSMB E b raw"
  by (auto simp: containsEncryptedSMB_def lower_colon containsAny_colon)

section \<open>The event of a record\<close>

text \<open>While an event is built its layers stand in front; no other step touches them.\<close>

abbreviation PF :: string where "PF \<equiv> ''ProtocolFields''"

lemma stringFromEvent_front [simp]: "k \<noteq> PF \<Longrightarrow> stringFromEvent E ((PF, x) # r) k = stringFromEvent E r k"
  by (simp add: stringFromEvent_def)

lemma values_front:
  "PF \<notin> fst ` set table \<Longrightarrow> set_layer_values E ls table ((PF, x) # r) = (PF, x) # set_layer_values E ls table r"
  unfolding set_layer_values_def
  by (induction table arbitrary: r) (auto simp: setFirstLayerValue_def Let_def)

lemma front_table: "PF \<notin> fst ` set (frame_keys @ security_keys @ http_keys)"
  by (simp add: frame_keys_def security_keys_def http_keys_def)

definition core_event :: "go_ext \<Rightarrow> layers \<Rightarrow> (string \<times> gval) list" where
  "core_event E ls =
     (let r = set_layer_values E ls (frame_keys @ security_keys @ http_keys) [] in
      if stringFromEvent E r ''Protocol'' = []
      then map_put r ''Protocol'' (VString (protocolFromLayers E ls (stringFromEvent E r ''FrameProtocols'')))
      else r)"

lemma layer_event_front: "layer_event E ls = (PF, VMap ls) # core_event E ls"
  by (simp add: layer_event_def core_event_def values_front[OF front_table] Let_def)

lemma protocol_order: "same_layers ls ls' \<Longrightarrow> protocolFromLayers E ls' fp = protocolFromLayers E ls fp"
proof -
  assume same: "same_layers ls ls'"
  have "find (\<lambda>p. containsAny (protocolNamesFromLayers E ls') [p]) layer_protocols =
      find (\<lambda>p. containsAny (protocolNamesFromLayers E ls) [p]) layer_protocols"
    by (rule find_cong) (simp_all add: names_order[OF same])
  then show ?thesis by (simp add: protocolFromLayers_def Let_def)
qed

lemma core_order: "same_layers ls ls' \<Longrightarrow> core_event E ls' = core_event E ls"
  unfolding core_event_def by (simp only: values_order protocol_order Let_def)

lemma type_order:
  assumes "same_layers ls ls'" "lower_documented E"
  shows "eventTypeFromTsharkEvent E ((PF, VMap ls') # r) = eventTypeFromTsharkEvent E ((PF, VMap ls) # r)"
proof -
  let ?a = "to_lower E (stringFromEvent E r ''Protocol'' @ CHR '':'' # stringFromEvent E r ''FrameProtocols'')"
  have any: "containsAny (?a @ CHR '':'' # protocolNamesFromLayers E ls') ps =
      containsAny (?a @ CHR '':'' # protocolNamesFromLayers E ls) ps" if "plain_needles ps" for ps
    using that by (simp add: containsAny_colon names_order[OF assms(1)])
  have "find (\<lambda>(needles, _). containsAny (?a @ CHR '':'' # protocolNamesFromLayers E ls') needles) protocol_cases =
      find (\<lambda>(needles, _). containsAny (?a @ CHR '':'' # protocolNamesFromLayers E ls) needles) protocol_cases"
    by (rule find_cong) (auto simp: any[OF needles(3)])
  moreover have "containsEncryptedSMB E (?a @ CHR '':'' # protocolNamesFromLayers E ls') (VMap ls') =
      containsEncryptedSMB E (?a @ CHR '':'' # protocolNamesFromLayers E ls) (VMap ls)"
    using lower_names_order[OF assms(1) _ assms(2)] encrypted_order[OF assms(1)]
    by (auto simp: containsEncryptedSMB_def lower_colon[OF assms(2)] containsAny_colon)
  moreover have "list_ex (\<lambda>key. case map_get ((PF, x) # r) key of Some (VString v) \<Rightarrow> v \<noteq> [] | _ \<Rightarrow> False) rpc_keys =
      list_ex (\<lambda>key. case map_get r key of Some (VString v) \<Rightarrow> v \<noteq> [] | _ \<Rightarrow> False) rpc_keys" for x
    by (simp add: rpc_keys_def)
  ultimately show ?thesis
    by (simp add: eventTypeFromTsharkEvent_def Let_def protocol_text_def field_value_def)
qed

lemma coerce_front [simp]: "coerceTsharkEventNumbers ((PF, x) # r) = (PF, x) # coerceTsharkEventNumbers r"
  by (simp add: coerceTsharkEventNumbers_def coerce_number_def split: option.splits)

lemma common_front [simp]: "put_common h ty now ((PF, x) # r) = (PF, x) # put_common h ty now r"
  by (simp add: put_common_def)

lemma timestamp_front [simp]: "put_timestamp E T now ((PF, x) # r) = (PF, x) # put_timestamp E T now r"
  by (simp add: put_timestamp_def)

lemma security_order:
  assumes "same_layers ls ls'" "lower_documented E"
  shows "security_layer E ((PF, VMap ls') # r) ls' ty = security_layer E ((PF, VMap ls) # r) ls ty"
proof -
  have "hasAnyLayer E ls' [''tls'', ''ssl''] = hasAnyLayer E ls [''tls'', ''ssl'']"
    using lower_names_order[OF assms(1) _ assms(2)]
    by (simp add: hasAnyLayer_def Let_def to_lower_def is_ascii_def ascii_lower_def)
  moreover have "hasAnyPort E ((PF, x) # r) ps = hasAnyPort E r ps" for x ps by (simp add: hasAnyPort_def)
  ultimately show ?thesis
    using encrypted_order[OF assms(1), of E]
    by (simp only: security_layer_def field_value_def containsEncryptedSMB_def) simp
qed

lemma summary_front:
  "setTsharkSecuritySummary E ls ty ((PF, x) # r) = (PF, x) #
     (let sl = security_layer E ((PF, x) # r) ls ty in
      if sl = [] then r else map_put (map_put r ''SecurityLayer'' (VString sl)) ''Encrypted'' (VBool (sl \<noteq> ''http'')))"
  by (simp add: setTsharkSecuritySummary_def Let_def)

text \<open>What protocol fields are kept, and under which layers.\<close>

definition kept_layer :: "go_ext \<Rightarrow> string \<Rightarrow> string \<Rightarrow> string \<Rightarrow> bool" where
  "kept_layer E ty protocol key \<longleftrightarrow>
     (let l = to_lower E (trim_space key) in l \<in> set (tsharkProtocolLayerSet E ty protocol) \<and> \<not> isTsharkTransportLayer E l)"

definition simplified_layer :: "go_ext \<Rightarrow> string \<Rightarrow> gval \<Rightarrow> gval" where
  "simplified_layer E key v = simplifyTsharkProtocolFieldValue E (to_lower E (trim_space key)) v"

lemma protocolFields_lookup:
  assumes "distinct (map fst ls)"
  shows "map_of (protocolFieldsFromTsharkLayers E ls ty protocol) k =
    (case map_of ls k of Some v \<Rightarrow> if kept_layer E ty protocol k then Some (simplified_layer E k v) else None | None \<Rightarrow> None)"
proof -
  let ?f = "\<lambda>filtered (key, val).
     let layerName = to_lower E (trim_space key) in
     if layerName \<in> set (tsharkProtocolLayerSet E ty protocol) \<and> \<not> isTsharkTransportLayer E layerName
     then map_put filtered key (simplifyTsharkProtocolFieldValue E layerName val) else filtered"
  have "map_of (foldl ?f acc ls) k =
      (case map_of ls k of Some v \<Rightarrow> if kept_layer E ty protocol k then Some (simplified_layer E k v) else map_of acc k
       | None \<Rightarrow> map_of acc k)" for acc
    using assms
  proof (induction ls arbitrary: acc)
    case (Cons kv ls)
    obtain key val where kv: "kv = (key, val)" by (cases kv)
    have "map_of ls key = None" using Cons.prems kv by (simp add: map_of_eq_None_iff)
    then show ?case using Cons.IH[of "?f acc kv"] Cons.prems kv
      by (auto simp: Let_def kept_layer_def simplified_layer_def map_of_map_put split: option.splits)
  qed simp
  from this[of "[]"] show ?thesis
    by (cases "map_of ls k") (simp_all add: protocolFieldsFromTsharkLayers_def Let_def)
qed

lemma protocolFields_order:
  assumes "same_layers ls ls'"
  shows "map_of (protocolFieldsFromTsharkLayers E ls' ty p) = map_of (protocolFieldsFromTsharkLayers E ls ty p)"
  using assms protocolFields_lookup same_layers_get[OF assms] by (intro ext) (simp add: same_layers_def)

definition same_event :: "(string \<times> gval) list \<Rightarrow> (string \<times> gval) list \<Rightarrow> bool" where
  "same_event ev ev' \<longleftrightarrow> (\<forall>k. k \<noteq> PF \<longrightarrow> map_get ev' k = map_get ev k) \<and>
     (case (map_get ev PF, map_get ev' PF) of
        (None, None) \<Rightarrow> True
      | (Some (VMap m), Some (VMap m')) \<Rightarrow> map_of m' = map_of m
      | _ \<Rightarrow> False)"

definition finish :: "(string \<times> gval) list \<Rightarrow> (string \<times> gval) list \<Rightarrow> (string \<times> gval) list" where
  "finish pf ev = map_del (map_del (if pf \<noteq> [] then map_put ev PF (VMap pf) else map_del ev PF) ''FrameTimeEpoch'') ''FrameProtocols''"

lemma finish_same: "map_of pf' = map_of pf \<Longrightarrow> same_event (finish pf ((PF, x) # r)) (finish pf' ((PF, y) # r))"
proof -
  assume eq: "map_of pf' = map_of pf"
  then have "pf' = [] \<longleftrightarrow> pf = []" by (metis map_of_eq_empty_iff)
  then show ?thesis using eq by (auto simp: same_event_def finish_def map_of_map_del map_of_map_put)
qed

text \<open>The event of a record with layers \<open>ls\<close>, the layers in front.\<close>

definition packet_core :: "go_ext \<Rightarrow> time_ext \<Rightarrow> string \<Rightarrow> layers \<Rightarrow> string \<Rightarrow> int \<Rightarrow> (string \<times> gval) list" where
  "packet_core E T h ls ty now =
     setTsharkSecuritySummary E ls ty ((PF, VMap ls) # put_timestamp E T now (put_common h ty now (coerceTsharkEventNumbers (core_event E ls))))"

lemma record_event:
  "eventFromTsharkEKRecord E T h [(''layers'', VMap ls)] now =
     (let ty = eventTypeFromTsharkEvent E ((PF, VMap ls) # core_event E ls) in
      if ls = [] \<or> ty = [] then None
      else Some (finish (protocolFieldsFromTsharkLayers E ls ty (stringFromEvent E (core_event E ls) ''Protocol''))
                  (packet_core E T h ls ty now)))"
  by (simp add: eventFromTsharkEKRecord_def Let_def layer_event_front finish_def packet_core_def)

text \<open>C34: the event of a packet does not depend on the order in which Go happens to visit the layers of its
  record, when fields that occur in several layers have one value: both orders are skipped, or both give
  an event, with the same fields and, for every layer, the same protocol fields.\<close>

theorem packet_event_order_free:
  assumes "same_layers ls ls'" "lower_documented E"
  shows "rel_option same_event (eventFromTsharkEKRecord E T h [(''layers'', VMap ls)] now)
    (eventFromTsharkEKRecord E T h [(''layers'', VMap ls')] now)"
proof -
  let ?ty = "eventTypeFromTsharkEvent E ((PF, VMap ls) # core_event E ls)"
  let ?r = "put_timestamp E T now (put_common h ?ty now (coerceTsharkEventNumbers (core_event E ls)))"
  have core: "core_event E ls' = core_event E ls" by (rule core_order[OF assms(1)])
  have ty: "eventTypeFromTsharkEvent E ((PF, VMap ls') # core_event E ls) = ?ty"
    by (rule type_order[OF assms])
  have empty: "ls' = [] \<longleftrightarrow> ls = []" using assms(1) by (auto simp: same_layers_def)
  have "same_event (finish (protocolFieldsFromTsharkLayers E ls ?ty p) (packet_core E T h ls ?ty now))
      (finish (protocolFieldsFromTsharkLayers E ls' ?ty p) (packet_core E T h ls' ?ty now))" for p
    unfolding packet_core_def core summary_front security_order[OF assms, of ?r ?ty] Let_def
    by (rule finish_same[OF protocolFields_order[OF assms(1)]])
  then show ?thesis unfolding record_event Let_def core ty empty by simp
qed

section \<open>Sources of packet events\<close>













text \<open>Two fields of one layer whose names become the same: the order in which the map is visited decides
  whether both are kept.\<close>

lemma simplification_loses_field:
  "simplifyTsharkProtocolFieldValue E ''smb2'' (VMap [(''smb2_a'', VBool x), (''a'', VBool y)]) = VMap [(''a'', VBool y)]"
  "simplifyTsharkProtocolFieldValue E ''smb2'' (VMap [(''a'', VBool y), (''smb2_a'', VBool x)]) =
     VMap [(''a'', VBool y), (''smb2_a'', VBool x)]"
  by (simp_all add: put_simplified_def simplifyTsharkProtocolFieldKey_def Let_def trim_space_def last_space_width_def is_space_def
    to_lower_def is_ascii_def ascii_lower_def normalizeTsharkFieldKey_def has_prefix_def)

section \<open>Witnesses\<close>

definition packet_ext :: go_ext where
  "packet_ext = sample_ext\<lparr>x_lower := map ascii_lower, x_json_object := (\<lambda>_. Some [(''LogType'', VString ''pktlog'')])\<rparr>"

definition packet_time :: time_ext where
  "packet_time = \<lparr>te_rfc3339 = (\<lambda>_. None), te_epoch = (\<lambda>_. None)\<rparr>"

lemma packet_lower: "to_lower packet_ext s = map ascii_lower s"
  by (simp add: to_lower_def packet_ext_def)

lemma packet_documented: "lower_documented packet_ext"
  by (simp add: lower_documented_def packet_lower ascii_lower_def)

definition demo_layers :: layers where
  "demo_layers = [(''ldap'', VMap [])]"





lemma demo_nonempty [simp]: "demo_layers \<noteq> []"
  by (simp add: demo_layers_def)









theorem packet_event_order_free_witness:
  "rel_option same_event
     (eventFromTsharkEKRecord packet_ext packet_time ''dc1'' [(''layers'', VMap [(''ip'', VMap []), (''ldap'', VMap [])])] 0)
     (eventFromTsharkEKRecord packet_ext packet_time ''dc1'' [(''layers'', VMap [(''ldap'', VMap []), (''ip'', VMap [])])] 0)"
  by (rule packet_event_order_free[OF _ packet_documented]) (auto simp: same_layers_def layers_agree_def)


end
