(* ===== verification/Rule_Files.thy ===== *)
theory Rule_Files
  imports Engine_Store
begin

text \<open>
  The rules as the backend keeps them: the documents of \<open>src/backend/model/tables.go\<close>, the YAML documents
  their struct tags describe, the paths of the rule files (\<open>filepath.Clean\<close> and \<open>filepath.Join\<close> on Unix), and
  the writer of \<open>src/backend/apiserver/server/rule_writer.go\<close>. The disk, MongoDB, Redis, the clock and the
  HTTP client are a record of calls on an arbitrary outside world; the encoders are parameters.
\<close>

section \<open>Paths\<close>

text \<open>\<open>filepath.Clean\<close> works on the elements of a path from left to right; the stack holds the elements kept,
  the last one first.\<close>

definition clean_step :: "bool \<Rightarrow> string \<Rightarrow> string list \<Rightarrow> string list" where
  "clean_step rooted c stack =
     (if c = [] \<or> c = ''.'' then stack
      else if c = ''..'' then
        (if stack \<noteq> [] \<and> hd stack \<noteq> ''..'' then tl stack
         else if rooted then stack
         else ''..'' # stack)
      else c # stack)"

definition is_rooted :: "string \<Rightarrow> bool" where
  "is_rooted path = (path \<noteq> [] \<and> hd path = CHR ''/'')"

definition clean_parts :: "string \<Rightarrow> string list" where
  "clean_parts path = rev (fold (clean_step (is_rooted path)) (split path ''/'') [])"

definition path_clean :: "string \<Rightarrow> string" where
  "path_clean path =
     (let parts = clean_parts path in
      if is_rooted path then CHR ''/'' # join parts ''/''
      else if parts = [] then ''.'' else join parts ''/'')"

text \<open>\<open>filepath.Join\<close>: leading empty elements are dropped.\<close>

definition path_join :: "string list \<Rightarrow> string" where
  "path_join elems =
     (case dropWhile (\<lambda>e. e = []) elems of [] \<Rightarrow> [] | es \<Rightarrow> path_clean (join es ''/''))"

section \<open>Rules\<close>

text \<open>A \<open>time.Time\<close> is the number of nanoseconds since 1970; \<open>zero_time\<close> is the zero value of the type.
  A nil slice is the empty list.\<close>

definition zero_time :: int where
  "zero_time = -62135596800 * 1000000000"

definition time_unix :: "int \<Rightarrow> int" where
  "time_unix t = t div 1000000000"

record FieldObj =
  fo_Obj :: string
  fo_Key :: string
  fo_Value :: string

record AttackFlow =
  af_Desc :: string
  af_Fields :: "FieldObj list"
  af_Relates :: "string list"

record AlertDetection =
  ad_EventType :: string
  ad_WinSize :: string
  ad_Sorted :: bool
  ad_SigmaRules :: "string list"
  ad_MatchBy :: string

record AlertRule =
  ar_ID :: string
  ar_Title :: string
  ar_Description :: string
  ar_Enable :: bool
  ar_Level :: int
  ar_Status :: string
  ar_Tags :: "string list"
  ar_Logsource :: string
  ar_Detection :: AlertDetection
  ar_Type :: string
  ar_RuleOrigin :: string
  ar_References :: "string list"
  ar_Suggestion :: string
  ar_Author :: string
  ar_AutoBlock :: bool
  ar_AttackFlow :: AttackFlow
  ar_UniqueFilter :: "string list"
  ar_RuleDate :: string
  ar_RuleModified :: string
  ar_CreateTm :: int
  ar_UpdateTm :: int

record AlertActivityRule =
  vr_ID :: string
  vr_Title :: string
  vr_Description :: string
  vr_Level :: int
  vr_Status :: string
  vr_Tags :: "string list"
  vr_Logsource :: string
  vr_RuleOrigin :: string
  vr_References :: "string list"
  vr_Detection :: "(string \<times> gval) list"
  vr_RdxKey :: string
  vr_Fields :: "string list"
  vr_UniqueFields :: "string list"
  vr_Author :: string
  vr_RuleDate :: string
  vr_RuleModified :: string
  vr_CreateTm :: int
  vr_UpdateTm :: int

definition no_attack_flow :: AttackFlow where
  "no_attack_flow = \<lparr>af_Desc = [], af_Fields = [], af_Relates = []\<rparr>"

section \<open>YAML documents\<close>

text \<open>The mapping \<open>yaml.Marshal\<close> writes for a rule, after the tags of the struct; \<open>unless_zero\<close> is
  \<open>omitempty\<close>.\<close>

definition unless_zero :: "bool \<Rightarrow> string \<Rightarrow> gval \<Rightarrow> (string \<times> gval) list" where
  "unless_zero zero k v = (if zero then [] else [(k, v)])"

definition detection_yaml :: "AlertDetection \<Rightarrow> gval" where
  "detection_yaml d = VMap
     [(''event_type'', VString (ad_EventType d)), (''win_size'', VString (ad_WinSize d)),
      (''sorted'', VBool (ad_Sorted d)), (''sigma_rules'', VStrings (ad_SigmaRules d)),
      (''match_by'', VString (ad_MatchBy d))]"

definition field_yaml :: "FieldObj \<Rightarrow> gval" where
  "field_yaml f = VMap ([(''obj'', VString (fo_Obj f)), (''key'', VString (fo_Key f))]
     @ unless_zero (fo_Value f = []) ''value'' (VString (fo_Value f)))"

definition attack_flow_yaml :: "AttackFlow \<Rightarrow> gval" where
  "attack_flow_yaml a = VMap
     [(''desc'', VString (af_Desc a)), (''fields'', VSlice (map field_yaml (af_Fields a))),
      (''relates'', VStrings (af_Relates a))]"

definition alert_yaml :: "AlertRule \<Rightarrow> (string \<times> gval) list" where
  "alert_yaml r =
     [(''id'', VString (ar_ID r)), (''title'', VString (ar_Title r)), (''description'', VString (ar_Description r))]
     @ unless_zero (\<not> ar_Enable r) ''enable'' (VBool (ar_Enable r))
     @ unless_zero (ar_Level r = 0) ''level'' (VInt32 (ar_Level r))
     @ [(''status'', VString (ar_Status r))]
     @ unless_zero (ar_Tags r = []) ''tags'' (VStrings (ar_Tags r))
     @ [(''logsource'', VString (ar_Logsource r)), (''detection'', detection_yaml (ar_Detection r)),
        (''type'', VString (ar_Type r))]
     @ unless_zero (ar_RuleOrigin r = []) ''rule_origin'' (VString (ar_RuleOrigin r))
     @ unless_zero (ar_References r = []) ''references'' (VStrings (ar_References r))
     @ unless_zero (ar_Suggestion r = []) ''suggestion'' (VString (ar_Suggestion r))
     @ unless_zero (ar_Author r = []) ''author'' (VString (ar_Author r))
     @ unless_zero (\<not> ar_AutoBlock r) ''auto_block'' (VBool (ar_AutoBlock r))
     @ unless_zero (ar_AttackFlow r = no_attack_flow) ''attack_flow'' (attack_flow_yaml (ar_AttackFlow r))
     @ unless_zero (ar_UniqueFilter r = []) ''unique_filter'' (VStrings (ar_UniqueFilter r))
     @ unless_zero (ar_RuleDate r = []) ''date'' (VString (ar_RuleDate r))
     @ unless_zero (ar_RuleModified r = []) ''modified'' (VString (ar_RuleModified r))"

definition activity_yaml :: "AlertActivityRule \<Rightarrow> (string \<times> gval) list" where
  "activity_yaml r =
     [(''id'', VString (vr_ID r)), (''title'', VString (vr_Title r)), (''description'', VString (vr_Description r)),
      (''level'', VInt32 (vr_Level r)), (''status'', VString (vr_Status r)), (''tags'', VStrings (vr_Tags r)),
      (''logsource'', VString (vr_Logsource r))]
     @ unless_zero (vr_RuleOrigin r = []) ''rule_origin'' (VString (vr_RuleOrigin r))
     @ [(''references'', VStrings (vr_References r)), (''detection'', VMap (vr_Detection r))]
     @ unless_zero (vr_RdxKey r = []) ''rdx_key'' (VString (vr_RdxKey r))
     @ [(''fields'', VStrings (vr_Fields r)), (''unique_fields'', VStrings (vr_UniqueFields r))]
     @ unless_zero (vr_Author r = []) ''author'' (VString (vr_Author r))
     @ unless_zero (vr_RuleDate r = []) ''date'' (VString (vr_RuleDate r))
     @ unless_zero (vr_RuleModified r = []) ''modified'' (VString (vr_RuleModified r))"

section \<open>Encoders\<close>

text \<open>The functions of packages that are not in the repository, and of the standard library: encoding and
  decoding of YAML, JSON and times, and the version and the trait of this installation.\<close>

record RuleVersionInfo =
  vi_Version :: string
  vi_MD5 :: string

record RuleMetadata =
  rm_ID :: string
  rm_UpdateTm :: int
  rm_Filename :: string
  rm_MD5 :: string
  rm_DetectionMD5 :: string

record RuleDescriptor =
  rd_Version :: string
  rd_Flow :: "RuleMetadata list"
  rd_PktLog :: "RuleMetadata list"
  rd_WinLog :: "RuleMetadata list"

record RuleUploadInfo =
  ui_ID :: string
  ui_UpdateTm :: int
  ui_MD5 :: string
  ui_DetectionMD5 :: string
  ui_Action :: string

record RuleUploadDescriptor =
  ud_Version :: string
  ud_Flow :: "RuleUploadInfo list"
  ud_PktLog :: "RuleUploadInfo list"
  ud_WinLog :: "RuleUploadInfo list"
  ud_ClientVersion :: string
  ud_ClientTrait :: string

record rule_ext =
  rx_yaml :: "(string \<times> gval) list \<Rightarrow> string + string" \<comment> \<open>\<open>yaml.Marshal\<close>\<close>
  rx_yaml_alert :: "string \<Rightarrow> string + AlertRule"       \<comment> \<open>\<open>yaml.Unmarshal\<close> into the zero rule\<close>
  rx_yaml_activity :: "string \<Rightarrow> string + AlertActivityRule"
  rx_yaml_detection :: "string \<Rightarrow> string + (string \<times> gval) list"
  rx_json_version :: "string \<Rightarrow> string + RuleVersionInfo" \<comment> \<open>\<open>json.Unmarshal\<close>\<close>
  rx_json_desc :: "string \<Rightarrow> string + RuleDescriptor"
  rx_detection_json :: "AlertDetection \<Rightarrow> string + string" \<comment> \<open>\<open>json.Marshal\<close>\<close>
  rx_alert_json :: "AlertRule \<Rightarrow> string + string"
  rx_activity_detection_json :: "(string \<times> gval) list \<Rightarrow> string + string"
  rx_activity_json :: "AlertActivityRule \<Rightarrow> string + string"
  rx_upload_json :: "RuleUploadDescriptor \<Rightarrow> string + string" \<comment> \<open>\<open>json.MarshalIndent\<close>\<close>
  rx_format :: "string \<Rightarrow> int \<Rightarrow> string"                \<comment> \<open>layout, time: \<open>Time.Format\<close>\<close>
  rx_time_parse :: "string \<Rightarrow> string \<Rightarrow> int option"     \<comment> \<open>layout, text: \<open>time.Parse\<close>\<close>
  rx_request_error :: "string \<Rightarrow> string option"         \<comment> \<open>\<open>http.NewRequestWithContext\<close> on a URL\<close>
  rx_package_url :: "string \<Rightarrow> string + string"          \<comment> \<open>\<open>url.Parse\<close>, with the version and the trait as query\<close>
  rx_build_version :: string
  rx_trait :: string

section \<open>Services\<close>

text \<open>A field of an update is set when it is \<^const>\<open>Some\<close>, as a key of the \<open>bson.M\<close> is.\<close>

record alert_update =
  au_title :: "string option"
  au_description :: "string option"
  au_enable :: "bool option"
  au_auto_block :: "bool option"
  au_level :: "int option"
  au_status :: "string option"
  au_tags :: "string list option"
  au_logsource :: "string option"
  au_detection :: "AlertDetection option"
  au_type :: "string option"
  au_rule_origin :: "string option"
  au_references :: "string list option"
  au_suggestion :: "string option"
  au_author :: "string option"
  au_attack_flow :: "AttackFlow option"
  au_unique_filter :: "string list option"
  au_update_tm :: "int option"

record activity_update =
  vu_title :: "string option"
  vu_description :: "string option"
  vu_level :: "int option"
  vu_status :: "string option"
  vu_tags :: "string list option"
  vu_logsource :: "string option"
  vu_rule_origin :: "string option"
  vu_references :: "string list option"
  vu_detection :: "(string \<times> gval) list option"
  vu_rdx_key :: "string option"
  vu_fields :: "string list option"
  vu_unique_fields :: "string list option"
  vu_author :: "string option"
  vu_update_tm :: "int option"

record system_info =
  si_UpgradeSrv :: string
  si_UpgradeRule :: bool
  si_SystemProxy :: "(string \<times> string) list option"

datatype file_error = NotExist | FileErr string

text \<open>An entry of a ZIP file: opening it gives an error, or the bytes that can be read and the error, if any,
  that ends reading. The body of a response likewise.\<close>

record zip_file =
  zf_Name :: string
  zf_IsDir :: bool
  zf_Data :: "string + string \<times> string option"

record http_request =
  hq_method :: string
  hq_url :: string
  hq_proxy :: "string option"
  hq_timeout :: int
  hq_body :: string

record http_response =
  hr_status :: int
  hr_body :: "string \<times> string option"

record 's rule_io =
  ru_mkdirAll :: "string \<Rightarrow> ('s, string option) io"
  ru_stat :: "string \<Rightarrow> ('s, file_error option) io"
  ru_readFile :: "string \<Rightarrow> ('s, file_error + string) io"
  ru_writeFile :: "string \<Rightarrow> string \<Rightarrow> ('s, string option) io"
  ru_openTrunc :: "string \<Rightarrow> ('s, string option) io"   \<comment> \<open>\<open>os.Create\<close>, \<open>os.OpenFile\<close> with \<open>O_TRUNC\<close>\<close>
  ru_append :: "string \<Rightarrow> string \<Rightarrow> ('s, string option) io" \<comment> \<open>writing to the open file\<close>
  ru_remove :: "string \<Rightarrow> ('s, file_error option) io"
  ru_removeAll :: "string \<Rightarrow> ('s, unit) io"
  ru_readDir :: "string \<Rightarrow> ('s, string + (string \<times> bool) list) io"
  ru_glob :: "string \<Rightarrow> ('s, string + string list) io"
  ru_walk :: "string \<Rightarrow> ('s, (string \<times> bool \<times> string option) list) io"
  ru_zipOpen :: "string \<Rightarrow> ('s, string + zip_file list) io"
  ru_zipAdd :: "string \<Rightarrow> string \<Rightarrow> ('s, string option) io" \<comment> \<open>\<open>Writer.Create\<close> of an entry\<close>
  ru_zipWrite :: "string \<Rightarrow> string \<Rightarrow> string \<Rightarrow> ('s, string option) io"
  ru_http :: "http_request \<Rightarrow> ('s, string + http_response) io"
  ru_publish :: "string \<Rightarrow> string \<Rightarrow> ('s, string option) io"
  ru_now :: "('s, int) io"
  ru_newID :: "('s, string) io"
  ru_getenv :: "string \<Rightarrow> ('s, string) io"
  ru_systemInfo :: "('s, system_info option) io"
  ru_findAlert :: "string \<Rightarrow> ('s, string + AlertRule) io"
  ru_allAlerts :: "('s, string + AlertRule list) io"
  ru_insertAlert :: "AlertRule \<Rightarrow> ('s, string option) io"
  ru_updateAlert :: "string \<Rightarrow> alert_update \<Rightarrow> ('s, string option) io"
  ru_removeAlert :: "string \<Rightarrow> ('s, string option) io"
  ru_countUses :: "string \<Rightarrow> ('s, string + int) io"
  ru_findActivity :: "string \<Rightarrow> ('s, string + AlertActivityRule) io"
  ru_allActivities :: "('s, string + AlertActivityRule list) io"
  ru_insertActivity :: "AlertActivityRule \<Rightarrow> ('s, string option) io"
  ru_updateActivity :: "string \<Rightarrow> activity_update \<Rightarrow> ('s, string option) io"
  ru_removeActivity :: "string \<Rightarrow> ('s, string option) io"

section \<open>Rule files\<close>

definition ROOT_PATH :: string where "ROOT_PATH = ''/home/adadmin''"
definition RuleTypeFlow :: string where "RuleTypeFlow = ''flow''"
definition RuleTypeWinLog :: string where "RuleTypeWinLog = ''winlog''"
definition RuleTypePktLog :: string where "RuleTypePktLog = ''pktlog''"
definition ReloadChannel :: string where "ReloadChannel = ''ada:engine:reload''"

definition rule_dir :: "string \<Rightarrow> string" where
  "rule_dir ruleType = path_join [ROOT_PATH, ''rules'', ruleType]"

definition rule_file :: "string \<Rightarrow> string \<Rightarrow> string" where
  "rule_file ruleDir ident = path_join [ruleDir, ident @ ''.yml'']"

text \<open>The directory of an activity rule is read off its identifier.\<close>

definition activity_dir :: "string \<Rightarrow> string option" where
  "activity_dir ident =
     (if 6 \<le> length ident \<and> take 6 ident = ''winlog'' then Some (rule_dir RuleTypeWinLog)
      else if 6 \<le> length ident \<and> take 6 ident = ''pktlog'' then Some (rule_dir RuleTypePktLog)
      else None)"

text \<open>Making the directory, encoding and writing, which all four writers share.\<close>

definition write_rule ::
  "rule_ext \<Rightarrow> 's rule_io \<Rightarrow> string \<Rightarrow> string \<Rightarrow> (string \<times> gval) list \<Rightarrow> ('s, string option) io" where
  "write_rule X S ruleDir ident doc = do {
     err \<leftarrow> ru_mkdirAll S ruleDir;
     case err of
       Some e \<Rightarrow> ret (Some (''failed to create rule directory: '' @ e))
     | None \<Rightarrow>
         (case rx_yaml X doc of
            Inl e \<Rightarrow> ret (Some (''failed to marshal rule to YAML: '' @ e))
          | Inr data \<Rightarrow> do {
              err \<leftarrow> ru_writeFile S (rule_file ruleDir ident) data;
              ret (case err of Some e \<Rightarrow> Some (''failed to write rule file: '' @ e) | None \<Rightarrow> None)
            })
   }"

definition date_layout :: string where "date_layout = ''2006/01/02''"

text \<open>The copy the portal writes: without the attack flow, with the times as dates.\<close>

definition alert_copy :: "rule_ext \<Rightarrow> AlertRule \<Rightarrow> AlertRule" where
  "alert_copy X r =
     (let r = r\<lparr>ar_AttackFlow := no_attack_flow\<rparr>;
          r = (if ar_CreateTm r = zero_time then r else r\<lparr>ar_RuleDate := rx_format X date_layout (ar_CreateTm r)\<rparr>)
      in if ar_UpdateTm r = zero_time then r
         else r\<lparr>ar_RuleModified := rx_format X date_layout (ar_UpdateTm r)\<rparr>)"

definition WriteAlertRuleToFile :: "rule_ext \<Rightarrow> 's rule_io \<Rightarrow> AlertRule \<Rightarrow> ('s, string option) io" where
  "WriteAlertRuleToFile X S r = write_rule X S (rule_dir RuleTypeFlow) (ar_ID r) (alert_yaml (alert_copy X r))"

definition activity_copy :: "rule_ext \<Rightarrow> AlertActivityRule \<Rightarrow> AlertActivityRule" where
  "activity_copy X r =
     (let r = (if vr_CreateTm r = zero_time then r else r\<lparr>vr_RuleDate := rx_format X date_layout (vr_CreateTm r)\<rparr>)
      in if vr_UpdateTm r = zero_time then r
         else r\<lparr>vr_RuleModified := rx_format X date_layout (vr_UpdateTm r)\<rparr>)"

definition bad_activity_id :: "string \<Rightarrow> string" where
  "bad_activity_id ident = ''invalid activity rule ID format: '' @ ident @ '' (must start with winlog- or pktlog-)''"

definition WriteActivityRuleToFile :: "rule_ext \<Rightarrow> 's rule_io \<Rightarrow> AlertActivityRule \<Rightarrow> ('s, string option) io" where
  "WriteActivityRuleToFile X S r =
     (case activity_dir (vr_ID r) of
        None \<Rightarrow> ret (Some (bad_activity_id (vr_ID r)))
      | Some ruleDir \<Rightarrow> write_rule X S ruleDir (vr_ID r) (activity_yaml (activity_copy X r)))"

definition delete_rule :: "'s rule_io \<Rightarrow> string \<Rightarrow> string \<Rightarrow> ('s, string option) io" where
  "delete_rule S ruleDir ident = do {
     err \<leftarrow> ru_remove S (rule_file ruleDir ident);
     ret (case err of Some (FileErr e) \<Rightarrow> Some (''failed to delete rule file: '' @ e) | _ \<Rightarrow> None)
   }"

definition DeleteAlertRuleFile :: "'s rule_io \<Rightarrow> string \<Rightarrow> ('s, string option) io" where
  "DeleteAlertRuleFile S ident = delete_rule S (rule_dir RuleTypeFlow) ident"

definition DeleteActivityRuleFile :: "'s rule_io \<Rightarrow> string \<Rightarrow> ('s, string option) io" where
  "DeleteActivityRuleFile S ident =
     (case activity_dir ident of
        None \<Rightarrow> ret (Some (''invalid activity rule ID format: '' @ ident))
      | Some ruleDir \<Rightarrow> delete_rule S ruleDir ident)"

definition SendReloadSignalToEngine :: "'s rule_io \<Rightarrow> ('s, string option) io" where
  "SendReloadSignalToEngine S = do {
     now \<leftarrow> ru_now S;
     ru_publish S ReloadChannel (''reload:'' @ itoa (time_unix now))
   }"

text \<open>\<open>version.txt\<close>; portal and tasker differ in the layout of the time only.\<close>

definition version_file :: "rule_ext \<Rightarrow> 's rule_io \<Rightarrow> string \<Rightarrow> ('s, string option) io" where
  "version_file X S layout = do {
     let rulesDir = path_join [ROOT_PATH, ''rules''];
     err \<leftarrow> ru_mkdirAll S rulesDir;
     case err of
       Some e \<Rightarrow> ret (Some (''failed to create rules directory: '' @ e))
     | None \<Rightarrow> do {
         now \<leftarrow> ru_now S;
         let content = ''version: '' @ itoa (time_unix now) @ [CHR 0x0A] @ ''build_time: '' @ rx_format X layout now @ [CHR 0x0A];
         err \<leftarrow> ru_writeFile S (path_join [rulesDir, ''version.txt'']) content;
         ret (case err of Some e \<Rightarrow> Some (''failed to write version file: '' @ e) | None \<Rightarrow> None)
       }
   }"

definition GenerateVersionFile :: "rule_ext \<Rightarrow> 's rule_io \<Rightarrow> ('s, string option) io" where
  "GenerateVersionFile X S = version_file X S ''2006-01-02 15:04:05 MST''"

end
