(* ===== verification/Portal_Rules.thy ===== *)
theory Portal_Rules
  imports Rule_Files
begin

text \<open>
  Rules in the portal: the handlers of \<open>src/backend/apiserver/service/rule.go\<close> that add, change and delete
  rules, with the database functions of \<open>apiserver/server/rule.go\<close>. Every handler changes MongoDB, then the
  rule file the engine reads, and sends the engine a signal to reload; errors of the last two are logged
  only. A message of the user interface is the key of its translation.
\<close>

section \<open>Requests and replies\<close>

text \<open>\<open>in.Detection\<close> and \<open>in.AttackFlow\<close> are pointers; the getters of a nil pointer give zero values.\<close>

record AlertRuleReq =
  aq_ID :: string
  aq_Title :: string
  aq_Description :: string
  aq_Enable :: bool
  aq_Level :: int
  aq_Status :: string
  aq_Tags :: "string list"
  aq_Logsource :: string
  aq_Detection :: "AlertDetection option"
  aq_Type :: string
  aq_RuleOrigin :: string
  aq_References :: "string list"
  aq_Suggestion :: string
  aq_Author :: string
  aq_AutoBlock :: bool
  aq_AttackFlow :: "AttackFlow option"
  aq_UniqueFilter :: "string list"

record ActivityRuleReq =
  vq_ID :: string
  vq_Title :: string
  vq_Description :: string
  vq_Level :: int
  vq_Status :: string
  vq_Tags :: "string list"
  vq_Logsource :: string
  vq_RuleOrigin :: string
  vq_References :: "string list"
  vq_Detection :: string
  vq_RdxKey :: string
  vq_Fields :: "string list"
  vq_UniqueFields :: "string list"
  vq_Author :: string

datatype rule_code = AlreadyExists | RuleInternal | BadArgument | FailedPrecondition

datatype 'a rule_reply = Reply 'a | Refused rule_code string

section \<open>Conversions\<close>

definition normalizeRuleOrigin :: "go_ext \<Rightarrow> string \<Rightarrow> string \<Rightarrow> string" where
  "normalizeRuleOrigin E origin fallback =
     (let origin = to_lower E (trim_space origin) in
      if origin \<in> {''internal'', ''public'', ''custom''} then origin
      else if fallback \<noteq> [] then fallback
      else ''custom'')"

definition no_detection :: AlertDetection where
  "no_detection = \<lparr>ad_EventType = [], ad_WinSize = [], ad_Sorted = False, ad_SigmaRules = [], ad_MatchBy = []\<rparr>"

text \<open>A field of an attack flow is copied without its value.\<close>

definition attack_flow_model :: "AttackFlow \<Rightarrow> AttackFlow" where
  "attack_flow_model a = a\<lparr>af_Fields := map (\<lambda>f. f\<lparr>fo_Value := []\<rparr>) (af_Fields a)\<rparr>"

definition alert_of_request :: "go_ext \<Rightarrow> AlertRuleReq \<Rightarrow> AlertRule" where
  "alert_of_request E q =
     \<lparr>ar_ID = aq_ID q, ar_Title = aq_Title q, ar_Description = aq_Description q, ar_Enable = aq_Enable q,
      ar_Level = aq_Level q, ar_Status = aq_Status q, ar_Tags = aq_Tags q, ar_Logsource = aq_Logsource q,
      ar_Detection = (case aq_Detection q of Some d \<Rightarrow> d | None \<Rightarrow> no_detection),
      ar_Type = aq_Type q, ar_RuleOrigin = normalizeRuleOrigin E (aq_RuleOrigin q) ''custom'',
      ar_References = aq_References q, ar_Suggestion = aq_Suggestion q, ar_Author = aq_Author q,
      ar_AutoBlock = aq_AutoBlock q,
      ar_AttackFlow = (case aq_AttackFlow q of Some a \<Rightarrow> attack_flow_model a | None \<Rightarrow> no_attack_flow),
      ar_UniqueFilter = aq_UniqueFilter q, ar_RuleDate = [], ar_RuleModified = [],
      ar_CreateTm = zero_time, ar_UpdateTm = zero_time\<rparr>"

definition nonempty :: "'a list \<Rightarrow> 'a list option" where
  "nonempty xs = (if xs = [] then None else Some xs)"

definition alert_updates :: "go_ext \<Rightarrow> AlertRuleReq \<Rightarrow> alert_update" where
  "alert_updates E q =
     \<lparr>au_title = nonempty (aq_Title q), au_description = nonempty (aq_Description q),
      au_enable = Some (aq_Enable q), au_auto_block = Some (aq_AutoBlock q),
      au_level = (if 0 < aq_Level q then Some (aq_Level q) else None), au_status = nonempty (aq_Status q),
      au_tags = nonempty (aq_Tags q), au_logsource = nonempty (aq_Logsource q), au_detection = aq_Detection q,
      au_type = nonempty (aq_Type q),
      au_rule_origin = (if aq_RuleOrigin q = [] then None else Some (normalizeRuleOrigin E (aq_RuleOrigin q) ''custom'')),
      au_references = nonempty (aq_References q), au_suggestion = nonempty (aq_Suggestion q),
      au_author = nonempty (aq_Author q), au_attack_flow = map_option attack_flow_model (aq_AttackFlow q),
      au_unique_filter = nonempty (aq_UniqueFilter q), au_update_tm = None\<rparr>"

definition activity_of_request :: "go_ext \<Rightarrow> (string \<times> gval) list \<Rightarrow> ActivityRuleReq \<Rightarrow> AlertActivityRule" where
  "activity_of_request E detection q =
     \<lparr>vr_ID = vq_ID q, vr_Title = vq_Title q, vr_Description = vq_Description q, vr_Level = vq_Level q,
      vr_Status = vq_Status q, vr_Tags = vq_Tags q, vr_Logsource = vq_Logsource q,
      vr_RuleOrigin = normalizeRuleOrigin E (vq_RuleOrigin q) ''custom'', vr_References = vq_References q,
      vr_Detection = detection, vr_RdxKey = vq_RdxKey q, vr_Fields = vq_Fields q,
      vr_UniqueFields = vq_UniqueFields q, vr_Author = vq_Author q, vr_RuleDate = [], vr_RuleModified = [],
      vr_CreateTm = zero_time, vr_UpdateTm = zero_time\<rparr>"

definition activity_updates ::
  "go_ext \<Rightarrow> (string \<times> gval) list option \<Rightarrow> ActivityRuleReq \<Rightarrow> activity_update" where
  "activity_updates E detection q =
     \<lparr>vu_title = nonempty (vq_Title q), vu_description = nonempty (vq_Description q),
      vu_level = (if 0 < vq_Level q then Some (vq_Level q) else None), vu_status = nonempty (vq_Status q),
      vu_tags = nonempty (vq_Tags q), vu_logsource = nonempty (vq_Logsource q),
      vu_rule_origin = (if vq_RuleOrigin q = [] then None else Some (normalizeRuleOrigin E (vq_RuleOrigin q) ''custom'')),
      vu_references = nonempty (vq_References q), vu_detection = detection, vu_rdx_key = nonempty (vq_RdxKey q),
      vu_fields = nonempty (vq_Fields q), vu_unique_fields = nonempty (vq_UniqueFields q),
      vu_author = nonempty (vq_Author q), vu_update_tm = None\<rparr>"

text \<open>Levels as words and as numbers.\<close>

definition LevelStringToInt :: "string \<Rightarrow> int" where
  "LevelStringToInt level =
     (case map_get [(''info'', 1), (''low'', 2), (''medium'', 3), (''high'', 4), (''critical'', 5)] level of
        Some v \<Rightarrow> v | None \<Rightarrow> 3)"

definition LevelIntToString :: "int \<Rightarrow> string" where
  "LevelIntToString level =
     (case map_get [(1, ''info''), (2, ''low''), (3, ''medium''), (4, ''high''), (5, ''critical'')] level of
        Some v \<Rightarrow> v | None \<Rightarrow> ''medium'')"

lemma level_roundtrip: "1 \<le> l \<Longrightarrow> l \<le> 5 \<Longrightarrow> LevelStringToInt (LevelIntToString l) = l"
proof -
  assume "1 \<le> l" "l \<le> 5"
  then have "l \<in> {1, 2, 3, 4, 5}" by auto
  then show ?thesis by (auto simp: LevelStringToInt_def LevelIntToString_def)
qed

section \<open>Database functions\<close>

definition server_AddAlertRule :: "'s rule_io \<Rightarrow> AlertRule \<Rightarrow> ('s, AlertRule \<times> string option) io" where
  "server_AddAlertRule S rule = do {
     created \<leftarrow> ru_now S;
     updated \<leftarrow> ru_now S;
     let rule = rule\<lparr>ar_CreateTm := created, ar_UpdateTm := updated\<rparr>;
     rule \<leftarrow> (if ar_ID rule = [] then do { i \<leftarrow> ru_newID S; ret (rule\<lparr>ar_ID := i\<rparr>) } else ret rule);
     err \<leftarrow> ru_insertAlert S rule;
     ret (rule, err)
   }"

definition server_UpdateAlertRule :: "'s rule_io \<Rightarrow> string \<Rightarrow> alert_update \<Rightarrow> ('s, string option) io" where
  "server_UpdateAlertRule S ident updates = do {
     now \<leftarrow> ru_now S;
     ru_updateAlert S ident (updates\<lparr>au_update_tm := Some now\<rparr>)
   }"

definition server_AddActivityRule :: "'s rule_io \<Rightarrow> AlertActivityRule \<Rightarrow> ('s, AlertActivityRule \<times> string option) io" where
  "server_AddActivityRule S rule = do {
     created \<leftarrow> ru_now S;
     updated \<leftarrow> ru_now S;
     let rule = rule\<lparr>vr_CreateTm := created, vr_UpdateTm := updated\<rparr>;
     if \<not> contains (vr_ID rule) ''-''
     then ret (rule, Some ''invalid rule ID format, should be like: winlog-0000-0001'')
     else do { err \<leftarrow> ru_insertActivity S rule; ret (rule, err) }
   }"

definition server_UpdateActivityRule :: "'s rule_io \<Rightarrow> string \<Rightarrow> activity_update \<Rightarrow> ('s, string option) io" where
  "server_UpdateActivityRule S ident updates = do {
     now \<leftarrow> ru_now S;
     ru_updateActivity S ident (updates\<lparr>vu_update_tm := Some now\<rparr>)
   }"

section \<open>Handlers for flow rules\<close>

text \<open>What follows a change of a rule: its file, \<open>version.txt\<close> and the signal; errors are logged.\<close>

definition after_write :: "rule_ext \<Rightarrow> 's rule_io \<Rightarrow> ('s, string option) io \<Rightarrow> ('s, unit) io" where
  "after_write X S write = do {
     write;
     GenerateVersionFile X S;
     SendReloadSignalToEngine S;
     ret ()
   }"

definition AddAlertRule ::
  "go_ext \<Rightarrow> rule_ext \<Rightarrow> 's rule_io \<Rightarrow> AlertRuleReq \<Rightarrow> ('s, string rule_reply) io" where
  "AddAlertRule E X S q = do {
     known \<leftarrow> (if aq_ID q \<noteq> []
       then do { r \<leftarrow> ru_findAlert S (aq_ID q); ret (case r of Inr _ \<Rightarrow> True | Inl _ \<Rightarrow> False) }
       else ret False);
     if known then ret (Refused AlreadyExists ''Threat.AlertRule.IDAlreadyExists'')
     else do {
       (rule, err) \<leftarrow> server_AddAlertRule S (alert_of_request E q);
       case err of
         Some _ \<Rightarrow> ret (Refused RuleInternal ''Threat.AlertRule.AddFailed'')
       | None \<Rightarrow> do {
           after_write X S (WriteAlertRuleToFile X S rule);
           ret (Reply (ar_ID rule))
         }
     }
   }"

definition UpdateAlertRule ::
  "go_ext \<Rightarrow> rule_ext \<Rightarrow> 's rule_io \<Rightarrow> AlertRuleReq \<Rightarrow> ('s, unit rule_reply) io" where
  "UpdateAlertRule E X S q = do {
     err \<leftarrow> server_UpdateAlertRule S (aq_ID q) (alert_updates E q);
     case err of
       Some _ \<Rightarrow> ret (Refused RuleInternal ''Threat.AlertRule.UpdateFailed'')
     | None \<Rightarrow> do {
         r \<leftarrow> ru_findAlert S (aq_ID q);
         (case r of
            Inl _ \<Rightarrow> ret ()
          | Inr updatedRule \<Rightarrow> after_write X S (WriteAlertRuleToFile X S updatedRule));
         ret (Reply ())
       }
   }"

definition DeleteAlertRule :: "'s rule_io \<Rightarrow> string \<Rightarrow> ('s, unit rule_reply) io" where
  "DeleteAlertRule S ident = do {
     err \<leftarrow> ru_removeAlert S ident;
     case err of
       Some _ \<Rightarrow> ret (Refused RuleInternal ''Threat.AlertRule.DeleteFailed'')
     | None \<Rightarrow> do {
         DeleteAlertRuleFile S ident;
         SendReloadSignalToEngine S;
         ret (Reply ())
       }
   }"

section \<open>Handlers for sigma rules\<close>

definition AddActivityRule ::
  "go_ext \<Rightarrow> rule_ext \<Rightarrow> 's rule_io \<Rightarrow> ActivityRuleReq \<Rightarrow> ('s, string rule_reply) io" where
  "AddActivityRule E X S q =
     (case rx_yaml_detection X (vq_Detection q) of
        Inl _ \<Rightarrow> ret (Refused BadArgument ''Threat.ActivityRule.InvalidDetectionFormat'')
      | Inr detection \<Rightarrow> do {
          (rule, err) \<leftarrow> server_AddActivityRule S (activity_of_request E detection q);
          case err of
            Some _ \<Rightarrow> ret (Refused RuleInternal ''Threat.ActivityRule.AddFailed'')
          | None \<Rightarrow> do {
              after_write X S (WriteActivityRuleToFile X S rule);
              ret (Reply (vr_ID rule))
            }
        })"

definition UpdateActivityRule ::
  "go_ext \<Rightarrow> rule_ext \<Rightarrow> 's rule_io \<Rightarrow> ActivityRuleReq \<Rightarrow> ('s, unit rule_reply) io" where
  "UpdateActivityRule E X S q =
     (case (if vq_Detection q = [] then Inr None
            else case rx_yaml_detection X (vq_Detection q) of Inl e \<Rightarrow> Inl e | Inr d \<Rightarrow> Inr (Some d)) of
        Inl _ \<Rightarrow> ret (Refused BadArgument ''Threat.ActivityRule.InvalidDetectionFormat'')
      | Inr detection \<Rightarrow> do {
          err \<leftarrow> server_UpdateActivityRule S (vq_ID q) (activity_updates E detection q);
          case err of
            Some _ \<Rightarrow> ret (Refused RuleInternal ''Threat.ActivityRule.UpdateFailed'')
          | None \<Rightarrow> do {
              r \<leftarrow> ru_findActivity S (vq_ID q);
              (case r of
                 Inl _ \<Rightarrow> ret ()
               | Inr updatedRule \<Rightarrow> after_write X S (WriteActivityRuleToFile X S updatedRule));
              ret (Reply ())
            }
        })"

definition DeleteActivityRule :: "'s rule_io \<Rightarrow> string \<Rightarrow> ('s, unit rule_reply) io" where
  "DeleteActivityRule S ident = do {
     r \<leftarrow> ru_countUses S ident;
     case r of
       Inl _ \<Rightarrow> ret (Refused RuleInternal ''InternalError'')
     | Inr count \<Rightarrow>
         if 0 < count then ret (Refused FailedPrecondition ''Threat.ActivityRule.ReferencedByAlertRules'')
         else do {
           err \<leftarrow> ru_removeActivity S ident;
           case err of
             Some _ \<Rightarrow> ret (Refused RuleInternal ''Threat.ActivityRule.DeleteFailed'')
           | None \<Rightarrow> do {
               DeleteActivityRuleFile S ident;
               SendReloadSignalToEngine S;
               ret (Reply ())
             }
         }
   }"

end
