(* ===== verification/Tasker_RuleSync.thy ===== *)
theory Tasker_RuleSync
  imports Rule_Files
begin

text \<open>
  The synchronisation of rules with a remote server (\<open>src/backend/tasker/worker/rule_sync.go\<close>): look for a
  newer version, download and check the package, unpack it, bring the database up to date, write all rules
  to disk, tell the engine, and upload the rules that exist here only or were changed here. An error is the
  text the code returns; where the code only logs one, the model goes on as the code does.
\<close>

section \<open>Requests\<close>

definition rulePeerUploadEnabled :: "go_ext \<Rightarrow> 's rule_io \<Rightarrow> ('s, bool) io" where
  "rulePeerUploadEnabled E S = do {
     v \<leftarrow> ru_getenv S ''ADA_RULE_PEER_UPLOAD'';
     let v = to_lower E (trim_space v);
     ret (if v \<in> {'''', ''1'', ''true'', ''yes'', ''on''} then True
          else if v \<in> {''0'', ''false'', ''no'', ''off'', ''disable'', ''disabled''} then False
          else True)
   }"

text \<open>The body is read up to 2048 bytes; an error behind that is not seen.\<close>

definition httpStatusError :: "string \<Rightarrow> string \<Rightarrow> http_response \<Rightarrow> string" where
  "httpStatusError action requestURL resp =
     (let (body, err) = hr_body resp;
          front = action @ '' request('' @ requestURL @ '') failed with status '' @ itoa (hr_status resp) in
      case (if length body < 2048 then err else None) of
        Some e \<Rightarrow> front @ '' and unreadable body: '' @ e
      | None \<Rightarrow>
          let msg = trim_space (take 2048 body) in
          if msg = [] then front else front @ '': '' @ msg)"

text \<open>The client with or without the proxy; the time limit is in seconds.\<close>

definition http_call ::
  "'s rule_io \<Rightarrow> string \<Rightarrow> string \<Rightarrow> bool \<Rightarrow> string \<Rightarrow> int \<Rightarrow> string \<Rightarrow> ('s, string + http_response) io" where
  "http_call S meth requestURL upgradeProxy httpProxy timeout body =
     ru_http S \<lparr>hq_method = meth, hq_url = requestURL,
       hq_proxy = (if upgradeProxy \<and> httpProxy \<noteq> [] then Some httpProxy else None),
       hq_timeout = timeout, hq_body = body\<rparr>"

text \<open>The result is the version to install, the empty string for none.\<close>

definition checkLatestVersion ::
  "rule_ext \<Rightarrow> 's rule_io \<Rightarrow> string \<Rightarrow> string \<Rightarrow> string \<Rightarrow> bool \<Rightarrow> string \<Rightarrow> ('s, string + string) io" where
  "checkLatestVersion X S upgradeSrv destPath currentVersionPath upgradeProxy httpProxy = do {
     let requestURL = trim_suffix upgradeSrv ''/'' @ ''/rule/version/latest.json'';
     case rx_request_error X requestURL of
       Some e \<Rightarrow> ret (Inl e)
     | None \<Rightarrow> do {
         r \<leftarrow> http_call S ''GET'' requestURL upgradeProxy httpProxy 10 [];
         case r of
           Inl e \<Rightarrow> ret (Inl e)
         | Inr resp \<Rightarrow>
             if hr_status resp \<noteq> 200 then ret (Inl (httpStatusError ''check rule version'' requestURL resp))
             else
               (case hr_body resp of
                  (_, Some e) \<Rightarrow> ret (Inl (''failed to read response body: '' @ e))
                | (body, None) \<Rightarrow>
                    (case rx_json_version X body of
                       Inl e \<Rightarrow> ret (Inl (''failed to parse version info: '' @ e))
                     | Inr remoteVersion \<Rightarrow> do {
                         d \<leftarrow> ru_readFile S currentVersionPath;
                         case d of
                           Inl (FileErr e) \<Rightarrow> ret (Inl (''failed to read local version: '' @ e))
                         | _ \<Rightarrow>
                             if (case d of Inr data \<Rightarrow> str_less (trim_space data) (vi_Version remoteVersion) | Inl _ \<Rightarrow> True)
                             then do {
                               err \<leftarrow> ru_writeFile S destPath body;
                               ret (case err of
                                      Some e \<Rightarrow> Inl (''failed to write latest.json: '' @ e)
                                    | None \<Rightarrow> Inr (vi_Version remoteVersion))
                             }
                             else ret (Inr [])
                       }))
       }
   }"

text \<open>Writing what can be read of a stream, as \<open>io.Copy\<close> does.\<close>

definition copy_stream :: "'s rule_io \<Rightarrow> string \<Rightarrow> string \<times> string option \<Rightarrow> ('s, string option) io" where
  "copy_stream S path stream = do {
     err \<leftarrow> ru_append S path (fst stream);
     ret (case err of Some e \<Rightarrow> Some e | None \<Rightarrow> snd stream)
   }"

definition downloadLatestZIP ::
  "rule_ext \<Rightarrow> 's rule_io \<Rightarrow> string \<Rightarrow> string \<Rightarrow> bool \<Rightarrow> string \<Rightarrow> ('s, string option) io" where
  "downloadLatestZIP X S upgradeSrv destPath upgradeProxy httpProxy =
     (case rx_package_url X (trim_suffix upgradeSrv ''/'' @ ''/rule/package/latest.zip'') of
        Inl e \<Rightarrow> ret (Some (''failed to parse URL: '' @ e))
      | Inr u \<Rightarrow>
          (case rx_request_error X u of
             Some e \<Rightarrow> ret (Some (''failed to create download request: '' @ e))
           | None \<Rightarrow> do {
               r \<leftarrow> http_call S ''GET'' u upgradeProxy httpProxy 60 [];
               case r of
                 Inl e \<Rightarrow> ret (Some (''failed to download latest.zip: '' @ e))
               | Inr resp \<Rightarrow>
                   if hr_status resp \<noteq> 200 then ret (Some (httpStatusError ''download latest.zip'' u resp))
                   else do {
                     err \<leftarrow> ru_openTrunc S destPath;
                     case err of
                       Some e \<Rightarrow> ret (Some (''failed to create latest.zip: '' @ e))
                     | None \<Rightarrow> do {
                         err \<leftarrow> copy_stream S destPath (hr_body resp);
                         ret (case err of Some e \<Rightarrow> Some (''failed to write latest.zip: '' @ e) | None \<Rightarrow> None)
                       }
                   }
             }))"

section \<open>Unpacking\<close>

text \<open>The body of the loop over the entries of the package; \<open>extractDir\<close> is empty until the first entry.\<close>

definition top_dir :: "string \<Rightarrow> string \<Rightarrow> string \<Rightarrow> string" where
  "top_dir rulesPath extractDir name =
     (if extractDir = [] then path_join [rulesPath, hd (split name ''/'')] else extractDir)"

definition path_dir :: "string \<Rightarrow> string" where
  "path_dir path = path_clean (rev (dropWhile (\<lambda>c. c \<noteq> CHR ''/'') (rev path)))"

definition extract_file :: "'s rule_io \<Rightarrow> string \<Rightarrow> zip_file \<Rightarrow> ('s, string option) io" where
  "extract_file S fpath f =
     (if zf_IsDir f then do { ru_mkdirAll S fpath; ret None }
      else do {
        err \<leftarrow> ru_mkdirAll S (path_dir fpath);
        case err of
          Some e \<Rightarrow> ret (Some e)
        | None \<Rightarrow> do {
            err \<leftarrow> ru_openTrunc S fpath;
            case err of
              Some e \<Rightarrow> ret (Some e)
            | None \<Rightarrow>
                (case zf_Data f of
                   Inl e \<Rightarrow> ret (Some e)
                 | Inr stream \<Rightarrow> copy_stream S fpath stream)
          }
      })"

fun extract_loop :: "'s rule_io \<Rightarrow> string \<Rightarrow> string \<Rightarrow> zip_file list \<Rightarrow> ('s, string + string) io" where
  "extract_loop S rulesPath extractDir [] = ret (Inr extractDir)"
| "extract_loop S rulesPath extractDir (f # fs) =
     (let extractDir = top_dir rulesPath extractDir (zf_Name f);
          fpath = path_join [rulesPath, zf_Name f] in
      if \<not> has_prefix fpath (path_clean rulesPath @ ''/'') then ret (Inl (''illegal file path: '' @ fpath))
      else do {
        err \<leftarrow> extract_file S fpath f;
        case err of Some e \<Rightarrow> ret (Inl e) | None \<Rightarrow> extract_loop S rulesPath extractDir fs
      })"

fun check_paths :: "'s rule_io \<Rightarrow> string list \<Rightarrow> ('s, string option) io" where
  "check_paths S [] = ret None"
| "check_paths S (p # ps) = do {
     err \<leftarrow> ru_stat S p;
     if err = Some NotExist then ret (Some (''required path not found: '' @ p)) else check_paths S ps
   }"

definition required_paths :: "string \<Rightarrow> string list" where
  "required_paths extractDir = map (\<lambda>n. path_join [extractDir, n]) [''desc.json'', ''flow'', ''pktlog'', ''winlog'']"

definition extractAndValidateZIP :: "'s rule_io \<Rightarrow> string \<Rightarrow> string \<Rightarrow> ('s, string + string) io" where
  "extractAndValidateZIP S zipPath rulesPath = do {
     z \<leftarrow> ru_zipOpen S zipPath;
     case z of
       Inl e \<Rightarrow> ret (Inl (''failed to open ZIP: '' @ e))
     | Inr files \<Rightarrow> do {
         r \<leftarrow> extract_loop S rulesPath [] files;
         case r of
           Inl e \<Rightarrow> ret (Inl e)
         | Inr extractDir \<Rightarrow>
             if extractDir = [] then ret (Inl ''no top-level directory found in ZIP'')
             else do {
               err \<leftarrow> check_paths S (required_paths extractDir);
               ret (case err of Some e \<Rightarrow> Inl e | None \<Rightarrow> Inr extractDir)
             }
       }
   }"

section \<open>Bringing the database up to date\<close>

definition rule_date_layouts :: "string list" where
  "rule_date_layouts =
     [''2006/01/02'', ''2006-01-02'', ''2006/01/02 15:04:05'', ''2006-01-02 15:04:05'', ''2006-01-02T15:04:05Z07:00'']"

fun first_date :: "rule_ext \<Rightarrow> string \<Rightarrow> string list \<Rightarrow> int option" where
  "first_date X dateStr [] = None"
| "first_date X dateStr (l # ls) =
     (case rx_time_parse X l dateStr of Some t \<Rightarrow> Some t | None \<Rightarrow> first_date X dateStr ls)"

definition parseRuleDate :: "rule_ext \<Rightarrow> 's rule_io \<Rightarrow> string \<Rightarrow> ('s, int) io" where
  "parseRuleDate X S dateStr =
     (if dateStr = [] then ru_now S
      else case first_date X dateStr rule_date_layouts of Some t \<Rightarrow> ret t | None \<Rightarrow> ru_now S)"

definition remoteRuleUpdateTime :: "RuleMetadata \<Rightarrow> int \<Rightarrow> int" where
  "remoteRuleUpdateTime meta fallback =
     (if 0 < rm_UpdateTm meta then rm_UpdateTm meta * 1000000000 else fallback)"

definition find_by_glob :: "'s rule_io \<Rightarrow> RuleMetadata \<Rightarrow> string \<Rightarrow> ('s, string + string) io" where
  "find_by_glob S meta rulesDir = do {
     r \<leftarrow> ru_glob S (path_join [rulesDir, ''*-'' @ rm_ID meta @ ''.yml'']);
     ret (case r of
            Inl e \<Rightarrow> Inl e
          | Inr [] \<Rightarrow> Inl (''no rule file found for ID: '' @ rm_ID meta)
          | Inr (f # _) \<Rightarrow> Inr f)
   }"

definition findRuleFile :: "'s rule_io \<Rightarrow> RuleMetadata \<Rightarrow> string \<Rightarrow> ('s, string + string) io" where
  "findRuleFile S meta rulesDir =
     (if rm_Filename meta \<noteq> [] then do {
        let filePath = path_join [rulesDir, rm_Filename meta];
        err \<leftarrow> ru_stat S filePath;
        if err = None then ret (Inr filePath) else find_by_glob S meta rulesDir
      }
      else find_by_glob S meta rulesDir)"

text \<open>What an update from the server sets; \<open>create_tm\<close> and \<open>rule_origin\<close> stay.\<close>

definition alert_sync_update :: "AlertRule \<Rightarrow> int \<Rightarrow> alert_update" where
  "alert_sync_update rule updateTm =
     \<lparr>au_title = Some (ar_Title rule), au_description = Some (ar_Description rule),
      au_enable = Some (ar_Enable rule), au_auto_block = Some (ar_AutoBlock rule),
      au_level = Some (ar_Level rule), au_status = Some (ar_Status rule), au_tags = Some (ar_Tags rule),
      au_logsource = Some (ar_Logsource rule), au_detection = Some (ar_Detection rule),
      au_type = Some (ar_Type rule), au_rule_origin = None, au_references = Some (ar_References rule),
      au_suggestion = Some (ar_Suggestion rule), au_author = Some (ar_Author rule),
      au_attack_flow = Some (ar_AttackFlow rule), au_unique_filter = Some (ar_UniqueFilter rule),
      au_update_tm = Some updateTm\<rparr>"

definition activity_sync_update :: "AlertActivityRule \<Rightarrow> int \<Rightarrow> activity_update" where
  "activity_sync_update rule updateTm =
     \<lparr>vu_title = Some (vr_Title rule), vu_description = Some (vr_Description rule), vu_level = Some (vr_Level rule),
      vu_status = Some (vr_Status rule), vu_tags = Some (vr_Tags rule), vu_logsource = Some (vr_Logsource rule),
      vu_rule_origin = None, vu_references = Some (vr_References rule), vu_detection = Some (vr_Detection rule),
      vu_rdx_key = Some (vr_RdxKey rule), vu_fields = Some (vr_Fields rule),
      vu_unique_fields = Some (vr_UniqueFields rule), vu_author = Some (vr_Author rule),
      vu_update_tm = Some updateTm\<rparr>"

text \<open>Finding and reading the file of a rule.\<close>

definition file_error_text :: "file_error \<Rightarrow> string" where
  "file_error_text e = (case e of NotExist \<Rightarrow> ''file does not exist'' | FileErr m \<Rightarrow> m)"

definition read_rule :: "'s rule_io \<Rightarrow> RuleMetadata \<Rightarrow> string \<Rightarrow> ('s, string + string) io" where
  "read_rule S meta rulesDir = do {
     f \<leftarrow> findRuleFile S meta rulesDir;
     case f of
       Inl e \<Rightarrow> ret (Inl (''failed to find rule file: '' @ e))
     | Inr ruleFile \<Rightarrow> do {
         d \<leftarrow> ru_readFile S ruleFile;
         ret (case d of Inl e \<Rightarrow> Inl (''failed to read rule file: '' @ file_error_text e) | Inr data \<Rightarrow> Inr data)
       }
   }"

definition updateActivityRule ::
  "rule_ext \<Rightarrow> 's rule_io \<Rightarrow> RuleMetadata \<Rightarrow> string \<Rightarrow> ('s, string option) io" where
  "updateActivityRule X S meta rulesDir = do {
     d \<leftarrow> read_rule S meta rulesDir;
     case d of
       Inl e \<Rightarrow> ret (Some e)
     | Inr data \<Rightarrow>
         (case rx_yaml_activity X data of
            Inl e \<Rightarrow> ret (Some (''failed to parse YAML rule: '' @ e))
          | Inr rule \<Rightarrow> do {
              createTm \<leftarrow> parseRuleDate X S (vr_RuleDate rule);
              modified \<leftarrow> parseRuleDate X S (vr_RuleModified rule);
              let updateTm = remoteRuleUpdateTime meta modified;
              existing \<leftarrow> ru_findActivity S (vr_ID rule);
              case existing of
                Inr _ \<Rightarrow> do {
                  err \<leftarrow> ru_updateActivity S (vr_ID rule) (activity_sync_update rule updateTm);
                  ret (case err of Some e \<Rightarrow> Some (''failed to update rule: '' @ e) | None \<Rightarrow> None)
                }
              | Inl _ \<Rightarrow> do {
                  err \<leftarrow> ru_insertActivity S (rule\<lparr>vr_CreateTm := createTm, vr_UpdateTm := updateTm\<rparr>);
                  ret (case err of Some e \<Rightarrow> Some (''failed to insert rule: '' @ e) | None \<Rightarrow> None)
                }
            })
   }"

definition updateFlowRule ::
  "rule_ext \<Rightarrow> 's rule_io \<Rightarrow> RuleMetadata \<Rightarrow> string \<Rightarrow> ('s, string option) io" where
  "updateFlowRule X S meta rulesDir = do {
     d \<leftarrow> read_rule S meta rulesDir;
     case d of
       Inl e \<Rightarrow> ret (Some e)
     | Inr data \<Rightarrow>
         (case rx_yaml_alert X data of
            Inl e \<Rightarrow> ret (Some (''failed to parse YAML rule: '' @ e))
          | Inr rule \<Rightarrow> do {
              createTm \<leftarrow> parseRuleDate X S (ar_RuleDate rule);
              modified \<leftarrow> parseRuleDate X S (ar_RuleModified rule);
              let updateTm = remoteRuleUpdateTime meta modified;
              existing \<leftarrow> ru_findAlert S (ar_ID rule);
              case existing of
                Inr _ \<Rightarrow> do {
                  err \<leftarrow> ru_updateAlert S (ar_ID rule) (alert_sync_update rule updateTm);
                  ret (case err of Some e \<Rightarrow> Some (''failed to update flow rule: '' @ e) | None \<Rightarrow> None)
                }
              | Inl _ \<Rightarrow> do {
                  err \<leftarrow> ru_insertAlert S
                    (rule\<lparr>ar_Enable := True, ar_CreateTm := createTm, ar_UpdateTm := updateTm\<rparr>);
                  ret (case err of Some e \<Rightarrow> Some (''failed to insert flow rule: '' @ e) | None \<Rightarrow> None)
                }
            })
   }"

definition updateRulesFromDescriptor ::
  "rule_ext \<Rightarrow> 's rule_io \<Rightarrow> string \<Rightarrow> string \<Rightarrow> ('s, string option) io" where
  "updateRulesFromDescriptor X S descPath extractDir = do {
     d \<leftarrow> ru_readFile S descPath;
     case d of
       Inl e \<Rightarrow> ret (Some (''failed to read desc.json: '' @ file_error_text e))
     | Inr data \<Rightarrow>
         (case rx_json_desc X data of
            Inl e \<Rightarrow> ret (Some (''failed to parse desc.json: '' @ e))
          | Inr desc \<Rightarrow> do {
              foreach (\<lambda>meta. do { updateActivityRule X S meta (path_join [extractDir, ''pktlog'']); ret () }) (rd_PktLog desc);
              foreach (\<lambda>meta. do { updateActivityRule X S meta (path_join [extractDir, ''winlog'']); ret () }) (rd_WinLog desc);
              foreach (\<lambda>meta. do { updateFlowRule X S meta (path_join [extractDir, ''flow'']); ret () }) (rd_Flow desc);
              ret None
            })
   }"

section \<open>Writing all rules to disk\<close>

definition writeAlertRuleToFile :: "rule_ext \<Rightarrow> 's rule_io \<Rightarrow> AlertRule \<Rightarrow> ('s, string option) io" where
  "writeAlertRuleToFile X S rule = write_rule X S (rule_dir RuleTypeFlow) (ar_ID rule) (alert_yaml rule)"

definition writeActivityRuleToFile :: "rule_ext \<Rightarrow> 's rule_io \<Rightarrow> AlertActivityRule \<Rightarrow> ('s, string option) io" where
  "writeActivityRuleToFile X S rule =
     (case activity_dir (vr_ID rule) of
        None \<Rightarrow> ret (Some (bad_activity_id (vr_ID rule)))
      | Some ruleDir \<Rightarrow> write_rule X S ruleDir (vr_ID rule) (activity_yaml rule))"

definition is_rule_file :: "string \<times> bool \<Rightarrow> bool" where
  "is_rule_file e = (\<not> snd e \<and> (has_suffix (fst e) ''.yaml'' \<or> has_suffix (fst e) ''.yml''))"

definition cleanupRuleDirectory :: "'s rule_io \<Rightarrow> string \<Rightarrow> ('s, string option) io" where
  "cleanupRuleDirectory S ruleDir = do {
     err \<leftarrow> ru_stat S ruleDir;
     if err = Some NotExist then ret None
     else do {
       r \<leftarrow> ru_readDir S ruleDir;
       case r of
         Inl e \<Rightarrow> ret (Some (''failed to read directory: '' @ e))
       | Inr found \<Rightarrow> do {
           foreach (\<lambda>e. do { ru_remove S (path_join [ruleDir, fst e]); ret () }) (filter is_rule_file found);
           ret None
         }
     }
   }"

definition writeAllRulesToDisk :: "rule_ext \<Rightarrow> 's rule_io \<Rightarrow> ('s, string option) io" where
  "writeAllRulesToDisk X S = do {
     foreach (\<lambda>ruleType. do { cleanupRuleDirectory S (rule_dir ruleType); ret () })
       [RuleTypeFlow, RuleTypeWinLog, RuleTypePktLog];
     a \<leftarrow> ru_allAlerts S;
     case a of
       Inl e \<Rightarrow> ret (Some (''failed to query alert rules: '' @ e))
     | Inr alertRules \<Rightarrow> do {
         foreach (\<lambda>rule. do { writeAlertRuleToFile X S rule; ret () }) alertRules;
         v \<leftarrow> ru_allActivities S;
         case v of
           Inl e \<Rightarrow> ret (Some (''failed to query activity rules: '' @ e))
         | Inr activityRules \<Rightarrow> do {
             foreach (\<lambda>rule. do { writeActivityRuleToFile X S rule; ret () }) activityRules;
             ret None
           }
       }
   }"

definition generateVersionFile :: "rule_ext \<Rightarrow> 's rule_io \<Rightarrow> ('s, string option) io" where
  "generateVersionFile X S = version_file X S ''2006-01-02 15:04:05''"

definition sendReloadSignalToEngine :: "'s rule_io \<Rightarrow> ('s, string option) io" where
  "sendReloadSignalToEngine S = do {
     now \<leftarrow> ru_now S;
     ru_publish S ReloadChannel (''reload:'' @ itoa (time_unix now))
   }"

section \<open>Upgrade\<close>

definition calculateFileMD5 :: "go_ext \<Rightarrow> 's rule_io \<Rightarrow> string \<Rightarrow> ('s, string + string) io" where
  "calculateFileMD5 E S filePath = do {
     d \<leftarrow> ru_readFile S filePath;
     ret (case d of Inl e \<Rightarrow> Inl (file_error_text e) | Inr data \<Rightarrow> Inr (x_md5_hex E data))
   }"

text \<open>The steps after the check of the package; only unpacking and the update of the database can fail.\<close>

definition install_package ::
  "rule_ext \<Rightarrow> 's rule_io \<Rightarrow> RuleVersionInfo \<Rightarrow> string \<Rightarrow> string \<Rightarrow> ('s, string + string \<times> string) io" where
  "install_package X S versionInfo zipPath rulesPath = do {
     x \<leftarrow> extractAndValidateZIP S zipPath rulesPath;
     case x of
       Inl e \<Rightarrow> ret (Inl (''failed to extract ZIP: '' @ e))
     | Inr extractDir \<Rightarrow> do {
         let descPath = path_join [extractDir, ''desc.json''];
         err \<leftarrow> updateRulesFromDescriptor X S descPath extractDir;
         case err of
           Some e \<Rightarrow> ret (Inl (''failed to update rules: '' @ e))
         | None \<Rightarrow> do {
             ru_writeFile S (path_join [rulesPath, ''current_version.txt'']) (vi_Version versionInfo);
             writeAllRulesToDisk X S;
             generateVersionFile X S;
             sendReloadSignalToEngine S;
             ret (Inr (descPath, extractDir))
           }
       }
   }"

definition executeRuleUpgradeWithPaths ::
  "go_ext \<Rightarrow> rule_ext \<Rightarrow> 's rule_io \<Rightarrow> string \<Rightarrow> string \<Rightarrow> string \<Rightarrow> ('s, string + string \<times> string) io" where
  "executeRuleUpgradeWithPaths E X S jsonPath zipPath rulesPath = do {
     d \<leftarrow> ru_readFile S jsonPath;
     case d of
       Inl e \<Rightarrow> ret (Inl (''failed to read version file: '' @ file_error_text e))
     | Inr data \<Rightarrow>
         (case rx_json_version X data of
            Inl e \<Rightarrow> ret (Inl (''failed to parse version info: '' @ e))
          | Inr versionInfo \<Rightarrow> do {
              m \<leftarrow> calculateFileMD5 E S zipPath;
              case m of
                Inl e \<Rightarrow> ret (Inl (''failed to calculate ZIP MD5: '' @ e))
              | Inr zipMD5 \<Rightarrow>
                  if zipMD5 \<noteq> vi_MD5 versionInfo
                  then ret (Inl (''MD5 mismatch: expected '' @ vi_MD5 versionInfo @ '', got '' @ zipMD5))
                  else install_package X S versionInfo zipPath rulesPath
            })
   }"

section \<open>Upload of local rules\<close>

definition RiskLeveStrlMap :: "(int \<times> string) list" where
  "RiskLeveStrlMap = [(5, ''critical''), (4, ''high''), (3, ''medium''), (2, ''low''), (1, ''info'')]"

definition riskLevelToString :: "int \<Rightarrow> string" where
  "riskLevelToString level =
     (case map_get RiskLeveStrlMap level of Some val \<Rightarrow> val
      | None \<Rightarrow> (case map_get RiskLeveStrlMap 1 of Some val \<Rightarrow> val | None \<Rightarrow> []))"

definition calculateStringMD5 :: "go_ext \<Rightarrow> string \<Rightarrow> string" where
  "calculateStringMD5 E s = x_md5_hex E s"

definition shouldUploadRuleUpdate :: "int \<Rightarrow> RuleMetadata \<Rightarrow> string \<Rightarrow> bool" where
  "shouldUploadRuleUpdate localUpdateTm remoteMeta localDetectionMD5 =
     (if 0 < rm_UpdateTm remoteMeta \<and> (localUpdateTm = zero_time \<or> time_unix localUpdateTm \<le> rm_UpdateTm remoteMeta)
      then False
      else if rm_DetectionMD5 remoteMeta = localDetectionMD5 then False
      else True)"

text \<open>The action for a rule, empty for none.\<close>

definition upload_action :: "(string \<times> RuleMetadata) list \<Rightarrow> string \<Rightarrow> int \<Rightarrow> string \<Rightarrow> string" where
  "upload_action remoteRules ident updateTm detectionMD5 =
     (case map_get remoteRules ident of
        None \<Rightarrow> ''new''
      | Some remoteMeta \<Rightarrow> if shouldUploadRuleUpdate updateTm remoteMeta detectionMD5 then ''update'' else [])"

text \<open>The entry for one rule: its identifier, its time, the two encodings and the remote rules.\<close>

definition upload_info ::
  "go_ext \<Rightarrow> (string \<times> RuleMetadata) list \<Rightarrow> string \<Rightarrow> int \<Rightarrow> string + string \<Rightarrow> string + string \<Rightarrow> RuleUploadInfo option" where
  "upload_info E remoteRules ident updateTm detectionJson ruleJson =
     (case detectionJson of
        Inl _ \<Rightarrow> None
      | Inr detectionBytes \<Rightarrow>
          (case ruleJson of
             Inl _ \<Rightarrow> None
           | Inr ruleBytes \<Rightarrow>
               let detectionMD5 = calculateStringMD5 E detectionBytes;
                   action = upload_action remoteRules ident updateTm detectionMD5 in
               if action = [] then None
               else Some \<lparr>ui_ID = ident, ui_UpdateTm = time_unix updateTm, ui_MD5 = calculateStringMD5 E ruleBytes,
                 ui_DetectionMD5 = detectionMD5, ui_Action = action\<rparr>))"

definition alert_upload_info :: "go_ext \<Rightarrow> rule_ext \<Rightarrow> (string \<times> RuleMetadata) list \<Rightarrow> AlertRule \<Rightarrow> RuleUploadInfo option" where
  "alert_upload_info E X remoteRules rule =
     upload_info E remoteRules (ar_ID rule) (ar_UpdateTm rule) (rx_detection_json X (ar_Detection rule)) (rx_alert_json X rule)"

definition activity_upload_info ::
  "go_ext \<Rightarrow> rule_ext \<Rightarrow> (string \<times> RuleMetadata) list \<Rightarrow> AlertActivityRule \<Rightarrow> RuleUploadInfo option" where
  "activity_upload_info E X remoteRules rule =
     upload_info E remoteRules (vr_ID rule) (vr_UpdateTm rule)
       (rx_activity_detection_json X (vr_Detection rule)) (rx_activity_json X rule)"

definition collectFlowRulesToUpload ::
  "go_ext \<Rightarrow> rule_ext \<Rightarrow> 's rule_io \<Rightarrow> (string \<times> RuleMetadata) list \<Rightarrow> ('s, string + RuleUploadInfo list) io" where
  "collectFlowRulesToUpload E X S remoteRules = do {
     r \<leftarrow> ru_allAlerts S;
     ret (case r of
            Inl e \<Rightarrow> Inl (''failed to query flow rules: '' @ e)
          | Inr flowRules \<Rightarrow> Inr (List.map_filter (alert_upload_info E X remoteRules) flowRules))
   }"

definition is_winlog_source :: "AlertActivityRule \<Rightarrow> bool" where
  "is_winlog_source rule = (contains (vr_Logsource rule) ''winlog'' \<or> contains (vr_Logsource rule) ''windows'')"

definition collectActivityRulesToUpload ::
  "go_ext \<Rightarrow> rule_ext \<Rightarrow> 's rule_io \<Rightarrow> (string \<times> RuleMetadata) list
     \<Rightarrow> ('s, string + RuleUploadInfo list \<times> RuleUploadInfo list) io" where
  "collectActivityRulesToUpload E X S remoteRules = do {
     r \<leftarrow> ru_allActivities S;
     ret (case r of
            Inl e \<Rightarrow> Inl (''failed to query activity rules: '' @ e)
          | Inr rules \<Rightarrow> Inr
              (List.map_filter (activity_upload_info E X remoteRules) (filter is_winlog_source rules),
               List.map_filter (activity_upload_info E X remoteRules) (filter (\<lambda>r. \<not> is_winlog_source r) rules)))
   }"

text \<open>The later lists of the descriptor win when an identifier occurs twice.\<close>

definition remote_rules :: "RuleDescriptor \<Rightarrow> (string \<times> RuleMetadata) list" where
  "remote_rules desc =
     fold (\<lambda>meta m. map_put m (rm_ID meta) meta) (rd_Flow desc @ rd_PktLog desc @ rd_WinLog desc) []"

text \<open>\<open>exportFlowRuleToYAML\<close> and \<open>exportActivityRuleToYAML\<close>.\<close>

definition export_doc :: "rule_ext \<Rightarrow> 's rule_io \<Rightarrow> string \<Rightarrow> string \<Rightarrow> (string \<times> gval) list \<Rightarrow> ('s, string option) io" where
  "export_doc X S outputDir ident doc =
     (case rx_yaml X doc of
        Inl e \<Rightarrow> ret (Some (''failed to marshal YAML: '' @ e))
      | Inr yamlData \<Rightarrow> ru_writeFile S (rule_file outputDir ident) yamlData)"

definition exportFlowRuleToYAML :: "rule_ext \<Rightarrow> 's rule_io \<Rightarrow> string \<Rightarrow> string \<Rightarrow> ('s, string option) io" where
  "exportFlowRuleToYAML X S ruleID outputDir = do {
     r \<leftarrow> ru_findAlert S ruleID;
     case r of
       Inl _ \<Rightarrow> ret (Some (''rule not found: '' @ ruleID))
     | Inr rule \<Rightarrow> export_doc X S outputDir (ar_ID rule) (alert_yaml rule)
   }"

definition exportActivityRuleToYAML :: "rule_ext \<Rightarrow> 's rule_io \<Rightarrow> string \<Rightarrow> string \<Rightarrow> ('s, string option) io" where
  "exportActivityRuleToYAML X S ruleID outputDir = do {
     r \<leftarrow> ru_findActivity S ruleID;
     case r of
       Inl _ \<Rightarrow> ret (Some (''rule not found: '' @ ruleID))
     | Inr rule \<Rightarrow> export_doc X S outputDir (vr_ID rule) (activity_yaml rule)
   }"

text \<open>\<open>filepath.Rel\<close> on Unix: what remains of the target behind the common elements, with one \<open>..\<close> for every
  element of the base that remains.\<close>

fun drop_common :: "string list \<Rightarrow> string list \<Rightarrow> string list \<times> string list" where
  "drop_common (a # as) (b # bs) = (if a = b then drop_common as bs else (a # as, b # bs))"
| "drop_common as bs = (as, bs)"

definition path_rel :: "string \<Rightarrow> string \<Rightarrow> string + string" where
  "path_rel base target =
     (let (up, down) = drop_common (clean_parts base) (clean_parts target) in
      if is_rooted base \<noteq> is_rooted target \<or> ''..'' \<in> set up
      then Inl (''Rel: can't make '' @ target @ '' relative to '' @ base)
      else let parts = map (\<lambda>_. ''..'') up @ down in
        Inr (if parts = [] then ''.'' else join parts ''/''))"

text \<open>The function \<open>filepath.Walk\<close> calls: one entry of the ZIP file per visited path.\<close>

definition zip_path ::
  "'s rule_io \<Rightarrow> string \<Rightarrow> string \<Rightarrow> string \<times> bool \<times> string option \<Rightarrow> ('s, string option) io" where
  "zip_path S zipPath tmpDir visited =
     (case visited of
        (_, _, Some e) \<Rightarrow> ret (Some e)
      | (path, isDir, None) \<Rightarrow>
          if isDir \<and> path = tmpDir then ret None
          else
            (case path_rel tmpDir path of
               Inl e \<Rightarrow> ret (Some e)
             | Inr relPath \<Rightarrow>
                 if isDir then ru_zipAdd S zipPath (relPath @ ''/'')
                 else do {
                   err \<leftarrow> ru_zipAdd S zipPath relPath;
                   case err of
                     Some e \<Rightarrow> ret (Some e)
                   | None \<Rightarrow> do {
                       d \<leftarrow> ru_readFile S path;
                       case d of
                         Inl e \<Rightarrow> ret (Some (file_error_text e))
                       | Inr data \<Rightarrow> ru_zipWrite S zipPath relPath data
                     }
                 }))"

fun walk_loop :: "('a \<Rightarrow> ('s, string option) io) \<Rightarrow> 'a list \<Rightarrow> ('s, string option) io" where
  "walk_loop f [] = ret None"
| "walk_loop f (x # xs) = do {
     err \<leftarrow> f x;
     case err of Some e \<Rightarrow> ret (Some e) | None \<Rightarrow> walk_loop f xs
   }"

definition pack_files :: "rule_ext \<Rightarrow> 's rule_io \<Rightarrow> RuleUploadDescriptor \<Rightarrow> string \<Rightarrow> string \<Rightarrow> ('s, string option) io" where
  "pack_files X S uploadDesc zipPath tmpDir =
     (case rx_upload_json X uploadDesc of
        Inl e \<Rightarrow> ret (Some (''failed to marshal descriptor: '' @ e))
      | Inr descData \<Rightarrow> do {
          err \<leftarrow> ru_writeFile S (path_join [tmpDir, ''desc.json'']) descData;
          case err of
            Some e \<Rightarrow> ret (Some (''failed to write desc.json: '' @ e))
          | None \<Rightarrow> do {
              err \<leftarrow> ru_openTrunc S zipPath;
              case err of
                Some e \<Rightarrow> ret (Some (''failed to create zip file: '' @ e))
              | None \<Rightarrow> do {
                  visited \<leftarrow> ru_walk S tmpDir;
                  walk_loop (zip_path S zipPath tmpDir) visited
                }
            }
        })"

definition createUploadPackage ::
  "rule_ext \<Rightarrow> 's rule_io \<Rightarrow> RuleUploadDescriptor \<Rightarrow> string \<Rightarrow> string \<Rightarrow> ('s, string option) io" where
  "createUploadPackage X S uploadDesc zipPath rulesPath = do {
     let tmpDir = path_join [rulesPath, ''upload_tmp_'' @ ud_Version uploadDesc];
     err \<leftarrow> ru_mkdirAll S tmpDir;
     case err of
       Some e \<Rightarrow> ret (Some (''failed to create temp directory: '' @ e))
     | None \<Rightarrow> do {
         let flowDir = path_join [tmpDir, ''flow''];
         let pktlogDir = path_join [tmpDir, ''pktlog''];
         let winlogDir = path_join [tmpDir, ''winlog''];
         ru_mkdirAll S flowDir;
         ru_mkdirAll S pktlogDir;
         ru_mkdirAll S winlogDir;
         foreach (\<lambda>i. do { exportFlowRuleToYAML X S (ui_ID i) flowDir; ret () }) (ud_Flow uploadDesc);
         foreach (\<lambda>i. do { exportActivityRuleToYAML X S (ui_ID i) pktlogDir; ret () }) (ud_PktLog uploadDesc);
         foreach (\<lambda>i. do { exportActivityRuleToYAML X S (ui_ID i) winlogDir; ret () }) (ud_WinLog uploadDesc);
         res \<leftarrow> pack_files X S uploadDesc zipPath tmpDir;
         ru_removeAll S tmpDir;
         ret res
       }
   }"

text \<open>The body of the request is the file, of the size \<open>Stat\<close> gives.\<close>

definition uploadPackageToRemote ::
  "rule_ext \<Rightarrow> 's rule_io \<Rightarrow> string \<Rightarrow> string \<Rightarrow> bool \<Rightarrow> string \<Rightarrow> ('s, string option) io" where
  "uploadPackageToRemote X S upgradeSrv zipPath upgradeProxy httpProxy = do {
     let requestURL = trim_suffix upgradeSrv ''/'' @ ''/rule/peer/upload'';
     d \<leftarrow> ru_readFile S zipPath;
     case d of
       Inl e \<Rightarrow> ret (Some (''failed to open zip file: '' @ file_error_text e))
     | Inr body \<Rightarrow>
         (case rx_request_error X requestURL of
            Some e \<Rightarrow> ret (Some (''failed to create request: '' @ e))
          | None \<Rightarrow> do {
              r \<leftarrow> http_call S ''POST'' requestURL upgradeProxy httpProxy 300 body;
              ret (case r of
                     Inl e \<Rightarrow> Some (''failed to upload: '' @ e)
                   | Inr resp \<Rightarrow>
                       if hr_status resp \<noteq> 200 \<and> hr_status resp \<noteq> 201
                       then Some (httpStatusError ''upload rules'' requestURL resp) else None)
            })
   }"

text \<open>The descriptor of an upload: a kind of rules whose query fails is left out.\<close>

definition upload_descriptor ::
  "go_ext \<Rightarrow> rule_ext \<Rightarrow> 's rule_io \<Rightarrow> RuleDescriptor \<Rightarrow> ('s, RuleUploadDescriptor) io" where
  "upload_descriptor E X S desc = do {
     let remoteRules = remote_rules desc;
     now \<leftarrow> ru_now S;
     f \<leftarrow> collectFlowRulesToUpload E X S remoteRules;
     v \<leftarrow> collectActivityRulesToUpload E X S remoteRules;
     let (winlog, pktlog) = (case v of Inr p \<Rightarrow> p | Inl _ \<Rightarrow> ([], []));
     ret \<lparr>ud_Version = itoa (time_unix now), ud_Flow = (case f of Inr l \<Rightarrow> l | Inl _ \<Rightarrow> []),
       ud_PktLog = pktlog, ud_WinLog = winlog, ud_ClientVersion = rx_build_version X, ud_ClientTrait = rx_trait X\<rparr>
   }"

definition send_upload ::
  "rule_ext \<Rightarrow> 's rule_io \<Rightarrow> RuleUploadDescriptor \<Rightarrow> string \<Rightarrow> string \<Rightarrow> bool \<Rightarrow> string \<Rightarrow> ('s, string option) io" where
  "send_upload X S uploadDesc upgradeSrv rulesPath upgradeProxy httpProxy =
     (if ud_Flow uploadDesc = [] \<and> ud_WinLog uploadDesc = [] \<and> ud_PktLog uploadDesc = [] then ret None
      else do {
        let uploadZipPath = path_join [rulesPath, ''upload_'' @ ud_Version uploadDesc @ ''.zip''];
        err \<leftarrow> createUploadPackage X S uploadDesc uploadZipPath rulesPath;
        case err of
          Some e \<Rightarrow> ret (Some (''failed to create upload package: '' @ e))
        | None \<Rightarrow> do {
            err \<leftarrow> uploadPackageToRemote X S upgradeSrv uploadZipPath upgradeProxy httpProxy;
            case err of
              Some e \<Rightarrow> ret (Some (''failed to upload package: '' @ e))
            | None \<Rightarrow> do { ru_remove S uploadZipPath; ret None }
          }
      })"

definition uploadLocalRules ::
  "go_ext \<Rightarrow> rule_ext \<Rightarrow> 's rule_io \<Rightarrow> string \<Rightarrow> string \<Rightarrow> string \<Rightarrow> bool \<Rightarrow> string \<Rightarrow> ('s, string option) io" where
  "uploadLocalRules E X S descPath upgradeSrv rulesPath upgradeProxy httpProxy =
     (if upgradeSrv = [] then ret None
      else do {
        d \<leftarrow> ru_readFile S descPath;
        case d of
          Inl e \<Rightarrow> ret (Some (''failed to read desc.json: '' @ file_error_text e))
        | Inr data \<Rightarrow>
            (case rx_json_desc X data of
               Inl e \<Rightarrow> ret (Some (''failed to parse desc.json: '' @ e))
             | Inr desc \<Rightarrow> do {
                 uploadDesc \<leftarrow> upload_descriptor E X S desc;
                 send_upload X S uploadDesc upgradeSrv rulesPath upgradeProxy httpProxy
               })
      })"

section \<open>The task\<close>

definition rules_path :: string where
  "rules_path = path_join [ROOT_PATH, ''download'', ''rules'']"

definition upgrade_proxy :: "system_info \<Rightarrow> bool \<times> string" where
  "upgrade_proxy sysInfo =
     (case si_SystemProxy sysInfo of
        None \<Rightarrow> (False, [])
      | Some m \<Rightarrow> (map_get m ''upgrade_proxy'' = Some ''true'',
          case map_get m ''http_proxy'' of Some p \<Rightarrow> p | None \<Rightarrow> []))"

text \<open>Both modes end with \<^term>\<open>Inr None\<close> when there is nothing to install.\<close>

definition local_upgrade ::
  "go_ext \<Rightarrow> rule_ext \<Rightarrow> 's rule_io \<Rightarrow> string \<Rightarrow> string \<Rightarrow> ('s, string + (string \<times> string) option) io" where
  "local_upgrade E X S latestJSONPath latestZIPPath = do {
     e1 \<leftarrow> ru_stat S latestJSONPath;
     if e1 = Some NotExist then ret (Inr None)
     else do {
       e2 \<leftarrow> ru_stat S latestZIPPath;
       if e2 = Some NotExist then ret (Inr None)
       else do {
         r \<leftarrow> executeRuleUpgradeWithPaths E X S latestJSONPath latestZIPPath rules_path;
         ret (case r of Inl e \<Rightarrow> Inl e | Inr paths \<Rightarrow> Inr (Some paths))
       }
     }
   }"

definition remote_upgrade ::
  "go_ext \<Rightarrow> rule_ext \<Rightarrow> 's rule_io \<Rightarrow> system_info \<Rightarrow> string \<Rightarrow> string \<Rightarrow> string
     \<Rightarrow> ('s, string + (string \<times> string) option) io" where
  "remote_upgrade E X S sysInfo latestJSONPath latestZIPPath currentVersionPath = do {
     let (upgradeProxy, httpProxy) = upgrade_proxy sysInfo;
     v \<leftarrow> checkLatestVersion X S (si_UpgradeSrv sysInfo) latestJSONPath currentVersionPath upgradeProxy httpProxy;
     case v of
       Inl e \<Rightarrow> ret (Inl e)
     | Inr latestVersion \<Rightarrow>
         if latestVersion = [] then ret (Inr None)
         else do {
           err \<leftarrow> downloadLatestZIP X S (si_UpgradeSrv sysInfo) latestZIPPath upgradeProxy httpProxy;
           case err of
             Some e \<Rightarrow> ret (Inl e)
           | None \<Rightarrow> do {
               r \<leftarrow> executeRuleUpgradeWithPaths E X S latestJSONPath latestZIPPath rules_path;
               ret (case r of Inl e \<Rightarrow> Inl e | Inr paths \<Rightarrow> Inr (Some paths))
             }
         }
   }"

definition RuleSyncTask :: "go_ext \<Rightarrow> rule_ext \<Rightarrow> 's rule_io \<Rightarrow> ('s, string option) io" where
  "RuleSyncTask E X S = do {
     info \<leftarrow> ru_systemInfo S;
     case info of
       None \<Rightarrow> ret None
     | Some sysInfo \<Rightarrow>
         if si_UpgradeSrv sysInfo = [] then ret None
         else do {
           err \<leftarrow> ru_mkdirAll S rules_path;
           case err of
             Some e \<Rightarrow> ret (Some e)
           | None \<Rightarrow> do {
               let latestJSONPath = path_join [rules_path, ''latest.json''];
               let latestZIPPath = path_join [rules_path, ''latest.zip''];
               let currentVersionPath = path_join [rules_path, ''current_version.txt''];
               r \<leftarrow> (if \<not> si_UpgradeRule sysInfo then local_upgrade E X S latestJSONPath latestZIPPath
                     else remote_upgrade E X S sysInfo latestJSONPath latestZIPPath currentVersionPath);
               case r of
                 Inl e \<Rightarrow> ret (Some e)
               | Inr None \<Rightarrow> ret None
               | Inr (Some (descPath, _)) \<Rightarrow> do {
                   enabled \<leftarrow> rulePeerUploadEnabled E S;
                   if \<not> enabled then ret None
                   else do {
                     let (upgradeProxy, httpProxy) = upgrade_proxy sysInfo;
                     uploadLocalRules E X S descPath (si_UpgradeSrv sysInfo) rules_path upgradeProxy httpProxy;
                     ret None
                   }
                 }
             }
         }
   }"

end
