(* ===== verification/Rule_Props.thy ===== *)
theory Rule_Props
  imports Portal_Rules Tasker_RuleSync
begin

text \<open>
  Facts on paths, on the documented behaviour of the disk and of the rule tables, and on the writers of rule
  files, which the properties of the portal and of the synchronisation share.
\<close>

section \<open>Paths\<close>

text \<open>An element of a path that names something below the directory it stands in.\<close>

definition proper :: "string \<Rightarrow> bool" where
  "proper c \<longleftrightarrow> c \<noteq> [] \<and> c \<noteq> ''.'' \<and> c \<noteq> ''..'' \<and> CHR ''/'' \<notin> set c"

text \<open>A path below a directory: the directory, a slash, and proper elements.\<close>

definition below :: "string \<Rightarrow> string \<Rightarrow> bool" where
  "below dir p \<longleftrightarrow> (\<exists>parts. parts \<noteq> [] \<and> list_all proper parts \<and> p = dir @ ''/'' @ join parts ''/'')"

lemma clean_fold_proper:
  "\<lbrakk>\<And>c. c \<in> set cs \<Longrightarrow> CHR ''/'' \<notin> set c; list_all proper st\<rbrakk> \<Longrightarrow> list_all proper (fold (clean_step True) cs st)"
proof (induction cs arbitrary: st)
  case (Cons c cs)
  have "list_all proper (clean_step True c st)"
    using Cons.prems(1)[of c] Cons.prems(2) by (cases st) (auto simp: clean_step_def proper_def[of c])
  then show ?case using Cons by simp
qed simp

lemma clean_parts_proper: "is_rooted p \<Longrightarrow> list_all proper (clean_parts p)"
  using clean_fold_proper[of "split p ''/''" "[]"] by (auto simp: clean_parts_def split_no_sep list_all_iff)

lemma proper_join_hd: "\<lbrakk>xs \<noteq> []; list_all proper xs\<rbrakk> \<Longrightarrow> \<exists>c s. join xs sep = c # s \<and> c \<noteq> CHR ''/''"
  by (cases xs; cases "hd xs"; cases "tl xs") (auto simp: proper_def)

lemma split_append: "d \<notin> set x \<Longrightarrow> split (x @ d # s) [d] = x # split s [d]"
  by (simp add: split_def split_acc_cons)

lemma split_join_append:
  "\<lbrakk>xs \<noteq> []; \<And>x. x \<in> set xs \<Longrightarrow> d \<notin> set x\<rbrakk> \<Longrightarrow> split (join xs [d] @ d # t) [d] = xs @ split t [d]"
proof (induction xs)
  case (Cons x xs)
  then show ?case by (cases xs) (simp_all add: split_append)
qed simp

lemma path_join2: "is_rooted b \<Longrightarrow> path_join [b, n] = path_clean (b @ ''/'' @ n)"
  by (cases b) (auto simp: path_join_def is_rooted_def)

lemma is_rooted_append: "is_rooted b \<Longrightarrow> is_rooted (b @ n)"
  by (cases b) (auto simp: is_rooted_def)

text \<open>The check of the code is enough: a joined path that begins with the cleaned directory and a slash is below
  the directory.\<close>

lemma joined_path_below:
  assumes "is_rooted b" "has_prefix (path_join [b, n]) (path_clean b @ ''/'')"
  shows "below (path_clean b) (path_join [b, n])"
proof -
  let ?cs = "clean_parts (b @ ''/'' @ n)" and ?bs = "clean_parts b"
  have r: "is_rooted (b @ ''/'' @ n)" using assms(1) by (rule is_rooted_append)
  have p: "path_join [b, n] = CHR ''/'' # join ?cs ''/''" using r by (simp add: path_join2[OF assms(1)] path_clean_def Let_def)
  have c: "path_clean b = CHR ''/'' # join ?bs ''/''" using assms(1) by (simp add: path_clean_def Let_def)
  have pc: "list_all proper ?cs" and pb: "list_all proper ?bs" using r assms(1) by (simp_all add: clean_parts_proper)
  from assms(2) obtain t where t: "join ?cs ''/'' = join ?bs ''/'' @ CHR ''/'' # t"
    unfolding has_prefix_iff p c by auto
  have cs: "?cs \<noteq> []" using t by auto
  have bs: "?bs \<noteq> []" using t proper_join_hd[OF cs pc, of "''/''"] by auto
  have "?cs = split (join ?cs ''/'') ''/''" using pc cs by (intro split_join[symmetric]) (auto simp: list_all_iff proper_def)
  also have "\<dots> = ?bs @ split t ''/''" unfolding t
    using pb bs by (intro split_join_append) (auto simp: list_all_iff proper_def)
  finally have parts: "?cs = ?bs @ split t ''/''" .
  have "list_all proper (split t ''/'')" using pc unfolding parts by simp
  moreover have "path_join [b, n] = path_clean b @ ''/'' @ join (split t ''/'') ''/''"
    unfolding p c t by (simp add: join_split)
  ultimately show ?thesis unfolding below_def by (intro exI[of _ "split t ''/''"] conjI split_not_Nil)
qed

text \<open>A path that is written from its elements is clean already.\<close>

lemma clean_fold_id: "list_all proper cs \<Longrightarrow> fold (clean_step r) cs st = rev cs @ st"
  by (induction cs arbitrary: st) (auto simp: clean_step_def proper_def)

lemma proper_no_slash: "list_all proper cs \<Longrightarrow> x \<in> set cs \<Longrightarrow> CHR ''/'' \<notin> set x"
  by (auto simp: list_all_iff proper_def)

lemma path_clean_proper:
  assumes "list_all proper cs" "cs \<noteq> []"
  shows "path_clean (CHR ''/'' # join cs ''/'') = CHR ''/'' # join cs ''/''"
proof -
  have "split (CHR ''/'' # join cs ''/'') ''/'' = [] # cs"
    using split_append[of "CHR ''/''" "[]" "join cs ''/''"] split_join[of cs "CHR ''/''"] assms proper_no_slash[of cs] by simp
  then have "clean_parts (CHR ''/'' # join cs ''/'') = cs"
    using clean_fold_id[OF assms(1), of True "[]"] by (simp add: clean_parts_def is_rooted_def clean_step_def[of _ "[]"])
  then show ?thesis by (simp add: path_clean_def is_rooted_def)
qed

lemma path_join_proper:
  assumes "d = CHR ''/'' # join cs ''/''" "list_all proper cs" "cs \<noteq> []" "proper n"
  shows "path_join [d, n] = d @ ''/'' @ n"
  using path_clean_proper[of "cs @ [n]"] assms path_join2[of d n] by (simp add: join_snoc is_rooted_def)

lemma rule_dir_parts: "proper t \<Longrightarrow> rule_dir t = CHR ''/'' # join [''home'', ''adadmin'', ''rules'', t] ''/''"
  using path_clean_proper[of "[''home'', ''adadmin'', ''rules'', t]"]
  by (simp add: rule_dir_def path_join_def ROOT_PATH_def proper_def)

definition rule_types :: "string list" where
  "rule_types = [RuleTypeFlow, RuleTypeWinLog, RuleTypePktLog]"

lemma rule_types_proper: "t \<in> set rule_types \<Longrightarrow> proper t"
  by (auto simp: rule_types_def RuleTypeFlow_def RuleTypeWinLog_def RuleTypePktLog_def proper_def)

lemma rule_types_mem [simp]: "RuleTypeFlow \<in> set rule_types" "RuleTypeWinLog \<in> set rule_types" "RuleTypePktLog \<in> set rule_types"
  by (simp_all add: rule_types_def)

text \<open>The file of a rule whose identifier has no slash is in the directory of its kind, and different kinds and
  names give different files.\<close>

definition in_dir :: "string \<Rightarrow> string \<Rightarrow> string" where
  "in_dir t n = ''/home/adadmin/rules/'' @ t @ ''/'' @ n"

lemma in_dir_join: "t \<in> set rule_types \<Longrightarrow> proper n \<Longrightarrow> path_join [rule_dir t, n] = in_dir t n"
  using path_join_proper[OF rule_dir_parts[of t], of n] rule_types_proper[of t]
  by (simp add: in_dir_def rule_dir_parts proper_def)

lemma proper_yml: "CHR ''/'' \<notin> set i \<Longrightarrow> proper (i @ ''.yml'')"
  by (cases i) (auto simp: proper_def)

lemma rule_file_in_dir: "t \<in> set rule_types \<Longrightarrow> CHR ''/'' \<notin> set i \<Longrightarrow> rule_file (rule_dir t) i = in_dir t (i @ ''.yml'')"
  by (simp add: rule_file_def in_dir_join proper_yml)

lemma in_dir_inj: "\<lbrakk>t \<in> set rule_types; u \<in> set rule_types\<rbrakk> \<Longrightarrow> in_dir t n = in_dir u m \<longleftrightarrow> t = u \<and> n = m"
  by (auto simp: rule_types_def in_dir_def RuleTypeFlow_def RuleTypeWinLog_def RuleTypePktLog_def)

lemma rule_dir_inj: "\<lbrakk>t \<in> set rule_types; u \<in> set rule_types\<rbrakk> \<Longrightarrow> rule_dir t = rule_dir u \<longleftrightarrow> t = u"
  using rule_dir_parts[of t] rule_dir_parts[of u] rule_types_proper[of t] rule_types_proper[of u] by auto

section \<open>The disk\<close>

text \<open>What is relied on of the file system, for the regular files \<open>disk s\<close> of a state: reading, queries and
  making directories leave them alone, and the other calls touch the named file only.\<close>

abbreviation after :: "('s, 'a) io \<Rightarrow> 's \<Rightarrow> 's" where
  "after m s \<equiv> snd (run_state m s)"

abbreviation result :: "('s, 'a) io \<Rightarrow> 's \<Rightarrow> 'a" where
  "result m s \<equiv> fst (run_state m s)"

definition leaves :: "('s \<Rightarrow> 'd) \<Rightarrow> ('s, 'a) io \<Rightarrow> bool" where
  "leaves v m \<longleftrightarrow> (\<forall>s. v (after m s) = v s)"

definition touches :: "('s \<Rightarrow> string \<Rightarrow> string option) \<Rightarrow> string \<Rightarrow> ('s, 'a) io \<Rightarrow> bool" where
  "touches disk p m \<longleftrightarrow> (\<forall>s q. q \<noteq> p \<longrightarrow> disk (after m s) q = disk s q)"

definition files_documented :: "'s rule_io \<Rightarrow> ('s \<Rightarrow> string \<Rightarrow> string option) \<Rightarrow> bool" where
  "files_documented S disk \<longleftrightarrow>
     (\<forall>p. leaves disk (ru_mkdirAll S p)) \<and> (\<forall>p. leaves disk (ru_stat S p)) \<and> (\<forall>p. leaves disk (ru_readFile S p)) \<and>
     (\<forall>p. leaves disk (ru_readDir S p)) \<and> (\<forall>p. leaves disk (ru_zipOpen S p)) \<and> leaves disk (ru_now S) \<and>
     (\<forall>c m. leaves disk (ru_publish S c m)) \<and> leaves disk (ru_allAlerts S) \<and> leaves disk (ru_allActivities S) \<and>
     (\<forall>i. leaves disk (ru_findAlert S i)) \<and> (\<forall>i u. leaves disk (ru_updateAlert S i u)) \<and>
     (\<forall>p d. touches disk p (ru_writeFile S p d)) \<and> (\<forall>p. touches disk p (ru_openTrunc S p)) \<and>
     (\<forall>p d. touches disk p (ru_append S p d)) \<and> (\<forall>p. touches disk p (ru_remove S p)) \<and>
     (\<forall>p d s. result (ru_writeFile S p d) s = None \<longrightarrow> disk (after (ru_writeFile S p d) s) p = Some d) \<and>
     (\<forall>p s. result (ru_remove S p) s \<in> {None, Some NotExist} \<longrightarrow> disk (after (ru_remove S p) s) p = None)"

text \<open>Listing a directory of rules shows its files, and a directory that does not exist has none.\<close>

definition listing_documented :: "'s rule_io \<Rightarrow> ('s \<Rightarrow> string \<Rightarrow> string option) \<Rightarrow> bool" where
  "listing_documented S disk \<longleftrightarrow>
     (\<forall>t n s. t \<in> set rule_types \<and> proper n \<and> disk s (in_dir t n) \<noteq> None \<longrightarrow>
        result (ru_stat S (rule_dir t)) s \<noteq> Some NotExist \<and>
        (\<forall>found. result (ru_readDir S (rule_dir t)) s = Inr found \<longrightarrow> (n, False) \<in> set found))"

text \<open>A disk on which no call fails.\<close>

definition disk_works :: "'s rule_io \<Rightarrow> bool" where
  "disk_works S \<longleftrightarrow>
     (\<forall>p s. result (ru_mkdirAll S p) s = None) \<and> (\<forall>p d s. result (ru_writeFile S p d) s = None) \<and>
     (\<forall>p s. result (ru_remove S p) s \<in> {None, Some NotExist}) \<and> (\<forall>d s. \<exists>found. result (ru_readDir S d) s = Inr found)"

declare run_state_bind [simp del]

lemma run_bind [simp]: "run_state (State_Monad.bind m f) s = run_state (f (result m s)) (after m s)"
  by (simp add: run_state_bind case_prod_beta)

text \<open>The calls of a documented disk, one fact each.\<close>

lemma files_leave:
  assumes "files_documented S disk"
  shows "leaves disk (ru_mkdirAll S p)" "leaves disk (ru_stat S p)" "leaves disk (ru_readFile S p)" "leaves disk (ru_readDir S p)"
    "leaves disk (ru_zipOpen S p)" "leaves disk (ru_now S)" "leaves disk (ru_publish S c m)" "leaves disk (ru_allAlerts S)"
    "leaves disk (ru_allActivities S)" "leaves disk (ru_findAlert S i)" "leaves disk (ru_updateAlert S i u)"
  using assms by (simp_all add: files_documented_def)

lemma files_touch:
  assumes "files_documented S disk"
  shows "touches disk p (ru_writeFile S p d)" "touches disk p (ru_openTrunc S p)" "touches disk p (ru_append S p d)"
    "touches disk p (ru_remove S p)"
  using assms by (simp_all add: files_documented_def)

lemma leavesD: "leaves v m \<Longrightarrow> v (after m s) = v s"
  by (simp add: leaves_def)

lemmas files_after = files_leave[THEN leavesD]

lemma files_written:
  assumes "files_documented S disk" "result (ru_writeFile S p d) s = None"
  shows "disk (after (ru_writeFile S p d) s) = (disk s)(p := Some d)"
  using assms by (auto simp: files_documented_def touches_def fun_eq_iff)

lemma files_removed:
  assumes "files_documented S disk" "result (ru_remove S p) s \<in> {None, Some NotExist}"
  shows "disk (after (ru_remove S p) s) = (disk s)(p := None)"
  using assms by (auto simp: files_documented_def touches_def fun_eq_iff)

section \<open>Unpacking stays inside\<close>

definition same_outside :: "('s \<Rightarrow> string \<Rightarrow> string option) \<Rightarrow> string \<Rightarrow> (string \<Rightarrow> string option) \<Rightarrow> 's \<Rightarrow> bool" where
  "same_outside disk dir d0 s \<longleftrightarrow> (\<forall>q. \<not> below dir q \<longrightarrow> disk s q = d0 q)"

lemma leaves_same: "leaves disk m \<Longrightarrow> keeps (same_outside disk dir d0) m"
  by (simp add: yields_def same_outside_def leaves_def)

lemma touches_same: "touches disk p m \<Longrightarrow> below dir p \<Longrightarrow> keeps (same_outside disk dir d0) m"
  unfolding yields_def same_outside_def touches_def by metis

lemma extract_file_same:
  "\<lbrakk>files_documented S disk; below dir p\<rbrakk> \<Longrightarrow> keeps (same_outside disk dir d0) (extract_file S p f)"
  unfolding extract_file_def copy_stream_def Let_def
  by (intro io_rules leaves_same touches_same[of _ p] files_leave files_touch TrueI)

lemma extract_loop_same:
  "\<lbrakk>files_documented S disk; is_rooted b\<rbrakk> \<Longrightarrow> keeps (same_outside disk (path_clean b) d0) (extract_loop S b dir fs)"
proof (induction fs arbitrary: dir)
  case (Cons f fs)
  then show ?case
    by (auto simp: Let_def intro!: io_rules extract_file_same joined_path_below)
qed (simp add: yields_ret)

lemma check_paths_same: "files_documented S disk \<Longrightarrow> keeps (same_outside disk dir d0) (check_paths S ps)"
proof (induction ps)
  case (Cons p ps)
  have "keeps (same_outside disk dir d0) (ru_stat S p)" using Cons.prems by (intro leaves_same files_leave)
  then show ?case using Cons by (auto intro!: yields_bind[where Q = "\<lambda>_. True"] yields_ret)
qed (simp add: yields_ret)

lemma extract_same:
  "\<lbrakk>files_documented S disk; is_rooted b\<rbrakk> \<Longrightarrow> keeps (same_outside disk (path_clean b) d0) (extractAndValidateZIP S z b)"
  unfolding extractAndValidateZIP_def
  by (intro io_rules extract_loop_same check_paths_same leaves_same files_leave TrueI)

section \<open>Files of all rules\<close>

text \<open>Writing a rule and removing a file, as updates of the disk.\<close>

lemma write_rule_disk:
  assumes "files_documented S disk" "disk_works S" "rx_yaml X doc = Inr data"
  shows "disk (after (write_rule X S d i doc) s) = (disk s)(rule_file d i := Some data)"
    "result (write_rule X S d i doc) s = None"
  using assms by (simp_all add: write_rule_def disk_works_def files_written files_after[OF assms(1)] fun_upd_def)

lemma foreach_writes:
  assumes "\<And>x s. x \<in> set xs \<Longrightarrow> disk (after (f x) s) = (disk s)(path x := val x)"
  shows "disk (after (foreach f xs) s) = fold (\<lambda>x d. d(path x := val x)) xs (disk s)"
  using assms by (induction xs arbitrary: s) simp_all

lemma fold_writes_other: "p \<notin> path ` set xs \<Longrightarrow> fold (\<lambda>x d. d(path x := val x)) xs d p = d p"
  by (induction xs arbitrary: d) auto

lemma fold_writes_mem:
  "\<lbrakk>x \<in> set xs; inj_on path (set xs); distinct xs\<rbrakk> \<Longrightarrow> fold (\<lambda>x d. d(path x := val x)) xs d (path x) = val x"
proof (induction xs arbitrary: d)
  case (Cons y ys)
  show ?case
  proof (cases "x = y")
    case True
    have "path x \<notin> path ` set ys" using Cons.prems True by (auto simp: inj_on_def)
    then have "fold (\<lambda>x d. d(path x := val x)) ys (d(path y := val y)) (path y) = (d(path y := val y)) (path y)"
      using True by (intro fold_writes_other) simp
    then show ?thesis using True by (simp add: fun_upd_def)
  next
    case False
    then show ?thesis using Cons by (simp add: inj_on_def)
  qed
qed simp

text \<open>Removals only remove; what was gone stays gone.\<close>

lemma fold_removes: "fold (\<lambda>x d. d(path x := None)) xs d q = (if q \<in> path ` set xs then None else d q)"
  by (induction xs arbitrary: d) auto

definition rule_name :: "string \<Rightarrow> bool" where
  "rule_name n \<longleftrightarrow> proper n \<and> (has_suffix n ''.yaml'' \<or> has_suffix n ''.yml'')"

lemma cleanup_disk:
  assumes doc: "files_documented S disk" "listing_documented S disk" "disk_works S"
  shows "rule_name n \<Longrightarrow> t \<in> set rule_types \<Longrightarrow> d = rule_dir t \<Longrightarrow> disk (after (cleanupRuleDirectory S d) s) (in_dir t n) = None"
    and "disk (after (cleanupRuleDirectory S d) s) q \<in> {None, disk s q}"
proof -
  let ?s1 = "after (ru_stat S d) s" and ?s2 = "after (ru_readDir S d) (after (ru_stat S d) s)"
  obtain found where found: "result (ru_readDir S d) ?s1 = Inr found" using doc(3) unfolding disk_works_def by blast
  let ?fs = "filter is_rule_file found"
  have del: "disk (after (foreach (\<lambda>e. do { ru_remove S (path_join [d, fst e]); ret () }) ?fs) ?s2) =
      fold (\<lambda>e m. m(path_join [d, fst e] := None)) ?fs (disk ?s2)"
    using doc(3) by (intro foreach_writes) (simp add: files_removed[OF doc(1)] disk_works_def fun_upd_def)
  have s2: "disk ?s2 = disk s" by (simp add: files_after[OF doc(1)])
  have all: "disk (after (cleanupRuleDirectory S d) s) q =
      (if result (ru_stat S d) s \<noteq> Some NotExist \<and> q \<in> (\<lambda>e. path_join [d, fst e]) ` set ?fs then None else disk s q)" for q
    using found del s2 by (simp add: cleanupRuleDirectory_def fold_removes files_after[OF doc(1)])
  show "disk (after (cleanupRuleDirectory S d) s) q \<in> {None, disk s q}" using all by simp
  assume n: "rule_name n" and t: "t \<in> set rule_types" "d = rule_dir t"
  have p: "path_join [d, n] = in_dir t n" using in_dir_join[of t n] n t by (simp add: rule_name_def)
  show "disk (after (cleanupRuleDirectory S d) s) (in_dir t n) = None"
  proof (cases "disk s (in_dir t n)")
    case (Some c)
    then have "disk ?s1 (in_dir t n) \<noteq> None" by (simp add: files_after[OF doc(1)])
    then have nf: "(n, False) \<in> set found" and st: "result (ru_stat S d) s \<noteq> Some NotExist"
      using doc(2) n t found Some unfolding listing_documented_def rule_name_def by auto
    have "in_dir t n \<in> (\<lambda>e. path_join [d, fst e]) ` set ?fs"
      using nf n p by (intro image_eqI[of _ _ "(n, False)"]) (simp_all add: is_rule_file_def rule_name_def)
    then show ?thesis using all[of "in_dir t n"] st by simp
  qed (simp add: all)
qed

text \<open>After the clean-up no directory of rules holds a rule file.\<close>

definition cleanup_all :: "'s rule_io \<Rightarrow> ('s, unit) io" where
  "cleanup_all S = foreach (\<lambda>ruleType. do { cleanupRuleDirectory S (rule_dir ruleType); ret () })
     [RuleTypeFlow, RuleTypeWinLog, RuleTypePktLog]"

lemma cleanup_all_disk:
  assumes doc: "files_documented S disk" "listing_documented S disk" "disk_works S"
    and "t \<in> set rule_types" "rule_name n"
  shows "disk (after (cleanup_all S) s) (in_dir t n) = None"
proof -
  note c = cleanup_disk[OF doc]
  show ?thesis
    using assms(4,5) c(1)[of n t "rule_dir t"] c(2)[of _ _ "in_dir t n"]
    by (auto simp: cleanup_all_def rule_types_def) (metis insert_iff singletonD c(2))+
qed

text \<open>What a sequence of writes to different files leaves at a path.\<close>

lemma fold_writes_find:
  "distinct (map path xs) \<Longrightarrow> fold (\<lambda>x d. d(path x := val x)) xs d q =
     (case find (\<lambda>x. path x = q) xs of Some x \<Rightarrow> val x | None \<Rightarrow> d q)"
proof (induction xs arbitrary: d)
  case (Cons y ys)
  show ?case
  proof (cases "path y = q")
    case True
    have "q \<notin> path ` set ys" using Cons.prems True by auto
    then have "fold (\<lambda>x d. d(path x := val x)) ys (d(path y := val y)) q = (d(path y := val y)) q"
      by (rule fold_writes_other)
    then show ?thesis using True by (simp add: fun_upd_def)
  next
    case False
    then have "(d(path y := val y)) q = d q" by simp
    then show ?thesis using False Cons.IH[of "d(path y := val y)"] Cons.prems by (simp split: option.split)
  qed
qed simp

lemma find_filter: "find P (filter Q xs) = find (\<lambda>x. Q x \<and> P x) xs"
  by (induction xs) auto

lemma foreach_skip:
  "(\<And>x s. x \<in> set xs \<Longrightarrow> \<not> P x \<Longrightarrow> disk (after (f x) s) = disk s) \<Longrightarrow>
   (\<And>x s. x \<in> set xs \<Longrightarrow> P x \<Longrightarrow> disk (after (f x) s) = (disk s)(path x := val x)) \<Longrightarrow>
   disk (after (foreach f xs) s) = fold (\<lambda>x d. d(path x := val x)) (filter P xs) (disk s)"
  by (induction xs arbitrary: s) auto

text \<open>The directory of a sigma rule is that of the kind its identifier begins with.\<close>

lemma activity_dir_Some:
  "activity_dir i = Some d \<longleftrightarrow> (\<exists>t \<in> {RuleTypeWinLog, RuleTypePktLog}. has_prefix i t \<and> d = rule_dir t)"
proof -
  have len: "length RuleTypeWinLog = 6" "length RuleTypePktLog = 6" by (simp_all add: RuleTypeWinLog_def RuleTypePktLog_def)
  have pre: "6 \<le> length i \<and> take 6 i = t \<longleftrightarrow> has_prefix i t" if "length t = 6" for t
    using that by (auto simp: has_prefix_def)
  have ne: "\<not> (has_prefix i RuleTypeWinLog \<and> has_prefix i RuleTypePktLog)"
    unfolding has_prefix_def len by (auto simp: RuleTypeWinLog_def RuleTypePktLog_def)
  have "activity_dir i = (if has_prefix i RuleTypeWinLog then Some (rule_dir RuleTypeWinLog)
      else if has_prefix i RuleTypePktLog then Some (rule_dir RuleTypePktLog) else None)"
    using pre[OF len(1)] pre[OF len(2)] by (simp add: activity_dir_def RuleTypeWinLog_def RuleTypePktLog_def)
  then show ?thesis using ne by auto
qed

definition activity_path :: "AlertActivityRule \<Rightarrow> string" where
  "activity_path r = rule_file (the (activity_dir (vr_ID r))) (vr_ID r)"

lemma activity_path_dir:
  "\<lbrakk>activity_dir (vr_ID r) \<noteq> None; CHR ''/'' \<notin> set (vr_ID r)\<rbrakk> \<Longrightarrow>
   \<exists>t \<in> {RuleTypeWinLog, RuleTypePktLog}. has_prefix (vr_ID r) t \<and> activity_path r = in_dir t (vr_ID r @ ''.yml'')"
proof -
  assume 1: "activity_dir (vr_ID r) \<noteq> None" "CHR ''/'' \<notin> set (vr_ID r)"
  then obtain d where d: "activity_dir (vr_ID r) = Some d" by blast
  then obtain t where "t \<in> {RuleTypeWinLog, RuleTypePktLog}" "has_prefix (vr_ID r) t" "d = rule_dir t"
    using activity_dir_Some by blast
  then show ?thesis using 1 d rule_file_in_dir[of t "vr_ID r"] by (auto simp: activity_path_def)
qed

lemma activity_path_iff:
  assumes "CHR ''/'' \<notin> set (vr_ID r)" "t \<in> {RuleTypeWinLog, RuleTypePktLog}"
  shows "activity_dir (vr_ID r) \<noteq> None \<and> activity_path r = in_dir t n \<longleftrightarrow> has_prefix (vr_ID r) t \<and> vr_ID r @ ''.yml'' = n"
proof -
  have pref: "u = t" if "has_prefix (vr_ID r) u" "has_prefix (vr_ID r) t" "u \<in> {RuleTypeWinLog, RuleTypePktLog}" for u
    using that assms(2) unfolding has_prefix_def by (auto simp: RuleTypeWinLog_def RuleTypePktLog_def)
  have "activity_dir (vr_ID r) \<noteq> None" if "has_prefix (vr_ID r) t"
    using that assms(2) activity_dir_Some[of "vr_ID r" "rule_dir t"] by auto
  then show ?thesis
    using activity_path_dir[of r] assms pref in_dir_inj rule_types_mem by (metis insertE singletonD)
qed

lemma activity_path_inj:
  assumes "activity_dir (vr_ID r) \<noteq> None" "activity_dir (vr_ID q) \<noteq> None" "activity_path r = activity_path q"
    and "CHR ''/'' \<notin> set (vr_ID r)" "CHR ''/'' \<notin> set (vr_ID q)"
  shows "vr_ID r = vr_ID q"
proof -
  obtain t u where t: "t \<in> {RuleTypeWinLog, RuleTypePktLog}" "activity_path r = in_dir t (vr_ID r @ ''.yml'')"
    and u: "u \<in> {RuleTypeWinLog, RuleTypePktLog}" "activity_path q = in_dir u (vr_ID q @ ''.yml'')"
    using activity_path_dir[OF assms(1,4)] activity_path_dir[OF assms(2,5)] by blast
  have "t \<in> set rule_types" "u \<in> set rule_types" using t(1) u(1) by auto
  then have "vr_ID r @ ''.yml'' = vr_ID q @ ''.yml''" using t(2) u(2) assms(3) in_dir_inj by metis
  then show ?thesis by simp
qed

lemma activity_paths_distinct:
  assumes "distinct (map vr_ID rs)" "\<And>r. r \<in> set rs \<Longrightarrow> CHR ''/'' \<notin> set (vr_ID r)"
  shows "distinct (map activity_path (filter (\<lambda>r. activity_dir (vr_ID r) \<noteq> None) rs))"
  using assms activity_path_inj unfolding distinct_map inj_on_def by simp

lemma not_flow_path:
  assumes "activity_dir (vr_ID r) \<noteq> None" "CHR ''/'' \<notin> set (vr_ID r)"
  shows "activity_path r \<noteq> in_dir RuleTypeFlow n"
proof -
  obtain t where "t \<in> {RuleTypeWinLog, RuleTypePktLog}" "activity_path r = in_dir t (vr_ID r @ ''.yml'')"
    using activity_path_dir[OF assms] by blast
  moreover have "t \<noteq> RuleTypeFlow" using calculation(1) by (auto simp: RuleTypeFlow_def RuleTypeWinLog_def RuleTypePktLog_def)
  ultimately show ?thesis using in_dir_inj[of t RuleTypeFlow] by auto
qed

text \<open>The two loops that write rules, as updates of the disk.\<close>

lemma write_alerts_disk:
  assumes "files_documented S disk" "disk_works S" "\<And>doc. rx_yaml X doc = Inr (enc doc)"
    and "\<And>r. r \<in> set rs \<Longrightarrow> CHR ''/'' \<notin> set (ar_ID r)"
  shows "disk (after (foreach (\<lambda>r. do { writeAlertRuleToFile X S r; ret () }) rs) s) =
    fold (\<lambda>r d. d(in_dir RuleTypeFlow (ar_ID r @ ''.yml'') := Some (enc (alert_yaml r)))) rs (disk s)"
  by (rule foreach_writes)
    (simp add: writeAlertRuleToFile_def write_rule_disk[OF assms(1-3)] rule_file_in_dir assms(4) fun_upd_def)

lemma write_activities_disk:
  assumes "files_documented S disk" "disk_works S" "\<And>doc. rx_yaml X doc = Inr (enc doc)"
  shows "disk (after (foreach (\<lambda>r. do { writeActivityRuleToFile X S r; ret () }) rs) s) =
    fold (\<lambda>r d. d(activity_path r := Some (enc (activity_yaml r))))
      (filter (\<lambda>r. activity_dir (vr_ID r) \<noteq> None) rs) (disk s)"
  by (rule foreach_skip) (auto simp: writeActivityRuleToFile_def write_rule_disk[OF assms] activity_path_def fun_upd_def)

section \<open>The table of flow rules\<close>

text \<open>\<open>$set\<close> with the fields of an update.\<close>

definition set_to :: "'a option \<Rightarrow> 'a \<Rightarrow> 'a" where
  "set_to u old = (case u of Some v \<Rightarrow> v | None \<Rightarrow> old)"

lemma set_to_simps [simp]: "set_to (Some v) old = v" "set_to None old = old"
  by (simp_all add: set_to_def)

definition apply_alert_update :: "alert_update \<Rightarrow> AlertRule \<Rightarrow> AlertRule" where
  "apply_alert_update u r = r\<lparr>
     ar_Title := set_to (au_title u) (ar_Title r), ar_Description := set_to (au_description u) (ar_Description r),
     ar_Enable := set_to (au_enable u) (ar_Enable r), ar_AutoBlock := set_to (au_auto_block u) (ar_AutoBlock r),
     ar_Level := set_to (au_level u) (ar_Level r), ar_Status := set_to (au_status u) (ar_Status r),
     ar_Tags := set_to (au_tags u) (ar_Tags r), ar_Logsource := set_to (au_logsource u) (ar_Logsource r),
     ar_Detection := set_to (au_detection u) (ar_Detection r), ar_Type := set_to (au_type u) (ar_Type r),
     ar_RuleOrigin := set_to (au_rule_origin u) (ar_RuleOrigin r), ar_References := set_to (au_references u) (ar_References r),
     ar_Suggestion := set_to (au_suggestion u) (ar_Suggestion r), ar_Author := set_to (au_author u) (ar_Author r),
     ar_AttackFlow := set_to (au_attack_flow u) (ar_AttackFlow r),
     ar_UniqueFilter := set_to (au_unique_filter u) (ar_UniqueFilter r), ar_UpdateTm := set_to (au_update_tm u) (ar_UpdateTm r)\<rparr>"

text \<open>A stored rule has no \<open>RuleDate\<close> and no \<open>RuleModified\<close> (\<open>bson:"-"\<close>).\<close>

definition stored_alert :: "AlertRule \<Rightarrow> AlertRule" where
  "stored_alert r = r\<lparr>ar_RuleDate := [], ar_RuleModified := []\<rparr>"

text \<open>What is relied on of MongoDB, for the flow rules \<open>db s\<close> by identifier: a successful insertion or update
  changes the one document, look-ups answer what is there, and the disk, the clock and Redis are elsewhere.\<close>

definition alerts_documented :: "'s rule_io \<Rightarrow> ('s \<Rightarrow> string \<Rightarrow> AlertRule option) \<Rightarrow> bool" where
  "alerts_documented S db \<longleftrightarrow>
     (\<forall>i. leaves db (ru_findAlert S i)) \<and> (\<forall>i s. case db s i of Some r \<Rightarrow> result (ru_findAlert S i) s = Inr r
        | None \<Rightarrow> \<exists>e. result (ru_findAlert S i) s = Inl e) \<and>
     (\<forall>i u s. result (ru_updateAlert S i u) s = None \<longrightarrow>
        db (after (ru_updateAlert S i u) s) = (db s)(i := map_option (apply_alert_update u) (db s i))) \<and>
     (\<forall>r s. result (ru_insertAlert S r) s = None \<longrightarrow>
        db (after (ru_insertAlert S r) s) = (db s)(ar_ID r := Some (stored_alert r))) \<and>
     leaves db (ru_now S) \<and> (\<forall>p. leaves db (ru_stat S p)) \<and> (\<forall>p. leaves db (ru_readFile S p)) \<and>
     (\<forall>p. leaves db (ru_glob S p)) \<and> (\<forall>p. leaves db (ru_mkdirAll S p)) \<and> (\<forall>p d. leaves db (ru_writeFile S p d)) \<and>
     (\<forall>c m. leaves db (ru_publish S c m))"

lemma alerts_leave:
  assumes "alerts_documented S db"
  shows "leaves db (ru_findAlert S i)" "leaves db (ru_now S)" "leaves db (ru_stat S p)" "leaves db (ru_readFile S p)"
    "leaves db (ru_glob S p)" "leaves db (ru_mkdirAll S p)" "leaves db (ru_writeFile S p d)" "leaves db (ru_publish S c m)"
  using assms by (simp_all add: alerts_documented_def)

lemmas alerts_after = alerts_leave[THEN leavesD]

lemma alerts_find:
  assumes "alerts_documented S db"
  shows "db s i = Some r \<Longrightarrow> result (ru_findAlert S i) s = Inr r"
    and "db s i = None \<Longrightarrow> \<exists>e. result (ru_findAlert S i) s = Inl e"
proof -
  have *: "case db s i of Some r \<Rightarrow> result (ru_findAlert S i) s = Inr r | None \<Rightarrow> \<exists>e. result (ru_findAlert S i) s = Inl e"
    using assms unfolding alerts_documented_def by blast
  show "db s i = Some r \<Longrightarrow> result (ru_findAlert S i) s = Inr r"
    "db s i = None \<Longrightarrow> \<exists>e. result (ru_findAlert S i) s = Inl e"
    using * by simp_all
qed

lemma alerts_update:
  assumes "alerts_documented S db" "result (ru_updateAlert S i u) s = None"
  shows "db (after (ru_updateAlert S i u) s) = (db s)(i := map_option (apply_alert_update u) (db s i))"
  using assms unfolding alerts_documented_def by blast

lemma alerts_insert:
  assumes "alerts_documented S db" "result (ru_insertAlert S r) s = None"
  shows "db (after (ru_insertAlert S r) s) = (db s)(ar_ID r := Some (stored_alert r))"
  using assms unfolding alerts_documented_def by blast

lemma leaves_bind: "leaves v m \<Longrightarrow> (\<And>a. leaves v (f a)) \<Longrightarrow> leaves v (State_Monad.bind m f)"
  by (simp add: leaves_def)

lemma leaves_ret: "leaves v (ret a)"
  by (simp add: leaves_def)

lemma read_rule_leaves: "alerts_documented S db \<Longrightarrow> leaves db (read_rule S meta d)"
  unfolding read_rule_def findRuleFile_def find_by_glob_def Let_def
  by (auto intro!: leaves_bind leaves_ret alerts_leave split: sum.split)

lemma parseRuleDate_leaves: "alerts_documented S db \<Longrightarrow> leaves db (parseRuleDate X S t)"
  unfolding parseRuleDate_def by (auto intro!: leaves_ret alerts_leave split: option.split)

end
