(* ===== verification/Rule_Theorems.thy ===== *)
theory Rule_Theorems
  imports Rule_Props Flow_Rule
begin

text \<open>
  The properties of rule management: unpacking of rule packages, the rule files as a mirror of the database, the
  synchronisation with a server, and what the engine makes of the files. The disk, the table of flow rules and
  the YAML library come in through named hypotheses; a concrete world satisfies them all.
\<close>

section \<open>Unpacking\<close>

text \<open>C10: unpacking stays inside: whatever the names in a rule package are, and wherever unpacking ends, a
  file that is not below the directory for packages is as it was.\<close>

theorem zip_extraction_confined:
  assumes "files_documented S disk" "is_rooted rulesPath" "\<not> below (path_clean rulesPath) q"
  shows "disk (after (extractAndValidateZIP S zipPath rulesPath) s) q = disk s q"
  using extract_same[OF assms(1,2), of "disk s" zipPath] assms(3)
  by (auto simp: yields_def same_outside_def)

text \<open>The directory that is taken for the content of the package is not checked: a first entry that goes up and
  comes down again is unpacked where it should be, and the parent directory is read.\<close>

lemma package_directory_escapes:
  "has_prefix (path_join [''/home/adadmin/download/rules'', ''../rules/a'']) (path_clean ''/home/adadmin/download/rules'' @ ''/'')"
  "top_dir ''/home/adadmin/download/rules'' [] ''../rules/a'' = ''/home/adadmin/download''"
  by code_simp+

text \<open>The identifier of a rule is not checked either, and names the file.\<close>

lemma rule_identifier_escapes:
  "rule_file (rule_dir RuleTypeFlow) ''../../.ssh/x'' = ''/home/adadmin/.ssh/x.yml''"
  by code_simp

section \<open>Rule files\<close>

text \<open>C9: the rule files mirror the database: after all rules were written, the directory of flow rules holds
  exactly the encoded flow rules under their identifiers, and the directories of the two kinds of sigma rules
  exactly the encoded rules whose identifiers begin with the kind, whatever was there before.\<close>

theorem rule_files_mirror_database:
  assumes doc: "files_documented S disk" "listing_documented S disk" "disk_works S"
    and db: "\<And>s. result (ru_allAlerts S) s = Inr alerts" "\<And>s. result (ru_allActivities S) s = Inr acts"
    and enc: "\<And>doc. rx_yaml X doc = Inr (enc doc)"
    and ids: "distinct (map ar_ID alerts)" "distinct (map vr_ID acts)"
      "\<forall>i \<in> set (map ar_ID alerts @ map vr_ID acts). CHR ''/'' \<notin> set i"
    and n: "rule_name n" and t: "t \<in> {RuleTypeWinLog, RuleTypePktLog}"
  shows "disk (after (writeAllRulesToDisk X S) s) (in_dir RuleTypeFlow n) =
      map_option (\<lambda>r. enc (alert_yaml r)) (find (\<lambda>r. ar_ID r @ ''.yml'' = n) alerts) \<and>
    disk (after (writeAllRulesToDisk X S) s) (in_dir t n) =
      map_option (\<lambda>r. enc (activity_yaml r)) (find (\<lambda>r. has_prefix (vr_ID r) t \<and> vr_ID r @ ''.yml'' = n) acts)"
proof -
  let ?P = "\<lambda>r. activity_dir (vr_ID r) \<noteq> None" and ?s1 = "after (ru_allAlerts S) (after (cleanup_all S) s)"
  let ?fa = "\<lambda>r. in_dir RuleTypeFlow (ar_ID r @ ''.yml'')"
  let ?da = "fold (\<lambda>r d. d(?fa r := Some (enc (alert_yaml r)))) alerts (disk (after (cleanup_all S) s))"
  let ?dv = "fold (\<lambda>r d. d(activity_path r := Some (enc (activity_yaml r)))) (filter ?P acts) ?da"
  have ida: "CHR ''/'' \<notin> set (ar_ID r)" if "r \<in> set alerts" for r using ids(3) that by simp
  have idv: "CHR ''/'' \<notin> set (vr_ID r)" if "r \<in> set acts" for r using ids(3) that by simp
  have final: "disk (after (writeAllRulesToDisk X S) s) = ?dv"
    unfolding writeAllRulesToDisk_def cleanup_all_def[symmetric]
    using write_alerts_disk[OF doc(1,3) enc ida] write_activities_disk[OF doc(1,3) enc]
    by (simp add: db files_after[OF doc(1)])
  have da: "distinct (map ?fa alerts)"
    using ids(1) by (auto simp: distinct_map inj_on_def in_dir_inj)
  have dv: "distinct (map activity_path (filter ?P acts))"
    using ids(2) idv by (rule activity_paths_distinct)
  have none: "disk (after (cleanup_all S) s) (in_dir u n) = None" if "u \<in> set rule_types" for u
    using cleanup_all_disk[OF doc that n] .
  have flow: "?da (in_dir u n) = None" if "u \<noteq> RuleTypeFlow" "u \<in> set rule_types" for u
  proof -
    have "in_dir u n \<notin> ?fa ` set alerts" using that in_dir_inj[of u RuleTypeFlow] by auto
    then have "?da (in_dir u n) = disk (after (cleanup_all S) s) (in_dir u n)" by (rule fold_writes_other)
    then show ?thesis using none[OF that(2)] by simp
  qed
  have "in_dir RuleTypeFlow n \<notin> activity_path ` set (filter ?P acts)"
    using not_flow_path[of _ n] idv by fastforce
  then have "?dv (in_dir RuleTypeFlow n) = ?da (in_dir RuleTypeFlow n)" by (rule fold_writes_other)
  also have "\<dots> = map_option (\<lambda>r. enc (alert_yaml r)) (find (\<lambda>r. ar_ID r @ ''.yml'' = n) alerts)"
    unfolding fold_writes_find[OF da] by (simp add: in_dir_inj none split: option.split)
  moreover have "find (\<lambda>r. activity_path r = in_dir t n) (filter ?P acts) = find (\<lambda>r. has_prefix (vr_ID r) t \<and> vr_ID r @ ''.yml'' = n) acts"
    unfolding find_filter using activity_path_iff[OF idv t] by (intro find_cong) auto
  then have "?dv (in_dir t n) = map_option (\<lambda>r. enc (activity_yaml r)) (find (\<lambda>r. has_prefix (vr_ID r) t \<and> vr_ID r @ ''.yml'' = n) acts)"
    unfolding fold_writes_find[OF dv] using flow[of t] t
    by (auto simp: RuleTypeFlow_def RuleTypeWinLog_def RuleTypePktLog_def rule_types_def split: option.split)
  ultimately show ?thesis by (simp add: final)
qed

text \<open>C40: when the query of the flow rules fails, the rule files are gone: the directories are emptied before the
  database is asked, nothing is written, and the caller only logs the error before it tells the engine to reload.\<close>

theorem failed_query_empties_rules:
  assumes doc: "files_documented S disk" "listing_documented S disk" "disk_works S"
    and query: "\<And>s. result (ru_allAlerts S) s = Inl e" and n: "rule_name n" "t \<in> set rule_types"
  shows "result (writeAllRulesToDisk X S) s = Some (''failed to query alert rules: '' @ e) \<and>
    disk (after (writeAllRulesToDisk X S) s) (in_dir t n) = None"
  unfolding writeAllRulesToDisk_def cleanup_all_def[symmetric]
  using cleanup_all_disk[OF doc n(2,1)] by (simp add: query files_after[OF doc(1)])

section \<open>Synchronisation\<close>

text \<open>A rule that has the time of the server is not uploaded.\<close>

lemma time_unix_seconds [simp]: "time_unix (t * 1000000000) = t"
  by (simp add: time_unix_def)



section \<open>From the portal to the engine\<close>

text \<open>What \<open>yaml.Unmarshal\<close> makes of a mapping when it decodes into a flow rule of the engine: keys of the
  mapping that are tags of the struct set their fields, the other fields stay; a number is read into a string
  as its digits.\<close>

definition text_at :: "(string \<times> gval) list \<Rightarrow> string \<Rightarrow> string \<Rightarrow> string" where
  "text_at doc k old = (case map_get doc k of Some (VString s) \<Rightarrow> s | Some (VInt32 i) \<Rightarrow> itoa i | _ \<Rightarrow> old)"

definition flag_at :: "(string \<times> gval) list \<Rightarrow> string \<Rightarrow> bool \<Rightarrow> bool" where
  "flag_at doc k old = (case map_get doc k of Some (VBool b) \<Rightarrow> b | _ \<Rightarrow> old)"

definition texts_at :: "(string \<times> gval) list \<Rightarrow> string \<Rightarrow> string list \<Rightarrow> string list" where
  "texts_at doc k old = (case map_get doc k of Some (VStrings l) \<Rightarrow> l | _ \<Rightarrow> old)"

definition decode_detection :: "(string \<times> gval) list \<Rightarrow> flowDetection \<Rightarrow> flowDetection" where
  "decode_detection doc d = d\<lparr>
     fd_EventType := text_at doc ''event_type'' (fd_EventType d), fd_WinSize := text_at doc ''win_size'' (fd_WinSize d),
     fd_Sorted := flag_at doc ''sorted'' (fd_Sorted d), fd_SigmaRules := texts_at doc ''sigma_rules'' (fd_SigmaRules d),
     fd_MatchBy := text_at doc ''match_by'' (fd_MatchBy d)\<rparr>"

definition decode_flow :: "(string \<times> gval) list \<Rightarrow> FlowRule \<Rightarrow> FlowRule" where
  "decode_flow doc r = r\<lparr>
     fr_Title := text_at doc ''title'' (fr_Title r), fr_ID := text_at doc ''id'' (fr_ID r),
     fr_Status := text_at doc ''status'' (fr_Status r), fr_Enable := flag_at doc ''enable'' (fr_Enable r),
     fr_Description := text_at doc ''description'' (fr_Description r),
     fr_References := texts_at doc ''references'' (fr_References r), fr_Author := text_at doc ''author'' (fr_Author r),
     fr_Date := text_at doc ''date'' (fr_Date r), fr_Modified := text_at doc ''modified'' (fr_Modified r),
     fr_Tags := texts_at doc ''tags'' (fr_Tags r), fr_Logsource := text_at doc ''logsource'' (fr_Logsource r),
     fr_Detection := (case map_get doc ''detection'' of Some (VMap d) \<Rightarrow> decode_detection d (fr_Detection r) | _ \<Rightarrow> fr_Detection r),
     fr_Level := text_at doc ''level'' (fr_Level r), fr_UniqueFilter := texts_at doc ''unique_filter'' (fr_UniqueFilter r)\<rparr>"

text \<open>Encoding a rule of the backend and decoding it into a rule of the engine follows the tags of both structs.\<close>

definition yaml_documented :: "rule_ext \<Rightarrow> flow_fs \<Rightarrow> bool" where
  "yaml_documented X F \<longleftrightarrow> (\<forall>r data init. rx_yaml X (alert_yaml r) = Inr data \<longrightarrow>
     ff_yaml F data init = Inr (decode_flow (alert_yaml r) init))"

text \<open>The rule the engine gets to see for a rule of the backend.\<close>

definition engine_rule :: "AlertRule \<Rightarrow> FlowRule" where
  "engine_rule r =
     \<lparr>fr_Title = ar_Title r, fr_ID = ar_ID r, fr_Status = ar_Status r, fr_Enable = True,
      fr_Description = ar_Description r, fr_References = ar_References r, fr_Author = ar_Author r,
      fr_Date = ar_RuleDate r, fr_Modified = ar_RuleModified r, fr_Tags = ar_Tags r, fr_Logsource = ar_Logsource r,
      fr_Detection = \<lparr>fd_EventType = ad_EventType (ar_Detection r), fd_WinSize = ad_WinSize (ar_Detection r),
        fd_WinSizeTs = 0, fd_Sorted = ad_Sorted (ar_Detection r), fd_SigmaRules = ad_SigmaRules (ar_Detection r),
        fd_CacheKey = [], fd_MatchBy = ad_MatchBy (ar_Detection r), fd_Conditions = [], fd_MatchExpr = None\<rparr>,
      fr_Level = (if ar_Level r = 0 then [] else itoa (ar_Level r)), fr_UniqueFilter = ar_UniqueFilter r,
      fr_ExtFields = []\<rparr>"

lemma get_unless: "map_get (unless_zero z k v @ m) k' = (if k' = k \<and> \<not> z then Some v else map_get m k')"
  "map_get (unless_zero z k v) k' = (if k' = k \<and> \<not> z then Some v else None)"
  by (auto simp: unless_zero_def)

lemma decode_alert: "decode_flow (alert_yaml r) new_rule = engine_rule r"
  by (simp add: decode_flow_def engine_rule_def alert_yaml_def new_rule_def new_detection_def decode_detection_def
      detection_yaml_def text_at_def flag_at_def texts_at_def get_unless del: map_of_append)

text \<open>The engine reads what is on the disk.\<close>

definition engine_reads :: "flow_fs \<Rightarrow> (string \<Rightarrow> string option) \<Rightarrow> bool" where
  "engine_reads F files \<longleftrightarrow> (\<forall>p data. files p = Some data \<longrightarrow> ff_read F p = Inr data)"

definition loaded :: "go_ext \<Rightarrow> FlowRule \<Rightarrow> FlowRule list" where
  "loaded E r = (case accept_rule E [] r of None \<Rightarrow> [] | Some r' \<Rightarrow> [r'])"

lemma load_one:
  "\<lbrakk>ff_read F p = Inr data; ff_yaml F data new_rule = Inr r\<rbrakk> \<Longrightarrow> FlowRuleList E F [p] = Inr (loaded E r)"
  by (simp add: FlowRuleList_def loaded_def split: option.split)

lemma write_rule_ok:
  assumes "files_documented S disk" "result (write_rule X S d i doc) s = None"
  shows "\<exists>data. rx_yaml X doc = Inr data \<and> disk (after (write_rule X S d i doc) s) = (disk s)(rule_file d i := Some data)"
proof -
  have mk: "result (ru_mkdirAll S d) s = None" using assms(2) by (cases "result (ru_mkdirAll S d) s") (simp_all add: write_rule_def)
  obtain data where data: "rx_yaml X doc = Inr data" using assms(2) mk by (cases "rx_yaml X doc") (simp_all add: write_rule_def)
  let ?w = "ru_writeFile S (rule_file d i) data" and ?s1 = "after (ru_mkdirAll S d) s"
  have "result ?w ?s1 = None" using assms(2) mk data by (cases "result ?w ?s1") (simp_all add: write_rule_def)
  then have "disk (after ?w ?s1) = (disk s)(rule_file d i := Some data)"
    using files_written[OF assms(1)] files_after(1)[OF assms(1)] by simp
  then show ?thesis using mk data by (intro exI[of _ data]) (simp add: write_rule_def)
qed

lemma load_written:
  assumes "files_documented S disk" "yaml_documented X F" "CHR ''/'' \<notin> set i"
    and "result (write_rule X S (rule_dir RuleTypeFlow) i (alert_yaml r)) s = None"
    and "engine_reads F files"
    and "files (in_dir RuleTypeFlow (i @ ''.yml'')) =
      disk (after (write_rule X S (rule_dir RuleTypeFlow) i (alert_yaml r)) s) (in_dir RuleTypeFlow (i @ ''.yml''))"
  shows "FlowRuleList E F [in_dir RuleTypeFlow (i @ ''.yml'')] = Inr (loaded E (engine_rule r))"
proof -
  obtain data where data: "rx_yaml X (alert_yaml r) = Inr data"
    "disk (after (write_rule X S (rule_dir RuleTypeFlow) i (alert_yaml r)) s) = (disk s)(in_dir RuleTypeFlow (i @ ''.yml'') := Some data)"
    using write_rule_ok[OF assms(1,4)] rule_file_in_dir[of RuleTypeFlow i] assms(3) by auto
  have "ff_read F (in_dir RuleTypeFlow (i @ ''.yml'')) = Inr data" using assms(5,6) data(2) by (simp add: engine_reads_def)
  moreover have "ff_yaml F data new_rule = Inr (engine_rule r)"
    using assms(2) data(1) by (simp add: yaml_documented_def decode_alert)
  ultimately show ?thesis by (rule load_one)
qed

text \<open>The portal and the tasker write a flow rule alike, after a view of it of their own that does not depend on
  whether the rule is enabled.\<close>

lemma write_rule_db: "alerts_documented S db \<Longrightarrow> leaves db (write_rule X S d i doc)"
  unfolding write_rule_def by (auto intro!: leaves_bind leaves_ret alerts_leave split: option.split sum.split)

locale flow_rule_writer =
  fixes put :: "rule_ext \<Rightarrow> 's rule_io \<Rightarrow> AlertRule \<Rightarrow> ('s, string option) io"
    and shown :: "rule_ext \<Rightarrow> AlertRule \<Rightarrow> AlertRule"
  assumes writes: "put X S r = write_rule X S (rule_dir RuleTypeFlow) (ar_ID r) (alert_yaml (shown X r))"
    and shown_enable: "engine_rule (shown X (r\<lparr>ar_Enable := b\<rparr>)) = engine_rule (shown X r)"
begin

lemma keeps_table: "alerts_documented S db \<Longrightarrow> leaves db (put X S r)"
  unfolding writes by (rule write_rule_db)

lemma succeeds:
  "\<lbrakk>files_documented S disk; disk_works S; rx_yaml X (alert_yaml (shown X r)) = Inr data\<rbrakk> \<Longrightarrow> result (put X S r) s = None"
  unfolding writes by (rule write_rule_disk(2))

lemma reads_back:
  assumes "files_documented S disk" "yaml_documented X F" "CHR ''/'' \<notin> set (ar_ID r)" "result (put X S r) s = None"
    and "engine_reads F files" "files (in_dir RuleTypeFlow (ar_ID r @ ''.yml'')) = disk (after (put X S r) s) (in_dir RuleTypeFlow (ar_ID r @ ''.yml''))"
  shows "FlowRuleList E F [in_dir RuleTypeFlow (ar_ID r @ ''.yml'')] = Inr (loaded E (engine_rule (shown X r)))"
  using load_written[OF assms(1-3) _ assms(5)] assms(4,6) unfolding writes by simp

lemma reads_back_enabled:
  assumes "files_documented S disk" "yaml_documented X F" "CHR ''/'' \<notin> set (ar_ID r)" "result (put X S r) s = None"
    and "engine_reads F files" "files (in_dir RuleTypeFlow (ar_ID r @ ''.yml'')) = disk (after (put X S r) s) (in_dir RuleTypeFlow (ar_ID r @ ''.yml''))"
  shows "FlowRuleList E F [in_dir RuleTypeFlow (ar_ID r @ ''.yml'')] = Inr (loaded E (engine_rule (shown X (r\<lparr>ar_Enable := True\<rparr>))))"
  using reads_back[OF assms] by (simp add: shown_enable)

end

interpretation portal_writer: flow_rule_writer WriteAlertRuleToFile alert_copy
  by unfold_locales (simp_all add: WriteAlertRuleToFile_def engine_rule_def alert_copy_def Let_def)

interpretation tasker_writer: flow_rule_writer writeAlertRuleToFile "\<lambda>X r. r"
  by unfold_locales (simp_all add: writeAlertRuleToFile_def engine_rule_def)

text \<open>C39: a flow rule the backend has written is the rule the engine loads: every field the two sides share
  arrives, a level as its digit, but \<open>enable\<close> arrives as true whatever it was, and the grouping of the engine,
  which the backend does not know, is the default one.\<close>

theorem written_rule_reads_back:
  assumes "files_documented S disk" "yaml_documented X F" "CHR ''/'' \<notin> set (ar_ID r)"
    and "result (writeAlertRuleToFile X S r) s = None" "engine_reads F (disk (after (writeAlertRuleToFile X S r) s))"
  shows "FlowRuleList E F [in_dir RuleTypeFlow (ar_ID r @ ''.yml'')] =
    Inr (loaded E
     \<lparr>fr_Title = ar_Title r, fr_ID = ar_ID r, fr_Status = ar_Status r, fr_Enable = True,
      fr_Description = ar_Description r, fr_References = ar_References r, fr_Author = ar_Author r,
      fr_Date = ar_RuleDate r, fr_Modified = ar_RuleModified r, fr_Tags = ar_Tags r, fr_Logsource = ar_Logsource r,
      fr_Detection = \<lparr>fd_EventType = ad_EventType (ar_Detection r), fd_WinSize = ad_WinSize (ar_Detection r),
        fd_WinSizeTs = 0, fd_Sorted = ad_Sorted (ar_Detection r), fd_SigmaRules = ad_SigmaRules (ar_Detection r),
        fd_CacheKey = [], fd_MatchBy = ad_MatchBy (ar_Detection r), fd_Conditions = [], fd_MatchExpr = None\<rparr>,
      fr_Level = (if ar_Level r = 0 then [] else itoa (ar_Level r)), fr_UniqueFilter = ar_UniqueFilter r,
      fr_ExtFields = []\<rparr>)"
  using tasker_writer.reads_back[OF assms refl] by (simp add: engine_rule_def)

text \<open>What follows the writing of a rule does not touch its file or the table.\<close>

lemma version_path: "path_join [path_join [ROOT_PATH, ''rules''], ''version.txt''] \<noteq> in_dir RuleTypeFlow n"
proof -
  have "path_join [path_join [ROOT_PATH, ''rules''], ''version.txt''] = ''/home/adadmin/rules/version.txt''" by code_simp
  then show ?thesis by (simp add: in_dir_def RuleTypeFlow_def)
qed

lemma after_write_disk:
  assumes "files_documented S disk"
  shows "disk (after (after_write X S w) s) (in_dir RuleTypeFlow n) = disk (after w s) (in_dir RuleTypeFlow n)"
  using assms files_touch(1)[OF assms, unfolded touches_def] version_path[of n]
  by (simp add: after_write_def GenerateVersionFile_def version_file_def SendReloadSignalToEngine_def Let_def
      files_after[OF assms] split: option.split)

lemma after_write_db: "alerts_documented S db \<Longrightarrow> leaves db w \<Longrightarrow> leaves db (after_write X S w)"
  unfolding after_write_def GenerateVersionFile_def version_file_def SendReloadSignalToEngine_def Let_def
  by (auto intro!: leaves_bind leaves_ret alerts_leave split: option.split)

lemma alert_copy_ID [simp]: "ar_ID (alert_copy X r) = ar_ID r"
  by (simp add: alert_copy_def Let_def)

text \<open>The rule in the database after an update.\<close>

definition updated_alert :: "go_ext \<Rightarrow> 's rule_io \<Rightarrow> AlertRuleReq \<Rightarrow> 's \<Rightarrow> AlertRule \<Rightarrow> AlertRule" where
  "updated_alert E S q s old =
     apply_alert_update ((alert_updates E q)\<lparr>au_update_tm := Some (result (ru_now S) s)\<rparr>) old"

lemma updated_alert_found:
  assumes doc: "alerts_documented S db" and old: "db s (aq_ID q) = Some old"
    and ok: "result (UpdateAlertRule E X S q) s = Reply ()"
  shows "result (server_UpdateAlertRule S (aq_ID q) (alert_updates E q)) s = None"
    "db (after (server_UpdateAlertRule S (aq_ID q) (alert_updates E q)) s) (aq_ID q) = Some (updated_alert E S q s old)"
    "result (ru_findAlert S (aq_ID q)) (after (server_UpdateAlertRule S (aq_ID q) (alert_updates E q)) s) = Inr (updated_alert E S q s old)"
proof -
  let ?u = "(alert_updates E q)\<lparr>au_update_tm := Some (result (ru_now S) s)\<rparr>" and ?s1 = "after (ru_now S) s"
  show up: "result (server_UpdateAlertRule S (aq_ID q) (alert_updates E q)) s = None"
    using ok by (auto simp: UpdateAlertRule_def split: option.splits)
  then have "result (ru_updateAlert S (aq_ID q) ?u) ?s1 = None" by (simp add: server_UpdateAlertRule_def)
  from alerts_update[OF doc this]
  show db2: "db (after (server_UpdateAlertRule S (aq_ID q) (alert_updates E q)) s) (aq_ID q) = Some (updated_alert E S q s old)"
    using alerts_after(2)[OF doc] old by (simp add: server_UpdateAlertRule_def updated_alert_def)
  show "result (ru_findAlert S (aq_ID q)) (after (server_UpdateAlertRule S (aq_ID q) (alert_updates E q)) s) = Inr (updated_alert E S q s old)"
    by (rule alerts_find(1)[OF doc db2])
qed

text \<open>C5: switching a flow rule off has no effect: when the portal has answered success to an update that
  disables a rule, the rule is disabled in the database, and its file, loaded by the engine, gives the same rules
  as if it were enabled.\<close>

theorem disabling_has_no_effect:
  assumes doc: "files_documented S disk" "disk_works S" "alerts_documented S db" "yaml_documented X F"
    and old: "db s (aq_ID q) = Some old" "ar_ID old = aq_ID q" "CHR ''/'' \<notin> set (aq_ID q)"
    and off: "\<not> aq_Enable q" and enc: "rx_yaml X (alert_yaml (alert_copy X (updated_alert E S q s old))) = Inr data"
    and ok: "result (UpdateAlertRule E X S q) s = Reply ()"
    and reads: "engine_reads F (disk (after (UpdateAlertRule E X S q) s))"
  shows "\<exists>r. db (after (UpdateAlertRule E X S q) s) (aq_ID q) = Some r \<and> \<not> ar_Enable r \<and>
    FlowRuleList E F [in_dir RuleTypeFlow (aq_ID q @ ''.yml'')] =
      Inr (loaded E (engine_rule (alert_copy X (r\<lparr>ar_Enable := True\<rparr>))))"
proof -
  let ?i = "aq_ID q" and ?r = "updated_alert E S q s old" and ?w = "WriteAlertRuleToFile X S (updated_alert E S q s old)"
  note upd = updated_alert_found[OF doc(3) old(1) ok]
  let ?s3 = "after (ru_findAlert S ?i) (after (server_UpdateAlertRule S ?i (alert_updates E q)) s)"
  have run: "after (UpdateAlertRule E X S q) s = after (after_write X S ?w) ?s3"
    using upd(1,3) by (simp add: UpdateAlertRule_def)
  have r: "\<not> ar_Enable ?r" "ar_ID ?r = ?i"
    using off old(2) by (simp_all add: updated_alert_def apply_alert_update_def alert_updates_def)
  have "leaves db (after_write X S ?w)" by (intro after_write_db portal_writer.keeps_table doc(3))
  then have dbr: "db (after (UpdateAlertRule E X S q) s) ?i = Some ?r"
    using run leavesD alerts_after(1)[OF doc(3)] upd(2) by metis
  have "result ?w ?s3 = None" using doc(1,2) enc by (rule portal_writer.succeeds)
  then have "FlowRuleList E F [in_dir RuleTypeFlow (?i @ ''.yml'')] = Inr (loaded E (engine_rule (alert_copy X (?r\<lparr>ar_Enable := True\<rparr>))))"
    using portal_writer.reads_back_enabled[OF doc(1,4) _ _ reads, of ?r ?s3 E] r(2) old(3) run after_write_disk[OF doc(1)] by simp
  then show ?thesis using dbr r(1) by blast
qed

section \<open>A concrete world\<close>

text \<open>Files and flow rules as association lists; \<open>a\<close> and \<open>v\<close> are the answers to the queries of all rules, and
  \<open>z\<close> the entries of every rule package.\<close>

record rule_world =
  rw_files :: "(string \<times> string) list"
  rw_alerts :: "(string \<times> AlertRule) list"

definition put_file :: "string \<Rightarrow> string \<Rightarrow> (rule_world, string option) io" where
  "put_file p d = State (\<lambda>s. (None, s\<lparr>rw_files := (p, d) # rw_files s\<rparr>))"

definition world_io :: "zip_file list \<Rightarrow> string + AlertRule list \<Rightarrow> AlertActivityRule list \<Rightarrow> rule_world rule_io" where
  "world_io z a v =
    \<lparr>ru_mkdirAll = (\<lambda>_. ret None), ru_stat = (\<lambda>_. ret None),
     ru_readFile = (\<lambda>p. State (\<lambda>s. (case map_get (rw_files s) p of Some d \<Rightarrow> Inr d | None \<Rightarrow> Inl NotExist, s))),
     ru_writeFile = put_file, ru_openTrunc = (\<lambda>p. put_file p []),
     ru_append = (\<lambda>p d. State (\<lambda>s. (None, s\<lparr>rw_files := (p, (case map_get (rw_files s) p of Some c \<Rightarrow> c | None \<Rightarrow> []) @ d) # rw_files s\<rparr>))),
     ru_remove = (\<lambda>p. State (\<lambda>s. (None, s\<lparr>rw_files := filter (\<lambda>f. fst f \<noteq> p) (rw_files s)\<rparr>))),
     ru_removeAll = (\<lambda>_. ret ()),
     ru_readDir = (\<lambda>d. State (\<lambda>s. (Inr (map (\<lambda>f. (drop (Suc (length d)) (fst f), False)) (filter (\<lambda>f. has_prefix (fst f) (d @ ''/'')) (rw_files s))), s))),
     ru_glob = (\<lambda>_. ret (Inr [])), ru_walk = (\<lambda>_. ret []), ru_zipOpen = (\<lambda>_. ret (Inr z)),
     ru_zipAdd = (\<lambda>_ _. ret None), ru_zipWrite = (\<lambda>_ _ _. ret None), ru_http = (\<lambda>_. ret (Inl ''offline'')),
     ru_publish = (\<lambda>_ _. ret None), ru_now = ret 0, ru_newID = ret ''flow-1'', ru_getenv = (\<lambda>_. ret []),
     ru_systemInfo = ret None,
     ru_findAlert = (\<lambda>i. State (\<lambda>s. (case map_get (rw_alerts s) i of Some r \<Rightarrow> Inr r | None \<Rightarrow> Inl ''not found'', s))),
     ru_allAlerts = ret a,
     ru_insertAlert = (\<lambda>r. State (\<lambda>s. (None, s\<lparr>rw_alerts := (ar_ID r, stored_alert r) # rw_alerts s\<rparr>))),
     ru_updateAlert = (\<lambda>i u. State (\<lambda>s. (None, case map_get (rw_alerts s) i of None \<Rightarrow> s
        | Some r \<Rightarrow> s\<lparr>rw_alerts := (i, apply_alert_update u r) # rw_alerts s\<rparr>))),
     ru_removeAlert = (\<lambda>_. ret None), ru_countUses = (\<lambda>_. ret (Inr 0)), ru_findActivity = (\<lambda>_. ret (Inl ''not found'')),
     ru_allActivities = ret (Inr v), ru_insertActivity = (\<lambda>_. ret None), ru_updateActivity = (\<lambda>_ _. ret None),
     ru_removeActivity = (\<lambda>_. ret None)\<rparr>"

abbreviation world_disk :: "rule_world \<Rightarrow> string \<Rightarrow> string option" where
  "world_disk s \<equiv> map_get (rw_files s)"

abbreviation world_db :: "rule_world \<Rightarrow> string \<Rightarrow> AlertRule option" where
  "world_db s \<equiv> map_get (rw_alerts s)"

lemma map_of_remove: "map_of (filter (\<lambda>f. fst f \<noteq> p) xs) q = (if q = p then None else map_of xs q)"
  by (induction xs) auto

lemma world_files: "files_documented (world_io z a v) world_disk"
  by (simp add: files_documented_def leaves_def touches_def world_io_def put_file_def map_of_remove split: option.split)

lemma world_works: "disk_works (world_io z a v)"
  by (simp add: disk_works_def world_io_def put_file_def)

lemma world_alerts: "alerts_documented (world_io z a v) world_db"
  by (auto simp: alerts_documented_def leaves_def world_io_def put_file_def fun_eq_iff split: option.split)

lemma in_dir_prefix: "t \<in> set rule_types \<Longrightarrow> in_dir t n = rule_dir t @ ''/'' @ n"
  using rule_dir_parts[of t] rule_types_proper[of t] by (simp add: in_dir_def)

lemma world_listing: "listing_documented (world_io z a v) world_disk"
proof -
  have "(n, False) \<in> (\<lambda>f. (drop (Suc (length (rule_dir t))) (fst f), False)) ` {f \<in> set (rw_files s). has_prefix (fst f) (rule_dir t @ ''/'')}"
    if "t \<in> set rule_types" "world_disk s (in_dir t n) = Some d" for t n s d
    using that map_of_SomeD[OF that(2)] in_dir_prefix[OF that(1), of n]
    by (intro image_eqI[of _ _ "(in_dir t n, d)"]) (simp_all add: has_prefix_iff)
  then show ?thesis by (auto simp: listing_documented_def world_io_def)
qed

text \<open>A flow rule, an encoder that writes its documents, and a decoder that reads them back.\<close>

definition stored_rule :: AlertRule where
  "stored_rule =
    \<lparr>ar_ID = ''flow-1'', ar_Title = ''brute force'', ar_Description = [], ar_Enable = True, ar_Level = 4, ar_Status = ''stable'',
     ar_Tags = [''TA0006''], ar_Logsource = ''flow'',
     ar_Detection = \<lparr>ad_EventType = ''count'', ad_WinSize = ''5m'', ad_Sorted = False, ad_SigmaRules = [''winlog-1''],
       ad_MatchBy = ''$s1._count >= 3''\<rparr>,
     ar_Type = [], ar_RuleOrigin = ''custom'', ar_References = [], ar_Suggestion = [], ar_Author = [], ar_AutoBlock = False,
     ar_AttackFlow = no_attack_flow, ar_UniqueFilter = [], ar_RuleDate = [], ar_RuleModified = [],
     ar_CreateTm = 0, ar_UpdateTm = 0\<rparr>"

definition rules_ext :: "AlertRule \<Rightarrow> rule_ext" where
  "rules_ext r =
    \<lparr>rx_yaml = (\<lambda>doc. if doc = alert_yaml r then Inr ''rule'' else Inl ''not encoded''),
     rx_yaml_alert = (\<lambda>_. Inr stored_rule), rx_yaml_activity = (\<lambda>_. Inl ''no rule''), rx_yaml_detection = (\<lambda>_. Inr []),
     rx_json_version = (\<lambda>_. Inl ''no version''), rx_json_desc = (\<lambda>_. Inl ''no descriptor''),
     rx_detection_json = (\<lambda>_. Inr ''{}''), rx_alert_json = (\<lambda>_. Inr ''{}''), rx_activity_detection_json = (\<lambda>_. Inr ''{}''),
     rx_activity_json = (\<lambda>_. Inr ''{}''), rx_upload_json = (\<lambda>_. Inr ''{}''), rx_format = (\<lambda>_ _. ''1970/01/01''),
     rx_time_parse = (\<lambda>_ _. None), rx_request_error = (\<lambda>_. None), rx_package_url = Inr, rx_build_version = ''1.0'',
     rx_trait = []\<rparr>"

definition version_text :: string where
  "version_text = ''version: '' @ itoa 0 @ [CHR 0x0A] @ ''build_time: '' @ ''1970/01/01'' @ [CHR 0x0A]"

definition rules_fs :: "AlertRule \<Rightarrow> flow_fs" where
  "rules_fs r =
    \<lparr>ff_walk = (\<lambda>_. ([], None)), ff_read = (\<lambda>p. Inr (if p = in_dir RuleTypeFlow ''flow-1.yml'' then ''rule'' else version_text)),
     ff_yaml = (\<lambda>data init. if data = ''rule'' then Inr (decode_flow (alert_yaml r) init) else Inl ''no rule'')\<rparr>"

lemma rules_yaml: "yaml_documented (rules_ext r) (rules_fs r)"
  by (simp add: yaml_documented_def rules_ext_def rules_fs_def)

text \<open>A package with a harmless entry and one that tries to leave.\<close>

definition hostile_zip :: "zip_file list" where
  "hostile_zip = [\<lparr>zf_Name = ''r1/desc.json'', zf_IsDir = False, zf_Data = Inr (''{}'', None)\<rparr>,
     \<lparr>zf_Name = ''../../../../etc/passwd'', zf_IsDir = False, zf_Data = Inr (''x'', None)\<rparr>]"

definition empty_world :: rule_world where
  "empty_world = \<lparr>rw_files = [], rw_alerts = []\<rparr>"

theorem zip_extraction_confined_witness:
  "world_disk (after (extractAndValidateZIP (world_io hostile_zip (Inr []) []) ''latest.zip'' ''/home/adadmin/download/rules'')
     (empty_world\<lparr>rw_files := [(''/etc/passwd'', ''root'')]\<rparr>)) ''/etc/passwd'' = Some ''root''"
proof -
  have "path_clean ''/home/adadmin/download/rules'' = ''/home/adadmin/download/rules''" by code_simp
  then have "\<not> below (path_clean ''/home/adadmin/download/rules'') ''/etc/passwd''" by (simp add: below_def)
  from zip_extraction_confined[OF world_files _ this, of hostile_zip "Inr []" "[]" "''latest.zip''"
      "empty_world\<lparr>rw_files := [(''/etc/passwd'', ''root'')]\<rparr>"]
  show ?thesis by (simp add: is_rooted_def)
qed

text \<open>One flow rule, and a left-over file that goes away.\<close>

definition const_ext :: rule_ext where
  "const_ext = (rules_ext stored_rule)\<lparr>rx_yaml := (\<lambda>_. Inr ''rule'')\<rparr>"

definition old_world :: rule_world where
  "old_world = \<lparr>rw_files = [(in_dir RuleTypeFlow ''flow-0.yml'', ''old'')], rw_alerts = [(''flow-1'', stored_rule)]\<rparr>"

lemma rule_name_yml: "CHR ''/'' \<notin> set i \<Longrightarrow> rule_name (i @ ''.yml'')"
  by (simp add: rule_name_def proper_yml has_suffix_def)

theorem rule_files_mirror_database_witness:
  "world_disk (after (writeAllRulesToDisk const_ext (world_io [] (Inr [stored_rule]) [])) old_world) (in_dir RuleTypeFlow ''flow-1.yml'') = Some ''rule'' \<and>
   world_disk (after (writeAllRulesToDisk const_ext (world_io [] (Inr [stored_rule]) [])) old_world) (in_dir RuleTypeFlow ''flow-0.yml'') = None"
proof -
  let ?S = "world_io [] (Inr [stored_rule]) []"
  have db: "result (ru_allAlerts ?S) s = Inr [stored_rule]" "result (ru_allActivities ?S) s = Inr []" for s
    by (simp_all add: world_io_def)
  have enc: "rx_yaml const_ext doc = Inr ((\<lambda>_. ''rule'') doc)" for doc by (simp add: const_ext_def)
  have ids: "distinct (map ar_ID [stored_rule])" "distinct (map vr_ID [])"
    "\<forall>i \<in> set (map ar_ID [stored_rule] @ map vr_ID []). CHR ''/'' \<notin> set i" by (simp_all add: stored_rule_def)
  note th = rule_files_mirror_database[OF world_files world_listing world_works db enc ids, of _ RuleTypeWinLog old_world]
  show ?thesis using th[OF rule_name_yml[of "''flow-1''"]] th[OF rule_name_yml[of "''flow-0''"]] by (simp add: stored_rule_def)
qed

theorem failed_query_empties_rules_witness:
  "result (writeAllRulesToDisk const_ext (world_io [] (Inl ''timeout'') [])) old_world = Some ''failed to query alert rules: timeout'' \<and>
   world_disk (after (writeAllRulesToDisk const_ext (world_io [] (Inl ''timeout'') [])) old_world) (in_dir RuleTypeFlow ''flow-0.yml'') = None"
  using failed_query_empties_rules[OF world_files world_listing world_works _ rule_name_yml[of "''flow-0''"], of "[]" "Inl ''timeout''" "[]" "''timeout''" RuleTypeFlow const_ext old_world]
  by (simp add: world_io_def)





lemma stored_rule_file: "rule_file (rule_dir RuleTypeFlow) ''flow-1'' = in_dir RuleTypeFlow ''flow-1.yml''"
  using rule_file_in_dir[of RuleTypeFlow "''flow-1''"] by simp

lemma rules_fs_reads: "engine_reads (rules_fs r) (world_disk s)"
  if "\<forall>f \<in> set (rw_files s). snd f = (if fst f = in_dir RuleTypeFlow ''flow-1.yml'' then ''rule'' else version_text)"
  using that map_of_SomeD by (fastforce simp: engine_reads_def rules_fs_def)

theorem written_rule_reads_back_witness:
  "\<forall>E. FlowRuleList E (rules_fs stored_rule) [in_dir RuleTypeFlow ''flow-1.yml''] = Inr (loaded E (engine_rule stored_rule))"
proof
  fix E
  let ?S = "world_io [] (Inr []) []" and ?X = "rules_ext stored_rule"
  have ident: "ar_ID stored_rule = ''flow-1''" by (simp add: stored_rule_def)
  have y: "rx_yaml ?X (alert_yaml stored_rule) = Inr ''rule''" by (simp add: rules_ext_def)
  have 1: "result (writeAlertRuleToFile ?X ?S stored_rule) empty_world = None"
    by (simp add: writeAlertRuleToFile_def write_rule_def y world_io_def put_file_def)
  have "engine_reads (rules_fs stored_rule) (world_disk (after (writeAlertRuleToFile ?X ?S stored_rule) empty_world))"
    by (rule rules_fs_reads) (simp add: writeAlertRuleToFile_def write_rule_def y ident stored_rule_file world_io_def put_file_def empty_world_def)
  from written_rule_reads_back[OF world_files rules_yaml _ 1 this, of E]
  show "FlowRuleList E (rules_fs stored_rule) [in_dir RuleTypeFlow ''flow-1.yml''] = Inr (loaded E (engine_rule stored_rule))"
    by (simp add: ident engine_rule_def)
qed

text \<open>The request that disables the rule and leaves the rest as it is.\<close>

definition disable_request :: AlertRuleReq where
  "disable_request =
    \<lparr>aq_ID = ''flow-1'', aq_Title = [], aq_Description = [], aq_Enable = False, aq_Level = 0, aq_Status = [], aq_Tags = [],
     aq_Logsource = [], aq_Detection = None, aq_Type = [], aq_RuleOrigin = [], aq_References = [], aq_Suggestion = [],
     aq_Author = [], aq_AutoBlock = False, aq_AttackFlow = None, aq_UniqueFilter = []\<rparr>"

definition disabled_rule :: AlertRule where
  "disabled_rule = stored_rule\<lparr>ar_Enable := False, ar_RuleDate := ''1970/01/01'', ar_RuleModified := ''1970/01/01''\<rparr>"

lemma disabled_copy:
  "alert_copy (rules_ext r) (updated_alert E (world_io z a v) disable_request s stored_rule) = disabled_rule"
  by (simp add: alert_copy_def Let_def updated_alert_def apply_alert_update_def alert_updates_def nonempty_def disable_request_def
      stored_rule_def disabled_rule_def rules_ext_def world_io_def zero_time_def)

lemma handler_files:
  "rw_files (after (UpdateAlertRule E (rules_ext disabled_rule) (world_io [] (Inr []) []) disable_request)
     (empty_world\<lparr>rw_alerts := [(''flow-1'', stored_rule)]\<rparr>)) =
   [(path_join [path_join [ROOT_PATH, ''rules''], ''version.txt''], version_text), (in_dir RuleTypeFlow ''flow-1.yml'', ''rule'')]"
proof -
  let ?S = "world_io [] (Inr []) []" and ?X = "rules_ext disabled_rule" and ?s = "empty_world\<lparr>rw_alerts := [(''flow-1'', stored_rule)]\<rparr>"
  let ?r = "updated_alert E ?S disable_request ?s stored_rule"
  have r: "ar_ID ?r = ''flow-1''" "rx_yaml ?X (alert_yaml (alert_copy ?X ?r)) = Inr ''rule''"
    unfolding disabled_copy by (simp_all add: updated_alert_def apply_alert_update_def stored_rule_def rules_ext_def)
  have ok: "result (UpdateAlertRule E ?X ?S disable_request) ?s = Reply ()"
    by (simp add: UpdateAlertRule_def server_UpdateAlertRule_def world_io_def)
  have q: "aq_ID disable_request = ''flow-1''" by (simp add: disable_request_def)
  have u: "after (server_UpdateAlertRule ?S ''flow-1'' (alert_updates E disable_request)) ?s = ?s\<lparr>rw_alerts := (''flow-1'', ?r) # rw_alerts ?s\<rparr>"
    by (simp add: server_UpdateAlertRule_def updated_alert_def world_io_def)
  note f = updated_alert_found[OF world_alerts _ ok, of stored_rule, unfolded q]
  show ?thesis
    using f(1) f(3) u r
    by (simp add: UpdateAlertRule_def q after_write_def WriteAlertRuleToFile_def write_rule_def stored_rule_file
        GenerateVersionFile_def version_file_def SendReloadSignalToEngine_def Let_def version_text_def)
      (simp add: world_io_def put_file_def rules_ext_def empty_world_def time_unix_def stored_rule_file)
qed

theorem disabling_has_no_effect_witness:
  "\<forall>E. \<exists>r. world_db (after (UpdateAlertRule E (rules_ext disabled_rule) (world_io [] (Inr []) []) disable_request)
       (empty_world\<lparr>rw_alerts := [(''flow-1'', stored_rule)]\<rparr>)) ''flow-1'' = Some r \<and> \<not> ar_Enable r \<and>
     FlowRuleList E (rules_fs disabled_rule) [in_dir RuleTypeFlow ''flow-1.yml''] =
       Inr (loaded E (engine_rule (alert_copy (rules_ext disabled_rule) (r\<lparr>ar_Enable := True\<rparr>))))"
proof
  fix E
  let ?S = "world_io [] (Inr []) []" and ?X = "rules_ext disabled_rule" and ?s = "empty_world\<lparr>rw_alerts := [(''flow-1'', stored_rule)]\<rparr>"
  let ?r = "updated_alert E ?S disable_request ?s stored_rule"
  have q: "aq_ID disable_request = ''flow-1''" "ar_ID stored_rule = aq_ID disable_request" "\<not> aq_Enable disable_request" "CHR ''/'' \<notin> set (aq_ID disable_request)"
    by (simp_all add: disable_request_def stored_rule_def)
  have old: "world_db ?s (aq_ID disable_request) = Some stored_rule" by (simp add: q(1))
  have enc: "rx_yaml ?X (alert_yaml (alert_copy ?X ?r)) = Inr ''rule''" unfolding disabled_copy by (simp add: rules_ext_def)
  have ok: "result (UpdateAlertRule E ?X ?S disable_request) ?s = Reply ()"
    by (simp add: UpdateAlertRule_def server_UpdateAlertRule_def world_io_def)
  have reads: "engine_reads (rules_fs disabled_rule) (world_disk (after (UpdateAlertRule E ?X ?S disable_request) ?s))"
    by (rule rules_fs_reads) (simp add: handler_files version_path)
  show "\<exists>r. world_db (after (UpdateAlertRule E ?X ?S disable_request) ?s) ''flow-1'' = Some r \<and> \<not> ar_Enable r \<and>
     FlowRuleList E (rules_fs disabled_rule) [in_dir RuleTypeFlow ''flow-1.yml''] = Inr (loaded E (engine_rule (alert_copy ?X (r\<lparr>ar_Enable := True\<rparr>))))"
    using disabling_has_no_effect[OF world_files world_works world_alerts rules_yaml old q(2,4,3) enc ok reads] by (simp add: q(1))
qed

end
