(* ===== verification/Infra_Otp.thy ===== *)
theory Infra_Otp
  imports Engine_Store "HOL-Library.Word"
begin

text \<open>
  One-time passwords (\<open>src/infra/otp\<close>) and object SIDs (\<open>src/infra/ldap/object_sid.go\<close>). Bytes are
  8-bit words, a Go \<open>int\<close> is an integer with the wrap-around written out. The HMAC and the base32 decoder
  are arguments.
\<close>

unbundle bit_operations_syntax

section \<open>One-time passwords\<close>

text \<open>\<open>Itob\<close>: the loop fills the array from its last byte; \<open>>>\<close> on a signed integer rounds down.\<close>

fun itob_loop :: "nat \<Rightarrow> int \<Rightarrow> 8 word list \<Rightarrow> 8 word list" where
  "itob_loop 0 n bs = bs"
| "itob_loop (Suc i) n bs = itob_loop i (n div 256) (word_of_int (n mod 256) # bs)"

definition Itob :: "int \<Rightarrow> 8 word list" where
  "Itob n = itob_loop 8 n []"

record otp =
  otp_secret :: string
  otp_digits :: int
  otp_hash :: string

definition NewOTP :: "string \<Rightarrow> int \<Rightarrow> string option \<Rightarrow> otp" where
  "NewOTP secret digits hasher = \<lparr>otp_secret = secret, otp_digits = digits,
     otp_hash = (case hasher of None \<Rightarrow> ''sha1'' | Some h \<Rightarrow> h)\<rparr>"

text \<open>\<open>byteSecret\<close> pads the stored secret; \<open>b32\<close> is \<open>base32.StdEncoding.DecodeString\<close>.\<close>

definition pad_secret :: "string \<Rightarrow> string" where
  "pad_secret s = (let m = length s mod 8 in if m \<noteq> 0 then s @ replicate (8 - m) (CHR ''='') else s)"

definition byteSecret :: "(string \<Rightarrow> string + 8 word list) \<Rightarrow> otp \<Rightarrow> (string + 8 word list) \<times> otp" where
  "byteSecret b32 ob = (let ob1 = ob\<lparr>otp_secret := pad_secret (otp_secret ob)\<rparr> in (b32 (otp_secret ob1), ob1))"

text \<open>The dynamic truncation of the HMAC; the indices are those of the source.\<close>

definition truncate_at :: "8 word list \<Rightarrow> nat \<Rightarrow> int" where
  "truncate_at h k =
     push_bit 24 (uint (h ! k) AND 0x7f) OR push_bit 16 (uint (h ! (k + 1)))
     OR push_bit 8 (uint (h ! (k + 2))) OR uint (h ! (k + 3))"

definition hmac_offset :: "8 word list \<Rightarrow> nat" where
  "hmac_offset h = unat (last h AND 0xf)"

text \<open>\<open>int(math.Pow10(n))\<close> is 0 for a negative \<open>n\<close> and exact up to \<open>10 ^ 18\<close>; beyond the range of
  \<open>int\<close> the conversion is left to the implementation (\<open>conv\<close>).\<close>

definition pow10_int :: "(int \<Rightarrow> int) \<Rightarrow> int \<Rightarrow> int" where
  "pow10_int conv n = (if n < 0 then 0 else if n \<le> 18 then 10 ^ nat n else conv n)"

text \<open>\<open>fmt.Sprintf(\"%0nd\", code)\<close>, for a width that is not negative.\<close>

definition zero_padded :: "nat \<Rightarrow> int \<Rightarrow> string" where
  "zero_padded w code = (let s = itoa code in
     if code < 0 then CHR ''-'' # replicate (w - length s) (CHR ''0'') @ drop 1 s
     else replicate (w - length s) (CHR ''0'') @ s)"

text \<open>\<open>GenerateOTP\<close>: \<open>hmac\<close> is the HMAC of the configured digest on key and message. The indices are
  out of range for a digest that is too short, and the modulus is zero for negative \<open>digits\<close>.\<close>

definition GenerateOTP ::
  "(string \<Rightarrow> string + 8 word list) \<Rightarrow> (string \<Rightarrow> 8 word list \<Rightarrow> 8 word list \<Rightarrow> 8 word list) \<Rightarrow> (int \<Rightarrow> int)
   \<Rightarrow> otp \<Rightarrow> int \<Rightarrow> (string + string) outcome" where
  "GenerateOTP b32 hmac conv ob input =
     (if input < 0 then Done (Inl ''otp input must be positive integer'')
      else case fst (byteSecret b32 ob) of
        Inl e \<Rightarrow> Done (Inl e)
      | Inr key \<Rightarrow>
          let h = hmac (otp_hash ob) key (Itob input) in
          if h = [] \<or> length h \<le> hmac_offset h + 3 then Panic ''index out of range''
          else let m = pow10_int conv (otp_digits ob) in
            if m = 0 then Panic ''integer divide by zero''
            else Done (Inr (zero_padded (nat (otp_digits ob)) (truncate_at h (hmac_offset h) mod m))))"

definition generateOTP ::
  "(string \<Rightarrow> string + 8 word list) \<Rightarrow> (string \<Rightarrow> 8 word list \<Rightarrow> 8 word list \<Rightarrow> 8 word list) \<Rightarrow> (int \<Rightarrow> int)
   \<Rightarrow> otp \<Rightarrow> int \<Rightarrow> string outcome" where
  "generateOTP b32 hmac conv ob input = (case GenerateOTP b32 hmac conv ob input of
     Panic p \<Rightarrow> Panic p | Done (Inl _) \<Rightarrow> Done [] | Done (Inr code) \<Rightarrow> Done code)"

definition HOTP_Verify ::
  "(string \<Rightarrow> string + 8 word list) \<Rightarrow> (string \<Rightarrow> 8 word list \<Rightarrow> 8 word list \<Rightarrow> 8 word list) \<Rightarrow> (int \<Rightarrow> int)
   \<Rightarrow> otp \<Rightarrow> string \<Rightarrow> int \<Rightarrow> bool outcome" where
  "HOTP_Verify b32 hmac conv ob code counter = (case generateOTP b32 hmac conv ob counter of
     Panic p \<Rightarrow> Panic p | Done c \<Rightarrow> Done (code = c))"

text \<open>Go's integer division truncates; a time stamp and an interval may be negative.\<close>

definition quot :: "int \<Rightarrow> int \<Rightarrow> int" where
  "quot a b = (if (a < 0) = (b < 0) then \<bar>a\<bar> div \<bar>b\<bar> else - (\<bar>a\<bar> div \<bar>b\<bar>))"

definition TOTP_At ::
  "(string \<Rightarrow> string + 8 word list) \<Rightarrow> (string \<Rightarrow> 8 word list \<Rightarrow> 8 word list \<Rightarrow> 8 word list) \<Rightarrow> (int \<Rightarrow> int)
   \<Rightarrow> otp \<Rightarrow> int \<Rightarrow> int \<Rightarrow> string outcome" where
  "TOTP_At b32 hmac conv ob interval timestamp =
     (if interval = 0 then Panic ''integer divide by zero''
      else generateOTP b32 hmac conv ob (quot timestamp interval))"

definition TOTP_Verify ::
  "(string \<Rightarrow> string + 8 word list) \<Rightarrow> (string \<Rightarrow> 8 word list \<Rightarrow> 8 word list \<Rightarrow> 8 word list) \<Rightarrow> (int \<Rightarrow> int)
   \<Rightarrow> otp \<Rightarrow> int \<Rightarrow> string \<Rightarrow> int \<Rightarrow> bool outcome" where
  "TOTP_Verify b32 hmac conv ob interval code timestamp = (case TOTP_At b32 hmac conv ob interval timestamp of
     Panic p \<Rightarrow> Panic p | Done c \<Rightarrow> Done (code = c))"

text \<open>\<open>NowWithExpiration\<close>, at the Unix time \<open>now\<close>.\<close>

definition NowWithExpiration ::
  "(string \<Rightarrow> string + 8 word list) \<Rightarrow> (string \<Rightarrow> 8 word list \<Rightarrow> 8 word list \<Rightarrow> 8 word list) \<Rightarrow> (int \<Rightarrow> int)
   \<Rightarrow> otp \<Rightarrow> int \<Rightarrow> int \<Rightarrow> (string \<times> int) outcome" where
  "NowWithExpiration b32 hmac conv ob interval now =
     (if interval = 0 then Panic ''integer divide by zero''
      else let code = quot now interval; expiry = wrap64 ((code + 1) * interval) in
        case generateOTP b32 hmac conv ob code of
          Panic p \<Rightarrow> Panic p
        | Done c \<Rightarrow> Done (c, expiry))"

text \<open>\<open>BuildURI\<close>; \<open>esc\<close> is \<open>url.QueryEscape\<close>, \<open>up\<close> is \<open>strings.ToUpper\<close>.\<close>

definition BuildURI ::
  "(string \<Rightarrow> string) \<Rightarrow> (string \<Rightarrow> string) \<Rightarrow> string \<Rightarrow> string \<Rightarrow> string \<Rightarrow> string \<Rightarrow> string
   \<Rightarrow> int \<Rightarrow> int \<Rightarrow> int \<Rightarrow> string + string" where
  "BuildURI esc up otpType secret accountName issuerName algorithm initialCount digits period =
     (if otpType \<noteq> ''hotp'' \<and> otpType \<noteq> ''totp'' then Inl (''invalid otp type: '' @ otpType)
      else
        let params = [''secret='' @ secret];
            params = params @ (if otpType = ''hotp'' then [''counter='' @ itoa initialCount] else []);
            label = (if issuerName \<noteq> [] then esc issuerName @ '':'' @ esc accountName else esc accountName);
            params = params @ (if issuerName \<noteq> [] then [''issuer='' @ esc issuerName] else []);
            params = params @ (if algorithm \<noteq> [] \<and> algorithm \<noteq> ''sha1'' then [''algorithm='' @ up algorithm] else []);
            params = params @ (if digits \<noteq> 0 \<and> digits \<noteq> 6 then [''digits='' @ itoa digits] else []);
            params = params @ (if period \<noteq> 0 \<and> period \<noteq> 30 then [''period='' @ itoa period] else [])
        in Inr (''otpauth://'' @ otpType @ ''/'' @ label @ ''?'' @ join params ''&''))"

section \<open>Object SIDs\<close>

record ObjectSID =
  sid_RevisionLevel :: int
  sid_SubAuthorityCount :: int
  sid_Authority :: int
  sid_SubAuthorities :: "int list"

definition SID_String :: "ObjectSID \<Rightarrow> string" where
  "SID_String sid = ''S-'' @ itoa (sid_RevisionLevel sid) @ ''-'' @ itoa (sid_Authority sid)
     @ concat (map (\<lambda>v. ''-'' @ itoa v) (sid_SubAuthorities sid))"

text \<open>The two loops of \<open>SIDDecode\<close>; an index out of range is \<^const>\<open>None\<close>.\<close>

definition byte_at :: "8 word list \<Rightarrow> nat \<Rightarrow> int option" where
  "byte_at b i = (if i < length b then Some (uint (b ! i)) else None)"

fun or_bytes :: "8 word list \<Rightarrow> (nat \<times> nat) list \<Rightarrow> int \<Rightarrow> int option" where
  "or_bytes b [] acc = Some acc"
| "or_bytes b ((i, shift) # xs) acc = (case byte_at b i of
     None \<Rightarrow> None | Some v \<Rightarrow> or_bytes b xs (acc OR push_bit shift v))"

fun sub_loop :: "8 word list \<Rightarrow> nat \<Rightarrow> nat \<Rightarrow> int list \<Rightarrow> int list option" where
  "sub_loop b 0 offset acc = Some acc"
| "sub_loop b (Suc n) offset acc =
     (case or_bytes b (map (\<lambda>k. (offset + k, 8 * k)) [0..<4]) 0 of
        None \<Rightarrow> None
      | Some v \<Rightarrow> sub_loop b n (offset + 4) (acc @ [v]))"

definition SIDDecode :: "8 word list \<Rightarrow> ObjectSID outcome" where
  "SIDDecode b = (case (byte_at b 0, byte_at b 1) of
     (Some rv, Some n) \<Rightarrow>
       (case or_bytes b (map (\<lambda>i. (i, 8 * (5 - (i - 2)))) [2..<8]) 0 of
          None \<Rightarrow> Panic ''index out of range''
        | Some auth \<Rightarrow>
            (case sub_loop b (nat (n AND 0xff)) 8 [] of
               None \<Rightarrow> Panic ''index out of range''
             | Some subs \<Rightarrow> Done \<lparr>sid_RevisionLevel = rv, sid_SubAuthorityCount = n AND 0xff,
                 sid_Authority = auth, sid_SubAuthorities = subs\<rparr>))
   | _ \<Rightarrow> Panic ''index out of range'')"

end
