(* ===== verification/Infra_Theorems.thy ===== *)
theory Infra_Theorems
  imports Infra_Otp
begin

text \<open>
  Properties of the one-time passwords and of the SID decoder: the counter is encoded without loss, a code
  has exactly the configured number of digits, it lasts until its expiry, and a SID is read back from its
  bytes.
\<close>

section \<open>Bits and bytes\<close>

lemma bit_out_of_range: "\<lbrakk>0 \<le> x; x < 2 ^ n; n \<le> i\<rbrakk> \<Longrightarrow> \<not> bit (x::int) i"
  by (metis bit_take_bit_iff leD take_bit_int_eq_self)

lemma or_push_bit:
  fixes x y :: int
  assumes "0 \<le> x" "x < 2 ^ n"
  shows "push_bit n y OR x = y * 2 ^ n + x"
proof -
  have "push_bit n y + x = push_bit n y OR x"
    using bit_out_of_range[OF assms] by (intro disjunctive_add_eq_or bit_eqI) (auto simp: bit_simps)
  then show ?thesis by (simp add: push_bit_eq_mult)
qed

lemma byte_bounds: "0 \<le> uint (b :: 8 word)" "uint (b :: 8 word) < 256"
  using uint_lt2p[of b] by simp_all

text \<open>The value of bytes, most significant byte first.\<close>

fun be_value :: "8 word list \<Rightarrow> int" where
  "be_value [] = 0"
| "be_value (b # bs) = uint b * 256 ^ length bs + be_value bs"

lemma be_value_itob_loop:
  "be_value (itob_loop i n bs) = (n mod 256 ^ i) * 256 ^ length bs + be_value bs"
proof (induction i n bs rule: itob_loop.induct)
  case (2 i n bs)
  have "uint (word_of_int (n mod 256) :: 8 word) = n mod 256" by (simp add: uint_word_of_int)
  moreover have "n mod 256 ^ Suc i = (n div 256 mod 256 ^ i) * 256 + n mod 256"
    using zmod_zmult2_eq[of "256 ^ i" n 256] by (simp add: mult.commute)
  ultimately show ?case using 2 by (simp add: algebra_simps)
qed simp

lemma length_itob_loop: "length (itob_loop i n bs) = i + length bs"
  by (induction i n bs rule: itob_loop.induct) simp_all

section \<open>Codes\<close>

lemma truncate_at_eq:
  "truncate_at h k = (uint (h ! k) mod 128) * 2 ^ 24 + uint (h ! (k + 1)) * 2 ^ 16
     + uint (h ! (k + 2)) * 2 ^ 8 + uint (h ! (k + 3))"
proof -
  have mask: "uint (h ! k) AND 0x7f = uint (h ! k) mod 128"
    using take_bit_eq_mask[of 7 "uint (h ! k)"] by (simp add: take_bit_eq_mod mask_eq_exp_minus_1)
  have "truncate_at h k = push_bit 24 (uint (h ! k) mod 128) OR (push_bit 16 (uint (h ! (k + 1)))
     OR (push_bit 8 (uint (h ! (k + 2))) OR uint (h ! (k + 3))))"
    by (simp add: truncate_at_def mask or.assoc)
  also have "push_bit 8 (uint (h ! (k + 2))) OR uint (h ! (k + 3)) =
      uint (h ! (k + 2)) * 2 ^ 8 + uint (h ! (k + 3))"
    using byte_bounds[of "h ! (k + 3)"] by (intro or_push_bit) simp_all
  finally show ?thesis
    using byte_bounds[of "h ! (k + 1)"] byte_bounds[of "h ! (k + 2)"] byte_bounds[of "h ! (k + 3)"]
    by (simp add: or_push_bit)
qed

lemma truncate_at_bounds: "0 \<le> truncate_at h k" "truncate_at h k < 2 ^ 31"
  using byte_bounds[of "h ! (k + 1)"] byte_bounds[of "h ! (k + 2)"] byte_bounds[of "h ! (k + 3)"]
    pos_mod_bound[of 128 "uint (h ! k)"] pos_mod_sign[of 128 "uint (h ! k)"]
  unfolding truncate_at_eq by simp_all

lemma hmac_offset_le: "hmac_offset h \<le> 15"
proof -
  have "last h AND 0xf \<le> (0xf :: 8 word)" by (simp add: word_and_le1)
  then show ?thesis unfolding hmac_offset_def by (simp add: word_le_nat_alt)
qed

lemma nat_digits_length: "1 \<le> d \<Longrightarrow> n < 10 ^ d \<Longrightarrow> length (nat_digits n) \<le> d"
proof (induction n arbitrary: d rule: nat_digits.induct)
  case (1 n)
  show ?case
  proof (cases "n < 10")
    case True
    then show ?thesis using 1(2) by (subst nat_digits.simps) simp
  next
    case False
    then obtain d' where d: "d = Suc d'" "1 \<le> d'" using 1(2,3) by (cases d; cases "d - 1") auto
    have "n div 10 < 10 ^ d'" using 1(3) by (simp add: d less_mult_imp_div_less mult.commute)
    then show ?thesis using 1(1)[OF False d(2)] False by (subst nat_digits.simps) (simp add: d)
  qed
qed

lemma zero_padded_code:
  assumes "1 \<le> d" "0 \<le> c" "c < 10 ^ d"
  shows "length (zero_padded d c) = d" "list_all is_digit (zero_padded d c)"
proof -
  have "nat c < 10 ^ d" using assms by (simp add: nat_less_iff)
  then have len: "length (nat_digits (nat c)) \<le> d" using nat_digits_length assms(1) by blast
  then show "length (zero_padded d c) = d" using assms(2) by (simp add: zero_padded_def itoa_def Let_def)
  show "list_all is_digit (zero_padded d c)"
    using assms(2) nat_digits_wf[of "nat c"]
    by (auto simp: zero_padded_def itoa_def Let_def list_all_iff is_digit_def)
qed

text \<open>The counter of a one-time password is hashed without loss: \<open>Itob\<close> gives eight bytes whose
  big-endian value is the counter modulo \<open>2 ^ 64\<close>, so different counters below \<open>2 ^ 63\<close> are hashed
  differently.\<close>

theorem counter_bytes_exact:
  "length (Itob n) = 8 \<and> be_value (Itob n) = n mod 2 ^ 64"
  by (simp add: Itob_def length_itob_loop be_value_itob_loop)

text \<open>A one-time password always has the configured number of digits: for 1 to 18 digits, a secret
  that decodes, a counter that is not negative and a digest of at least 19 bytes, \<open>GenerateOTP\<close>
  neither panics nor fails, and the code is the truncated digest modulo \<open>10 ^ digits\<close>, padded with
  zeros.\<close>

theorem otp_has_digits:
  assumes "1 \<le> otp_digits ob" "otp_digits ob \<le> 18" "0 \<le> input"
    and "b32 (pad_secret (otp_secret ob)) = Inr key"
    and "19 \<le> length (hmac (otp_hash ob) key (Itob input))"
  shows "\<exists>code. GenerateOTP b32 hmac conv ob input = Done (Inr code) \<and> int (length code) = otp_digits ob \<and>
    list_all is_digit code \<and>
    code = zero_padded (nat (otp_digits ob))
      (truncate_at (hmac (otp_hash ob) key (Itob input)) (hmac_offset (hmac (otp_hash ob) key (Itob input)))
       mod 10 ^ nat (otp_digits ob))"
proof -
  let ?h = "hmac (otp_hash ob) key (Itob input)" and ?d = "nat (otp_digits ob)"
  let ?c = "truncate_at ?h (hmac_offset ?h) mod 10 ^ ?d"
  have "hmac_offset ?h + 3 < length ?h" using hmac_offset_le[of ?h] assms(5) by linarith
  moreover have "1 \<le> ?d" using assms(1) by simp
  ultimately have "GenerateOTP b32 hmac conv ob input = Done (Inr (zero_padded ?d ?c))"
    using assms by (auto simp: GenerateOTP_def byteSecret_def pow10_int_def Let_def)
  then show ?thesis using zero_padded_code[OF \<open>1 \<le> ?d\<close>, of ?c] assms(1) by simp
qed

definition demo_otp :: otp where
  "demo_otp = NewOTP ''ABCDEFGH'' 6 None"

definition demo_hmac :: "string \<Rightarrow> 8 word list \<Rightarrow> 8 word list \<Rightarrow> 8 word list" where
  "demo_hmac name key msg = replicate 19 1 @ [5]"

theorem otp_has_digits_witness:
  "\<exists>code. GenerateOTP (\<lambda>_. Inr [1, 2]) demo_hmac (\<lambda>_. 0) demo_otp 9 = Done (Inr code) \<and> int (length code) = 6"
proof -
  have "1 \<le> otp_digits demo_otp" "otp_digits demo_otp \<le> 18" by (simp_all add: demo_otp_def NewOTP_def)
  moreover have "19 \<le> length (demo_hmac (otp_hash demo_otp) [1, 2] (Itob 9))" by (simp add: demo_hmac_def)
  ultimately show ?thesis
    using otp_has_digits[of demo_otp 9 "\<lambda>_. Inr [1, 2]" "[1, 2]" demo_hmac "\<lambda>_. 0"]
    by (auto simp: demo_otp_def NewOTP_def)
qed

lemma quot_nonneg: "\<lbrakk>0 \<le> t; 0 < i\<rbrakk> \<Longrightarrow> quot t i = t div i"
  by (simp add: quot_def)

text \<open>A time-based password lasts until the expiry that comes with it: \<open>NowWithExpiration\<close> returns
  the code of every moment from the start of the interval up to the expiry, and the expiry lies within
  one interval ahead.\<close>

theorem code_lasts_until_expiry:
  assumes "0 \<le> now" "0 < interval" "now + interval < 2 ^ 63"
    and "NowWithExpiration b32 hmac conv ob interval now = Done (code, expiry)"
  shows "now < expiry \<and> expiry \<le> now + interval \<and>
    (now \<le> t \<and> t < expiry \<longrightarrow> TOTP_Verify b32 hmac conv ob interval code t = Done True)"
proof -
  let ?q = "now div interval"
  have q: "?q * interval \<le> now" "now < (?q + 1) * interval"
  proof -
    have "?q * interval + now mod interval = now" by simp
    moreover have "(?q + 1) * interval = ?q * interval + interval" by (simp add: algebra_simps)
    ultimately show "?q * interval \<le> now" "now < (?q + 1) * interval"
      using pos_mod_sign[OF assms(2), of now] pos_mod_bound[OF assms(2), of now] by linarith+
  qed
  have "0 \<le> ?q" using assms(1,2) by (simp add: pos_imp_zdiv_nonneg_iff)
  then have "0 \<le> (?q + 1) * interval" using assms(2) by simp
  moreover have "(?q + 1) * interval \<le> now + interval" using q(1) by (simp add: algebra_simps)
  ultimately have w: "wrap64 ((?q + 1) * interval) = (?q + 1) * interval"
    using assms(3) by (intro wrap64_id) auto
  have gen: "generateOTP b32 hmac conv ob ?q = Done code" and ex: "expiry = (?q + 1) * interval"
    using assms(2,4) w
    by (auto simp: NowWithExpiration_def quot_nonneg[OF assms(1,2)] Let_def split: outcome.splits)
  have "TOTP_Verify b32 hmac conv ob interval code t = Done True" if "now \<le> t" "t < expiry"
  proof -
    have "t div interval = ?q"
    proof (rule antisym)
      show "?q \<le> t div interval" using that assms(2) by (simp add: zdiv_mono1)
      have "t div interval * interval + t mod interval = t" by simp
      then have "t div interval * interval < (?q + 1) * interval"
        using that(2) ex pos_mod_sign[OF assms(2), of t] by linarith
      then have "t div interval < ?q + 1" using assms(2) by (simp only: mult_less_cancel_right_pos)
      then show "t div interval \<le> ?q" by simp
    qed
    then show ?thesis using gen assms(1,2) that quot_nonneg[of t interval]
      by (simp add: TOTP_Verify_def TOTP_At_def)
  qed
  then show ?thesis using ex q by (auto simp: algebra_simps)
qed

section \<open>Object SIDs\<close>

text \<open>The binary form of a SID.\<close>

definition le_bytes :: "int \<Rightarrow> 8 word list" where
  "le_bytes v = map (\<lambda>k. word_of_int (v div 256 ^ k mod 256)) [0..<4]"

definition sid_bytes :: "int \<Rightarrow> int \<Rightarrow> int list \<Rightarrow> 8 word list" where
  "sid_bytes rv auth subs =
     [word_of_int rv, word_of_int (int (length subs))]
     @ map (\<lambda>i. word_of_int (auth div 256 ^ (5 - i) mod 256)) [0..<6]
     @ concat (map le_bytes subs)"

lemma word_byte: "uint (word_of_int (v mod 256) :: 8 word) = v mod 256"
  by (simp add: uint_word_of_int)

lemma or_push_byte:
  fixes acc y :: int
  assumes "0 \<le> acc" "acc < 2 ^ n"
  shows "acc OR push_bit n y = acc + y * 2 ^ n"
  using or_push_bit[OF assms, of y] by (simp add: or.commute)

lemma or_low_byte:
  fixes z y :: int
  assumes "0 \<le> y" "y < 256"
  shows "z * 2 ^ (n + 8) OR push_bit n y = z * 2 ^ (n + 8) + y * 2 ^ n"
proof -
  have "y * 2 ^ n < 256 * 2 ^ n" using assms by simp
  then have "push_bit n y < 2 ^ (n + 8)" by (simp add: push_bit_eq_mult power_add mult.commute)
  moreover have "0 \<le> push_bit n y" using assms by (simp add: push_bit_eq_mult)
  ultimately show ?thesis using or_push_bit[of "push_bit n y" "n + 8" z] by (simp add: push_bit_eq_mult)
qed

lemma le_sum:
  "\<lbrakk>d' = d; b * 256 + r0 = a; c * 256 + r1 = b; d * 256 + r2 = c\<rbrakk> \<Longrightarrow>
   r0 + r1 * 256 + r2 * 65536 + d' * 16777216 = (a :: int)"
  by auto

lemma le_bytes_value:
  assumes "0 \<le> v" "v < 2 ^ 32"
  shows "v mod 256 + (v div 256 ^ 1 mod 256) * 2 ^ 8 + (v div 256 ^ 2 mod 256) * 2 ^ 16
    + (v div 256 ^ 3 mod 256) * 2 ^ 24 = (v :: int)"
proof -
  have 2: "v div 65536 = v div 256 div 256" using zdiv_zmult2_eq[of 256 v 256] by simp
  have 3: "v div 16777216 = v div 65536 div 256" using zdiv_zmult2_eq[of 256 v 65536] by simp
  have "0 \<le> v div 16777216" "v div 16777216 < 256" using assms by (simp_all add: div_less_iff_less_mult pos_imp_zdiv_nonneg_iff)
  then have "v div 16777216 mod 256 = v div 16777216" by (simp add: mod_pos_pos_trivial)
  moreover have "v div 256 * 256 + v mod 256 = v" "v div 65536 * 256 + v div 256 mod 256 = v div 256"
    "v div 16777216 * 256 + v div 65536 mod 256 = v div 65536"
    unfolding 2 3 by simp_all
  ultimately have "v mod 256 + v div 256 mod 256 * 256 + v div 65536 mod 256 * 65536
      + v div 16777216 mod 256 * 16777216 = v" by (rule le_sum)
  moreover have "(256::int) ^ 1 = 256" "(256::int) ^ 2 = 65536" "(256::int) ^ 3 = 16777216"
    "(2::int) ^ 8 = 256" "(2::int) ^ 16 = 65536" "(2::int) ^ 24 = 16777216" by simp_all
  ultimately show ?thesis by (simp only:)
qed

lemma byte_at_nth: "i < length b \<Longrightarrow> byte_at b i = Some (uint (b ! i))"
  by (simp add: byte_at_def)

lemma or_bytes_le:
  assumes "0 \<le> v" "v < 2 ^ 32"
  shows "or_bytes (pre @ le_bytes v @ post) (map (\<lambda>k. (length pre + k, 8 * k)) [0..<4]) 0 = Some v"
proof -
  let ?b = "pre @ le_bytes v @ post" and ?d = "\<lambda>k. v div 256 ^ k mod 256"
  have at: "byte_at ?b (length pre + k) = Some (?d k)" if "k < 4" for k
    using that by (simp add: byte_at_nth nth_append le_bytes_def word_byte)
  have d: "0 \<le> ?d k" "?d k < 256" for k by simp_all
  have "or_bytes ?b (map (\<lambda>k. (length pre + k, 8 * k)) [0..<4]) 0 =
      Some (((?d 0 OR push_bit 8 (?d 1)) OR push_bit 16 (?d 2)) OR push_bit 24 (?d 3))"
    using at[of 0] at[of 1] at[of 2] at[of 3] by (simp add: upt_rec numeral_eq_Suc del: append_assoc)
  moreover have "?d 0 OR push_bit 8 (?d 1) = ?d 0 + ?d 1 * 2 ^ 8"
    by (rule or_push_byte) (use d[of 0] in simp_all)
  moreover have "(?d 0 + ?d 1 * 2 ^ 8) OR push_bit 16 (?d 2) = ?d 0 + ?d 1 * 2 ^ 8 + ?d 2 * 2 ^ 16"
    by (rule or_push_byte) (use d[of 0] d[of 1] in simp_all)
  moreover have "(?d 0 + ?d 1 * 2 ^ 8 + ?d 2 * 2 ^ 16) OR push_bit 24 (?d 3) =
      ?d 0 + ?d 1 * 2 ^ 8 + ?d 2 * 2 ^ 16 + ?d 3 * 2 ^ 24"
    by (rule or_push_byte) (use d[of 0] d[of 1] d[of 2] in simp_all)
  ultimately show ?thesis using le_bytes_value[OF assms] by simp
qed

lemma sub_loop_bytes:
  assumes "\<And>v. v \<in> set subs \<Longrightarrow> 0 \<le> v \<and> v < 2 ^ 32"
  shows "sub_loop (pre @ concat (map le_bytes subs)) (length subs) (length pre) acc = Some (acc @ subs)"
  using assms
proof (induction subs arbitrary: pre acc)
  case (Cons v subs)
  have "or_bytes (pre @ le_bytes v @ concat (map le_bytes subs)) (map (\<lambda>k. (length pre + k, 8 * k)) [0..<4]) 0 = Some v"
    using Cons.prems by (intro or_bytes_le) auto
  moreover have "length (pre @ le_bytes v) = length pre + 4" by (simp add: le_bytes_def)
  ultimately show ?case using Cons.IH[of "pre @ le_bytes v" "acc @ [v]"] Cons.prems by simp
qed simp

lemma or_bytes_authority:
  assumes "0 \<le> auth" "auth < 2 ^ 48"
    and at: "\<And>i. i < 6 \<Longrightarrow> byte_at b (2 + i) = Some (auth div 256 ^ (5 - i) mod 256)"
  shows "or_bytes b (map (\<lambda>i. (i, 8 * (5 - (i - 2)))) [2..<8]) 0 = Some auth"
proof -
  let ?d = "\<lambda>k. auth div k mod 256"
  have d: "0 \<le> ?d k" "?d k < 256" for k by simp_all
  have at': "byte_at b 2 = Some (?d 1099511627776)" "byte_at b 3 = Some (?d 4294967296)"
    "byte_at b 4 = Some (?d 16777216)" "byte_at b 5 = Some (?d 65536)"
    "byte_at b 6 = Some (?d 256)" "byte_at b 7 = Some (?d 1)"
    using at[of 0] at[of 1] at[of 2] at[of 3] at[of 4] at[of 5] by simp_all
  have c: "auth div 65536 = auth div 256 div 256" "auth div 16777216 = auth div 65536 div 256"
    "auth div 4294967296 = auth div 16777216 div 256" "auth div 1099511627776 = auth div 4294967296 div 256"
    by (simp_all flip: zdiv_zmult2_eq)
  have steps: "auth div 256 * 256 + ?d 1 = auth" "auth div 65536 * 256 + ?d 256 = auth div 256"
    "auth div 16777216 * 256 + ?d 65536 = auth div 65536"
    "auth div 4294967296 * 256 + ?d 16777216 = auth div 16777216"
    "auth div 1099511627776 * 256 + ?d 4294967296 = auth div 4294967296"
    unfolding c by (simp_all only: div_by_1 div_mult_mod_eq)
  have top: "?d 1099511627776 = auth div 1099511627776"
    using assms(1,2) by (intro mod_pos_pos_trivial) (simp_all add: div_less_iff_less_mult pos_imp_zdiv_nonneg_iff)
  have push: "push_bit n x = x * 2 ^ n" for n and x :: int by (rule push_bit_eq_mult)
  have low: "z * 2 ^ (n + 8) OR x * 2 ^ n = (z * 256 + x) * 2 ^ n" if "0 \<le> x" "x < 256" for x z :: int and n
    using or_low_byte[OF that, of z n] by (simp add: push power_add algebra_simps)
  have "or_bytes b (map (\<lambda>i. (i, 8 * (5 - (i - 2)))) [2..<8]) 0 =
     Some (((((?d 1099511627776 * 2 ^ 40 OR ?d 4294967296 * 2 ^ 32) OR ?d 16777216 * 2 ^ 24)
        OR ?d 65536 * 2 ^ 16) OR ?d 256 * 2 ^ 8) OR ?d 1)"
    by (simp add: upt_rec at' push)
  also have "?d 1099511627776 * 2 ^ 40 OR ?d 4294967296 * 2 ^ 32 = auth div 4294967296 * 2 ^ 32"
    using low[of "?d 4294967296" "auth div 1099511627776" 32] d steps(5) top by simp
  also have "auth div 4294967296 * 2 ^ 32 OR ?d 16777216 * 2 ^ 24 = auth div 16777216 * 2 ^ 24"
    using low[of "?d 16777216" "auth div 4294967296" 24] d steps(4) by simp
  also have "auth div 16777216 * 2 ^ 24 OR ?d 65536 * 2 ^ 16 = auth div 65536 * 2 ^ 16"
    using low[of "?d 65536" "auth div 16777216" 16] d steps(3) by simp
  also have "auth div 65536 * 2 ^ 16 OR ?d 256 * 2 ^ 8 = auth div 256 * 2 ^ 8"
    using low[of "?d 256" "auth div 65536" 8] d steps(2) by simp
  also have "auth div 256 * 2 ^ 8 OR ?d 1 = auth"
    using low[of "?d 1" "auth div 256" 0] d steps(1) by simp
  finally show ?thesis .
qed

text \<open>An object SID is read back from its bytes: for a revision below 256, a 48-bit authority and at
  most 255 sub-authorities of 32 bits, \<open>SIDDecode\<close> of the binary form is the SID and does not panic.\<close>

theorem sid_roundtrip:
  assumes "0 \<le> rv" "rv < 256" "0 \<le> auth" "auth < 2 ^ 48" "length subs < 256"
    and "list_all (\<lambda>v. 0 \<le> v \<and> v < 2 ^ 32) subs"
  shows "SIDDecode (sid_bytes rv auth subs) =
    Done \<lparr>sid_RevisionLevel = rv, sid_SubAuthorityCount = int (length subs), sid_Authority = auth,
      sid_SubAuthorities = subs\<rparr>"
proof -
  let ?b = "sid_bytes rv auth subs"
  let ?pre = "[word_of_int rv, word_of_int (int (length subs))]
     @ map (\<lambda>i. word_of_int (auth div 256 ^ (5 - i) mod 256)) [0..<6] :: 8 word list"
  have b: "?b = ?pre @ concat (map le_bytes subs)" by (simp add: sid_bytes_def)
  have 0: "byte_at ?b 0 = Some rv" "byte_at ?b 1 = Some (int (length subs))"
    using assms by (simp_all add: byte_at_def sid_bytes_def uint_word_of_int unsigned_of_nat take_bit_nat_eq_self)
  have at: "byte_at ?b (2 + i) = Some (auth div 256 ^ (5 - i) mod 256)" if "i < 6" for i
    using that by (simp add: byte_at_def b nth_append word_byte)
  have n: "int (length subs) AND 0xff = int (length subs)"
    using assms(5) take_bit_int_eq_self[of "int (length subs)" 8] take_bit_eq_mask[of 8 "int (length subs)"]
    by (simp add: mask_eq_exp_minus_1)
  have sub: "sub_loop ?b (length subs) 8 [] = Some subs"
    using sub_loop_bytes[of subs ?pre "[]"] assms(6) by (simp add: b list_all_iff)
  show ?thesis
    by (simp only: SIDDecode_def 0 or_bytes_authority[OF assms(3,4) at] n sub nat_int prod.case option.case)
qed

theorem sid_roundtrip_witness:
  "SIDDecode (sid_bytes 1 5 [21, 3000000000, 512]) =
    Done \<lparr>sid_RevisionLevel = 1, sid_SubAuthorityCount = 3, sid_Authority = 5,
      sid_SubAuthorities = [21, 3000000000, 512]\<rparr>"
  using sid_roundtrip[of 1 5 "[21, 3000000000, 512]"] by simp

theorem code_lasts_until_expiry_witness:
  "\<exists>code. NowWithExpiration (\<lambda>_. Inr [1, 2]) demo_hmac (\<lambda>_. 0) demo_otp 30 65 = Done (code, 90) \<and>
     TOTP_Verify (\<lambda>_. Inr [1, 2]) demo_hmac (\<lambda>_. 0) demo_otp 30 code 89 = Done True"
proof -
  obtain code where run: "NowWithExpiration (\<lambda>_. Inr [1, 2]) demo_hmac (\<lambda>_. 0) demo_otp 30 65 = Done (code, 90)"
    by (auto simp: NowWithExpiration_def generateOTP_def GenerateOTP_def byteSecret_def demo_otp_def NewOTP_def
        demo_hmac_def hmac_offset_def pow10_int_def quot_def wrap64_def Let_def)
  from code_lasts_until_expiry[OF _ _ _ run, of 89] run show ?thesis by simp
qed

end
