(* ===== verification/Spec2Isabelle.thy ===== *)
theory Spec2Isabelle
  imports Engine_Theorems Sensor_Theorems Portal_Theorems Portal_Acl Tasker_Theorems Syslog_Theorems Capture_Theorems Packet_Theorems Rule_Theorems Infra_Theorems
begin

text \<open>
  The core of ADA, a monitor for Active Directory, as definitions of HOL with the theorems that make it
  correct: the detection engine (\<open>src/engine\<close> with the parts of \<open>src/infra\<close> it uses) and the parts of the
  sensor, the tasker and the portal that feed it, configure it and act on what it finds.

  \<^bold>\<open>The program.\<close> Sensors push Windows event logs and packet logs as JSON into two queues of Redis. The
  worker (\<open>engine/core\<close>) pops an entry, evaluates all sigma rules of its kind on it (\<open>engine/sigma\<close>),
  stores an activity in MongoDB for each match, hands it to a batching writer for Elasticsearch, and
  adds it to the instances of the flow rules that name the sigma rule: sorted sets in Redis, one per
  flow rule and grouping key. The flow engine (\<open>engine/flow\<close>) goes round over the flow rules; for
  every instance it reads the activities of the rule's window, counts them or looks for one activity
  per sigma rule that satisfies the \<open>match_by\<close> expression, and stores an alert event. A cleaner
  removes old activities, and a reload replaces all rules of a running worker. Around the engine, the
  sensor (\<open>agent/sensor\<close>) turns Windows events into entries, captures packets with tshark and sends both;
  the syslog server of the tasker (\<open>backend/tasker\<close>) puts them on the queues and counts them; the tasker
  answers the LDAP look-ups the flow engine misses, sends notifications and synchronises the rules with a
  server; the portal (\<open>backend/apiserver\<close>) writes the rules and the white lists the flow engine reads and
  checks who may call what.

  \<^bold>\<open>Theories and sources.\<close>
  \<^item> \<open>Go_Base\<close>: values of Go (\<open>any\<close> as \<open>gval\<close>), the string functions of \<open>strings\<close> and \<open>strconv\<close>, maps as
    association lists in one iteration order, \<open>int64\<close> arithmetic with wrap-around, and \<open>go_ext\<close>, the
    library functions that are parameters.
  \<^item> \<open>Sigma_Lexer\<close>, \<open>Sigma_Lexer_Props\<close>: \<open>token.go\<close>, \<open>lexer.go\<close>. The state functions are a step function
    on a lexer record, the item channel is the list of the items sent.
  \<^item> \<open>Sigma_Errors\<close>: \<open>errors.go\<close>. \<open>Sigma_Nodes\<close>: \<open>nodes.go\<close>, \<open>sigma.go\<close>. \<open>Sigma_Pattern\<close>: \<open>pattern.go\<close>.
    \<open>Sigma_Ident\<close>: \<open>ident.go\<close>. \<open>Sigma_Tree\<close>: \<open>parser.go\<close>, \<open>tree.go\<close>. \<open>Sigma_Grammar\<close>: the syntax trees of
    conditions and how the compiler follows them. \<open>Sigma_Rule\<close>: \<open>rule.go\<close>, \<open>ruleset.go\<close>.
  \<^item> \<open>Engine_Common\<close>: \<open>engine/common\<close>, \<open>infra/base\<close>, \<open>infra/time\<close>. \<open>Infra_Map\<close>: \<open>infra/datamodels/map.go\<close>.
  \<^item> \<open>Flow_Condition\<close>: the conditions of \<open>flow/rule.go\<close> and the counting expressions of
    \<open>flow/parse_count.go\<close>. \<open>Flow_Expr\<close>: \<open>flow/match_expr.go\<close>. \<open>Flow_Rule\<close>: the loader of \<open>flow/rule.go\<close>,
    \<open>flow/cache_key.go\<close> and \<open>NewRuleset\<close> of \<open>flow/flow.go\<close>.
  \<^item> \<open>Engine_Store\<close>: the documents of \<open>engine/model/types.go\<close>, and the services: every call to Redis,
    MongoDB, Elasticsearch and the clock is a field of the record \<open>services\<close>, a state transformer on an
    arbitrary outside world. A handler is a program in the state monad over it, and a panic is a value
    of \<open>outcome\<close>.
  \<^item> \<open>Flow_Match\<close>, \<open>Flow_Match_Props\<close>: \<open>flow/parse_multieve.go\<close>, \<open>flow/ldap_lookup.go\<close>, counting and white
    lists. \<open>Flow_Engine\<close>: the handlers of \<open>flow/flow.go\<close>, \<open>flow/parse_count.go\<close>, \<open>flow/parse_multipkt.go\<close> and
    \<open>flow/parse_multievepkt.go\<close>. \<open>Flow_Demo\<close>: concrete rules and services.
  \<^item> \<open>Engine_Indexer\<close>: \<open>core/es_indexer.go\<close>, with the interleaving of callers and the loop as a step
    relation. \<open>Engine_Core\<close>, \<open>Engine_Core_Props\<close>: \<open>core/core.go\<close>, \<open>core/match.go\<close>; the worker's own state is
    the record \<open>engine_worker\<close> next to the outside world, and \<open>engine_run\<close> relates the states a worker can
    reach.
  \<^item> \<open>Sensor_Entry\<close>, \<open>Sensor_Entry_Props\<close>: \<open>agent/sensor/winevt/entry\<close>, the entries and the fields that
    address them. \<open>Sensor_Winevt\<close>, \<open>Sensor_Winevt_Props\<close>: \<open>operator/input/windows\<close> (\<open>security.go\<close>, \<open>xml.go\<close>,
    \<open>input.go\<close>) and \<open>operator/helper\<close>, from the message of an event to the batch that is delivered; the
    emitter, which two goroutines share, is a step relation.
  \<^item> \<open>Sensor_Tshark\<close>, \<open>Sensor_Capture\<close>: \<open>agent/sensor/plugin/plugin_tshark.go\<close>, from a record or a line of tshark to
    the event that is sent, the configuration and command line, the queue with its senders and the life of a
    capture as step relations.
  \<^item> \<open>Portal_Whitelist\<close>: white lists in \<open>apiserver/service/threat.go\<close> and \<open>server/threat.go\<close>. \<open>Portal_Acl\<close>:
    \<open>apiserver/api/v2/acl.go\<close>.
  \<^item> \<open>Tasker_Events\<close>: \<open>tasker/event/ldap_event.go\<close> and \<open>ThreatNotifyTask\<close>. \<open>Tasker_Syslog\<close>:
    \<open>tasker/server/syslog_svc.go\<close>. Their services are records of calls like those of the engine.
  \<^item> \<open>Rule_Files\<close>: the rules of \<open>backend/model/tables.go\<close> with the YAML documents their tags describe, paths as
    \<open>filepath\<close> treats them, and \<open>apiserver/server/rule_writer.go\<close>. \<open>Portal_Rules\<close>: \<open>apiserver/service/rule.go\<close> and
    \<open>server/rule.go\<close>. \<open>Tasker_RuleSync\<close>: \<open>tasker/worker/rule_sync.go\<close>. \<open>Rule_Props\<close>: what is relied on of the disk
    and of the tables, and the facts on both. They share one record of calls, \<open>rule_io\<close>.
  \<^item> \<open>Infra_Otp\<close>: \<open>infra/otp\<close> and \<open>infra/ldap/object_sid.go\<close>.
  \<^item> \<open>Sigma_Theorems\<close>, \<open>Flow_Theorems\<close>, \<open>Engine_Theorems\<close>, \<open>Sensor_Theorems\<close>, \<open>Portal_Theorems\<close>,
    \<open>Tasker_Theorems\<close>, \<open>Syslog_Theorems\<close>, \<open>Capture_Theorems\<close>, \<open>Packet_Theorems\<close>, \<open>Rule_Theorems\<close>,
    \<open>Infra_Theorems\<close>: the properties, each with an instance on
    concrete inputs where it has hypotheses.

  Definitions keep the names of the source; a name taken in HOL has the package or a description in
  front (\<open>FlowNewRuleset\<close> is \<open>NewRuleset\<close> of the package \<open>flow\<close>, \<open>Map_Get\<close> the method \<open>Get\<close> of \<open>Map\<close>). A loop or
  an inner block of a long function has a definition of its own (\<open>newBranch_loop\<close>, \<open>accept_rule\<close>).

  \<^bold>\<open>What the theorems show.\<close>
  \<^item> Sigma conditions: the lexer ends and reads back printed tokens; compiling follows the grammar with
    \<open>not\<close> before \<open>and\<close> before \<open>or\<close>; the verdict of a compiled rule is that of its syntax tree; matching
    refines a three-valued semantics, \<open>Reduce\<close> keeps it, and without negation the order of maps plays no
    role.
  \<^item> Patterns: the escape of a Sigma pattern for the glob library stays in its buffer and keeps the
    meaning; lists, the modifier \<open>contains\<close> and white-space collapsing mean what they should.
  \<^item> Rule sets: counters add up, loaded rules are well-formed, \<open>EvalAll\<close> reports exactly the matching
    rules, \<open>GetRule\<close> the first with an id.
  \<^item> Flow rules: the expression parser ends and reads back printed expressions; loaded rules are
    well-formed with distinct ids and ask for exactly the fields they use; the table in Redis reads
    back; instance keys separate different grouping values.
  \<^item> Flow matching: the combinations tried are exactly those in the window; an expression computes its
    Boolean formula; a sequence match is found when and only when there is one; counts are exact;
    stored events belong to a rule and span at most its window; a round does not panic but on counting
    rules that zero activities satisfy.
  \<^item> Worker: no log entry makes it panic in any reachable state; a reload is all or nothing for the
    rules; what it caches is what the flow engine reads; waiting for rules ends when there are some; no
    document of the batching writer is lost uncounted.
  \<^item> Sensor: the notation of fields is read back; \<open>Set\<close>, \<open>Get\<close> and \<open>Delete\<close> behave as a store on both kinds of
    fields; printed audit messages parse back; which value every field of a sent event has and when
    sending panics; no entry is lost or duplicated between a source and the consumer.
  \<^item> Packets: every packet event is queued, being sent or counted; the capture never records what the sensor
    sends; the event of a packet does not depend on the order of its layers, carries exactly the fields of its
    protocol and reaches the packet queue of the engine.
  \<^item> Rules: unpacking a package stays in its directory; the rule files mirror the database; a rule of the
    server is taken over and not sent back; the engine reads what portal and tasker write, but for \<open>enable\<close>.
  \<^item> Portal: a white list added there suppresses in the engine exactly what its conditions say; access by
    role is membership in the modules of the role.
  \<^item> Tasker: a missed look-up is answered under the key the engine reads; an accepted log stands at the
    head of the queue the engine pops; keys of sensitive entries read back.
  \<^item> Infra: one-time passwords have their digits and last until the expiry given with them; binary SIDs
    read back.
  \<^item> Deviations: several theorems state where the code does not do what it means to, such as \<open>not(sel)\<close>,
    a leading \<open>or\<close>, the dependence of a negated selection on the order of a map, white lists with
    malformed conditions or none, counting rules on empty instances, updates of white lists that the
    engine never sees, notifications that are never sent, statistics that forget minutes, captures that cannot
    be stopped after a restart, disabled rules that stay active, and rule files lost on a failed query.

  \<^bold>\<open>Bounds.\<close> Recursion that is not structural has a termination proof, but for three loops with fuel. The
  lexer has \<open>4 n + 4\<close> steps for \<open>n\<close> bytes and the expression parser \<open>3 n + 3\<close> calls; both are proved to be
  enough for every input (\<open>lexer_terminates\<close>, \<open>match_expression_parser_total\<close>). The wait for flow rules in
  \<open>New\<close> may last for ever; \<open>engine_start_ends\<close> says which number of tries is enough. Integers of Go are
  \<open>int\<close> with \<open>wrap64\<close> where a product or a difference could overflow; the counters of the batching writer
  are 64-bit words.

  \<^bold>\<open>Parameters.\<close> Regular expressions, globs, Unicode case and space tables, JSON, MD5 and IP parsing
  (\<open>go_ext\<close>), the file system and YAML (\<open>fs\<close>, \<open>flow_fs\<close>) and the services. Where a theorem relies on their
  documented behaviour it says so in a named hypothesis: \<open>glob_documented\<close> (what the glob library
  matches), \<open>sets_documented\<close> (reading sets of Redis does not change them), \<open>hashes_documented\<close> (a missing
  hash is an empty map), \<open>events_documented\<close> (only insertions add events, range queries answer within
  the range), \<open>lists_documented\<close> (pushing and trimming lists of Redis), \<open>lower_documented\<close> (lower case works
  letter by letter), \<open>files_documented\<close> and \<open>listing_documented\<close> (a call on a file touches that file, a listing
  shows it), \<open>alerts_documented\<close> (look-ups and updates of the table of flow rules) and \<open>yaml_documented\<close>
  (encoding and decoding follow the tags of the structs). Each has an instance with concrete functions.

  \<^bold>\<open>Interfaces.\<close> \<open>comparator\<close> states what the comparison operators of conditions and counts share, and is
  interpreted on strings and on integers; \<open>entry_field\<close> states the store laws of the fields of an entry
  and is interpreted on body fields and on attribute fields; \<open>packet_source\<close> states what both output formats of
  tshark give and \<open>flow_rule_writer\<close> what the writers of the portal and of the tasker have in common; the other
  locales are in the theories of their clients.

  \<^bold>\<open>Not modelled.\<close> Goroutines, tickers and deadlines of contexts: handlers are single calls, whose
  interleaving matters only for the writer, the emitter and the packet queue, where it is modelled, and for
  \<open>Reload\<close>, which replaces the
  rules between two calls. Within one handler of a log entry the rule set is read anew for each result,
  as the code does, and the world may answer anything. Logging has no effect. \<open>syncElasticsearch\<close> is not
  called. The command and configuration of the engine are input and output. The rest of the
  portal is queries to MongoDB behind gRPC, the rest of the tasker computes statistics and exports
  reports, the rest of the sensor and the scanner control processes of the operating system; generated
  code, drivers and command-line tools are left out. Symbolic links are not modelled: a file is its path.
\<close>

end
